(* ===== verification/Pay3_Prelude.thy ===== *)
theory Pay3_Prelude
  imports "HOL-Library.Word"
begin

text \<open>
  Shared vocabulary of the development: the names of Rust's integer types, the
  \<open>Result\<close> monad as a sum type, checked arithmetic on machine words, decimal
  and big-endian representations of numbers, \<open>str::trim\<close> on UTF-8 bytes, and the
  interface \<open>codec\<close> of every encode/decode pair of the program.

  Rust strings are HOL strings whose characters are the UTF-8 bytes; \<open>usize\<close> is
  \<open>nat\<close>; \<open>u8\<close>, \<open>u32\<close>, \<open>u64\<close> and \<open>U256\<close> are words of their width.
\<close>

named_theorems result_simps \<open>unfolding of the Result combinators\<close>
named_theorems dec_simps \<open>decimal notation\<close>
named_theorems be_simps \<open>big-endian byte strings\<close>

type_synonym u8 = "8 word"
type_synonym u32 = "32 word"
type_synonym u64 = "64 word"
type_synonym u256 = "256 word"
type_synonym bytes = "8 word list"


section \<open>Result values\<close>

abbreviation Err :: "'e \<Rightarrow> 'e + 'a" where "Err \<equiv> Inl"
abbreviation Ok :: "'a \<Rightarrow> 'e + 'a" where "Ok \<equiv> Inr"

text \<open>The \<open>?\<close> operator, \<open>map_err\<close>, \<open>Option::ok_or\<close> and \<open>Result::ok\<close>.\<close>

definition bindE :: "'e + 'a \<Rightarrow> ('a \<Rightarrow> 'e + 'b) \<Rightarrow> 'e + 'b" where
  "bindE m f = (case m of Inl e \<Rightarrow> Inl e | Inr x \<Rightarrow> f x)"

definition map_errE :: "('e \<Rightarrow> 'f) \<Rightarrow> 'e + 'a \<Rightarrow> 'f + 'a" where
  "map_errE g m = (case m of Inl e \<Rightarrow> Inl (g e) | Inr x \<Rightarrow> Inr x)"

definition mapE :: "('a \<Rightarrow> 'b) \<Rightarrow> 'e + 'a \<Rightarrow> 'e + 'b" where
  "mapE g m = (case m of Inl e \<Rightarrow> Inl e | Inr x \<Rightarrow> Inr (g x))"

definition ok_or :: "'a option \<Rightarrow> 'e \<Rightarrow> 'e + 'a" where
  "ok_or x e = (case x of None \<Rightarrow> Inl e | Some y \<Rightarrow> Inr y)"

definition is_ok :: "'e + 'a \<Rightarrow> bool" where
  "is_ok m = (case m of Inl _ \<Rightarrow> False | Inr _ \<Rightarrow> True)"

text \<open>\<open>guardE c e k\<close> is \<open>if !c { return Err(e) } k\<close>.\<close>

definition guardE :: "bool \<Rightarrow> 'e \<Rightarrow> 'e + 'a \<Rightarrow> 'e + 'a" where
  "guardE c e k = (if c then k else Inl e)"

primrec traverseE :: "('a \<Rightarrow> 'e + 'b) \<Rightarrow> 'a list \<Rightarrow> 'e + 'b list" where
  "traverseE f [] = Ok []"
| "traverseE f (x # xs) = bindE (f x) (\<lambda>y. bindE (traverseE f xs) (\<lambda>ys. Ok (y # ys)))"

primrec foldE :: "('s \<Rightarrow> 'a \<Rightarrow> 'e + 's) \<Rightarrow> 's \<Rightarrow> 'a list \<Rightarrow> 'e + 's" where
  "foldE f s [] = Ok s"
| "foldE f s (x # xs) = bindE (f s x) (\<lambda>t. foldE f t xs)"

lemma bindE_Ok [simp]: "bindE (Ok x) f = f x"
  by (simp add: bindE_def)

lemma bindE_Err [simp]: "bindE (Err e) f = Err e"
  by (simp add: bindE_def)

lemma bindE_eq_Ok: "bindE m f = Ok y \<longleftrightarrow> (\<exists>x. m = Ok x \<and> f x = Ok y)"
  by (cases m) auto

lemma bindE_eq_Err: "bindE m f = Err e \<longleftrightarrow> m = Err e \<or> (\<exists>x. m = Ok x \<and> f x = Err e)"
  by (cases m) auto

lemma bindE_OkE:
  assumes "bindE m f = Ok y"
  obtains x where "m = Ok x" "f x = Ok y"
  using assms by (cases m) auto

lemma map_errE_simps [simp]:
  "map_errE g (Err e) = Err (g e)" "map_errE g (Ok x) = Ok x"
  by (simp_all add: map_errE_def)

lemma map_errE_eq_Ok [simp]: "map_errE g m = Ok x \<longleftrightarrow> m = Ok x"
  by (cases m) auto

lemma mapE_simps [simp]: "mapE g (Err e) = Err e" "mapE g (Ok x) = Ok (g x)"
  by (simp_all add: mapE_def)

lemma mapE_eq_Ok: "mapE g m = Ok y \<longleftrightarrow> (\<exists>x. m = Ok x \<and> y = g x)"
  by (cases m) auto

lemma ok_or_simps [simp]: "ok_or None e = Err e" "ok_or (Some x) e = Ok x"
  by (simp_all add: ok_or_def)

lemma ok_or_eq_Ok [simp]: "ok_or m e = Ok x \<longleftrightarrow> m = Some x"
  by (cases m) auto

lemma is_ok_simps [simp]: "is_ok (Ok x)" "\<not> is_ok (Err e)"
  by (simp_all add: is_ok_def)

lemma is_ok_iff: "is_ok m \<longleftrightarrow> (\<exists>x. m = Ok x)"
  by (cases m) auto

lemma guardE_simps [simp]:
  "guardE True e k = k" "guardE False e k = Err e"
  by (simp_all add: guardE_def)

lemma guardE_eq_Ok [simp]: "guardE c e k = Ok x \<longleftrightarrow> c \<and> k = Ok x"
  by (simp add: guardE_def)

lemma guardE_eq_Err: "guardE c e k = Err e' \<longleftrightarrow> (\<not> c \<and> e = e') \<or> (c \<and> k = Err e')"
  by (auto simp: guardE_def)

lemmas result_unfold = bindE_eq_Ok bindE_eq_Err mapE_eq_Ok guardE_eq_Err
declare result_unfold [result_simps]

lemma traverseE_all_Ok: "(\<And>x. x \<in> set xs \<Longrightarrow> f x = Ok (g x)) \<Longrightarrow> traverseE f xs = Ok (map g xs)"
  by (induction xs) auto

lemma traverseE_OkD:
  "traverseE f xs = Ok ys \<Longrightarrow> length ys = length xs \<and> (\<forall>i < length xs. f (xs ! i) = Ok (ys ! i))"
proof (induction xs arbitrary: ys)
  case (Cons x xs)
  then obtain z zs where "f x = Ok z" "traverseE f xs = Ok zs" "ys = z # zs"
    by (auto simp: bindE_eq_Ok)
  with Cons.IH show ?case by (auto simp: nth_Cons split: nat.splits)
qed simp

lemma traverseE_Ok_set:
  "traverseE f xs = Ok ys \<Longrightarrow> y \<in> set ys \<Longrightarrow> \<exists>x \<in> set xs. f x = Ok y"
proof (induction xs arbitrary: ys)
  case (Cons x xs)
  then show ?case by (auto simp: bindE_eq_Ok)
qed simp

lemma foldE_append: "foldE f s (xs @ ys) = bindE (foldE f s xs) (\<lambda>t. foldE f t ys)"
proof (induction xs arbitrary: s)
  case (Cons x xs)
  then show ?case by (cases "f s x") auto
qed simp

text \<open>An invariant that every step keeps is kept by the whole fold.\<close>

lemma foldE_invariant:
  assumes "foldE f s xs = Ok t" "P s"
    and "\<And>s x t. P s \<Longrightarrow> x \<in> set xs \<Longrightarrow> f s x = Ok t \<Longrightarrow> P t"
  shows "P t"
  using assms
proof (induction xs arbitrary: s)
  case (Cons x xs)
  from Cons.prems(1) obtain u where u: "f s x = Ok u" "foldE f u xs = Ok t"
    by (auto simp: bindE_eq_Ok)
  have "P u" using Cons.prems(2,3) u(1) by (meson list.set_intros(1))
  with Cons.IH[OF u(2)] Cons.prems(3) show ?case by (meson list.set_intros(2))
qed simp


section \<open>Checked arithmetic on machine words\<close>

definition checked_add :: "'w::len word \<Rightarrow> 'w word \<Rightarrow> 'w word option" where
  "checked_add x y = (if unat x + unat y < 2 ^ LENGTH('w) then Some (x + y) else None)"

definition checked_sub :: "'w::len word \<Rightarrow> 'w word \<Rightarrow> 'w word option" where
  "checked_sub x y = (if y \<le> x then Some (x - y) else None)"

definition checked_mul :: "'w::len word \<Rightarrow> 'w word \<Rightarrow> 'w word option" where
  "checked_mul x y = (if unat x * unat y < 2 ^ LENGTH('w) then Some (x * y) else None)"

definition saturating_sub :: "'w::len word \<Rightarrow> 'w word \<Rightarrow> 'w word" where
  "saturating_sub x y = (if y \<le> x then x - y else 0)"

definition saturating_add :: "'w::len word \<Rightarrow> 'w word \<Rightarrow> 'w word" where
  "saturating_add x y = (if unat x + unat y < 2 ^ LENGTH('w) then x + y else - 1)"

definition saturating_mul :: "'w::len word \<Rightarrow> 'w word \<Rightarrow> 'w word" where
  "saturating_mul x y = (if unat x * unat y < 2 ^ LENGTH('w) then x * y else - 1)"

text \<open>The library's \<open>unat_add_lem\<close> analogues, stated as rewrite rules for the guards above.\<close>

lemma unat_plus_exact:
  fixes x y :: "'w::len word"
  assumes "unat x + unat y < 2 ^ LENGTH('w)"
  shows "unat (x + y) = unat x + unat y"
  using assms by (simp add: unat_word_ariths)

lemma unat_times_exact:
  fixes x y :: "'w::len word"
  assumes "unat x * unat y < 2 ^ LENGTH('w)"
  shows "unat (x * y) = unat x * unat y"
  using assms by (simp add: unat_word_ariths)

lemma unat_minus_exact:
  fixes x y :: "'w::len word"
  assumes "y \<le> x"
  shows "unat (x - y) = unat x - unat y"
  using assms by (simp add: unat_sub)

lemma unat_eqI: "unat x = unat y \<Longrightarrow> x = y" for x y :: "'w::len word"
  by (simp add: word_unat_eq_iff)

lemma checked_add_Some:
  "checked_add x y = Some z \<longleftrightarrow> unat z = unat x + unat y" for x y z :: "'w::len word"
proof
  assume "unat z = unat x + unat y"
  moreover have "unat z < 2 ^ LENGTH('w)" by (rule unsigned_less)
  ultimately show "checked_add x y = Some z"
    by (auto simp: checked_add_def unat_plus_exact intro: unat_eqI)
qed (auto simp: checked_add_def unat_plus_exact split: if_splits)

lemma checked_add_None:
  "checked_add x y = None \<longleftrightarrow> 2 ^ LENGTH('w) \<le> unat x + unat y" for x y :: "'w::len word"
  by (auto simp: checked_add_def)

lemma checked_mul_Some:
  "checked_mul x y = Some z \<longleftrightarrow> unat z = unat x * unat y" for x y z :: "'w::len word"
proof
  assume "unat z = unat x * unat y"
  moreover have "unat z < 2 ^ LENGTH('w)" by (rule unsigned_less)
  ultimately show "checked_mul x y = Some z"
    by (auto simp: checked_mul_def unat_times_exact intro: unat_eqI)
qed (auto simp: checked_mul_def unat_times_exact split: if_splits)

lemma checked_mul_None:
  "checked_mul x y = None \<longleftrightarrow> 2 ^ LENGTH('w) \<le> unat x * unat y" for x y :: "'w::len word"
  by (auto simp: checked_mul_def)

lemma checked_sub_Some:
  "checked_sub x y = Some z \<longleftrightarrow> unat x = unat z + unat y" for x y z :: "'w::len word"
proof
  assume *: "unat x = unat z + unat y"
  then have "y \<le> x" by (simp add: word_le_nat_alt)
  moreover have "unat (x - y) = unat z" using * calculation by (simp add: unat_minus_exact)
  ultimately show "checked_sub x y = Some z"
    by (simp add: checked_sub_def unat_eqI)
next
  assume "checked_sub x y = Some z"
  then show "unat x = unat z + unat y"
    by (auto simp: checked_sub_def unat_minus_exact word_le_nat_alt split: if_splits)
qed

lemma unat_saturating_sub: "unat (saturating_sub x y) = unat x - unat y"
  by (auto simp: saturating_sub_def unat_minus_exact word_le_nat_alt)

lemma unat_max_word: "unat (- 1 :: 'w::len word) = 2 ^ LENGTH('w) - 1"
  by (simp add: unsigned_minus_1_eq_mask mask_eq_exp_minus_1)

lemma if_less_min: "0 < n \<Longrightarrow> (if a < n then a else n - 1) = min a (n - 1)" for a n :: nat
  by auto

lemma unat_saturating_add:
  "unat (saturating_add x y) = min (unat x + unat y) (2 ^ LENGTH('w) - 1)" for x y :: "'w::len word"
  by (auto simp: saturating_add_def unat_plus_exact unat_max_word min_def)

lemma unat_saturating_mul:
  "unat (saturating_mul x y) = min (unat x * unat y) (2 ^ LENGTH('w) - 1)" for x y :: "'w::len word"
proof -
  have "unat (saturating_mul x y) =
      (if unat x * unat y < 2 ^ LENGTH('w) then unat x * unat y else 2 ^ LENGTH('w) - 1)"
    by (simp only: saturating_mul_def unat_times_exact unat_max_word split: if_split)
      (simp add: unat_times_exact)
  also have "\<dots> = min (unat x * unat y) (2 ^ LENGTH('w) - 1)" by (rule if_less_min) simp
  finally show ?thesis .
qed

end
