(* ===== verification/Pay3_Text.thy ===== *)
theory Pay3_Text
  imports Pay3_Prelude
begin

text \<open>
  Text and byte representations shared by the components: decimal notation of
  natural numbers (Rust's \<open>Display\<close> and \<open>from_str_radix\<close>), \<open>str::trim\<close> on UTF-8
  bytes, big-endian byte strings of fixed length, and the interface \<open>codec\<close> of an
  encoder with its decoder.
\<close>

section \<open>Decimal notation\<close>

abbreviation char_code :: "char \<Rightarrow> nat" where "char_code \<equiv> of_char"

definition is_ascii_digit :: "char \<Rightarrow> bool" where
  "is_ascii_digit c \<longleftrightarrow> 48 \<le> char_code c \<and> char_code c \<le> 57"

definition digit_value :: "char \<Rightarrow> nat" where
  "digit_value c = char_code c - 48"

definition digit_char :: "nat \<Rightarrow> char" where
  "digit_char n = char_of (48 + n)"

fun show_nat :: "nat \<Rightarrow> string" where
  "show_nat n = (if n < 10 then [digit_char n] else show_nat (n div 10) @ [digit_char (n mod 10)])"

declare show_nat.simps [simp del]

definition dec_value :: "string \<Rightarrow> nat" where
  "dec_value s = foldl (\<lambda>a c. 10 * a + digit_value c) 0 s"

lemma char_code_digit_char [dec_simps]: "n < 10 \<Longrightarrow> char_code (digit_char n) = 48 + n"
  by (simp add: digit_char_def)

lemma is_ascii_digit_digit_char [dec_simps]: "n < 10 \<Longrightarrow> is_ascii_digit (digit_char n)"
  by (simp add: is_ascii_digit_def dec_simps)

lemma digit_value_digit_char [dec_simps]: "n < 10 \<Longrightarrow> digit_value (digit_char n) = n"
  by (simp add: digit_value_def dec_simps)

lemma show_nat_digits: "list_all is_ascii_digit (show_nat n)"
proof (induction n rule: show_nat.induct)
  case (1 n)
  then show ?case by (subst show_nat.simps) (simp add: dec_simps)
qed

lemma show_nat_not_Nil [simp]: "show_nat n \<noteq> []"
  by (subst show_nat.simps) simp

lemma dec_foldl:
  "foldl (\<lambda>a c. 10 * a + digit_value c) k s = k * 10 ^ length s + dec_value s"
proof (induction s rule: rev_induct)
  case (snoc c s)
  then show ?case by (simp add: dec_value_def algebra_simps)
qed (simp add: dec_value_def)

lemma dec_value_Nil [simp]: "dec_value [] = 0"
  by (simp add: dec_value_def)

lemma dec_value_append [dec_simps]: "dec_value (s @ t) = dec_value s * 10 ^ length t + dec_value t"
proof -
  have "dec_value (s @ t) = foldl (\<lambda>a c. 10 * a + digit_value c) (dec_value s) t"
    by (simp add: dec_value_def)
  then show ?thesis by (simp only: dec_foldl)
qed

lemma dec_value_single [dec_simps]: "dec_value [c] = digit_value c"
  by (simp add: dec_value_def)

lemma dec_value_Cons: "dec_value (c # s) = digit_value c * 10 ^ length s + dec_value s"
  using dec_value_append[of "[c]" s] by (simp add: dec_value_single)

lemma dec_value_show_nat [simp]: "dec_value (show_nat n) = n"
proof (induction n rule: show_nat.induct)
  case (1 n)
  then show ?case by (subst show_nat.simps) (simp add: dec_simps)
qed

lemma dec_value_zeros [simp]: "dec_value (replicate k (CHR ''0'')) = 0"
  by (induction k) (simp_all add: dec_value_Cons digit_value_def)

lemma dec_value_bound: "list_all is_ascii_digit s \<Longrightarrow> dec_value s < 10 ^ length s"
proof (induction s)
  case (Cons c s)
  then have "digit_value c \<le> 9" "dec_value s < 10 ^ length s"
    by (auto simp: is_ascii_digit_def digit_value_def)
  then have "digit_value c * 10 ^ length s + dec_value s < 9 * 10 ^ length s + 10 ^ length s"
    by (intro add_le_less_mono mult_le_mono1)
  then show ?case by (simp add: dec_value_Cons)
qed simp

lemma show_nat_inj: "show_nat m = show_nat n \<Longrightarrow> m = n"
  using dec_value_show_nat by metis


section \<open>Trimming\<close>

text \<open>
  \<open>str::trim\<close> removes leading and trailing characters with the Unicode property
  \<open>White_Space\<close>.  The table lists their UTF-8 encodings.  Since the input is valid
  UTF-8, a byte string ends with one of the encodings exactly when its last
  character is that character.
\<close>

definition utf8_whitespace :: "string list" where
  "utf8_whitespace =
     map (map (char_of :: nat \<Rightarrow> char))
       ([[9], [10], [11], [12], [13], [32], [194, 133], [194, 160], [225, 154, 128]]
        @ map (\<lambda>k. [226, 128, 128 + k]) [0 ..< 11]
        @ [[226, 128, 168], [226, 128, 169], [226, 128, 175], [226, 129, 159], [227, 128, 128]])"

definition starts_with :: "string \<Rightarrow> string \<Rightarrow> bool" where
  "starts_with s w \<longleftrightarrow> take (length w) s = w"

function strip_leading :: "string list \<Rightarrow> string \<Rightarrow> string" where
  "strip_leading ws s =
     (case find (\<lambda>w. w \<noteq> [] \<and> starts_with s w) ws of
        None \<Rightarrow> s
      | Some w \<Rightarrow> strip_leading ws (drop (length w) s))"
  by pat_completeness auto
termination
proof (relation "measure (\<lambda>(ws, s). length s)")
  fix ws s w
  assume "find (\<lambda>w. w \<noteq> [] \<and> starts_with s w) ws = Some w"
  then have "w \<noteq> []" "take (length w) s = w" by (auto simp: find_Some_iff starts_with_def)
  then have "s \<noteq> []" by auto
  with \<open>w \<noteq> []\<close> show "((ws, drop (length w) s), ws, s) \<in> measure (\<lambda>(ws, s). length s)"
    by (cases s) (auto simp: Suc_le_eq)
qed simp

declare strip_leading.simps [simp del]

definition trim :: "string \<Rightarrow> string" where
  "trim s = rev (strip_leading (map rev utf8_whitespace) (rev (strip_leading utf8_whitespace s)))"

text \<open>A string that begins and ends with a visible ASCII character is left alone.\<close>

definition visible :: "char \<Rightarrow> bool" where
  "visible c \<longleftrightarrow> 33 \<le> char_code c \<and> char_code c \<le> 126"

lemma whitespace_not_visible:
  "list_all (\<lambda>w. w \<noteq> [] \<and> \<not> visible (hd w) \<and> \<not> visible (last w)) utf8_whitespace"
  by code_simp

lemma strip_leading_visible:
  assumes "list_all (\<lambda>w. w \<noteq> [] \<and> \<not> visible (hd w)) ws" "s = [] \<or> visible (hd s)"
  shows "strip_leading ws s = s"
proof -
  have "\<not> (w \<noteq> [] \<and> starts_with s w)" if "w \<in> set ws" for w
    using assms that by (cases s; cases w) (auto simp: list_all_iff starts_with_def)
  then have "find (\<lambda>w. w \<noteq> [] \<and> starts_with s w) ws = None" by (simp add: find_None_iff)
  then show ?thesis by (simp add: strip_leading.simps)
qed

lemma trim_visible_ends:
  assumes "s = [] \<or> visible (hd s) \<and> visible (last s)"
  shows "trim s = s"
proof -
  have 1: "strip_leading utf8_whitespace s = s"
    using assms whitespace_not_visible
    by (intro strip_leading_visible) (auto simp: list_all_iff)
  have 2: "strip_leading (map rev utf8_whitespace) (rev s) = rev s"
    using assms whitespace_not_visible
    by (intro strip_leading_visible) (auto simp: list_all_iff hd_rev)
  show ?thesis by (simp add: trim_def 1 2)
qed

lemma is_ascii_digit_visible: "is_ascii_digit c \<Longrightarrow> visible c"
  by (simp add: is_ascii_digit_def visible_def)

lemma trim_visible: "list_all visible s \<Longrightarrow> trim s = s"
  by (rule trim_visible_ends) (auto simp: list_all_iff)


section \<open>Splitting\<close>

text \<open>\<open>str::split\<close> on a one-byte separator: never empty, separators removed.\<close>

fun split_char :: "char \<Rightarrow> string \<Rightarrow> string list" where
  "split_char c [] = [[]]"
| "split_char c (x # xs) =
     (if x = c then [] # split_char c xs
      else (case split_char c xs of [] \<Rightarrow> [[x]] | w # ws \<Rightarrow> (x # w) # ws))"

lemma split_char_not_Nil [simp]: "split_char c s \<noteq> []"
  by (cases "(c, s)" rule: split_char.cases) (auto split: list.splits)

lemma split_char_no_sep: "c \<notin> set s \<Longrightarrow> split_char c s = [s]"
  by (induction s) auto

lemma split_char_append: "c \<notin> set w \<Longrightarrow> split_char c (w @ c # s) = w # split_char c s"
  by (induction w) auto


section \<open>Big-endian byte strings\<close>

primrec be_bytes :: "nat \<Rightarrow> nat \<Rightarrow> bytes" where
  "be_bytes 0 v = []"
| "be_bytes (Suc k) v = be_bytes k (v div 256) @ [of_nat (v mod 256)]"

definition be_nat :: "bytes \<Rightarrow> nat" where
  "be_nat bs = foldl (\<lambda>a b. 256 * a + unat b) 0 bs"

lemma length_be_bytes [simp]: "length (be_bytes k v) = k"
  by (induction k arbitrary: v) auto

lemma be_nat_Nil [simp]: "be_nat [] = 0"
  by (simp add: be_nat_def)

lemma be_nat_snoc [be_simps]: "be_nat (bs @ [b]) = 256 * be_nat bs + unat b"
  by (simp add: be_nat_def)

lemma unat_lt_256 [simp]: "unat (b :: u8) < 256"
  using unsigned_less[of b] by simp

lemma unat_of_nat_byte: "unat (of_nat (v mod 256) :: u8) = v mod 256"
  by (simp add: unat_of_nat take_bit_eq_mod)

lemma be_nat_be_bytes [be_simps]: "be_nat (be_bytes k v) = v mod 256 ^ k"
proof (induction k arbitrary: v)
  case (Suc k)
  have "v mod (256 * 256 ^ k) = 256 * (v div 256 mod 256 ^ k) + v mod 256"
    by (rule mod_mult2_eq)
  then show ?case by (simp add: be_nat_snoc Suc.IH unat_of_nat_byte)
qed simp

lemma be_bytes_be_nat [be_simps]: "length bs = k \<Longrightarrow> be_bytes k (be_nat bs) = bs"
proof (induction bs arbitrary: k rule: rev_induct)
  case (snoc b bs)
  have "(256 * be_nat bs + unat b) div 256 = be_nat bs" "(256 * be_nat bs + unat b) mod 256 = unat b"
    by simp_all
  with snoc show ?case by (auto simp: be_nat_snoc)
qed simp

lemma be_nat_bound: "be_nat bs < 256 ^ length bs"
proof (induction bs rule: rev_induct)
  case (snoc b bs)
  have "256 * be_nat bs + unat b < 256 * be_nat bs + 256" by simp
  also have "\<dots> \<le> 256 * 256 ^ length bs" using snoc by simp
  finally show ?case by (simp add: be_nat_snoc)
qed simp

text \<open>The fixed-size arrays of the program: a word and its \<open>LENGTH('w) / 8\<close> bytes.\<close>

definition word_bytes :: "'w::len word \<Rightarrow> bytes" where
  "word_bytes w = be_bytes (LENGTH('w) div 8) (unat w)"

definition word_of_bytes :: "bytes \<Rightarrow> 'w::len word" where
  "word_of_bytes bs = of_nat (be_nat bs)"

lemma length_word_bytes [simp]: "length (word_bytes (w :: 'w::len word)) = LENGTH('w) div 8"
  by (simp add: word_bytes_def)

lemma pow_256: "256 ^ k = (2 :: nat) ^ (8 * k)"
  by (simp add: power_mult)

lemma word_of_bytes_word_bytes:
  assumes "8 dvd LENGTH('w)"
  shows "word_of_bytes (word_bytes (w :: 'w::len word)) = w"
  using assms unsigned_less[of w, where ?'a = nat]
  by (auto simp: word_of_bytes_def word_bytes_def be_simps pow_256)

lemma word_bytes_word_of_bytes:
  assumes "8 * length bs = LENGTH('w)"
  shows "word_bytes (word_of_bytes bs :: 'w::len word) = bs"
proof -
  have "LENGTH('w) div 8 = length bs" using assms by presburger
  moreover have "unat (word_of_bytes bs :: 'w word) = be_nat bs"
    using be_nat_bound[of bs] assms
    by (simp add: word_of_bytes_def unat_of_nat take_bit_eq_mod pow_256)
  ultimately show ?thesis by (simp add: word_bytes_def be_simps)
qed


section \<open>Encoders and decoders\<close>

text \<open>
  Every textual or stored representation of the program is an encoder with a
  fallible decoder.  What the clients rely on is that a stored value is read back
  unchanged; that distinct values have distinct representations, and that a stored
  column of values is read back as it was written, follows.
\<close>

locale codec =
  fixes enc :: "'a \<Rightarrow> 'b" and dec :: "'b \<Rightarrow> 'e + 'a"
  assumes dec_enc: "dec (enc x) = Ok x"
begin

lemma enc_inject: "enc x = enc y \<longleftrightarrow> x = y"
  using dec_enc by (metis sum.inject(2))

lemma decode_column: "traverseE dec (map enc xs) = Ok xs"
  by (induction xs) (simp_all add: dec_enc)

lemma encode_distinct: "distinct (map enc xs) \<longleftrightarrow> distinct xs"
  by (simp add: distinct_map inj_on_def enc_inject)

end

end
