(* ===== verification/Amount.thy ===== *)
theory Amount
  imports Pay3_Text
begin

text \<open>
  \<open>src/src/domain/amount.rs\<close>: raw token amounts (\<open>U256\<close>) and their decimal forms.
  \<open>RawAmount\<close> is a 256-bit word; the parser of raw integers, the parser of token
  units with a decimals count and the printer are translated branch by branch.
\<close>

datatype AmountParseError =
    Empty
  | Negative
  | InvalidFormat
  | InvalidDigits
  | TooManyFractionalDigits nat u8
  | Overflow

type_synonym RawAmount = u256

record TokenAmount =
  raw :: RawAmount
  decimals :: u8

definition is_zero :: "RawAmount \<Rightarrow> bool" where
  "is_zero a \<longleftrightarrow> a = 0"

definition raw_amount_from_u64 :: "u64 \<Rightarrow> RawAmount" where
  "raw_amount_from_u64 v = ucast v"

text \<open>\<open>Display\<close> of a raw amount: its decimal digits.\<close>

definition raw_amount_to_string :: "RawAmount \<Rightarrow> string" where
  "raw_amount_to_string a = show_nat (unat a)"

text \<open>\<open>U256::from_str_radix(s, 10)\<close> on a string of digits: the value, or overflow.\<close>

definition parse_decimal_u256 :: "string \<Rightarrow> AmountParseError + u256" where
  "parse_decimal_u256 s =
     (if s = [] then Err Empty
      else if \<not> list_all is_ascii_digit s then Err InvalidDigits
      else if dec_value s < 2 ^ 256 then Ok (of_nat (dec_value s))
      else Err Overflow)"

definition parse_dec_str :: "string \<Rightarrow> AmountParseError + RawAmount" where
  "parse_dec_str input =
     (let s = trim input in
      if s = [] then Err Empty
      else if starts_with s ''-'' then Err Negative
      else if starts_with s ''+'' \<or> CHR ''.'' \<in> set s then Err InvalidFormat
      else parse_decimal_u256 s)"

text \<open>The loop of \<open>pow10_u256\<close>: \<open>n\<close> multiplications by ten, each of them checked.\<close>

primrec pow10_loop :: "nat \<Rightarrow> u256 \<Rightarrow> AmountParseError + u256" where
  "pow10_loop 0 v = Ok v"
| "pow10_loop (Suc n) v = bindE (ok_or (checked_mul v 10) Overflow) (pow10_loop n)"

definition pow10_u256 :: "u8 \<Rightarrow> AmountParseError + u256" where
  "pow10_u256 d = pow10_loop (unat d) 1"

definition parse_token_units :: "string \<Rightarrow> u8 \<Rightarrow> AmountParseError + RawAmount" where
  "parse_token_units input d =
     (let s = trim input in
      if s = [] then Err Empty
      else if starts_with s ''-'' then Err Negative
      else if starts_with s ''+'' then Err InvalidFormat
      else
        let parts = split_char (CHR ''.'') s;
            whole = hd parts;
            fraction = (case tl parts of [] \<Rightarrow> [] | f # _ \<Rightarrow> f)
        in
        if 2 < length parts then Err InvalidFormat
        else if whole = [] \<and> fraction = [] then Err Empty
        else if whole \<noteq> [] \<and> \<not> list_all is_ascii_digit whole then Err InvalidDigits
        else if \<not> list_all is_ascii_digit fraction then Err InvalidDigits
        else if unat d < length fraction then Err (TooManyFractionalDigits (length fraction) d)
        else
          bindE (pow10_u256 d) (\<lambda>scale.
          bindE (if whole = [] then Ok 0 else parse_decimal_u256 whole) (\<lambda>whole_raw.
          bindE (ok_or (checked_mul whole_raw scale) Overflow) (\<lambda>r.
          if fraction = [] then Ok r
          else
            bindE (parse_decimal_u256 fraction) (\<lambda>fractional_raw.
            bindE (pow10_u256 (d - of_nat (length fraction))) (\<lambda>fractional_scale.
            bindE (ok_or (checked_mul fractional_raw fractional_scale) Overflow) (\<lambda>f.
            ok_or (checked_add r f) Overflow)))))))"

definition token_amount_parse :: "string \<Rightarrow> u8 \<Rightarrow> AmountParseError + TokenAmount" where
  "token_amount_parse input d = mapE (\<lambda>r. \<lparr>raw = r, decimals = d\<rparr>) (parse_token_units input d)"

text \<open>The two \<open>pop\<close> loops of the printer: trailing zeros, then one trailing dot.\<close>

definition pop_zeros :: "string \<Rightarrow> string" where
  "pop_zeros v = rev (dropWhile (\<lambda>c. c = CHR ''0'') (rev v))"

definition pop_dot :: "string \<Rightarrow> string" where
  "pop_dot v = (if v \<noteq> [] \<and> last v = CHR ''.'' then butlast v else v)"

definition to_decimal_string :: "TokenAmount \<Rightarrow> string" where
  "to_decimal_string t =
     (let r = raw_amount_to_string (raw t); d = unat (decimals t) in
      if d = 0 then r
      else
        pop_dot (pop_zeros
          (if length r \<le> d then ''0.'' @ replicate (d - length r) (CHR ''0'') @ r
           else take (length r - d) r @ ''.'' @ drop (length r - d) r)))"


section \<open>The checked arithmetic of the parser\<close>

lemma u256_of_nat: "n < 2 ^ 256 \<Longrightarrow> unat (of_nat n :: u256) = n"
  by (simp add: unat_of_nat take_bit_eq_mod)

lemma parse_decimal_u256_digits:
  assumes "s \<noteq> []" "list_all is_ascii_digit s"
  shows "parse_decimal_u256 s = (if dec_value s < 2 ^ 256 then Ok (of_nat (dec_value s)) else Err Overflow)"
  using assms by (simp add: parse_decimal_u256_def)

lemma pow10_loop_spec:
  "pow10_loop n v = (if unat v * 10 ^ n < 2 ^ 256 then Ok (of_nat (unat v * 10 ^ n)) else Err Overflow)"
proof (induction n arbitrary: v)
  case 0
  show ?case using unsigned_less[of v, where ?'a = nat] by simp
next
  case (Suc n)
  show ?case
  proof (cases "unat v * 10 < 2 ^ 256")
    case True
    then have u: "unat (v * 10) = unat v * 10" by (simp add: unat_times_exact)
    from True show ?thesis by (simp add: checked_mul_def Suc.IH u mult.assoc)
  next
    case False
    have "unat v * 10 * 1 \<le> unat v * 10 * 10 ^ n" by (rule mult_le_mono2) simp
    then have "unat v * 10 \<le> unat v * 10 ^ Suc n" by simp
    with False have "\<not> unat v * 10 ^ Suc n < 2 ^ 256" by (meson le_less_trans)
    then show ?thesis using False by (simp only: pow10_loop.simps) (simp add: checked_mul_def)
  qed
qed

lemma pow10_u256_spec:
  "pow10_u256 d = (if (10::nat) ^ unat d < 2 ^ 256 then Ok (of_nat (10 ^ unat d)) else Err Overflow)"
  by (simp add: pow10_u256_def pow10_loop_spec)

lemma pow10_u256_le_77: "unat d \<le> 77 \<Longrightarrow> (10::nat) ^ unat d < 2 ^ 256"
proof -
  assume "unat d \<le> 77"
  then have "(10::nat) ^ unat d \<le> 10 ^ 77" by (rule power_increasing) simp
  also have "(10::nat) ^ 77 < 2 ^ 256" by simp
  finally show ?thesis .
qed


section \<open>What the parser computes\<close>

text \<open>
  The value a decimal literal \<open>whole.fraction\<close> denotes in units of \<open>10 ^ -d\<close>, over the
  natural numbers: the reference the checked 256-bit computation is compared with.
\<close>

definition token_units :: "string \<Rightarrow> string \<Rightarrow> nat \<Rightarrow> nat" where
  "token_units whole fraction d =
     dec_value whole * 10 ^ d + dec_value fraction * 10 ^ (d - length fraction)"

lemma digits_no_dot: "list_all is_ascii_digit s \<Longrightarrow> CHR ''.'' \<notin> set s"
  by (auto simp: list_all_iff is_ascii_digit_def)

lemma unat_sub_of_nat_len:
  assumes "n \<le> unat (d :: u8)"
  shows "unat (d - of_nat n) = unat d - n"
proof -
  have "n < 256" using assms unat_lt_256[of d] by linarith
  then have "unat (of_nat n :: u8) = n" by (simp add: unat_of_nat take_bit_eq_mod)
  with assms show ?thesis by (simp add: unat_minus_exact word_le_nat_alt)
qed

text \<open>The arithmetic tail of \<open>parse_token_units\<close>, once the literal is known to be well-formed.\<close>

lemma checked_mul_of_nat:
  assumes "a < 2 ^ 256" "b < 2 ^ 256"
  shows "checked_mul (of_nat a :: u256) (of_nat b)
    = (if a * b < 2 ^ 256 then Some (of_nat (a * b)) else None)"
  using assms by (simp only: checked_mul_def u256_of_nat of_nat_mult len_of_numeral_defs(1))
    (simp add: u256_of_nat)

lemma checked_add_of_nat:
  assumes "a < 2 ^ 256" "b < 2 ^ 256"
  shows "checked_add (of_nat a :: u256) (of_nat b)
    = (if a + b < 2 ^ 256 then Some (of_nat (a + b)) else None)"
  using assms by (simp add: checked_add_def u256_of_nat)

lemma fraction_units_lt:
  assumes "list_all is_ascii_digit f" "length f \<le> d"
  shows "dec_value f * 10 ^ (d - length f) < 10 ^ d"
proof -
  have "dec_value f * 10 ^ (d - length f) < 10 ^ length f * 10 ^ (d - length f)"
    using dec_value_bound[OF assms(1)] by (intro mult_strict_right_mono) auto
  then show ?thesis using assms(2) by (simp flip: power_add)
qed

lemma whole_part:
  assumes "list_all is_ascii_digit w"
  shows "(if w = [] then Ok 0 else parse_decimal_u256 w)
    = (if dec_value w < 2 ^ 256 then Ok (of_nat (dec_value w)) else Err Overflow)"
  using assms by (simp add: parse_decimal_u256_digits)

definition parse_tail :: "string \<Rightarrow> string \<Rightarrow> u8 \<Rightarrow> AmountParseError + RawAmount" where
  "parse_tail whole fraction d =
     bindE (pow10_u256 d) (\<lambda>scale.
     bindE (if whole = [] then Ok 0 else parse_decimal_u256 whole) (\<lambda>whole_raw.
     bindE (ok_or (checked_mul whole_raw scale) Overflow) (\<lambda>r.
     if fraction = [] then Ok r
     else
       bindE (parse_decimal_u256 fraction) (\<lambda>fractional_raw.
       bindE (pow10_u256 (d - of_nat (length fraction))) (\<lambda>fractional_scale.
       bindE (ok_or (checked_mul fractional_raw fractional_scale) Overflow) (\<lambda>f.
       ok_or (checked_add r f) Overflow))))))"

lemma fraction_part:
  assumes f: "list_all is_ascii_digit f" "f \<noteq> []" "length f \<le> unat d" and d: "(10::nat) ^ unat d < 2 ^ 256"
  shows "bindE (parse_decimal_u256 f) (\<lambda>a. bindE (pow10_u256 (d - of_nat (length f))) (\<lambda>b.
      bindE (ok_or (checked_mul a b) Overflow) k))
    = k (of_nat (dec_value f * 10 ^ (unat d - length f)))"
proof -
  have 1: "dec_value f * 10 ^ (unat d - length f) < 2 ^ 256"
    using fraction_units_lt[OF f(1,3)] d by (rule less_trans)
  have "dec_value f * 1 \<le> dec_value f * 10 ^ (unat d - length f)" by (rule mult_le_mono2) simp
  then have 2: "dec_value f < 2 ^ 256" using 1 by (simp only: mult_1_right)
  have "(10::nat) ^ (unat d - length f) \<le> 10 ^ unat d" by (rule power_increasing) auto
  then have 3: "(10::nat) ^ (unat d - length f) < 2 ^ 256" using d by (rule le_less_trans)
  have a: "parse_decimal_u256 f = Ok (of_nat (dec_value f))"
    using parse_decimal_u256_digits[OF f(2,1)] 2 by (simp only: if_True)
  have b: "pow10_u256 (d - of_nat (length f)) = Ok (of_nat (10 ^ (unat d - length f)))"
    using 3 f(3) by (simp only: pow10_u256_spec unat_sub_of_nat_len if_True)
  have c: "checked_mul (of_nat (dec_value f) :: u256) (of_nat (10 ^ (unat d - length f)))
      = Some (of_nat (dec_value f * 10 ^ (unat d - length f)))"
    by (simp only: checked_mul_of_nat[OF 2 3] 1 if_True)
  show ?thesis by (simp only: a b c bindE_Ok ok_or_simps)
qed

lemma parse_tail_spec:
  assumes w: "list_all is_ascii_digit w" and f: "list_all is_ascii_digit f" "length f \<le> unat d"
  shows "parse_tail w f d =
    (if (10::nat) ^ unat d < 2 ^ 256 \<and> token_units w f (unat d) < 2 ^ 256
     then Ok (of_nat (token_units w f (unat d))) else Err Overflow)"
proof (cases "(10::nat) ^ unat d < 2 ^ 256")
  case d: True
  let ?W = "dec_value w * 10 ^ unat d" and ?F = "dec_value f * 10 ^ (unat d - length f)"
  have units: "token_units w f (unat d) = ?W + ?F" by (simp add: token_units_def)
  have F: "?F < 2 ^ 256" using fraction_units_lt[OF f] d by (rule less_trans)
  show ?thesis
  proof (cases "?W < 2 ^ 256")
    case W: True
    have "dec_value w * 1 \<le> ?W" by (rule mult_le_mono2) simp
    then have w': "dec_value w < 2 ^ 256" using W by (simp only: mult_1_right)
    note head = parse_tail_def whole_part[OF w] pow10_u256_spec[of d] d w' W if_True if_False
      bindE_Ok checked_mul_of_nat[OF w' d] ok_or_simps
    have "parse_tail w f d = (if ?W + ?F < 2 ^ 256 then Ok (of_nat (?W + ?F)) else Err Overflow)"
    proof (cases "f = []")
      case True
      then have "?F = 0" by simp
      with True W show ?thesis by (simp only: head refl add_0_right)
    next
      case False
      then have "parse_tail w f d = ok_or (checked_add (of_nat ?W) (of_nat ?F)) Overflow"
        using fraction_part[OF f(1) False f(2) d] by (simp only: head)
      then show ?thesis
        by (cases "?W + ?F < 2 ^ 256")
          (simp_all only: checked_add_of_nat[OF W F] ok_or_simps if_True if_False)
    qed
    then show ?thesis using d by (simp only: units simp_thms)
  next
    case W: False
    then have "\<not> ?W + ?F < 2 ^ 256" by linarith
    moreover have "parse_tail w f d = Err Overflow"
    proof (cases "dec_value w < 2 ^ 256")
      case True
      then show ?thesis
        by (simp only: parse_tail_def whole_part[OF w] pow10_u256_spec[of d] d W if_True if_False
          bindE_Ok bindE_Err checked_mul_of_nat[OF True d] ok_or_simps)
    next
      case False
      then show ?thesis
        by (simp only: parse_tail_def whole_part[OF w] pow10_u256_spec[of d] d if_True if_False
          bindE_Ok bindE_Err)
    qed
    ultimately show ?thesis by (simp only: units simp_thms if_False)
  qed
next
  case False
  then show ?thesis by (simp only: parse_tail_def pow10_u256_spec[of d] if_False bindE_Err simp_thms)
qed


text \<open>The literals the parser accepts: \<open>whole\<close>, or \<open>whole.fraction\<close>, digits only, not both empty.\<close>

definition decimal_literal :: "string \<Rightarrow> string \<Rightarrow> string \<Rightarrow> bool" where
  "decimal_literal s whole fraction \<longleftrightarrow>
     list_all is_ascii_digit whole \<and> list_all is_ascii_digit fraction \<and>
     (whole \<noteq> [] \<or> fraction \<noteq> []) \<and>
     (s = whole \<and> fraction = [] \<or> s = whole @ ''.'' @ fraction)"

lemma literal_first_char:
  assumes "decimal_literal s w f"
  shows "s \<noteq> []" "\<not> starts_with s ''-''" "\<not> starts_with s ''+''" "visible (hd s)" "visible (last s)"
proof -
  have "visible (CHR ''.'')" by (simp add: visible_def)
  then have "s \<noteq> [] \<and> list_all visible s \<and> hd s \<noteq> CHR ''-'' \<and> hd s \<noteq> CHR ''+''"
    using assms
    by (cases w) (auto simp: decimal_literal_def list_all_iff is_ascii_digit_visible is_ascii_digit_def)
  then show "s \<noteq> []" "\<not> starts_with s ''-''" "\<not> starts_with s ''+''" "visible (hd s)" "visible (last s)"
    by (cases s; auto simp: list_all_iff starts_with_def)+
qed

lemma literal_parts:
  assumes "decimal_literal s w f"
  shows "split_char (CHR ''.'') s = [w] \<and> f = [] \<or> split_char (CHR ''.'') s = [w, f]"
  using assms
  by (auto simp: decimal_literal_def split_char_no_sep split_char_append digits_no_dot)

lemma parse_token_units_tail:
  assumes "trim input = s" and lit: "decimal_literal s w f"
  shows "parse_token_units input d =
    (if unat d < length f then Err (TooManyFractionalDigits (length f) d) else parse_tail w f d)"
  using literal_parts[OF lit]
proof (elim disjE conjE)
  assume "split_char (CHR ''.'') s = [w]" "f = []"
  with assms(1) lit literal_first_char(1-3)[OF lit] show ?thesis
    by (simp add: parse_token_units_def parse_tail_def Let_def decimal_literal_def)
next
  assume "split_char (CHR ''.'') s = [w, f]"
  with assms(1) lit literal_first_char(1-3)[OF lit] show ?thesis
    by (auto simp: parse_token_units_def parse_tail_def Let_def decimal_literal_def cong: if_cong)
qed

lemma parse_token_units_literal:
  assumes "trim input = s" "decimal_literal s w f"
  shows "parse_token_units input d =
    (if unat d < length f then Err (TooManyFractionalDigits (length f) d)
     else if (10::nat) ^ unat d < 2 ^ 256 \<and> token_units w f (unat d) < 2 ^ 256
     then Ok (of_nat (token_units w f (unat d))) else Err Overflow)"
proof (cases "unat d < length f")
  case True
  then show ?thesis by (simp only: parse_token_units_tail[OF assms] if_True)
next
  case False
  with assms(2) show ?thesis
    by (simp only: parse_token_units_tail[OF assms] if_False parse_tail_spec decimal_literal_def not_less)
qed

text \<open>Conversely, everything else is rejected.\<close>

lemma parse_token_units_accepts:
  assumes "parse_token_units input d = Ok r"
  shows "\<exists>w f. decimal_literal (trim input) w f"
proof -
  define s where "s = trim input"
  define parts where "parts = split_char (CHR ''.'') s"
  have join: "(\<exists>w. parts = [w] \<and> s = w) \<or> (\<exists>w f. parts = [w, f] \<and> s = w @ ''.'' @ f) \<or> 2 < length parts"
    unfolding parts_def
  proof (induction s)
    case (Cons x s)
    then show ?case by (cases "split_char (CHR ''.'') s") auto
  qed simp
  have "\<not> 2 < length parts" and "s \<noteq> []"
    using assms by (auto simp: parse_token_units_def Let_def parts_def s_def split: if_splits)
  with join consider w where "parts = [w]" "s = w" | w f where "parts = [w, f]" "s = w @ ''.'' @ f"
    by blast
  then show ?thesis
  proof cases
    case 1
    then have "decimal_literal s w []"
      using assms \<open>s \<noteq> []\<close>
      by (auto simp: parse_token_units_def Let_def decimal_literal_def parts_def s_def split: if_splits)
    then show ?thesis using s_def by blast
  next
    case 2
    then have "decimal_literal s w f"
      using assms
      by (auto simp: parse_token_units_def Let_def decimal_literal_def parts_def s_def split: if_splits)
    then show ?thesis using s_def by blast
  qed
qed


section \<open>Printing and parsing\<close>

lemma pop_zeros_fraction:
  "pop_zeros (w @ ''.'' @ f) = w @ ''.'' @ pop_zeros f"
  by (simp add: pop_zeros_def dropWhile_append)

lemma pop_zeros_split: "\<exists>k. f = pop_zeros f @ replicate k (CHR ''0'')"
proof -
  define z where "z = takeWhile (\<lambda>c. c = CHR ''0'') (rev f)"
  have "z = replicate (length z) (CHR ''0'')"
    unfolding z_def by (rule replicate_length_same[symmetric]) (auto dest: set_takeWhileD)
  moreover have "rev f = z @ dropWhile (\<lambda>c. c = CHR ''0'') (rev f)" by (simp add: z_def)
  then have "rev (rev f) = rev (z @ dropWhile (\<lambda>c. c = CHR ''0'') (rev f))" by (rule arg_cong)
  then have "f = pop_zeros f @ rev z" by (simp add: pop_zeros_def)
  ultimately have "f = pop_zeros f @ replicate (length z) (CHR ''0'')" by (metis rev_replicate)
  then show ?thesis ..
qed

lemma token_units_pop_zeros:
  assumes "length f \<le> d"
  shows "token_units w (pop_zeros f) d = token_units w f d"
proof -
  obtain k where k: "f = pop_zeros f @ replicate k (CHR ''0'')" using pop_zeros_split by blast
  define g where "g = pop_zeros f"
  have "f = g @ replicate k (CHR ''0'')" using k g_def by simp
  with assms have "dec_value f * 10 ^ (d - length f) = dec_value g * 10 ^ (d - length g)"
    by (simp add: dec_value_append flip: power_add)
  then show ?thesis by (simp add: token_units_def g_def)
qed

lemma pop_dot_fraction:
  assumes "list_all is_ascii_digit f"
  shows "pop_dot (w @ ''.'' @ f) = (if f = [] then w else w @ ''.'' @ f)"
proof -
  have "last f \<noteq> CHR ''.''" if "f \<noteq> []"
    using that assms digits_no_dot last_in_set by metis
  then show ?thesis by (simp add: pop_dot_def butlast_append)
qed

lemma pop_zeros_digits: "list_all is_ascii_digit f \<Longrightarrow> list_all is_ascii_digit (pop_zeros f)"
  by (auto simp: list_all_iff pop_zeros_def dest: set_dropWhileD)

text \<open>The printer places the point so that the literal denotes the raw amount.\<close>

lemma printed_parts:
  assumes "r = show_nat n" "0 < d"
  obtains w f where
    "(if length r \<le> d then ''0.'' @ replicate (d - length r) (CHR ''0'') @ r
      else take (length r - d) r @ ''.'' @ drop (length r - d) r) = w @ ''.'' @ f"
    "list_all is_ascii_digit w" "w \<noteq> []" "list_all is_ascii_digit f" "length f = d"
    "token_units w f d = n"
proof (cases "length r \<le> d")
  case True
  have z: "is_ascii_digit (CHR ''0'')" "digit_value (CHR ''0'') = 0"
    by (simp_all add: is_ascii_digit_def digit_value_def)
  show ?thesis
    by (rule that[of "''0''" "replicate (d - length r) (CHR ''0'') @ r"])
      (use assms True show_nat_digits[of n] z in
        \<open>auto simp: token_units_def dec_value_append dec_value_single list_all_iff\<close>)
next
  case False
  have digits: "list_all is_ascii_digit r" using assms show_nat_digits by simp
  have "dec_value (take (length r - d) r @ drop (length r - d) r) = n" using assms by simp
  then have "dec_value (take (length r - d) r) * 10 ^ d + dec_value (drop (length r - d) r) = n"
    using False by (subst (asm) dec_value_append) simp
  with False digits assms(2) show ?thesis
    by (intro that[of "take (length r - d) r" "drop (length r - d) r"])
      (auto simp: token_units_def list_all_iff dest: in_set_takeD in_set_dropD)
qed

lemma to_decimal_string_literal:
  "\<exists>w f. decimal_literal (to_decimal_string t) w f \<and> length f \<le> unat (decimals t)
     \<and> token_units w f (unat (decimals t)) = unat (raw t)"
proof (cases "decimals t = 0")
  case True
  then show ?thesis
    by (intro exI[of _ "show_nat (unat (raw t))"] exI[of _ "[]"])
      (simp add: to_decimal_string_def raw_amount_to_string_def decimal_literal_def
        show_nat_digits token_units_def)
next
  case False
  then have d: "0 < unat (decimals t)" by (simp add: unat_gt_0)
  define r where "r = show_nat (unat (raw t))"
  obtain w f where wf: "(if length r \<le> unat (decimals t)
       then ''0.'' @ replicate (unat (decimals t) - length r) (CHR ''0'') @ r
       else take (length r - unat (decimals t)) r @ ''.'' @ drop (length r - unat (decimals t)) r)
       = w @ ''.'' @ f"
    "list_all is_ascii_digit w" "w \<noteq> []" "list_all is_ascii_digit f" "length f = unat (decimals t)"
    "token_units w f (unat (decimals t)) = unat (raw t)"
    using printed_parts[OF r_def d] by blast
  have s: "to_decimal_string t = (if pop_zeros f = [] then w else w @ ''.'' @ pop_zeros f)"
    using d
    by (simp only: to_decimal_string_def raw_amount_to_string_def Let_def r_def[symmetric] wf(1)
        pop_zeros_fraction pop_dot_fraction[OF pop_zeros_digits[OF wf(4)]]) simp
  have "length (pop_zeros f) \<le> length f"
    using pop_zeros_split[of f] by (metis le_add1 length_append)
  with s wf token_units_pop_zeros[of f "unat (decimals t)" w] show ?thesis
    by (intro exI[of _ w] exI[of _ "pop_zeros f"]) (auto simp: decimal_literal_def pop_zeros_digits)
qed

lemma parse_token_units_ok_unat:
  assumes "decimal_literal (trim input) w f" "length f \<le> unat d"
    "(10::nat) ^ unat d < 2 ^ 256" "token_units w f (unat d) = unat (r :: u256)"
  shows "parse_token_units input d = Ok r"
proof -
  have "unat r < 2 ^ 256" using unsigned_less[of r, where ?'a = nat] by simp
  then show ?thesis
    using assms(2,3) by (simp only: parse_token_units_literal[OF refl assms(1)] assms(4)
      not_less if_False if_True simp_thms flip: not_le) (simp add: of_nat_unat)
qed

lemma raw_amount_string_no_sign:
  "s = show_nat n \<Longrightarrow> s \<noteq> [] \<and> trim s = s \<and> \<not> starts_with s ''-'' \<and> \<not> starts_with s ''+''"
  using literal_first_char[of s s "[]"] trim_visible_ends[of s]
  by (simp add: decimal_literal_def show_nat_digits)

interpretation raw_amount: codec raw_amount_to_string parse_dec_str
proof
  fix x :: RawAmount
  have "unat x < 2 ^ 256" using unsigned_less[of x, where ?'a = nat] by simp
  then have "parse_decimal_u256 (show_nat (unat x)) = Ok x"
    by (simp only: parse_decimal_u256_digits show_nat_not_Nil show_nat_digits dec_value_show_nat
      if_True simp_thms) simp
  then show "parse_dec_str (raw_amount_to_string x) = Ok x"
    using raw_amount_string_no_sign[OF refl, of "unat x"] digits_no_dot[OF show_nat_digits]
    by (simp add: parse_dec_str_def raw_amount_to_string_def)
qed


section \<open>Properties\<close>

text \<open>
  C33: parsing the printed form of a token amount gives the amount back, for every raw
  value and every decimals count up to 77, the largest for which \<open>10 ^ decimals\<close> fits
  in 256 bits.
\<close>
theorem token_amount_roundtrip:
  assumes "unat (decimals (t :: TokenAmount)) \<le> 77"
  shows "token_amount_parse (to_decimal_string t) (decimals t) = Ok t"
proof -
  obtain w f where wf: "decimal_literal (to_decimal_string t) w f" "length f \<le> unat (decimals t)"
    "token_units w f (unat (decimals t)) = unat (raw t)"
    using to_decimal_string_literal by blast
  have "trim (to_decimal_string t) = to_decimal_string t"
    using literal_first_char[OF wf(1)] by (simp add: trim_visible_ends)
  then have "parse_token_units (to_decimal_string t) (decimals t) = Ok (raw t)"
    using wf assms by (intro parse_token_units_ok_unat pow10_u256_le_77) simp_all
  then show ?thesis by (simp add: token_amount_parse_def)
qed

theorem token_amount_roundtrip_witness:
  "unat (decimals \<lparr>raw = 1500000, decimals = 6\<rparr>) \<le> 77 \<and>
   token_amount_parse (to_decimal_string \<lparr>raw = 1500000, decimals = 6\<rparr>) 6
     = Ok \<lparr>raw = 1500000, decimals = 6\<rparr>"
  using token_amount_roundtrip[of "\<lparr>raw = 1500000, decimals = 6\<rparr>"] by simp

text \<open>
  The parser of token units accepts exactly the decimal literals whose fraction has
  at most \<open>decimals\<close> digits and whose value in the smallest unit fits in 256 bits, and
  it returns that value; the checked multiplications and the addition neither lose
  digits nor reject a value that fits.
\<close>
theorem parse_token_units_exact:
  "parse_token_units input d = Ok r \<longleftrightarrow>
     (10::nat) ^ unat d < 2 ^ 256 \<and>
     (\<exists>w f. decimal_literal (trim input) w f \<and> length f \<le> unat d \<and> token_units w f (unat d) = unat r)"
proof
  assume ok: "parse_token_units input d = Ok r"
  then obtain w f where wf: "decimal_literal (trim input) w f" using parse_token_units_accepts by blast
  have "length f \<le> unat d \<and> (10::nat) ^ unat d < 2 ^ 256 \<and> token_units w f (unat d) < 2 ^ 256
      \<and> r = of_nat (token_units w f (unat d))"
    using ok unfolding parse_token_units_literal[OF refl wf]
    by (simp only: not_less split: if_splits) (simp_all only: sum.simps Inr_inject simp_thms)
  then show "(10::nat) ^ unat d < 2 ^ 256 \<and>
     (\<exists>w f. decimal_literal (trim input) w f \<and> length f \<le> unat d \<and> token_units w f (unat d) = unat r)"
    using wf u256_of_nat by metis
qed (use parse_token_units_ok_unat in blast)

end
