(* ===== verification/Hex_Types.thy ===== *)
theory Hex_Types
  imports Pay3_Text
begin

text \<open>
  \<open>src/src/domain/address.rs\<close>: EVM addresses, transaction hashes and block hashes,
  with their \<open>0x\<close>-prefixed hexadecimal text.  An address is a 160-bit word and a hash a
  256-bit word; the byte arrays of the code are their big-endian bytes, on which
  the derived lexicographic order coincides with the order of the words.
\<close>

unbundle bit_operations_syntax

datatype HexParseError =
    MissingPrefix string
  | InvalidLength string nat nat
  | InvalidHex string nat

type_synonym EvmAddress = "160 word"
type_synonym TxHash = "256 word"
type_synonym BlockHash = "256 word"

text \<open>Bytes of a string slice, and back (the code pushes table bytes as characters).\<close>

definition char_byte :: "char \<Rightarrow> u8" where
  "char_byte c = of_nat (of_char c)"

definition hex_value :: "u8 \<Rightarrow> u8 option" where
  "hex_value b =
     (if 48 \<le> b \<and> b \<le> 57 then Some (b - 48)
      else if 97 \<le> b \<and> b \<le> 102 then Some (b - 97 + 10)
      else if 65 \<le> b \<and> b \<le> 70 then Some (b - 65 + 10)
      else None)"

text \<open>\<open>chunks_exact(2)\<close> with its \<open>enumerate\<close> counter; the length was checked to be even.\<close>

fun decode_chunks :: "string \<Rightarrow> nat \<Rightarrow> string \<Rightarrow> HexParseError + bytes" where
  "decode_chunks kind i (h # l # rest) =
     bindE (ok_or (hex_value (char_byte h)) (InvalidHex kind (i * 2))) (\<lambda>high.
     bindE (ok_or (hex_value (char_byte l)) (InvalidHex kind (i * 2 + 1))) (\<lambda>low.
     bindE (decode_chunks kind (i + 1) rest) (\<lambda>bs.
     Ok ((push_bit 4 high OR low) # bs))))"
| "decode_chunks kind i _ = Ok []"

definition strip_prefix :: "string \<Rightarrow> string \<Rightarrow> string option" where
  "strip_prefix s p = (if starts_with s p then Some (drop (length p) s) else None)"

definition strip_hex_prefix :: "string \<Rightarrow> string option" where
  "strip_hex_prefix s =
     (case strip_prefix s ''0x'' of Some r \<Rightarrow> Some r | None \<Rightarrow> strip_prefix s ''0X'')"

definition decode_prefixed_fixed :: "nat \<Rightarrow> string \<Rightarrow> string \<Rightarrow> HexParseError + bytes" where
  "decode_prefixed_fixed n input kind =
     bindE (ok_or (strip_hex_prefix input) (MissingPrefix kind)) (\<lambda>hex.
     if length hex \<noteq> n * 2 then Err (InvalidLength kind (n * 2) (length hex))
     else decode_chunks kind 0 hex)"

definition hex_table :: string where
  "hex_table = ''0123456789abcdef''"

definition encode_byte :: "u8 \<Rightarrow> string" where
  "encode_byte b = [hex_table ! unat (drop_bit 4 b), hex_table ! unat (b AND 15)]"

definition encode_lower_prefixed :: "bytes \<Rightarrow> string" where
  "encode_lower_prefixed bs = ''0x'' @ concat (map encode_byte bs)"

definition address_to_lower_hex :: "EvmAddress \<Rightarrow> string" where
  "address_to_lower_hex a = encode_lower_prefixed (word_bytes a)"

definition address_from_str :: "string \<Rightarrow> HexParseError + EvmAddress" where
  "address_from_str s = mapE word_of_bytes (decode_prefixed_fixed 20 s ''evm address'')"

definition hash_to_lower_hex :: "256 word \<Rightarrow> string" where
  "hash_to_lower_hex h = encode_lower_prefixed (word_bytes h)"

definition tx_hash_from_str :: "string \<Rightarrow> HexParseError + TxHash" where
  "tx_hash_from_str s = mapE word_of_bytes (decode_prefixed_fixed 32 s ''tx hash'')"

definition block_hash_from_str :: "string \<Rightarrow> HexParseError + BlockHash" where
  "block_hash_from_str s = mapE word_of_bytes (decode_prefixed_fixed 32 s ''block hash'')"


section \<open>Bytes and their digits\<close>

lemma hex_table_value:
  assumes "n < 16"
  shows "hex_value (char_byte (hex_table ! n)) = Some (of_nat n)"
proof -
  have "list_all (\<lambda>n. hex_value (char_byte (hex_table ! n)) = Some (of_nat n)) [0 ..< 16]"
    by code_simp
  with assms show ?thesis by (simp add: list_all_iff)
qed

lemma high_nibble_lt: "unat (drop_bit 4 (b :: u8)) < 16"
  using unat_lt_256[of b] by (simp add: drop_bit_eq_div unat_div less_mult_imp_div_less)

lemma low_nibble_lt: "unat (b AND 15 :: u8) < 16"
proof -
  have "b AND 15 \<le> (15 :: u8)" by (rule word_and_le1)
  then show ?thesis by (simp add: word_le_nat_alt)
qed

lemma nibbles_join: "push_bit 4 (drop_bit 4 b) OR (b AND 15) = (b :: u8)"
proof -
  have "(15 :: u8) = mask 4" by (simp add: mask_eq_exp_minus_1)
  then show ?thesis by (auto simp: bit_eq_iff bit_simps)
qed

lemma decode_encode_byte:
  obtains h l x y where "encode_byte b = [h, l]" "hex_value (char_byte h) = Some x"
    "hex_value (char_byte l) = Some y" "(push_bit 4 x OR y) = b"
  by (rule that[OF encode_byte_def hex_table_value[OF high_nibble_lt] hex_table_value[OF low_nibble_lt]])
    (simp add: nibbles_join)

lemma decode_chunks_encode: "decode_chunks kind i (concat (map encode_byte bs)) = Ok bs"
proof (induction bs arbitrary: i)
  case (Cons b bs)
  obtain h l x y where "encode_byte b = [h, l]" "hex_value (char_byte h) = Some x"
    "hex_value (char_byte l) = Some y" "(push_bit 4 x OR y) = b"
    by (rule decode_encode_byte)
  with Cons.IH show ?case by simp
qed simp

lemma length_encode: "length (concat (map encode_byte bs)) = length bs * 2"
  by (induction bs) (simp_all add: encode_byte_def)

lemma decode_encode_lower: "length bs = n \<Longrightarrow> decode_prefixed_fixed n (encode_lower_prefixed bs) kind = Ok bs"
  by (simp add: decode_prefixed_fixed_def encode_lower_prefixed_def strip_hex_prefix_def
      strip_prefix_def starts_with_def length_encode decode_chunks_encode)


section \<open>Canonical text\<close>

definition to_ascii_lower :: "char \<Rightarrow> char" where
  "to_ascii_lower c = (if 65 \<le> char_code c \<and> char_code c \<le> 90 then char_of (char_code c + 32) else c)"

definition is_hex_digit :: "char \<Rightarrow> bool" where
  "is_hex_digit c \<longleftrightarrow>
     48 \<le> char_code c \<and> char_code c \<le> 57 \<or> 97 \<le> char_code c \<and> char_code c \<le> 102
     \<or> 65 \<le> char_code c \<and> char_code c \<le> 70"

lemma unat_char_byte: "unat (char_byte c) = char_code c"
proof -
  have "char_code c < 256" by simp
  then show ?thesis by (simp add: char_byte_def unat_of_nat take_bit_eq_mod)
qed

lemma hex_value_is_hex_digit: "hex_value (char_byte c) \<noteq> None \<longleftrightarrow> is_hex_digit c"
  by (simp add: hex_value_def is_hex_digit_def word_le_nat_alt unat_char_byte)

lemma hex_table_digit: "k < 10 \<Longrightarrow> hex_table ! k = char_of (48 + k)"
  and hex_table_letter: "k < 6 \<Longrightarrow> hex_table ! (10 + k) = char_of (97 + k)"
proof -
  have "list_all (\<lambda>k. hex_table ! k = char_of (48 + k)) [0 ..< 10]" by code_simp
  then show "k < 10 \<Longrightarrow> hex_table ! k = char_of (48 + k)" unfolding list_all_iff by simp
  have "list_all (\<lambda>k. hex_table ! (10 + k) = char_of (97 + k)) [0 ..< 6]" by code_simp
  then show "k < 6 \<Longrightarrow> hex_table ! (10 + k) = char_of (97 + k)" unfolding list_all_iff by simp
qed

lemma u8_offset: "n \<le> unat b \<Longrightarrow> unat (b - of_nat n :: u8) = unat b - n"
proof -
  assume *: "n \<le> unat b"
  then have "n < 256" using unat_lt_256[of b] by linarith
  then have "unat (of_nat n :: u8) = n" by (simp add: unat_of_nat take_bit_eq_mod)
  with * show ?thesis by (simp add: unat_minus_exact word_le_nat_alt)
qed

lemma u8_letter:
  assumes "n \<le> unat b" "unat b < n + 6"
  shows "unat (b - of_nat n + 10 :: u8) = 10 + (unat b - n)"
proof -
  have "unat (b - of_nat n) = unat b - n" using assms(1) by (rule u8_offset)
  then show ?thesis using assms(2) by (subst unat_plus_exact) simp_all
qed

lemma hex_digit_canonical:
  assumes "hex_value (char_byte c) = Some x"
  shows "unat x < 16 \<and> hex_table ! unat x = to_ascii_lower c"
proof -
  let ?n = "char_code c"
  consider "48 \<le> ?n" "?n \<le> 57" "x = char_byte c - of_nat 48"
    | "97 \<le> ?n" "?n \<le> 102" "x = char_byte c - of_nat 97 + 10"
    | "65 \<le> ?n" "?n \<le> 70" "x = char_byte c - of_nat 65 + 10"
    using assms by (auto simp: hex_value_def word_le_nat_alt unat_char_byte split: if_splits)
  then show ?thesis
  proof cases
    case 1
    then have "unat x = ?n - 48" using u8_offset[of 48 "char_byte c"] by (simp add: unat_char_byte)
    with 1 hex_table_digit[of "?n - 48"] show ?thesis by (simp add: to_ascii_lower_def)
  next
    case 2
    then have "unat x = 10 + (?n - 97)" using u8_letter[of 97 "char_byte c"] by (simp add: unat_char_byte)
    with 2 hex_table_letter[of "?n - 97"] show ?thesis by (simp add: to_ascii_lower_def)
  next
    case 3
    then have "unat x = 10 + (?n - 65)" using u8_letter[of 65 "char_byte c"] by (simp add: unat_char_byte)
    with 3 hex_table_letter[of "?n - 65"] show ?thesis by (simp add: to_ascii_lower_def add.commute)
  qed
qed

lemma take_bit_4_self: "unat (x :: u8) < 16 \<Longrightarrow> take_bit 4 x = x"
  by (simp add: word_unat_eq_iff unsigned_take_bit_eq take_bit_nat_eq_self)

lemma nibbles_split:
  assumes "unat (x :: u8) < 16" "unat (y :: u8) < 16"
  shows "drop_bit 4 (push_bit 4 x OR y) = x" "(push_bit 4 x OR y) AND 15 = y"
proof -
  obtain x' y' where xy: "x = take_bit 4 x'" "y = take_bit 4 y'" using assms take_bit_4_self by metis
  have "(15 :: u8) = mask 4" by (simp add: mask_eq_exp_minus_1)
  then show "drop_bit 4 (push_bit 4 x OR y) = x" "(push_bit 4 x OR y) AND 15 = y"
    by (auto simp: xy bit_eq_iff bit_simps)
qed

lemma decode_chunks_Ok:
  assumes "even (length s)" "decode_chunks kind i s = Ok bs"
  shows "concat (map encode_byte bs) = map to_ascii_lower s \<and> list_all is_hex_digit s
    \<and> length s = 2 * length bs"
  using assms
proof (induction kind i s arbitrary: bs rule: decode_chunks.induct)
  case (1 kind i h l rest)
  then obtain x y cs where xy: "hex_value (char_byte h) = Some x" "hex_value (char_byte l) = Some y"
    "decode_chunks kind (i + 1) rest = Ok cs" "bs = (push_bit 4 x OR y) # cs"
    by (auto simp: bindE_eq_Ok)
  then have "encode_byte (push_bit 4 x OR y) = [to_ascii_lower h, to_ascii_lower l]"
    using hex_digit_canonical[of h x] hex_digit_canonical[of l y]
    by (simp only: encode_byte_def nibbles_split)
  moreover have "is_hex_digit h" "is_hex_digit l" using xy hex_value_is_hex_digit by fastforce+
  ultimately show ?case using 1 xy by auto
qed auto

lemma decode_chunks_total:
  "list_all is_hex_digit s \<Longrightarrow> even (length s) \<Longrightarrow> is_ok (decode_chunks kind i s)"
proof (induction kind i s rule: decode_chunks.induct)
  case (1 kind i h l rest)
  then obtain x y where "hex_value (char_byte h) = Some x" "hex_value (char_byte l) = Some y"
    using hex_value_is_hex_digit[of h] hex_value_is_hex_digit[of l] by auto
  with 1 show ?case by (auto simp: is_ok_iff)
qed auto

text \<open>
  Acceptance and canonical form in one statement: what decodes is a prefix followed by
  \<open>2 n\<close> hex digits, and printing the decoded bytes gives the digits in lower case.
\<close>

lemma decode_prefixed_fixed_Ok_iff:
  "decode_prefixed_fixed n s kind = Ok bs \<longleftrightarrow>
    length bs = n \<and> (\<exists>hex. strip_hex_prefix s = Some hex \<and> list_all is_hex_digit hex \<and>
      encode_lower_prefixed bs = ''0x'' @ map to_ascii_lower hex)"
  (is "?L \<longleftrightarrow> ?R")
proof
  assume ?L
  then obtain hex where hex: "strip_hex_prefix s = Some hex" "length hex = n * 2"
    "decode_chunks kind 0 hex = Ok bs"
    by (auto simp: decode_prefixed_fixed_def bindE_eq_Ok split: if_splits)
  then show ?R
    using decode_chunks_Ok[OF _ hex(3)] by (simp add: encode_lower_prefixed_def)
next
  assume ?R
  then obtain hex where hex: "length bs = n" "strip_hex_prefix s = Some hex" "list_all is_hex_digit hex"
    "concat (map encode_byte bs) = map to_ascii_lower hex"
    by (auto simp: encode_lower_prefixed_def)
  from hex(4) have len: "length hex = n * 2" using hex(1) length_encode[of bs] by simp
  then obtain cs where cs: "decode_chunks kind 0 hex = Ok cs"
    using decode_chunks_total[OF hex(3)] by (fastforce simp: is_ok_iff)
  then have "concat (map encode_byte cs) = concat (map encode_byte bs)"
    using decode_chunks_Ok[of hex kind 0 cs] hex(4) len by simp
  then have "cs = bs" using decode_chunks_encode[of kind 0] by (metis sum.inject(2))
  with cs hex(2) len show ?L by (simp add: decode_prefixed_fixed_def)
qed

lemma fixed_hex_roundtrip:
  assumes "8 dvd LENGTH('w::len)" "n = LENGTH('w) div 8"
  shows "mapE word_of_bytes (decode_prefixed_fixed n (encode_lower_prefixed (word_bytes (w :: 'w word))) kind) = Ok w"
  using assms by (simp add: decode_encode_lower word_of_bytes_word_bytes)

interpretation evm_address: codec address_to_lower_hex address_from_str
  by unfold_locales
    (simp add: address_from_str_def address_to_lower_hex_def fixed_hex_roundtrip)

interpretation tx_hash: codec hash_to_lower_hex tx_hash_from_str
  by unfold_locales (simp add: tx_hash_from_str_def hash_to_lower_hex_def fixed_hex_roundtrip)

interpretation block_hash: codec hash_to_lower_hex block_hash_from_str
  by unfold_locales (simp add: block_hash_from_str_def hash_to_lower_hex_def fixed_hex_roundtrip)

lemma fixed_hex_canonical:
  assumes "8 * n = LENGTH('w::len)"
  shows "mapE word_of_bytes (decode_prefixed_fixed n s kind) = Ok (w :: 'w word) \<longleftrightarrow>
    (\<exists>hex. strip_hex_prefix s = Some hex \<and> list_all is_hex_digit hex \<and>
       encode_lower_prefixed (word_bytes w) = ''0x'' @ map to_ascii_lower hex)"
    (is "?L \<longleftrightarrow> ?R")
proof
  assume ?L
  then obtain bs where bs: "decode_prefixed_fixed n s kind = Ok bs" "w = word_of_bytes bs"
    by (auto simp: mapE_eq_Ok)
  then have "word_bytes w = bs"
    using assms by (simp add: decode_prefixed_fixed_Ok_iff word_bytes_word_of_bytes)
  with bs show ?R by (simp add: decode_prefixed_fixed_Ok_iff)
next
  assume ?R
  have "8 dvd LENGTH('w)" using assms by (metis dvd_triv_left)
  then have "word_of_bytes (word_bytes w) = w" by (rule word_of_bytes_word_bytes)
  moreover have "decode_prefixed_fixed n s kind = Ok (word_bytes w)"
    using \<open>?R\<close> assms by (simp add: decode_prefixed_fixed_Ok_iff flip: assms)
  ultimately show ?L by simp
qed


section \<open>Properties\<close>

text \<open>
  An address is parsed from exactly the strings that are \<open>0x\<close> or \<open>0X\<close> followed by
  hex digits of either case, and the address is the one whose canonical lower-case text is
  those digits in lower case.  So the canonical text is parsed back, strings that
  differ in case only give the same address, and nothing else is accepted.
\<close>
theorem address_from_str_canonical:
  "address_from_str s = Ok a \<longleftrightarrow>
    (\<exists>hex. strip_hex_prefix s = Some hex \<and> list_all is_hex_digit hex \<and>
       address_to_lower_hex a = ''0x'' @ map to_ascii_lower hex)"
  by (simp add: address_from_str_def address_to_lower_hex_def fixed_hex_canonical)

text \<open>
  Transaction and block hashes stored as text are read back unchanged, and no two
  hashes share a text.
\<close>
theorem hash_text_roundtrip:
  "tx_hash_from_str (hash_to_lower_hex h) = Ok h \<and>
   block_hash_from_str (hash_to_lower_hex h) = Ok h \<and>
   (hash_to_lower_hex h = hash_to_lower_hex k \<longleftrightarrow> h = k)"
  by (simp add: tx_hash.dec_enc block_hash.dec_enc tx_hash.enc_inject)

end
