(* ===== verification/Order_Status.thy ===== *)
theory Order_Status
  imports Amount Hex_Types "HOL-Library.Multiset"
begin

text \<open>
  The payment and order rules of the domain layer:
  \<open>src/src/domain/payment.rs\<close> (payment facts), \<open>src/src/domain/order.rs\<close> (how the
  status of an order follows from its payments), \<open>src/src/domain/chain.rs\<close>
  (confirmations of a block) and \<open>src/src/domain/kv.rs\<close> (reorg epochs).
\<close>

section \<open>Payments\<close>

datatype PaymentMatchStatus = OnTime | Late | OutsideWindow

datatype PaymentChainStatus = Observed | Confirmed | Orphaned

record PaymentFact =
  pf_amount :: RawAmount
  pf_match_status :: PaymentMatchStatus
  pf_chain_status :: PaymentChainStatus

definition is_confirmed_on_time :: "PaymentFact \<Rightarrow> bool" where
  "is_confirmed_on_time p \<longleftrightarrow> pf_match_status p = OnTime \<and> pf_chain_status p = Confirmed"

definition is_non_orphaned_on_time :: "PaymentFact \<Rightarrow> bool" where
  "is_non_orphaned_on_time p \<longleftrightarrow> pf_match_status p = OnTime \<and> pf_chain_status p \<noteq> Orphaned"


section \<open>Orders\<close>

datatype OrderStatus = Pending | Partial | Confirming | Paid | Expired

record OrderStatusDecision =
  od_status :: OrderStatus
  od_confirmed_on_time_total :: RawAmount
  od_non_orphaned_on_time_total :: RawAmount

datatype OrderStatusError = AmountOverflow

text \<open>One iteration of the loop over the payments: the pair of running totals.\<close>

definition add_payment ::
  "RawAmount \<times> RawAmount \<Rightarrow> PaymentFact \<Rightarrow> OrderStatusError + (RawAmount \<times> RawAmount)" where
  "add_payment tot p =
     bindE (if is_confirmed_on_time p then ok_or (checked_add (fst tot) (pf_amount p)) AmountOverflow
            else Ok (fst tot)) (\<lambda>c.
     bindE (if is_non_orphaned_on_time p then ok_or (checked_add (snd tot) (pf_amount p)) AmountOverflow
            else Ok (snd tot)) (\<lambda>n.
     Ok (c, n)))"

definition decide_status :: "RawAmount \<Rightarrow> RawAmount \<Rightarrow> RawAmount \<Rightarrow> bool \<Rightarrow> OrderStatus" where
  "decide_status required confirmed non_orphaned is_expired =
     (if required \<le> confirmed then Paid
      else if required \<le> non_orphaned then Confirming
      else if \<not> is_zero non_orphaned \<and> \<not> is_expired then Partial
      else if is_expired then Expired
      else Pending)"

definition recompute_order_status ::
  "RawAmount \<Rightarrow> PaymentFact list \<Rightarrow> bool \<Rightarrow> OrderStatusError + OrderStatusDecision" where
  "recompute_order_status required_amount payments is_expired =
     bindE (foldE add_payment (0, 0) payments) (\<lambda>(confirmed, non_orphaned).
     Ok \<lparr>od_status = decide_status required_amount confirmed non_orphaned is_expired,
         od_confirmed_on_time_total = confirmed,
         od_non_orphaned_on_time_total = non_orphaned\<rparr>)"


section \<open>Blocks and reorg epochs\<close>

record ChainBlockRef =
  cb_number :: u64
  cb_hash :: BlockHash

text \<open>The last addition is on \<open>u64\<close>: it wraps only for a distance of \<open>2 ^ 64 - 1\<close> blocks.\<close>

definition confirmations_against :: "ChainBlockRef \<Rightarrow> ChainBlockRef \<Rightarrow> u64 option" where
  "confirmations_against b canonical_head =
     (if cb_number canonical_head < cb_number b then None
      else Some (cb_number canonical_head - cb_number b + 1))"

definition has_confirmations :: "ChainBlockRef \<Rightarrow> ChainBlockRef \<Rightarrow> u64 \<Rightarrow> bool" where
  "has_confirmations b canonical_head required \<longleftrightarrow>
     required = 0 \<or>
     (case confirmations_against b canonical_head of None \<Rightarrow> False | Some c \<Rightarrow> required \<le> c)"

definition same_block :: "ChainBlockRef \<Rightarrow> ChainBlockRef \<Rightarrow> bool" where
  "same_block b b' \<longleftrightarrow> cb_number b = cb_number b' \<and> cb_hash b = cb_hash b'"

datatype KvReorgEpochError = EpochOverflow

record KvReorgEpoch =
  kv_epoch :: u64
  kv_last_reorg_from :: "u64 option"

definition kv_epoch_zero :: KvReorgEpoch where
  "kv_epoch_zero = \<lparr>kv_epoch = 0, kv_last_reorg_from = None\<rparr>"

definition kv_epoch_bump :: "KvReorgEpoch \<Rightarrow> u64 \<Rightarrow> KvReorgEpochError + KvReorgEpoch" where
  "kv_epoch_bump e from =
     bindE (ok_or (checked_add (kv_epoch e) 1) EpochOverflow) (\<lambda>n.
     Ok \<lparr>kv_epoch = n, kv_last_reorg_from = Some from\<rparr>)"

definition kv_epoch_is_newer_than :: "KvReorgEpoch \<Rightarrow> u64 \<Rightarrow> bool" where
  "kv_epoch_is_newer_than e seen \<longleftrightarrow> seen < kv_epoch e"


section \<open>The totals over the natural numbers\<close>

text \<open>
  The contract of the status computation is stated on unbounded totals: what the
  order was paid with confirmed on-time payments, and with on-time payments that
  are not orphaned.
\<close>

definition confirmed_total :: "PaymentFact list \<Rightarrow> nat" where
  "confirmed_total ps = sum_list (map (unat \<circ> pf_amount) (filter is_confirmed_on_time ps))"

definition non_orphaned_total :: "PaymentFact list \<Rightarrow> nat" where
  "non_orphaned_total ps = sum_list (map (unat \<circ> pf_amount) (filter is_non_orphaned_on_time ps))"

definition status_spec :: "nat \<Rightarrow> nat \<Rightarrow> nat \<Rightarrow> bool \<Rightarrow> OrderStatus" where
  "status_spec required confirmed non_orphaned expired =
     (if required \<le> confirmed then Paid
      else if required \<le> non_orphaned then Confirming
      else if expired then Expired
      else if 0 < non_orphaned then Partial else Pending)"

lemma confirmed_non_orphaned: "is_confirmed_on_time p \<Longrightarrow> is_non_orphaned_on_time p"
  by (simp add: is_confirmed_on_time_def is_non_orphaned_on_time_def)

lemma confirmed_le_non_orphaned: "confirmed_total ps \<le> non_orphaned_total ps"
  by (induction ps)
    (auto simp: confirmed_total_def non_orphaned_total_def dest: confirmed_non_orphaned)

lemma total_Nil [simp]: "confirmed_total [] = 0" "non_orphaned_total [] = 0"
  by (simp_all add: confirmed_total_def non_orphaned_total_def)

lemma total_Cons [simp]:
  "confirmed_total (p # ps) = (if is_confirmed_on_time p then unat (pf_amount p) else 0) + confirmed_total ps"
  "non_orphaned_total (p # ps) =
     (if is_non_orphaned_on_time p then unat (pf_amount p) else 0) + non_orphaned_total ps"
  by (simp_all add: confirmed_total_def non_orphaned_total_def)

lemma total_append [simp]:
  "confirmed_total (ps @ qs) = confirmed_total ps + confirmed_total qs"
  "non_orphaned_total (ps @ qs) = non_orphaned_total ps + non_orphaned_total qs"
  by (simp_all add: confirmed_total_def non_orphaned_total_def)

lemma total_mset:
  assumes "mset ps = mset qs"
  shows "confirmed_total ps = confirmed_total qs" "non_orphaned_total ps = non_orphaned_total qs"
proof -
  have "mset (map (unat \<circ> pf_amount) (filter P ps)) = mset (map (unat \<circ> pf_amount) (filter P qs))" for P
    using assms by (simp add: mset_filter)
  then show "confirmed_total ps = confirmed_total qs" "non_orphaned_total ps = non_orphaned_total qs"
    unfolding confirmed_total_def non_orphaned_total_def by (metis sum_mset_sum_list)+
qed

text \<open>The word-level status is the specified one on the totals.\<close>

lemma decide_status_spec:
  "decide_status r c n e = status_spec (unat r) (unat c) (unat n) e"
  by (auto simp: decide_status_def status_spec_def word_le_nat_alt is_zero_def unat_gt_0)

definition u256_overflow :: "nat \<Rightarrow> bool" where
  "u256_overflow n \<longleftrightarrow> 2 ^ 256 \<le> n"

lemma u256_overflow_mono: "u256_overflow m \<Longrightarrow> m \<le> n \<Longrightarrow> u256_overflow n"
  unfolding u256_overflow_def by (rule order_trans)

lemma u256_not_overflow: "\<not> u256_overflow (unat (x :: u256))"
  using unsigned_less[of x, where ?'a = nat] by (simp add: u256_overflow_def)

lemma checked_add_u256:
  "checked_add (x :: u256) y = (if u256_overflow (unat x + unat y) then None else Some (x + y))"
  unfolding checked_add_def u256_overflow_def len_of_numeral_defs(1) by (simp add: not_less)

lemma u256_add_exact: "\<not> u256_overflow (unat x + unat y) \<Longrightarrow> unat (x + y :: u256) = unat x + unat y"
  using unat_plus_exact[of x y] by (simp add: u256_overflow_def)

lemma add_payment_spec:
  assumes "unat (fst tot) \<le> unat (snd tot)"
  shows "add_payment tot p =
    (if is_non_orphaned_on_time p \<and> u256_overflow (unat (snd tot) + unat (pf_amount p))
     then Err AmountOverflow
     else Ok (if is_confirmed_on_time p then fst tot + pf_amount p else fst tot,
              if is_non_orphaned_on_time p then snd tot + pf_amount p else snd tot))"
proof -
  have "u256_overflow (unat (fst tot) + unat (pf_amount p)) \<Longrightarrow>
      u256_overflow (unat (snd tot) + unat (pf_amount p))"
    using assms by (elim u256_overflow_mono) simp
  then show ?thesis
    using confirmed_non_orphaned[of p] by (auto simp: add_payment_def checked_add_u256)
qed

lemma fold_payments_overflow:
  assumes "unat c \<le> unat n" "u256_overflow (unat n + non_orphaned_total ps)"
  shows "foldE add_payment (c, n) ps = Err AmountOverflow"
  using assms
proof (induction ps arbitrary: c n)
  case Nil
  then show ?case using u256_not_overflow[of n] by simp
next
  case (Cons p ps)
  show ?case
  proof (cases "is_non_orphaned_on_time p \<and> u256_overflow (unat n + unat (pf_amount p))")
    case True
    with Cons.prems show ?thesis by (simp add: add_payment_spec)
  next
    case False
    then have n: "is_non_orphaned_on_time p \<Longrightarrow> unat (n + pf_amount p) = unat n + unat (pf_amount p)"
      by (simp add: u256_add_exact)
    have c: "is_confirmed_on_time p \<Longrightarrow> unat (c + pf_amount p) = unat c + unat (pf_amount p)"
      using False Cons.prems(1) confirmed_non_orphaned[of p]
        u256_overflow_mono[of "unat c + unat (pf_amount p)" "unat n + unat (pf_amount p)"]
      by (intro u256_add_exact) auto
    show ?thesis
      using Cons.prems False n c confirmed_non_orphaned[of p]
      by (auto simp: add_payment_spec add.assoc intro!: Cons.IH)
  qed
qed

lemma fold_payments_exact:
  assumes "unat c \<le> unat n" "\<not> u256_overflow (unat n + non_orphaned_total ps)"
  shows "\<exists>c' n'. foldE add_payment (c, n) ps = Ok (c', n')
    \<and> unat c' = unat c + confirmed_total ps \<and> unat n' = unat n + non_orphaned_total ps"
  using assms
proof (induction ps arbitrary: c n)
  case (Cons p ps)
  have no: "is_non_orphaned_on_time p \<Longrightarrow> \<not> u256_overflow (unat n + unat (pf_amount p))"
    using Cons.prems(2) u256_overflow_mono[of "unat n + unat (pf_amount p)"] by fastforce
  then have n: "is_non_orphaned_on_time p \<Longrightarrow> unat (n + pf_amount p) = unat n + unat (pf_amount p)"
    by (simp add: u256_add_exact)
  have c: "is_confirmed_on_time p \<Longrightarrow> unat (c + pf_amount p) = unat c + unat (pf_amount p)"
    using no Cons.prems(1) confirmed_non_orphaned[of p]
      u256_overflow_mono[of "unat c + unat (pf_amount p)" "unat n + unat (pf_amount p)"]
    by (intro u256_add_exact) auto
  let ?c = "if is_confirmed_on_time p then c + pf_amount p else c"
  let ?n = "if is_non_orphaned_on_time p then n + pf_amount p else n"
  have step: "add_payment (c, n) p = Ok (?c, ?n)"
    using Cons.prems(1) no by (simp add: add_payment_spec)
  have "unat ?c \<le> unat ?n" using Cons.prems(1) n c confirmed_non_orphaned[of p] by auto
  moreover have "\<not> u256_overflow (unat ?n + non_orphaned_total ps)"
    using Cons.prems(2) n by (auto simp: add.assoc)
  ultimately obtain c' n' where "foldE add_payment (?c, ?n) ps = Ok (c', n')"
    "unat c' = unat ?c + confirmed_total ps" "unat n' = unat ?n + non_orphaned_total ps"
    using Cons.IH by blast
  with n c show ?case by (simp add: step)
qed simp

lemma recompute_order_status_eq:
  "recompute_order_status r ps e =
    (if u256_overflow (non_orphaned_total ps) then Err AmountOverflow
     else Ok \<lparr>od_status = status_spec (unat r) (confirmed_total ps) (non_orphaned_total ps) e,
              od_confirmed_on_time_total = of_nat (confirmed_total ps),
              od_non_orphaned_on_time_total = of_nat (non_orphaned_total ps)\<rparr>)"
proof (cases "u256_overflow (non_orphaned_total ps)")
  case True
  then show ?thesis
    using fold_payments_overflow[of 0 0 ps] by (simp add: recompute_order_status_def)
next
  case False
  then obtain c n where cn: "foldE add_payment (0, 0) ps = Ok (c, n)"
    "unat c = confirmed_total ps" "unat n = non_orphaned_total ps"
    using fold_payments_exact[of 0 0 ps] by auto
  moreover have "c = of_nat (confirmed_total ps)" "n = of_nat (non_orphaned_total ps)"
    using cn(2,3) by (metis of_nat_unat ucast_id unat_eqI unsigned_of_nat)+
  ultimately show ?thesis using False
    by (simp add: recompute_order_status_def decide_status_spec)
qed


section \<open>Progress of payments\<close>

text \<open>Without a reorg, a payment keeps its amount and match status and can only become confirmed.\<close>

definition payment_advances :: "PaymentFact \<Rightarrow> PaymentFact \<Rightarrow> bool" where
  "payment_advances p q \<longleftrightarrow>
     pf_amount q = pf_amount p \<and> pf_match_status q = pf_match_status p \<and>
     (pf_chain_status q = pf_chain_status p \<or>
      pf_chain_status p = Observed \<and> pf_chain_status q = Confirmed)"

lemma totals_advance:
  assumes "list_all2 payment_advances ps qs"
  shows "confirmed_total ps \<le> confirmed_total qs \<and> non_orphaned_total ps = non_orphaned_total qs"
  using assms
proof (induction rule: list_all2_induct)
  case (Cons p ps q qs)
  then show ?case
    by (auto simp: payment_advances_def is_confirmed_on_time_def is_non_orphaned_on_time_def)
qed simp

definition status_rank :: "OrderStatus \<Rightarrow> nat" where
  "status_rank s = (case s of Paid \<Rightarrow> 2 | Confirming \<Rightarrow> 1 | _ \<Rightarrow> 0)"

lemma status_rank_mono:
  assumes "c \<le> c'" "n \<le> n'"
  shows "status_rank (status_spec r c n e) \<le> status_rank (status_spec r c' n' e')"
  using assms by (simp add: status_spec_def status_rank_def)


section \<open>Properties\<close>

text \<open>
  C1: the status and the totals of an order are exactly those of the specification over
  unbounded naturals: the confirmed and the non-orphaned on-time payments are summed,
  an order is paid when the first total covers the required amount, confirming when
  the second does, expired or partially paid or pending otherwise; the computation
  fails exactly when the non-orphaned total does not fit in 256 bits, and never wraps.
\<close>
theorem recompute_order_status_correct:
  "recompute_order_status r ps e =
    (if 2 ^ 256 \<le> non_orphaned_total ps then Err AmountOverflow
     else Ok \<lparr>od_status = status_spec (unat r) (confirmed_total ps) (non_orphaned_total ps) e,
              od_confirmed_on_time_total = of_nat (confirmed_total ps),
              od_non_orphaned_on_time_total = of_nat (non_orphaned_total ps)\<rparr>)"
  using recompute_order_status_eq[of r ps e] unfolding u256_overflow_def .

text \<open>
  The decision does not depend on the order in which the payments are read from the
  database: permuted payment lists give the same result, the overflow error included.
\<close>
theorem recompute_order_status_permutation:
  assumes "mset ps = mset qs"
  shows "recompute_order_status r ps e = recompute_order_status r qs e"
  using total_mset[OF assms] by (simp add: recompute_order_status_eq)

abbreviation on_time_fact :: "RawAmount \<Rightarrow> PaymentChainStatus \<Rightarrow> PaymentFact" where
  "on_time_fact a c \<equiv> \<lparr>pf_amount = a, pf_match_status = OnTime, pf_chain_status = c\<rparr>"

theorem recompute_order_status_permutation_witness:
  "recompute_order_status 10 [on_time_fact 4 Confirmed, on_time_fact 6 Observed] False
   = recompute_order_status 10 [on_time_fact 6 Observed, on_time_fact 4 Confirmed] False"
  by (rule recompute_order_status_permutation) simp

text \<open>
  Without a reorg an order never loses ground: when payments only advance from observed
  to confirmed and further payments are appended, a paid order stays paid and a
  confirming order stays confirming or becomes paid, whether or not it has expired
  in the meantime.
\<close>
theorem order_status_monotone:
  assumes "recompute_order_status r ps e = Ok d" "list_all2 payment_advances ps qs"
    and "recompute_order_status r (qs @ new) e' = Ok d'"
  shows "status_rank (od_status d) \<le> status_rank (od_status d')"
proof -
  have "od_status d = status_spec (unat r) (confirmed_total ps) (non_orphaned_total ps) e"
    using assms(1) by (auto simp: recompute_order_status_eq split: if_splits)
  moreover have "od_status d' =
      status_spec (unat r) (confirmed_total (qs @ new)) (non_orphaned_total (qs @ new)) e'"
    using assms(3) by (auto simp: recompute_order_status_eq split: if_splits)
  ultimately show ?thesis
    using totals_advance[OF assms(2)] by (simp add: status_rank_mono trans_le_add1)
qed

theorem order_status_monotone_witness:
  "status_rank Confirming \<le> status_rank Paid"
  using order_status_monotone[of 10 "[on_time_fact 10 Observed]" False
      "\<lparr>od_status = Confirming, od_confirmed_on_time_total = 0, od_non_orphaned_on_time_total = 10\<rparr>"
      "[on_time_fact 10 Confirmed]" "[]" True
      "\<lparr>od_status = Paid, od_confirmed_on_time_total = 10, od_non_orphaned_on_time_total = 10\<rparr>"]
  by (simp add: recompute_order_status_eq u256_overflow_def status_spec_def payment_advances_def
      is_confirmed_on_time_def is_non_orphaned_on_time_def)

text \<open>
  A block has the required confirmations against a head exactly when none are required,
  or the head is at or above it and the blocks from the one to the other, both counted,
  are at least as many, provided that this count fits in 64 bits.
\<close>
theorem has_confirmations_iff:
  assumes "unat (cb_number head) - unat (cb_number b) < 2 ^ 64 - 1"
  shows "has_confirmations b head k \<longleftrightarrow>
    k = 0 \<or> (unat (cb_number b) \<le> unat (cb_number head) \<and>
      unat k \<le> unat (cb_number head) - unat (cb_number b) + 1)"
proof (cases "cb_number head < cb_number b")
  case True
  then show ?thesis by (simp add: has_confirmations_def confirmations_against_def word_less_nat_alt)
next
  case False
  then have le: "cb_number b \<le> cb_number head" by simp
  have "unat (cb_number head - cb_number b + 1) = unat (cb_number head) - unat (cb_number b) + 1"
    using assms le by (subst unat_plus_exact) (simp_all add: unat_minus_exact)
  with le False show ?thesis
    by (auto simp: has_confirmations_def confirmations_against_def word_le_nat_alt)
qed

theorem has_confirmations_iff_witness:
  "has_confirmations \<lparr>cb_number = 100, cb_hash = 1\<rparr> \<lparr>cb_number = 111, cb_hash = 2\<rparr> 12
   \<and> \<not> has_confirmations \<lparr>cb_number = 100, cb_hash = 1\<rparr> \<lparr>cb_number = 110, cb_hash = 2\<rparr> 12"
  using has_confirmations_iff[of "\<lparr>cb_number = 111, cb_hash = 2\<rparr>" "\<lparr>cb_number = 100, cb_hash = 1\<rparr>" 12]
    has_confirmations_iff[of "\<lparr>cb_number = 110, cb_hash = 2\<rparr>" "\<lparr>cb_number = 100, cb_hash = 1\<rparr>" 12]
  by simp

end
