(* ===== verification/Wallet.thy ===== *)
theory Wallet
  imports Amount Hex_Types
begin

text \<open>
  Derivation of deposit addresses: the segment counter of \<open>src/src/domain/wallet.rs\<close>
  and the wallet boundary of \<open>src/src/wallet/mod.rs\<close> (requests, path validation, the
  deterministic deriver of the tests, error mapping), with the transaction types of
  \<open>src/src/signer/mod.rs\<close>.  The signer backends and Keccak-256 are not part of the
  sources; they are parameters of the definitions that call them.
\<close>

section \<open>Derivation segments\<close>

datatype DerivationSegmentError =
    IndexOutOfRange string u32 u32
  | Exhausted

definition MAX_DERIVATION_INDEX :: u32 where
  "MAX_DERIVATION_INDEX = 2 ^ 31 - 1"

record DerivationSegment =
  account_index :: u32
  change_index :: u32
  address_index :: u32

definition segment_zero :: DerivationSegment where
  "segment_zero = \<lparr>account_index = 0, change_index = 0, address_index = 0\<rparr>"

definition validate_index :: "string \<Rightarrow> u32 \<Rightarrow> DerivationSegmentError + unit" where
  "validate_index field value =
     (if MAX_DERIVATION_INDEX < value then Err (IndexOutOfRange field value MAX_DERIVATION_INDEX)
      else Ok ())"

definition segment_new :: "u32 \<Rightarrow> u32 \<Rightarrow> u32 \<Rightarrow> DerivationSegmentError + DerivationSegment" where
  "segment_new account change address =
     bindE (validate_index ''account'' account) (\<lambda>_.
     bindE (validate_index ''change'' change) (\<lambda>_.
     bindE (validate_index ''address'' address) (\<lambda>_.
     Ok \<lparr>account_index = account, change_index = change, address_index = address\<rparr>)))"

definition derivation_path :: "DerivationSegment \<Rightarrow> string" where
  "derivation_path s =
     ''m/44'' @ [CHR 0x27] @ ''/60'' @ [CHR 0x27] @ ''/'' @ show_nat (unat (account_index s))
     @ [CHR 0x27] @ ''/'' @ show_nat (unat (change_index s))
     @ ''/'' @ show_nat (unat (address_index s))"

definition segment_next :: "DerivationSegment \<Rightarrow> DerivationSegmentError + DerivationSegment" where
  "segment_next s =
     (if address_index s < MAX_DERIVATION_INDEX
      then segment_new (account_index s) (change_index s) (address_index s + 1)
      else if change_index s < MAX_DERIVATION_INDEX
      then segment_new (account_index s) (change_index s + 1) 0
      else if account_index s < MAX_DERIVATION_INDEX
      then segment_new (account_index s + 1) 0 0
      else Err Exhausted)"

text \<open>\<open>&mut self\<close>: the current segment is returned with the advanced counter.\<close>

definition take_current_and_advance ::
  "DerivationSegment \<Rightarrow> DerivationSegmentError + (DerivationSegment \<times> DerivationSegment)" where
  "take_current_and_advance s = bindE (segment_next s) (\<lambda>s'. Ok (s, s'))"


section \<open>The signer's errors and transactions\<close>

datatype SignerError =
    SignerEmptyKeyRef
  | SignerInvalidDerivationPath string
  | SignerInvalidFakeNamespace
  | EmptyRemoteSignerEndpoint
  | EmptyLocalSignerMnemonic
  | SignerUnknownKeyRef string
  | HealthCheckFailed string
  | RemoteTransport string string
  | RemoteHttpStatus string "16 word" string
  | RemoteJson string string
  | EmptyRequestId
  | LocalSigner string string

record UnsignedTx =
  ut_request_id :: string
  ut_chain_id :: u64
  ut_nonce :: u64
  ut_to :: EvmAddress
  ut_value :: RawAmount
  ut_gas_limit :: u64
  ut_max_fee_per_gas :: RawAmount
  ut_max_priority_fee_per_gas :: RawAmount
  ut_data :: bytes

record SignedTx =
  sx_request_id :: string
  sx_chain_id :: u64
  sx_nonce :: u64
  sx_from :: EvmAddress
  sx_to :: EvmAddress
  sx_tx_hash :: TxHash
  sx_raw_tx :: bytes

definition normalize_request_id :: "string \<Rightarrow> SignerError + string" where
  "normalize_request_id v = (if trim v = [] then Err EmptyRequestId else Ok (trim v))"

definition unsigned_tx_new ::
  "string \<Rightarrow> u64 \<Rightarrow> u64 \<Rightarrow> EvmAddress \<Rightarrow> RawAmount \<Rightarrow> u64 \<Rightarrow> RawAmount \<Rightarrow> RawAmount \<Rightarrow> bytes
   \<Rightarrow> SignerError + UnsignedTx" where
  "unsigned_tx_new request_id chain_id nonce to value gas_limit max_fee priority_fee data =
     bindE (normalize_request_id request_id) (\<lambda>rid.
     Ok \<lparr>ut_request_id = rid, ut_chain_id = chain_id, ut_nonce = nonce, ut_to = to,
         ut_value = value, ut_gas_limit = gas_limit, ut_max_fee_per_gas = max_fee,
         ut_max_priority_fee_per_gas = priority_fee, ut_data = data\<rparr>)"


section \<open>The wallet boundary\<close>

datatype WalletError =
    EmptySignerKeyRef
  | InvalidDerivationVersion u32
  | InvalidDerivationPath string
  | InvalidFakeNamespace
  | UnknownSignerKeyRef string
  | RemoteSignerCallFailed string

record DeriveAddressRequest =
  dr_signer_key_ref :: string
  dr_derivation_version :: u32
  dr_segment :: DerivationSegment

record DerivedChildAddress =
  dc_signer_key_ref :: string
  dc_derivation_version :: u32
  dc_segment :: DerivationSegment
  dc_derivation_path :: string
  dc_address :: EvmAddress

definition normalize_signer_key_ref :: "string \<Rightarrow> WalletError + string" where
  "normalize_signer_key_ref v = (if trim v = [] then Err EmptySignerKeyRef else Ok (trim v))"

definition derive_address_request_new ::
  "string \<Rightarrow> u32 \<Rightarrow> DerivationSegment \<Rightarrow> WalletError + DeriveAddressRequest" where
  "derive_address_request_new key_ref version segment =
     (if version = 0 then Err (InvalidDerivationVersion version)
      else bindE (normalize_signer_key_ref key_ref) (\<lambda>k.
        Ok \<lparr>dr_signer_key_ref = k, dr_derivation_version = version, dr_segment = segment\<rparr>))"

text \<open>\<open>derive_child_address\<close>: the backend (trait \<open>AddressDeriver\<close>) is the first argument.\<close>

definition derive_child_address ::
  "(string \<Rightarrow> string \<Rightarrow> WalletError + EvmAddress) \<Rightarrow> DeriveAddressRequest
   \<Rightarrow> WalletError + DerivedChildAddress" where
  "derive_child_address derive_address req =
     (let path = derivation_path (dr_segment req) in
      bindE (derive_address (dr_signer_key_ref req) path) (\<lambda>a.
      Ok \<lparr>dc_signer_key_ref = dr_signer_key_ref req,
          dc_derivation_version = dr_derivation_version req,
          dc_segment = dr_segment req, dc_derivation_path = path, dc_address = a\<rparr>))"

definition map_signer_error :: "SignerError \<Rightarrow> WalletError" where
  "map_signer_error e = (case e of
      SignerEmptyKeyRef \<Rightarrow> EmptySignerKeyRef
    | SignerInvalidDerivationPath path \<Rightarrow> InvalidDerivationPath path
    | SignerInvalidFakeNamespace \<Rightarrow> RemoteSignerCallFailed ''signer reported invalid fake namespace''
    | EmptyRemoteSignerEndpoint \<Rightarrow> RemoteSignerCallFailed ''remote signer endpoint must not be empty''
    | EmptyLocalSignerMnemonic \<Rightarrow> RemoteSignerCallFailed ''local signer mnemonic must not be empty''
    | SignerUnknownKeyRef k \<Rightarrow> UnknownSignerKeyRef k
    | HealthCheckFailed m \<Rightarrow> RemoteSignerCallFailed (''health check failed: '' @ m)
    | RemoteTransport oper m \<Rightarrow> RemoteSignerCallFailed (oper @ '' transport error: '' @ m)
    | RemoteHttpStatus oper status body \<Rightarrow>
        RemoteSignerCallFailed (oper @ '' returned status '' @ show_nat (unat status) @ '': '' @ body)
    | RemoteJson oper m \<Rightarrow> RemoteSignerCallFailed (oper @ '' returned invalid json: '' @ m)
    | EmptyRequestId \<Rightarrow> RemoteSignerCallFailed ''signer rejected empty request id''
    | LocalSigner oper m \<Rightarrow> RemoteSignerCallFailed (oper @ '' local signer error: '' @ m))"

definition valid_decimal_index :: "string \<Rightarrow> bool" where
  "valid_decimal_index v \<longleftrightarrow>
     v \<noteq> [] \<and> list_all is_ascii_digit v \<and> dec_value v < 2 ^ 32 \<and>
     of_nat (dec_value v) \<le> MAX_DERIVATION_INDEX"

definition strip_suffix_quote :: "string \<Rightarrow> string option" where
  "strip_suffix_quote s = (if s \<noteq> [] \<and> last s = CHR 0x27 then Some (butlast s) else None)"

definition valid_hardened_index :: "string \<Rightarrow> bool" where
  "valid_hardened_index p = (case strip_suffix_quote p of None \<Rightarrow> False | Some i \<Rightarrow> valid_decimal_index i)"

definition validate_derivation_path :: "string \<Rightarrow> WalletError + unit" where
  "validate_derivation_path path =
     (case split_char (CHR ''/'') path of
        [m, p44, p60, acc, chg, idx] \<Rightarrow>
          if m = ''m'' \<and> p44 = ''44'' @ [CHR 0x27] \<and> p60 = ''60'' @ [CHR 0x27]
             \<and> valid_hardened_index acc \<and> valid_decimal_index chg \<and> valid_decimal_index idx
          then Ok () else Err (InvalidDerivationPath path)
      | _ \<Rightarrow> Err (InvalidDerivationPath path))"

record DeterministicFakeDeriver =
  fd_namespace :: string
  fd_allowed_key_refs :: "string list"

definition fake_deriver_new :: "string \<Rightarrow> WalletError + DeterministicFakeDeriver" where
  "fake_deriver_new namespace =
     (if trim namespace = [] then Err InvalidFakeNamespace
      else Ok \<lparr>fd_namespace = trim namespace, fd_allowed_key_refs = []\<rparr>)"

definition allow_key_ref ::
  "DeterministicFakeDeriver \<Rightarrow> string \<Rightarrow> WalletError + DeterministicFakeDeriver" where
  "allow_key_ref d k =
     bindE (normalize_signer_key_ref k) (\<lambda>k'.
     Ok (d\<lparr>fd_allowed_key_refs := List.insert k' (fd_allowed_key_refs d)\<rparr>))"

definition with_allowed_key_refs ::
  "string \<Rightarrow> string list \<Rightarrow> WalletError + DeterministicFakeDeriver" where
  "with_allowed_key_refs namespace ks = bindE (fake_deriver_new namespace) (\<lambda>d. foldE allow_key_ref d ks)"

text \<open>The last 20 of the 32 digest bytes; \<open>keccak\<close> is Keccak-256.\<close>

definition fake_derive_address ::
  "(bytes \<Rightarrow> u256) \<Rightarrow> DeterministicFakeDeriver \<Rightarrow> string \<Rightarrow> string \<Rightarrow> WalletError + EvmAddress" where
  "fake_derive_address keccak d key_ref path =
     bindE (normalize_signer_key_ref key_ref) (\<lambda>k.
     bindE (validate_derivation_path path) (\<lambda>_.
     if fd_allowed_key_refs d \<noteq> [] \<and> k \<notin> set (fd_allowed_key_refs d)
     then Err (UnknownSignerKeyRef k)
     else Ok (word_of_bytes (drop 12 (word_bytes (keccak (map char_byte
       (''pay3:deterministic-fake-wallet:v1:'' @ fd_namespace d @ '':'' @ k @ '':'' @ path))))))))"


section \<open>The segment counter\<close>

text \<open>The invariant of a segment, and its position in the order in which segments are handed out.\<close>

definition segment_valid :: "DerivationSegment \<Rightarrow> bool" where
  "segment_valid s \<longleftrightarrow>
     account_index s \<le> MAX_DERIVATION_INDEX \<and> change_index s \<le> MAX_DERIVATION_INDEX \<and>
     address_index s \<le> MAX_DERIVATION_INDEX"

definition segment_position :: "DerivationSegment \<Rightarrow> nat" where
  "segment_position s =
     (unat (account_index s) * 2 ^ 31 + unat (change_index s)) * 2 ^ 31 + unat (address_index s)"

lemma unat_max_index: "unat MAX_DERIVATION_INDEX = 2147483647"
  by (simp add: MAX_DERIVATION_INDEX_def)

lemmas index_nat = word_le_nat_alt word_less_nat_alt unat_max_index

lemma unat_index_Suc: "i < MAX_DERIVATION_INDEX \<Longrightarrow> unat (i + 1) = unat i + 1"
  by (simp add: index_nat unat_plus_exact)

lemma segment_new_Ok:
  "segment_new a c i = Ok s \<longleftrightarrow>
     s = \<lparr>account_index = a, change_index = c, address_index = i\<rparr> \<and> segment_valid s"
  by (auto simp: segment_new_def validate_index_def segment_valid_def bindE_eq_Ok not_less split: if_splits)

lemma segment_zero_valid: "segment_valid segment_zero"
  by (simp add: segment_valid_def segment_zero_def)

lemma max_index_iff: "i \<le> MAX_DERIVATION_INDEX \<Longrightarrow> \<not> i < MAX_DERIVATION_INDEX \<Longrightarrow> unat i = 2147483647"
  by (simp add: index_nat)

lemma segment_next_Ok:
  assumes "segment_valid s" "segment_next s = Ok t"
  shows "segment_valid t \<and> segment_position t = segment_position s + 1"
  using assms max_index_iff[of "address_index s"] max_index_iff[of "change_index s"]
  by (auto simp: segment_next_def segment_new_Ok segment_position_def segment_valid_def unat_index_Suc
      split: if_splits)

lemma segment_new_valid:
  "a \<le> MAX_DERIVATION_INDEX \<Longrightarrow> c \<le> MAX_DERIVATION_INDEX \<Longrightarrow> i \<le> MAX_DERIVATION_INDEX \<Longrightarrow>
    \<exists>s. segment_new a c i = Ok s"
  by (simp add: segment_new_Ok segment_valid_def)

lemma index_Suc_le: "i < MAX_DERIVATION_INDEX \<Longrightarrow> i + 1 \<le> MAX_DERIVATION_INDEX"
  by (simp add: index_nat unat_index_Suc)

lemma segment_next_total:
  assumes "segment_valid s" "segment_position s + 1 < 2 ^ 93"
  shows "\<exists>t. segment_next s = Ok t"
proof -
  have v: "account_index s \<le> MAX_DERIVATION_INDEX" "change_index s \<le> MAX_DERIVATION_INDEX"
    "address_index s \<le> MAX_DERIVATION_INDEX" "(0 :: u32) \<le> MAX_DERIVATION_INDEX"
    using assms(1) by (simp_all add: segment_valid_def)
  have last: "account_index s < MAX_DERIVATION_INDEX"
    if "\<not> address_index s < MAX_DERIVATION_INDEX" "\<not> change_index s < MAX_DERIVATION_INDEX"
  proof (rule ccontr)
    assume top: "\<not> account_index s < MAX_DERIVATION_INDEX"
    have "segment_position s = (2147483647 * 2 ^ 31 + 2147483647) * 2 ^ 31 + 2147483647"
      by (simp only: segment_position_def max_index_iff[OF v(1) top] max_index_iff[OF v(2) that(2)]
          max_index_iff[OF v(3) that(1)])
    with assms(2) show False by simp
  qed
  consider "address_index s < MAX_DERIVATION_INDEX"
    | "\<not> address_index s < MAX_DERIVATION_INDEX" "change_index s < MAX_DERIVATION_INDEX"
    | "\<not> address_index s < MAX_DERIVATION_INDEX" "\<not> change_index s < MAX_DERIVATION_INDEX"
    by blast
  then show ?thesis
    using v last segment_new_valid index_Suc_le
    by cases (simp_all only: segment_next_def if_True if_False simp_thms)
qed

lemma segment_position_inject:
  assumes "segment_valid s" "segment_valid t" "segment_position s = segment_position t"
  shows "s = t"
proof -
  have lt: "unat (address_index x) < 2 ^ 31" "unat (change_index x) < 2 ^ 31" if "segment_valid x" for x
    using that by (simp_all add: segment_valid_def index_nat)
  have split: "p = q \<and> i = j" if "i < b" "j < b" "p * b + i = q * b + j" for p q i j b :: nat
  proof -
    have "(p * b + i) div b = p" "(q * b + j) div b = q" using that(1,2) by simp_all
    with that(3) show ?thesis by auto
  qed
  note 1 = split[OF lt(1)[OF assms(1)] lt(1)[OF assms(2)] assms(3)[unfolded segment_position_def]]
  note 2 = split[OF lt(2)[OF assms(1)] lt(2)[OF assms(2)] conjunct1[OF 1]]
  show ?thesis using 1 2 by (simp add: unat_eqI)
qed

text \<open>\<open>n\<close> allocations in a row from one counter.\<close>

primrec allocate_segments ::
  "nat \<Rightarrow> DerivationSegment \<Rightarrow> DerivationSegmentError + (DerivationSegment list \<times> DerivationSegment)" where
  "allocate_segments 0 s = Ok ([], s)"
| "allocate_segments (Suc n) s =
     bindE (take_current_and_advance s) (\<lambda>(cur, s').
     bindE (allocate_segments n s') (\<lambda>(rest, s''). Ok (cur # rest, s'')))"

lemma allocate_segments_positions:
  assumes "segment_valid s" "allocate_segments n s = Ok (ss, s')"
  shows "segment_valid s' \<and> (\<forall>t \<in> set ss. segment_valid t) \<and>
    map segment_position ss = [segment_position s ..< segment_position s + n] \<and>
    segment_position s' = segment_position s + n"
  using assms
proof (induction n arbitrary: s ss)
  case (Suc n)
  then obtain t rest where t: "segment_next s = Ok t" "allocate_segments n t = Ok (rest, s')" "ss = s # rest"
    by (auto simp: take_current_and_advance_def bindE_eq_Ok)
  with segment_next_Ok[OF Suc.prems(1) t(1)] Suc.IH[of t rest] Suc.prems(1) show ?case
    by (auto simp: upt_conv_Cons simp del: upt_Suc)
qed simp

lemma allocate_segments_total:
  assumes "segment_valid s" "segment_position s + n < 2 ^ 93"
  shows "\<exists>r. allocate_segments n s = Ok r"
  using assms
proof (induction n arbitrary: s)
  case (Suc n)
  then obtain t where t: "segment_next s = Ok t" using segment_next_total[of s] by auto
  with segment_next_Ok[OF Suc.prems(1) t] Suc.prems(2) obtain r where "allocate_segments n t = Ok r"
    using Suc.IH[of t] by auto
  with t show ?case by (cases r) (auto simp: take_current_and_advance_def)
qed simp


section \<open>Paths\<close>

lemma show_nat_no_char:
  "\<not> is_ascii_digit c \<Longrightarrow> c \<notin> set (show_nat n)"
  using show_nat_digits by (auto simp: list_all_iff)

lemma derivation_path_parts:
  "split_char (CHR ''/'') (derivation_path s) =
    [''m'', ''44'' @ [CHR 0x27], ''60'' @ [CHR 0x27], show_nat (unat (account_index s)) @ [CHR 0x27],
     show_nat (unat (change_index s)), show_nat (unat (address_index s))]"
proof -
  have "\<not> is_ascii_digit (CHR ''/'')" by (simp add: is_ascii_digit_def)
  note no = show_nat_no_char[OF this]
  have "split_char (CHR ''/'') ((show_nat a @ [CHR 0x27]) @ CHR ''/'' # show_nat c @ CHR ''/'' # show_nat i)
      = [show_nat a @ [CHR 0x27], show_nat c, show_nat i]" for a c i
    by (subst split_char_append) (simp_all add: no split_char_append split_char_no_sep)
  then show ?thesis by (simp add: derivation_path_def)
qed

lemma derivation_path_inject: "derivation_path s = derivation_path t \<longleftrightarrow> s = t"
proof
  assume "derivation_path s = derivation_path t"
  then have "split_char (CHR ''/'') (derivation_path s) = split_char (CHR ''/'') (derivation_path t)"
    by simp
  then have "unat (account_index s) = unat (account_index t)" "unat (change_index s) = unat (change_index t)"
    "unat (address_index s) = unat (address_index t)"
    by (simp_all add: derivation_path_parts) (metis show_nat_inj)+
  then show "s = t" by (simp add: unat_eqI)
qed simp

lemma valid_decimal_index_show:
  assumes "i \<le> MAX_DERIVATION_INDEX"
  shows "valid_decimal_index (show_nat (unat i))"
proof -
  have "unat i < 2 ^ 32" using assms by (simp add: index_nat)
  with assms show ?thesis by (simp add: valid_decimal_index_def show_nat_digits)
qed

lemma validate_segment_path:
  assumes "segment_valid s"
  shows "validate_derivation_path (derivation_path s) = Ok ()"
proof -
  have "valid_hardened_index (show_nat (unat (account_index s)) @ [CHR 0x27])"
    using assms by (simp add: valid_hardened_index_def strip_suffix_quote_def
        valid_decimal_index_show segment_valid_def)
  with assms show ?thesis
    by (simp add: validate_derivation_path_def derivation_path_parts valid_decimal_index_show
        segment_valid_def)
qed


section \<open>Properties\<close>

text \<open>
  A run of allocations from a valid counter hands out valid segments in increasing
  order with no gap, so that no segment and no derivation path is ever issued twice, and
  every issued path passes the validation of the wallet; the run succeeds as long as the
  counter's \<open>2 ^ 93\<close> positions are not used up.
\<close>
theorem allocations_distinct:
  assumes "segment_valid s" "segment_position s + n < 2 ^ 93"
  shows "\<exists>ss s'. allocate_segments n s = Ok (ss, s') \<and> length ss = n \<and>
    distinct (map derivation_path ss) \<and>
    (\<forall>t \<in> set ss. validate_derivation_path (derivation_path t) = Ok ()) \<and>
    segment_valid s' \<and> segment_position s' = segment_position s + n"
proof -
  obtain ss s' where ok: "allocate_segments n s = Ok (ss, s')"
    using allocate_segments_total[OF assms] by (metis surj_pair)
  note pos = allocate_segments_positions[OF assms(1) ok]
  then have "distinct (map segment_position ss)" by simp
  then have "distinct ss" by (simp add: distinct_map)
  then have "distinct (map derivation_path ss)"
    by (simp add: distinct_map inj_on_def derivation_path_inject)
  moreover have "length ss = n" using pos by (metis add_diff_cancel_left' length_map length_upt)
  ultimately show ?thesis using ok pos validate_segment_path by blast
qed

theorem allocations_distinct_witness:
  "segment_valid segment_zero \<and> (\<exists>ss s'. allocate_segments 3 segment_zero = Ok (ss, s') \<and>
     distinct (map derivation_path ss))"
  using allocations_distinct[of segment_zero 3] segment_zero_valid
  by (auto simp: segment_position_def segment_zero_def)

end
