(* ===== verification/Db_Model.thy ===== *)
theory Db_Model
  imports Order_Status Wallet
begin

text \<open>
  The persisted state: the records of \<open>src/src/db/repositories/types.rs\<close>, the errors of
  \<open>error.rs\<close>, and the PostgreSQL tables of \<open>src/src/db/migrations\<close> as lists of rows.

  A column has the type of the values it can hold: \<open>bigint\<close> and \<open>numeric(78, 0)\<close> columns
  are \<open>int\<close>, so that the range checks between them and the Rust integers are visible;
  text columns that hold addresses, hashes and statuses are kept at the decoded
  type, which the canonical encoders of \<open>Hex_Types\<close> and of this theory justify (they
  are injective and read back).  \<open>timestamptz\<close> is \<open>int\<close>.  A transaction that fails
  returns its error and leaves the state as it was, so an operation is a function from a
  state to an error or to a result and a new state.  \<open>db_now\<close> is the server's \<open>now()\<close>.
\<close>

type_synonym uuid = "128 word"
type_synonym timestamp = int

text \<open>The hyphenated form of a uuid, and one second in the microseconds of \<open>timestamptz\<close>.\<close>

definition show_uuid :: "uuid \<Rightarrow> string" where
  "show_uuid u =
     (let hex = map encode_byte (word_bytes u) in
      concat (take 4 hex) @ ''-'' @ concat (take 2 (drop 4 hex)) @ ''-'' @ concat (take 2 (drop 6 hex)) @ ''-''
      @ concat (take 2 (drop 8 hex)) @ ''-'' @ concat (drop 10 hex))"

definition one_second :: timestamp where
  "one_second = 1000000"

section \<open>Errors\<close>

text \<open>What \<open>sqlx::Error\<close> reports for the constraints of the schema.\<close>

datatype DbError =
    CheckViolation string
  | UniqueViolation string
  | ForeignKeyViolation string
  | NumericOverflow
  | RowNotFound
  | ProtocolError string

datatype RepositoryError =
    Database DbError
  | InvalidArgument string string
  | IdempotencyConflict string string "uuid option"
  | NotFound string string
  | LeaseNotAcquired u64 EvmAddress string
  | CursorCasMismatch u64 EvmAddress string u64 u64 u64 u64 "string option"
  | CursorNotFound u64 EvmAddress
  | StalePaymentMatch uuid TxHash u64
  | OrderNotFoundForRecompute "uuid list"
  | DerivationExhausted
  | IntegerOutOfRange string
  | InvalidDbValue string string string
  | InvalidPersistedState string
  | InvariantViolation string

definition repository_error_of_segment :: "DerivationSegmentError \<Rightarrow> RepositoryError" where
  "repository_error_of_segment e = (case e of
      Exhausted \<Rightarrow> DerivationExhausted
    | IndexOutOfRange field value mx \<Rightarrow>
        InvalidDbValue field (show_nat (unat value))
          (''derivation index exceeds maximum '' @ show_nat (unat mx)))"


section \<open>Statuses and their text\<close>

definition order_status_as_db_str :: "OrderStatus \<Rightarrow> string" where
  "order_status_as_db_str s = (case s of
      Pending \<Rightarrow> ''pending'' | Partial \<Rightarrow> ''partial'' | Confirming \<Rightarrow> ''confirming''
    | Paid \<Rightarrow> ''paid'' | Expired \<Rightarrow> ''expired'')"

definition parse_order_status :: "string \<Rightarrow> RepositoryError + OrderStatus" where
  "parse_order_status v =
     (if v = ''pending'' then Ok Pending
      else if v = ''partial'' then Ok Partial
      else if v = ''confirming'' then Ok Confirming
      else if v = ''paid'' then Ok Paid
      else if v = ''expired'' then Ok Expired
      else Err (InvalidDbValue ''orders.status'' v ''unknown order status''))"

definition payment_match_status_as_db_str :: "PaymentMatchStatus \<Rightarrow> string" where
  "payment_match_status_as_db_str s = (case s of
      OnTime \<Rightarrow> ''on_time'' | Late \<Rightarrow> ''late'' | OutsideWindow \<Rightarrow> ''outside_window'')"

definition parse_payment_match_status :: "string \<Rightarrow> RepositoryError + PaymentMatchStatus" where
  "parse_payment_match_status v =
     (if v = ''on_time'' then Ok OnTime
      else if v = ''late'' then Ok Late
      else if v = ''outside_window'' then Ok OutsideWindow
      else Err (InvalidDbValue ''payments.match_status'' v ''unknown payment match status''))"

definition payment_chain_status_as_db_str :: "PaymentChainStatus \<Rightarrow> string" where
  "payment_chain_status_as_db_str s = (case s of
      Observed \<Rightarrow> ''observed'' | Confirmed \<Rightarrow> ''confirmed'' | Orphaned \<Rightarrow> ''orphaned'')"

definition parse_payment_chain_status :: "string \<Rightarrow> RepositoryError + PaymentChainStatus" where
  "parse_payment_chain_status v =
     (if v = ''observed'' then Ok Observed
      else if v = ''confirmed'' then Ok Confirmed
      else if v = ''orphaned'' then Ok Orphaned
      else Err (InvalidDbValue ''payments.chain_status'' v ''unknown payment chain status''))"

datatype CollectionRecordStatus =
    ColQueued | ColTransferring | ColConfirming | ColConfirmed | ColFailed | ColDropped
  | ColReplacing | ColReplaced

definition collection_status_as_db_str :: "CollectionRecordStatus \<Rightarrow> string" where
  "collection_status_as_db_str s = (case s of
      ColQueued \<Rightarrow> ''queued'' | ColTransferring \<Rightarrow> ''transferring'' | ColConfirming \<Rightarrow> ''confirming''
    | ColConfirmed \<Rightarrow> ''confirmed'' | ColFailed \<Rightarrow> ''failed'' | ColDropped \<Rightarrow> ''dropped''
    | ColReplacing \<Rightarrow> ''replacing'' | ColReplaced \<Rightarrow> ''replaced'')"

definition collection_status_try_from :: "string \<Rightarrow> RepositoryError + CollectionRecordStatus" where
  "collection_status_try_from v =
     (if v = ''queued'' then Ok ColQueued
      else if v = ''transferring'' then Ok ColTransferring
      else if v = ''confirming'' then Ok ColConfirming
      else if v = ''confirmed'' then Ok ColConfirmed
      else if v = ''failed'' then Ok ColFailed
      else if v = ''dropped'' then Ok ColDropped
      else if v = ''replacing'' then Ok ColReplacing
      else if v = ''replaced'' then Ok ColReplaced
      else Err (InvalidDbValue ''collections.status'' v ''unknown collection status''))"

datatype CollectionOrderRequirement = RequirePaid | RequireProblemFunds

datatype OutboundTxPurpose = Collect

definition outbound_purpose_as_db_str :: "OutboundTxPurpose \<Rightarrow> string" where
  "outbound_purpose_as_db_str p = (case p of Collect \<Rightarrow> ''collect'')"

definition outbound_purpose_try_from :: "string \<Rightarrow> RepositoryError + OutboundTxPurpose" where
  "outbound_purpose_try_from v =
     (if v = ''collect'' then Ok Collect
      else Err (InvalidDbValue ''outbound_transactions.purpose'' v ''unknown outbound transaction purpose''))"

datatype OutboundTxStatus =
    TxSigned | TxBroadcast | TxConfirmed | TxFailed | TxDropped | TxReplaced

definition outbound_status_as_db_str :: "OutboundTxStatus \<Rightarrow> string" where
  "outbound_status_as_db_str s = (case s of
      TxSigned \<Rightarrow> ''signed'' | TxBroadcast \<Rightarrow> ''broadcast'' | TxConfirmed \<Rightarrow> ''confirmed''
    | TxFailed \<Rightarrow> ''failed'' | TxDropped \<Rightarrow> ''dropped'' | TxReplaced \<Rightarrow> ''replaced'')"

definition outbound_status_try_from :: "string \<Rightarrow> RepositoryError + OutboundTxStatus" where
  "outbound_status_try_from v =
     (if v = ''signed'' then Ok TxSigned
      else if v = ''broadcast'' then Ok TxBroadcast
      else if v = ''confirmed'' then Ok TxConfirmed
      else if v = ''failed'' then Ok TxFailed
      else if v = ''dropped'' then Ok TxDropped
      else if v = ''replaced'' then Ok TxReplaced
      else Err (InvalidDbValue ''outbound_transactions.status'' v ''unknown outbound transaction status''))"

interpretation order_status: codec order_status_as_db_str parse_order_status
  by unfold_locales (simp add: order_status_as_db_str_def parse_order_status_def split: OrderStatus.split)

interpretation match_status: codec payment_match_status_as_db_str parse_payment_match_status
  by unfold_locales
    (simp add: payment_match_status_as_db_str_def parse_payment_match_status_def
      split: PaymentMatchStatus.split)

interpretation chain_status: codec payment_chain_status_as_db_str parse_payment_chain_status
  by unfold_locales
    (simp add: payment_chain_status_as_db_str_def parse_payment_chain_status_def
      split: PaymentChainStatus.split)

interpretation collection_status: codec collection_status_as_db_str collection_status_try_from
  by unfold_locales
    (simp add: collection_status_as_db_str_def collection_status_try_from_def
      split: CollectionRecordStatus.split)

interpretation outbound_purpose: codec outbound_purpose_as_db_str outbound_purpose_try_from
  by unfold_locales
    (simp add: outbound_purpose_as_db_str_def outbound_purpose_try_from_def
      split: OutboundTxPurpose.split)

interpretation outbound_status: codec outbound_status_as_db_str outbound_status_try_from
  by unfold_locales
    (simp add: outbound_status_as_db_str_def outbound_status_try_from_def
      split: OutboundTxStatus.split)


section \<open>Integers of the database\<close>

definition u64_to_i64 :: "u64 \<Rightarrow> string \<Rightarrow> RepositoryError + int" where
  "u64_to_i64 v field =
     (if uint v < 2 ^ 63 then Ok (uint v)
      else Err (InvalidArgument field ''value exceeds PostgreSQL bigint range''))"

definition i64_to_u64 :: "int \<Rightarrow> string \<Rightarrow> RepositoryError + u64" where
  "i64_to_u64 v field =
     (if 0 \<le> v then Ok (of_int v)
      else Err (InvalidPersistedState (field @ '' is negative'')))"

definition show_int :: "int \<Rightarrow> string" where
  "show_int v = (if v < 0 then CHR ''-'' # show_nat (nat (- v)) else show_nat (nat v))"

definition raw_amount_to_numeric :: "RawAmount \<Rightarrow> int" where
  "raw_amount_to_numeric a = uint a"

text \<open>The error text of \<open>AmountParseError\<close>, as the messages of the repositories embed it.\<close>

definition amount_error_text :: "AmountParseError \<Rightarrow> string" where
  "amount_error_text e = (case e of
      Empty \<Rightarrow> ''amount is empty''
    | Negative \<Rightarrow> ''amount must not be negative''
    | InvalidFormat \<Rightarrow> ''amount has invalid decimal format''
    | InvalidDigits \<Rightarrow> ''amount contains non-decimal digits''
    | TooManyFractionalDigits actual d \<Rightarrow>
        ''fractional precision '' @ show_nat actual @ '' exceeds token decimals '' @ show_nat (unat d)
    | Overflow \<Rightarrow> ''amount overflows uint256'')"

definition raw_amount_from_numeric :: "int \<Rightarrow> RepositoryError + RawAmount" where
  "raw_amount_from_numeric v =
     map_errE (\<lambda>e. InvalidPersistedState
         (''database amount_raw is not uint256-compatible: '' @ amount_error_text e))
       (parse_dec_str (show_int v))"

text \<open>\<open>numeric(78, 0)\<close> holds integers of at most 78 digits.\<close>

definition fits_numeric :: "int \<Rightarrow> bool" where
  "fits_numeric v \<longleftrightarrow> \<bar>v\<bar> < 10 ^ 78"

lemma u64_to_i64_Ok: "u64_to_i64 v f = Ok i \<longleftrightarrow> uint v < 2 ^ 63 \<and> i = uint v"
  by (auto simp: u64_to_i64_def)

lemma i64_to_u64_Ok: "i64_to_u64 i f = Ok v \<longleftrightarrow> 0 \<le> i \<and> v = of_int i"
  by (auto simp: i64_to_u64_def)

lemma i64_roundtrip [simp]: "i64_to_u64 (uint v) f = Ok v"
  by (simp add: i64_to_u64_def)

lemma u64_to_i64_inj:
  "u64_to_i64 v f = Ok i \<Longrightarrow> u64_to_i64 w g = Ok i \<Longrightarrow> v = w"
  by (simp add: u64_to_i64_Ok word_uint_eq_iff)

lemma show_int_uint: "show_int (uint (a :: u256)) = raw_amount_to_string a"
proof -
  have "\<not> uint a < 0" by simp
  moreover have "nat (uint a) = unat a" by simp
  ultimately show ?thesis by (simp only: show_int_def raw_amount_to_string_def if_False)
qed

lemma raw_amount_numeric_roundtrip [simp]: "raw_amount_from_numeric (raw_amount_to_numeric a) = Ok a"
  by (simp only: raw_amount_from_numeric_def raw_amount_to_numeric_def show_int_uint
      raw_amount.dec_enc map_errE_simps)

lemma raw_amount_from_numeric_Ok:
  assumes "raw_amount_from_numeric v = Ok a"
  shows "v = uint a"
proof (cases "v < 0")
  case True
  have "visible (CHR ''-'')" by (simp add: visible_def)
  moreover have "visible (last (show_nat n))" for n
    using show_nat_digits[of n] by (simp add: is_ascii_digit_visible list_all_iff)
  ultimately have "trim (show_int v) = show_int v"
    using True by (intro trim_visible_ends) (simp add: show_int_def)
  then show ?thesis
    using assms True by (simp add: raw_amount_from_numeric_def parse_dec_str_def show_int_def starts_with_def)
next
  case False
  then have "parse_dec_str (show_nat (nat v)) = Ok a"
    using assms by (simp add: raw_amount_from_numeric_def show_int_def)
  moreover have "trim (show_nat (nat v)) = show_nat (nat v)"
    using raw_amount_string_no_sign[OF refl] by blast
  ultimately have "nat v < 2 ^ 256 \<and> a = of_nat (nat v)"
    by (auto simp: parse_dec_str_def parse_decimal_u256_def Let_def split: if_splits)
  then have "unat a = nat v" using u256_of_nat by blast
  then have "int (unat a) = int (nat v)" by (rule arg_cong)
  with False show ?thesis by simp
qed


section \<open>Inputs and records of the repositories\<close>

record NewChildAccount =
  nca_id :: uuid
  nca_signer_key_ref :: string
  nca_derivation_version :: u32
  nca_derivation_segment :: DerivationSegment
  nca_derivation_path :: string
  nca_address :: EvmAddress

record ChildAccountRecord =
  car_id :: uuid
  car_signer_key_ref :: string
  car_derivation_version :: u32
  car_derivation_segment :: DerivationSegment
  car_derivation_path :: string
  car_address :: EvmAddress
  car_last_used_at :: "timestamp option"
  car_created_at :: timestamp

record NewPaymentWindow =
  npw_id :: uuid
  npw_order_id :: uuid
  npw_child_account_id :: uuid
  npw_receive_address :: EvmAddress
  npw_window_from :: timestamp
  npw_window_from_block :: ChainBlockRef
  npw_expires_at :: timestamp
  npw_monitor_until :: timestamp

record PaymentWindowRecord =
  pwr_id :: uuid
  pwr_order_id :: uuid
  pwr_child_account_id :: uuid
  pwr_receive_address :: EvmAddress
  pwr_window_from :: timestamp
  pwr_window_from_block :: ChainBlockRef
  pwr_expires_at :: timestamp
  pwr_monitor_until :: timestamp
  pwr_created_at :: timestamp

record CreateOrderCommand =
  coc_order_id :: uuid
  coc_owner_sub :: string
  coc_external_id :: string
  coc_request_hash :: string
  coc_child_account :: NewChildAccount
  coc_chain_id :: u64
  coc_token_address :: EvmAddress
  coc_expected_amount_raw :: RawAmount
  coc_payment_window :: NewPaymentWindow

record OrderRecord =
  or_id :: uuid
  or_owner_sub :: string
  or_external_id :: string
  or_request_hash :: string
  or_child_account_id :: uuid
  or_receive_address :: EvmAddress
  or_chain_id :: u64
  or_token_address :: EvmAddress
  or_expected_amount_raw :: RawAmount
  or_paid_amount_raw :: RawAmount
  or_status :: OrderStatus
  or_expires_at :: timestamp
  or_monitor_until :: timestamp
  or_created_at :: timestamp
  or_updated_at :: timestamp

record OrderView =
  ov_order :: OrderRecord
  ov_child_account :: ChildAccountRecord
  ov_payment_window :: PaymentWindowRecord

record PaymentWindowCandidate =
  pwc_order_id :: uuid
  pwc_child_account_id :: uuid
  pwc_receive_address :: EvmAddress
  pwc_chain_id :: u64
  pwc_token_address :: EvmAddress
  pwc_expected_amount_raw :: RawAmount
  pwc_paid_amount_raw :: RawAmount
  pwc_order_status :: OrderStatus
  pwc_window_from :: timestamp
  pwc_window_from_block :: ChainBlockRef
  pwc_expires_at :: timestamp
  pwc_monitor_until :: timestamp

text \<open>A JSON value of \<open>serde_json\<close>; a number is kept as its text.\<close>

datatype json = JNull | JBool bool | JNumber string | JString string | JArray "json list" | JObject "(string \<times> json) list"

record AuditEventInput =
  aei_id :: uuid
  aei_event_type :: string
  aei_request_id :: "string option"
  aei_principal_sub :: "string option"
  aei_scopes :: "string option"
  aei_order_id :: "uuid option"
  aei_collection_id :: "uuid option"
  aei_tx_hash :: "TxHash option"
  aei_payload :: json

record AuditEventRecord = AuditEventInput +
  aer_created_at :: timestamp

record MatchedPaymentInput =
  mp_id :: uuid
  mp_order_id :: uuid
  mp_child_account_id :: uuid
  mp_chain_id :: u64
  mp_token_address :: EvmAddress
  mp_tx_hash :: TxHash
  mp_log_index :: u64
  mp_from_address :: EvmAddress
  mp_to_address :: EvmAddress
  mp_amount_raw :: RawAmount
  mp_block_number :: u64
  mp_block_hash :: BlockHash
  mp_block_time :: timestamp
  mp_confirmations :: u64
  mp_match_status :: PaymentMatchStatus
  mp_chain_status :: PaymentChainStatus

record PaymentRecord = MatchedPaymentInput +
  mp_created_at :: timestamp
  mp_updated_at :: timestamp

record PaymentConfirmationCandidate =
  pcc_payment_id :: uuid
  pcc_order_id :: uuid
  pcc_block :: ChainBlockRef
  pcc_confirmations :: u64

record ConfirmObservedPaymentsBatch =
  cop_chain_id :: u64
  cop_token_address :: EvmAddress
  cop_payment_ids :: "uuid list"
  cop_canonical_head :: ChainBlockRef

record ScanCursorLease =
  scl_chain_id :: u64
  scl_token_address :: EvmAddress
  scl_lease_owner :: string
  scl_lease_until :: timestamp
  scl_last_scanned_block :: u64
  scl_seen_kv_reorg_epoch :: u64

record ScanCursorState =
  scs_last_scanned_block :: u64
  scs_seen_kv_reorg_epoch :: u64

record CommitScannedBatch =
  csb_chain_id :: u64
  csb_token_address :: EvmAddress
  csb_worker_id :: string
  csb_expected_last_scanned_block :: u64
  csb_complete_to_block :: u64
  csb_expected_seen_kv_reorg_epoch :: u64
  csb_seen_kv_reorg_epoch :: u64
  csb_matched_payments :: "MatchedPaymentInput list"
  csb_recompute_order_ids :: "uuid list"

record OrderProblemPaymentRecord =
  opp_tx_hash :: TxHash
  opp_amount_raw :: RawAmount
  opp_block_number :: u64
  opp_block_time :: timestamp
  opp_confirmations :: u64
  opp_match_status :: PaymentMatchStatus
  opp_chain_status :: PaymentChainStatus

record OrderProblemCollectionRecord =
  opc_id :: uuid
  opc_status :: CollectionRecordStatus
  opc_amount_raw :: "RawAmount option"
  opc_outbound_tx_id :: "uuid option"
  opc_to_address :: EvmAddress
  opc_updated_at :: timestamp

record OrderManualAcceptanceRecord =
  oma_accepted_problem_payment_raw :: RawAmount
  oma_accepted_by :: string
  oma_reason :: "string option"
  oma_created_at :: timestamp
  oma_updated_at :: timestamp

record OrderPaymentDiagnostics =
  opd_problem_payment_count :: u64
  opd_problem_payment_total_raw :: RawAmount
  opd_late_payment_count :: u64
  opd_late_payment_total_raw :: RawAmount
  opd_outside_window_payment_count :: u64
  opd_outside_window_payment_total_raw :: RawAmount
  opd_latest_problem_payment :: "OrderProblemPaymentRecord option"
  opd_problem_collection :: "OrderProblemCollectionRecord option"
  opd_manual_acceptance :: "OrderManualAcceptanceRecord option"

record CreateCollectionCommand =
  ccc_collection_id :: uuid
  ccc_owner_sub :: string
  ccc_order_id :: uuid
  ccc_idempotency_key :: string
  ccc_request_hash :: string
  ccc_child_account_id :: uuid
  ccc_chain_id :: u64
  ccc_token_address :: EvmAddress
  ccc_from_address :: EvmAddress
  ccc_to_address :: EvmAddress
  ccc_amount_raw :: "RawAmount option"
  ccc_order_requirement :: CollectionOrderRequirement

record CollectionRecord =
  cr_id :: uuid
  cr_owner_sub :: string
  cr_order_id :: uuid
  cr_idempotency_key :: string
  cr_request_hash :: string
  cr_child_account_id :: uuid
  cr_chain_id :: u64
  cr_token_address :: EvmAddress
  cr_from_address :: EvmAddress
  cr_to_address :: EvmAddress
  cr_amount_raw :: "RawAmount option"
  cr_status :: CollectionRecordStatus
  cr_outbound_tx_id :: "uuid option"
  cr_attempt_count :: u32
  cr_locked_by :: "string option"
  cr_locked_until :: "timestamp option"
  cr_error :: "string option"
  cr_created_at :: timestamp
  cr_updated_at :: timestamp

record CollectionJob =
  cj_collection :: CollectionRecord
  cj_signer_key_ref :: string
  cj_derivation_version :: u32
  cj_derivation_segment :: DerivationSegment
  cj_derivation_path :: string

record ReservedNonce =
  rn_chain_id :: u64
  rn_address :: EvmAddress
  rn_nonce :: RawAmount

record NewSignedOutboundTx =
  nst_id :: uuid
  nst_chain_id :: u64
  nst_purpose :: OutboundTxPurpose
  nst_from_address :: EvmAddress
  nst_to_address :: EvmAddress
  nst_nonce :: RawAmount
  nst_gas_limit :: u64
  nst_max_fee_per_gas :: RawAmount
  nst_max_priority_fee_per_gas :: RawAmount
  nst_tx_hash :: TxHash
  nst_signed_tx :: bytes
  nst_replacement_of :: "uuid option"
  nst_replacement_reason :: "string option"

record OutboundTxRecord =
  otr_id :: uuid
  otr_chain_id :: u64
  otr_purpose :: OutboundTxPurpose
  otr_from_address :: EvmAddress
  otr_to_address :: EvmAddress
  otr_nonce :: RawAmount
  otr_gas_limit :: u64
  otr_max_fee_per_gas :: RawAmount
  otr_max_priority_fee_per_gas :: RawAmount
  otr_tx_hash :: TxHash
  otr_signed_tx :: bytes
  otr_status :: OutboundTxStatus
  otr_replacement_of :: "uuid option"
  otr_replacement_reason :: "string option"
  otr_broadcast_count :: u32
  otr_last_broadcast_at :: "timestamp option"
  otr_receipt_block :: "ChainBlockRef option"
  otr_error :: "string option"
  otr_created_at :: timestamp
  otr_updated_at :: timestamp

end
