(* ===== verification/Db_Tables.thy ===== *)
theory Db_Tables
  imports Db_Model
begin

text \<open>
  The tables of the schema (\<open>src/src/db/migrations\<close>) as lists of rows, the state \<open>db\<close>
  that holds them, and the schema's constraints that the repositories rely on.
\<close>

record payment_row =
  p_id :: uuid
  p_order_id :: uuid
  p_child_account_id :: uuid
  p_chain_id :: int
  p_token_address :: EvmAddress
  p_tx_hash :: TxHash
  p_log_index :: int
  p_from_address :: EvmAddress
  p_to_address :: EvmAddress
  p_amount_raw :: int
  p_block_number :: int
  p_block_hash :: BlockHash
  p_block_time :: timestamp
  p_confirmations :: int
  p_match_status :: PaymentMatchStatus
  p_chain_status :: PaymentChainStatus
  p_created_at :: timestamp
  p_updated_at :: timestamp

record order_row =
  o_id :: uuid
  o_owner_sub :: string
  o_external_id :: string
  o_request_hash :: string
  o_child_account_id :: uuid
  o_receive_address :: EvmAddress
  o_chain_id :: int
  o_token_address :: EvmAddress
  o_expected_amount_raw :: int
  o_paid_amount_raw :: int
  o_status :: OrderStatus
  o_expires_at :: timestamp
  o_monitor_until :: timestamp
  o_created_at :: timestamp
  o_updated_at :: timestamp

record window_row =
  w_id :: uuid
  w_order_id :: uuid
  w_child_account_id :: uuid
  w_receive_address :: EvmAddress
  w_window_from :: timestamp
  w_window_from_block :: int
  w_window_from_block_hash :: BlockHash
  w_expires_at :: timestamp
  w_monitor_until :: timestamp
  w_created_at :: timestamp

record child_account_row =
  c_id :: uuid
  c_signer_key_ref :: string
  c_derivation_version :: int
  c_account_index :: int
  c_change_index :: int
  c_address_index :: int
  c_derivation_path :: string
  c_address :: EvmAddress
  c_last_used_at :: "timestamp option"
  c_created_at :: timestamp

record wallet_cursor_row =
  wc_id :: string
  wc_signer_key_ref :: string
  wc_derivation_version :: int
  wc_account_index :: int
  wc_change_index :: int
  wc_next_address_index :: int

record cursor_row =
  cur_chain_id :: int
  cur_token_address :: EvmAddress
  cur_last_scanned_block :: int
  cur_seen_kv_reorg_epoch :: int
  cur_lease_owner :: "string option"
  cur_lease_until :: "timestamp option"

record override_row =
  ovr_order_id :: uuid
  ovr_accepted_raw :: int
  ovr_accepted_by :: string
  ovr_reason :: "string option"
  ovr_created_at :: timestamp
  ovr_updated_at :: timestamp

record collection_row =
  col_id :: uuid
  col_owner_sub :: string
  col_order_id :: uuid
  col_idempotency_key :: string
  col_request_hash :: string
  col_child_account_id :: uuid
  col_chain_id :: int
  col_token_address :: EvmAddress
  col_from_address :: EvmAddress
  col_to_address :: EvmAddress
  col_amount_raw :: "int option"
  col_status :: CollectionRecordStatus
  col_outbound_tx_id :: "uuid option"
  col_attempt_count :: int
  col_locked_by :: "string option"
  col_locked_until :: "timestamp option"
  col_error :: "string option"
  col_created_at :: timestamp
  col_updated_at :: timestamp

record outbound_row =
  ob_id :: uuid
  ob_chain_id :: int
  ob_purpose :: OutboundTxPurpose
  ob_from_address :: EvmAddress
  ob_to_address :: EvmAddress
  ob_nonce :: int
  ob_gas_limit :: int
  ob_max_fee_per_gas :: int
  ob_max_priority_fee_per_gas :: int
  ob_tx_hash :: TxHash
  ob_signed_tx :: bytes
  ob_status :: OutboundTxStatus
  ob_replacement_of :: "uuid option"
  ob_replacement_reason :: "string option"
  ob_broadcast_count :: int
  ob_last_broadcast_at :: "timestamp option"
  ob_receipt_block_number :: "int option"
  ob_receipt_block_hash :: "BlockHash option"
  ob_error :: "string option"
  ob_created_at :: timestamp
  ob_updated_at :: timestamp

record nonce_row =
  an_chain_id :: int
  an_address :: EvmAddress
  an_next_nonce :: int

record audit_row =
  au_id :: uuid
  au_event_type :: string
  au_request_id :: "string option"
  au_principal_sub :: "string option"
  au_scopes :: "string option"
  au_order_id :: "uuid option"
  au_collection_id :: "uuid option"
  au_tx_hash :: "string option"
  au_payload :: json
  au_created_at :: timestamp

record db =
  wallet_cursors :: "wallet_cursor_row list"
  child_accounts :: "child_account_row list"
  orders :: "order_row list"
  payment_windows :: "window_row list"
  payments :: "payment_row list"
  chain_cursors :: "cursor_row list"
  treasury_addresses :: "(int \<times> EvmAddress \<times> EvmAddress) list"
  relayer_addresses :: "(int \<times> EvmAddress) list"
  collections :: "collection_row list"
  account_nonces :: "nonce_row list"
  outbound_transactions :: "outbound_row list"
  order_payment_overrides :: "override_row list"
  audit_events :: "audit_row list"
  db_now :: timestamp

text \<open>\<open>UPDATE t SET f WHERE c\<close> on a table, and the rows it returns.\<close>

definition update_where :: "('r \<Rightarrow> bool) \<Rightarrow> ('r \<Rightarrow> 'r) \<Rightarrow> 'r list \<Rightarrow> 'r list" where
  "update_where c f rs = map (\<lambda>r. if c r then f r else r) rs"

definition find_row :: "('r \<Rightarrow> bool) \<Rightarrow> 'r list \<Rightarrow> 'r option" where
  "find_row c rs = find c rs"

lemma length_update_where [simp]: "length (update_where c f rs) = length rs"
  by (simp add: update_where_def)

lemma set_update_where: "set (update_where c f rs) = (\<lambda>r. if c r then f r else r) ` set rs"
  by (simp add: update_where_def)

lemma map_update_where:
  "(\<And>r. r \<in> set rs \<Longrightarrow> c r \<Longrightarrow> g (f r) = g r) \<Longrightarrow> map g (update_where c f rs) = map g rs"
  by (simp add: update_where_def)

lemma update_where_none: "(\<And>r. r \<in> set rs \<Longrightarrow> \<not> c r) \<Longrightarrow> update_where c f rs = rs"
  by (simp add: update_where_def map_idI)

lemma find_row_Some: "find_row c rs = Some r \<Longrightarrow> r \<in> set rs \<and> c r"
  by (auto simp: find_row_def find_Some_iff)

lemma find_row_None: "find_row c rs = None \<longleftrightarrow> (\<forall>r \<in> set rs. \<not> c r)"
  by (auto simp: find_row_def find_None_iff)

lemma find_row_update_other:
  assumes "\<And>r. c r \<Longrightarrow> q (f r) = q r"
  shows "find_row q (update_where c f rs) = map_option (\<lambda>r. if c r then f r else r) (find_row q rs)"
  using assms by (induction rs) (auto simp: find_row_def update_where_def)

lemma find_row_Nil [simp]: "find_row c [] = None"
  by (simp add: find_row_def)

lemma find_row_Cons [simp]: "find_row c (r # rs) = (if c r then Some r else find_row c rs)"
  by (simp add: find_row_def)

lemma find_row_append:
  "find_row c (xs @ ys) = (case find_row c xs of None \<Rightarrow> find_row c ys | Some r \<Rightarrow> Some r)"
  by (induction xs) auto

text \<open>A row found under a key that no other row has is the row with that key.\<close>

lemma find_row_unique:
  assumes "distinct (map k rs)" "r \<in> set rs" "k r = x"
  shows "find_row (\<lambda>r. k r = x) rs = Some r"
  using assms
proof (induction rs)
  case (Cons a rs)
  then show ?case by (auto simp: find_row_def image_iff)
qed simp

end
