(* ===== verification/Payment_Repo.thy ===== *)
theory Payment_Repo
  imports Db_Tables
begin

text \<open>
  The payment side of the repositories: \<open>payment_records.rs\<close> (upsert of a matched
  payment), \<open>payment_recompute.rs\<close> (order totals and status), \<open>payments.rs\<close> (scan cursor
  leases, the compare-and-swap commit of a scanned batch, confirmations, reorgs) and
  \<open>verified_payments.rs\<close>.  \<open>now\<close> is the application clock of a call.
\<close>

type_synonym 'a tx = "RepositoryError + ('a \<times> db)"

section \<open>Reading payments\<close>

definition payment_record_from_row :: "payment_row \<Rightarrow> RepositoryError + PaymentRecord" where
  "payment_record_from_row r =
     bindE (i64_to_u64 (p_chain_id r) ''chain_id'') (\<lambda>chain_id.
     bindE (i64_to_u64 (p_log_index r) ''log_index'') (\<lambda>log_index.
     bindE (raw_amount_from_numeric (p_amount_raw r)) (\<lambda>amount.
     bindE (i64_to_u64 (p_block_number r) ''block_number'') (\<lambda>block_number.
     bindE (i64_to_u64 (p_confirmations r) ''confirmations'') (\<lambda>confirmations.
     Ok \<lparr>mp_id = p_id r, mp_order_id = p_order_id r, mp_child_account_id = p_child_account_id r,
         mp_chain_id = chain_id, mp_token_address = p_token_address r, mp_tx_hash = p_tx_hash r,
         mp_log_index = log_index, mp_from_address = p_from_address r,
         mp_to_address = p_to_address r, mp_amount_raw = amount, mp_block_number = block_number,
         mp_block_hash = p_block_hash r, mp_block_time = p_block_time r,
         mp_confirmations = confirmations, mp_match_status = p_match_status r,
         mp_chain_status = p_chain_status r, mp_created_at = p_created_at r,
         mp_updated_at = p_updated_at r\<rparr>)))))"

definition payment_records_for_order_tx :: "uuid \<Rightarrow> db \<Rightarrow> RepositoryError + PaymentRecord list" where
  "payment_records_for_order_tx order_id d =
     traverseE payment_record_from_row
       (sort_key p_block_number (sort_key p_log_index (filter (\<lambda>r. p_order_id r = order_id) (payments d))))"


section \<open>Upsert\<close>

text \<open>The \<open>CASE\<close> of the insert: the match status is recomputed from the stored window.\<close>

definition window_match_status :: "window_row \<Rightarrow> int \<Rightarrow> timestamp \<Rightarrow> PaymentMatchStatus" where
  "window_match_status w block_number block_time =
     (if w_window_from_block w \<le> block_number \<and> block_time \<le> w_expires_at w then OnTime
      else if w_window_from_block w \<le> block_number \<and> block_time \<le> w_monitor_until w then Late
      else OutsideWindow)"

definition payment_key :: "payment_row \<Rightarrow> int \<times> TxHash \<times> int" where
  "payment_key r = (p_chain_id r, p_tx_hash r, p_log_index r)"

text \<open>\<open>DO UPDATE SET\<close>: everything but the id, the key and the creation time.\<close>

definition overwrite_payment :: "timestamp \<Rightarrow> payment_row \<Rightarrow> payment_row \<Rightarrow> payment_row" where
  "overwrite_payment tnow new old =
     new\<lparr>p_id := p_id old, p_chain_id := p_chain_id old, p_tx_hash := p_tx_hash old,
         p_log_index := p_log_index old, p_created_at := p_created_at old, p_updated_at := tnow\<rparr>"

definition upsert_row :: "payment_row \<Rightarrow> db \<Rightarrow> RepositoryError + (payment_row option \<times> db)" where
  "upsert_row new d =
     (if \<not> 0 < p_amount_raw new then Err (Database (CheckViolation ''payments_amount_raw_check''))
      else case find_row (\<lambda>r. payment_key r = payment_key new) (payments d) of
        None \<Rightarrow>
          if \<exists>r \<in> set (payments d). p_id r = p_id new
          then Err (Database (UniqueViolation ''payments_pkey''))
          else Ok (Some new, d\<lparr>payments := payments d @ [new]\<rparr>)
      | Some old \<Rightarrow>
          if p_order_id old = p_order_id new \<and> p_token_address old = p_token_address new
             \<and> p_to_address old = p_to_address new
          then let upd = overwrite_payment (db_now d) new old in
            Ok (Some upd, d\<lparr>payments := update_where (\<lambda>r. payment_key r = payment_key new) (\<lambda>_. upd) (payments d)\<rparr>)
          else Ok (None, d))"

text \<open>The row of the \<open>INSERT ... SELECT\<close>, from the order, its window and the bound values.\<close>

definition inserted_payment ::
  "order_row \<Rightarrow> window_row \<Rightarrow> MatchedPaymentInput \<Rightarrow> int \<Rightarrow> int \<Rightarrow> int \<Rightarrow> timestamp \<Rightarrow> payment_row" where
  "inserted_payment ord w payment log_index block_number confirmations tnow =
     \<lparr>p_id = mp_id payment, p_order_id = o_id ord, p_child_account_id = o_child_account_id ord,
      p_chain_id = o_chain_id ord, p_token_address = o_token_address ord,
      p_tx_hash = mp_tx_hash payment, p_log_index = log_index,
      p_from_address = mp_from_address payment, p_to_address = mp_to_address payment,
      p_amount_raw = raw_amount_to_numeric (mp_amount_raw payment),
      p_block_number = block_number, p_block_hash = mp_block_hash payment,
      p_block_time = mp_block_time payment, p_confirmations = confirmations,
      p_match_status = window_match_status w block_number (mp_block_time payment),
      p_chain_status = mp_chain_status payment, p_created_at = tnow, p_updated_at = tnow\<rparr>"

text \<open>The \<open>FROM orders JOIN payment_windows WHERE\<close> part: at most one row, by the keys of both tables.\<close>

definition select_payment_target ::
  "uuid \<Rightarrow> int \<Rightarrow> EvmAddress \<Rightarrow> EvmAddress \<Rightarrow> db \<Rightarrow> (order_row \<times> window_row) option" where
  "select_payment_target order_id chain token receive d =
     (case find_row (\<lambda>r. o_id r = order_id) (orders d) of
        None \<Rightarrow> None
      | Some ord \<Rightarrow>
          if o_chain_id ord = chain \<and> o_token_address ord = token \<and> o_receive_address ord = receive
          then map_option (Pair ord) (find_row (\<lambda>w. w_order_id w = o_id ord) (payment_windows d))
          else None)"

definition upsert_matched_payment_tx ::
  "u64 \<Rightarrow> EvmAddress \<Rightarrow> MatchedPaymentInput \<Rightarrow> db \<Rightarrow> PaymentRecord tx" where
  "upsert_matched_payment_tx chain_id token payment d =
     bindE (u64_to_i64 chain_id ''chain_id'') (\<lambda>chain.
     bindE (u64_to_i64 (mp_log_index payment) ''log_index'') (\<lambda>log_index.
     bindE (u64_to_i64 (mp_block_number payment) ''block_number'') (\<lambda>block_number.
     bindE (u64_to_i64 (mp_confirmations payment) ''confirmations'') (\<lambda>confirmations.
     let stale = StalePaymentMatch (mp_order_id payment) (mp_tx_hash payment) (mp_log_index payment) in
     case select_payment_target (mp_order_id payment) chain token (mp_to_address payment) d of
       None \<Rightarrow> Err stale
     | Some (ord, w) \<Rightarrow>
         bindE (upsert_row (inserted_payment ord w payment log_index block_number confirmations (db_now d)) d)
           (\<lambda>(row, d').
             case row of None \<Rightarrow> Err stale
             | Some r \<Rightarrow> bindE (payment_record_from_row r) (\<lambda>rec. Ok (rec, d')))))))"


section \<open>Recomputation of orders\<close>

definition recompute_status_from_totals :: "int \<Rightarrow> int \<Rightarrow> int \<Rightarrow> bool \<Rightarrow> OrderStatus" where
  "recompute_status_from_totals expected confirmed non_orphaned is_expired =
     (if expected \<le> confirmed then Paid
      else if expected \<le> non_orphaned then Confirming
      else if 0 < non_orphaned \<and> \<not> is_expired then Partial
      else if is_expired then Expired
      else Pending)"

definition confirmed_on_time_sum :: "payment_row list \<Rightarrow> uuid \<Rightarrow> int" where
  "confirmed_on_time_sum ps oid =
     sum_list (map p_amount_raw (filter (\<lambda>p. p_order_id p = oid \<and> p_match_status p = OnTime
       \<and> p_chain_status p = Confirmed) ps))"

definition non_orphaned_on_time_sum :: "payment_row list \<Rightarrow> uuid \<Rightarrow> int" where
  "non_orphaned_on_time_sum ps oid =
     sum_list (map p_amount_raw (filter (\<lambda>p. p_order_id p = oid \<and> p_match_status p = OnTime
       \<and> p_chain_status p \<noteq> Orphaned) ps))"

definition accepted_problem_raw :: "override_row list \<Rightarrow> uuid \<Rightarrow> int" where
  "accepted_problem_raw os oid =
     (case find_row (\<lambda>r. ovr_order_id r = oid) os of None \<Rightarrow> 0 | Some r \<Rightarrow> ovr_accepted_raw r)"

definition confirmed_accepted_total :: "db \<Rightarrow> uuid \<Rightarrow> int" where
  "confirmed_accepted_total d oid =
     confirmed_on_time_sum (payments d) oid + accepted_problem_raw (order_payment_overrides d) oid"

definition non_orphaned_accepted_total :: "db \<Rightarrow> uuid \<Rightarrow> int" where
  "non_orphaned_accepted_total d oid =
     non_orphaned_on_time_sum (payments d) oid + accepted_problem_raw (order_payment_overrides d) oid"

text \<open>One iteration of the update loop, for a row read at the start of the statement.\<close>

definition recompute_order_row :: "timestamp \<Rightarrow> db \<Rightarrow> order_row \<Rightarrow> RepositoryError + db" where
  "recompute_order_row now d ord =
     (let paid = confirmed_accepted_total d (o_id ord);
          status = recompute_status_from_totals (o_expected_amount_raw ord) paid
                     (non_orphaned_accepted_total d (o_id ord)) (o_expires_at ord \<le> now)
      in if \<not> fits_numeric paid then Err (Database NumericOverflow)
         else if paid < 0 then Err (Database (CheckViolation ''orders_paid_amount_raw_check''))
         else Ok (d\<lparr>orders := update_where (\<lambda>r. o_id r = o_id ord)
            (\<lambda>r. r\<lparr>o_paid_amount_raw := paid, o_status := status, o_updated_at := db_now d\<rparr>) (orders d)\<rparr>))"

text \<open>A \<open>BTreeSet\<close> of ids, in the order of its iteration.\<close>

definition id_set :: "uuid list \<Rightarrow> uuid list" where
  "id_set ids = sort (remdups ids)"

definition recompute_orders_in_tx :: "timestamp \<Rightarrow> uuid list \<Rightarrow> db \<Rightarrow> RepositoryError + db" where
  "recompute_orders_in_tx now ids d =
     (if ids = [] then Ok d
      else
        let rows = sort_key o_id (filter (\<lambda>r. o_id r \<in> set ids) (orders d)) in
        if length rows \<noteq> length ids then Err (OrderNotFoundForRecompute ids)
        else foldE (recompute_order_row now) d rows)"

definition recompute_orders :: "timestamp \<Rightarrow> uuid list \<Rightarrow> db \<Rightarrow> unit tx" where
  "recompute_orders now ids d = mapE (\<lambda>d'. ((), d')) (recompute_orders_in_tx now (id_set ids) d)"


section \<open>Scan cursors\<close>

definition cursor_key :: "cursor_row \<Rightarrow> int \<times> EvmAddress" where
  "cursor_key c = (cur_chain_id c, cur_token_address c)"

definition find_cursor :: "int \<Rightarrow> EvmAddress \<Rightarrow> db \<Rightarrow> cursor_row option" where
  "find_cursor chain token d = find_row (\<lambda>c. cursor_key c = (chain, token)) (chain_cursors d)"

definition held_by_other_live_worker :: "string \<Rightarrow> timestamp \<Rightarrow> cursor_row \<Rightarrow> bool" where
  "held_by_other_live_worker worker now c \<longleftrightarrow>
     (case cur_lease_owner c of None \<Rightarrow> False | Some owner \<Rightarrow> owner \<noteq> worker) \<and>
     (case cur_lease_until c of None \<Rightarrow> False | Some t \<Rightarrow> now < t)"

definition claim_scan_range ::
  "timestamp \<Rightarrow> string \<Rightarrow> u64 \<Rightarrow> EvmAddress \<Rightarrow> timestamp \<Rightarrow> db \<Rightarrow> ScanCursorLease option tx" where
  "claim_scan_range now worker_id chain_id token lease_until d =
     bindE (u64_to_i64 chain_id ''chain_id'') (\<lambda>chain.
     case find_cursor chain token d of
       None \<Rightarrow> Err (CursorNotFound chain_id token)
     | Some c \<Rightarrow>
         if held_by_other_live_worker worker_id now c then Ok (None, d)
         else
           bindE (i64_to_u64 (cur_last_scanned_block c) ''last_scanned_block'') (\<lambda>last.
           bindE (i64_to_u64 (cur_seen_kv_reorg_epoch c) ''seen_kv_reorg_epoch'') (\<lambda>seen.
           Ok (Some \<lparr>scl_chain_id = chain_id, scl_token_address = token, scl_lease_owner = worker_id,
                     scl_lease_until = lease_until, scl_last_scanned_block = last,
                     scl_seen_kv_reorg_epoch = seen\<rparr>,
               d\<lparr>chain_cursors := update_where (\<lambda>c. cursor_key c = (chain, token))
                   (\<lambda>c. c\<lparr>cur_lease_owner := Some worker_id, cur_lease_until := Some lease_until\<rparr>)
                   (chain_cursors d)\<rparr>))))"

definition scan_cursor_state :: "u64 \<Rightarrow> EvmAddress \<Rightarrow> db \<Rightarrow> RepositoryError + ScanCursorState option" where
  "scan_cursor_state chain_id token d =
     bindE (u64_to_i64 chain_id ''chain_id'') (\<lambda>chain.
     case find_cursor chain token d of
       None \<Rightarrow> Ok None
     | Some c \<Rightarrow>
         bindE (i64_to_u64 (cur_last_scanned_block c) ''last_scanned_block'') (\<lambda>last.
         bindE (i64_to_u64 (cur_seen_kv_reorg_epoch c) ''seen_kv_reorg_epoch'') (\<lambda>seen.
         Ok (Some \<lparr>scs_last_scanned_block = last, scs_seen_kv_reorg_epoch = seen\<rparr>))))"

text \<open>The loop over the matched payments: the records, in order, and the new state.\<close>

primrec upsert_all ::
  "u64 \<Rightarrow> EvmAddress \<Rightarrow> MatchedPaymentInput list \<Rightarrow> db \<Rightarrow> PaymentRecord list tx" where
  "upsert_all chain_id token [] d = Ok ([], d)"
| "upsert_all chain_id token (p # ps) d =
     bindE (upsert_matched_payment_tx chain_id token p d) (\<lambda>(r, d').
     bindE (upsert_all chain_id token ps d') (\<lambda>(rs, d''). Ok (r # rs, d'')))"

definition commit_scanned_batch :: "timestamp \<Rightarrow> CommitScannedBatch \<Rightarrow> db \<Rightarrow> PaymentRecord list tx" where
  "commit_scanned_batch now b d =
     (if csb_complete_to_block b < csb_expected_last_scanned_block b
      then Err (InvalidArgument ''complete_to_block''
        ''complete_to_block must not be lower than expected_last_scanned_block'')
      else
        bindE (u64_to_i64 (csb_chain_id b) ''chain_id'') (\<lambda>chain.
        bindE (u64_to_i64 (csb_expected_last_scanned_block b) ''expected_last_scanned_block'') (\<lambda>expected_last.
        bindE (u64_to_i64 (csb_expected_seen_kv_reorg_epoch b) ''expected_seen_kv_reorg_epoch'') (\<lambda>expected_seen.
        bindE (u64_to_i64 (csb_complete_to_block b) ''complete_to_block'') (\<lambda>complete_to.
        let token = csb_token_address b in
        case find_cursor chain token d of
          None \<Rightarrow> Err (CursorNotFound (csb_chain_id b) token)
        | Some c \<Rightarrow>
            if cur_lease_owner c \<noteq> Some (csb_worker_id b)
               \<or> cur_last_scanned_block c \<noteq> expected_last
               \<or> cur_seen_kv_reorg_epoch c \<noteq> expected_seen
            then
              bindE (i64_to_u64 (cur_last_scanned_block c) ''last_scanned_block'') (\<lambda>last.
              bindE (i64_to_u64 (cur_seen_kv_reorg_epoch c) ''seen_kv_reorg_epoch'') (\<lambda>seen.
              Err (CursorCasMismatch (csb_chain_id b) token (csb_worker_id b)
                (csb_expected_last_scanned_block b) last
                (csb_expected_seen_kv_reorg_epoch b) seen (cur_lease_owner c))))
            else
              bindE (upsert_all (csb_chain_id b) token (csb_matched_payments b) d) (\<lambda>(records, d1).
              bindE (recompute_orders_in_tx now (id_set (map mp_order_id records)) d1) (\<lambda>d2.
              Ok (records, d2\<lparr>chain_cursors := update_where
                  (\<lambda>c. cursor_key c = (chain, token) \<and> cur_lease_owner c = Some (csb_worker_id b)
                     \<and> cur_last_scanned_block c = expected_last \<and> cur_seen_kv_reorg_epoch c = expected_seen)
                  (\<lambda>c. c\<lparr>cur_last_scanned_block := complete_to, cur_lease_owner := None,
                         cur_lease_until := None\<rparr>)
                  (chain_cursors d2)\<rparr>))))))))"


section \<open>Confirmations\<close>

definition row_to_confirmation_candidate ::
  "payment_row \<Rightarrow> RepositoryError + PaymentConfirmationCandidate" where
  "row_to_confirmation_candidate r =
     bindE (i64_to_u64 (p_block_number r) ''block_number'') (\<lambda>n.
     bindE (i64_to_u64 (p_confirmations r) ''confirmations'') (\<lambda>k.
     Ok \<lparr>pcc_payment_id = p_id r, pcc_order_id = p_order_id r,
         pcc_block = \<lparr>cb_number = n, cb_hash = p_block_hash r\<rparr>, pcc_confirmations = k\<rparr>))"

text \<open>\<open>ORDER BY block_number, log_index, id\<close>.\<close>

definition order_by_position :: "payment_row list \<Rightarrow> payment_row list" where
  "order_by_position rs = sort_key p_block_number (sort_key p_log_index (sort_key p_id rs))"

definition observed_payment_confirmation_candidates ::
  "u64 \<Rightarrow> EvmAddress \<Rightarrow> u64 \<Rightarrow> nat \<Rightarrow> db \<Rightarrow> RepositoryError + PaymentConfirmationCandidate list" where
  "observed_payment_confirmation_candidates chain_id token max_block limit d =
     (if limit = 0 then Err (InvalidArgument ''limit'' ''limit must be greater than zero'')
      else
        bindE (u64_to_i64 chain_id ''chain_id'') (\<lambda>chain.
        bindE (u64_to_i64 max_block ''max_block_number'') (\<lambda>mx.
        if \<not> int limit < 2 ^ 63
        then Err (InvalidArgument ''limit'' ''limit exceeds PostgreSQL bigint range'')
        else traverseE row_to_confirmation_candidate
          (take limit (order_by_position (filter (\<lambda>r. p_chain_id r = chain \<and> p_token_address r = token
             \<and> p_chain_status r = Observed \<and> p_block_number r \<le> mx) (payments d)))))))"

definition confirmable :: "int \<Rightarrow> EvmAddress \<Rightarrow> uuid list \<Rightarrow> int \<Rightarrow> payment_row \<Rightarrow> bool" where
  "confirmable chain token ids head r \<longleftrightarrow>
     p_id r \<in> set ids \<and> p_chain_id r = chain \<and> p_token_address r = token
     \<and> p_chain_status r = Observed \<and> p_block_number r \<le> head"

definition confirm_row :: "timestamp \<Rightarrow> int \<Rightarrow> payment_row \<Rightarrow> payment_row" where
  "confirm_row tnow head r =
     r\<lparr>p_confirmations := max (p_confirmations r) (head - p_block_number r + 1),
       p_chain_status := Confirmed, p_updated_at := tnow\<rparr>"

definition confirm_observed_payments ::
  "timestamp \<Rightarrow> ConfirmObservedPaymentsBatch \<Rightarrow> db \<Rightarrow> PaymentRecord list tx" where
  "confirm_observed_payments now b d =
     (if cop_payment_ids b = [] then Ok ([], d)
      else
        bindE (u64_to_i64 (cop_chain_id b) ''chain_id'') (\<lambda>chain.
        bindE (u64_to_i64 (cb_number (cop_canonical_head b)) ''canonical_head.number'') (\<lambda>head.
        let sel = confirmable chain (cop_token_address b) (cop_payment_ids b) head;
            updated = map (confirm_row (db_now d) head) (filter sel (payments d));
            d1 = d\<lparr>payments := update_where sel (confirm_row (db_now d) head) (payments d)\<rparr>
        in
        bindE (traverseE payment_record_from_row (order_by_position updated)) (\<lambda>records.
        bindE (recompute_orders_in_tx now (id_set (map mp_order_id records)) d1) (\<lambda>d2.
        Ok (records, d2))))))"


section \<open>Reorgs\<close>

definition reorged :: "int \<Rightarrow> EvmAddress \<Rightarrow> int \<Rightarrow> payment_row \<Rightarrow> bool" where
  "reorged chain token from r \<longleftrightarrow>
     p_chain_id r = chain \<and> p_token_address r = token \<and> from \<le> p_block_number r
     \<and> p_chain_status r \<noteq> Orphaned"

definition handle_kv_reorg_epoch ::
  "timestamp \<Rightarrow> u64 \<Rightarrow> EvmAddress \<Rightarrow> u64 \<Rightarrow> u64 \<Rightarrow> db \<Rightarrow> unit tx" where
  "handle_kv_reorg_epoch now chain_id token epoch last_reorg_from d =
     bindE (u64_to_i64 chain_id ''chain_id'') (\<lambda>chain.
     bindE (u64_to_i64 epoch ''epoch'') (\<lambda>ep.
     bindE (u64_to_i64 last_reorg_from ''last_reorg_from'') (\<lambda>from.
     bindE (u64_to_i64 (saturating_sub last_reorg_from 1) ''rewind_to'') (\<lambda>rewind_to.
     case find_cursor chain token d of
       None \<Rightarrow> Err (CursorNotFound chain_id token)
     | Some c \<Rightarrow>
         if ep \<le> cur_seen_kv_reorg_epoch c then Ok ((), d)
         else
           let affected = map p_order_id (filter (reorged chain token from) (payments d));
               d1 = d\<lparr>payments := update_where (reorged chain token from)
                       (\<lambda>r. r\<lparr>p_chain_status := Orphaned, p_updated_at := db_now d\<rparr>) (payments d),
                     chain_cursors := update_where (\<lambda>c. cursor_key c = (chain, token))
                       (\<lambda>c. c\<lparr>cur_last_scanned_block := min (cur_last_scanned_block c) rewind_to,
                              cur_seen_kv_reorg_epoch := ep, cur_lease_owner := None,
                              cur_lease_until := None\<rparr>)
                       (chain_cursors d)\<rparr>
           in bindE (recompute_orders_in_tx now (id_set affected) d1) (\<lambda>d2. Ok ((), d2))))))"


section \<open>Manual verification\<close>

text \<open>Each payment is upserted under its own chain and token.\<close>

primrec upsert_verified :: "MatchedPaymentInput list \<Rightarrow> db \<Rightarrow> RepositoryError + db" where
  "upsert_verified [] d = Ok d"
| "upsert_verified (p # ps) d =
     bindE (upsert_matched_payment_tx (mp_chain_id p) (mp_token_address p) p d) (\<lambda>(_, d').
     upsert_verified ps d')"

definition record_verified_payments ::
  "timestamp \<Rightarrow> uuid \<Rightarrow> MatchedPaymentInput list \<Rightarrow> db \<Rightarrow> PaymentRecord list tx" where
  "record_verified_payments now order_id ps d =
     (if \<exists>p \<in> set ps. mp_order_id p \<noteq> order_id
      then Err (InvariantViolation ''manual verify recorder received payment for a different order'')
      else
        bindE (upsert_verified ps d) (\<lambda>d1.
        bindE (recompute_orders_in_tx now [order_id] d1) (\<lambda>d2.
        bindE (payment_records_for_order_tx order_id d2) (\<lambda>records.
        Ok (records, d2)))))"

end
