(* ===== verification/Payment_Ledger.thy ===== *)
theory Payment_Ledger
  imports Payment_Repo
begin

text \<open>
  What the payment repositories keep true.  \<open>schema_ok\<close> collects the keys, foreign keys and
  checks of the schema that concern payments; \<open>ledger_ok\<close> says that every order carries
  exactly what its payments and its manual acceptance amount to, and a status that
  follows from them.  Every operation of \<open>Payment_Repo\<close> preserves both.
\<close>

section \<open>The invariants\<close>

definition keys_ok :: "db \<Rightarrow> bool" where
  "keys_ok d \<longleftrightarrow>
     distinct (map o_id (orders d)) \<and> distinct (map payment_key (payments d)) \<and>
     distinct (map p_id (payments d)) \<and> distinct (map cursor_key (chain_cursors d)) \<and>
     distinct (map w_order_id (payment_windows d)) \<and>
     distinct (map ovr_order_id (order_payment_overrides d))"

text \<open>The composite foreign key of \<open>payments\<close> into \<open>orders\<close>.\<close>

definition payment_references :: "payment_row \<Rightarrow> order_row \<Rightarrow> bool" where
  "payment_references p ord \<longleftrightarrow>
     o_id ord = p_order_id p \<and> o_chain_id ord = p_chain_id p \<and> o_token_address ord = p_token_address p
     \<and> o_child_account_id ord = p_child_account_id p \<and> o_receive_address ord = p_to_address p"

definition payment_row_ok :: "payment_row \<Rightarrow> bool" where
  "payment_row_ok p \<longleftrightarrow>
     0 < p_amount_raw p \<and> 0 \<le> p_chain_id p \<and> 0 \<le> p_log_index p \<and> 0 \<le> p_block_number p
     \<and> p_block_number p < 2 ^ 63 \<and> 0 \<le> p_confirmations p"

definition payments_ok :: "db \<Rightarrow> bool" where
  "payments_ok d \<longleftrightarrow>
     (\<forall>p \<in> set (payments d). payment_row_ok p \<and> (\<exists>ord \<in> set (orders d). payment_references p ord)) \<and>
     (\<forall>ord \<in> set (orders d). 0 \<le> o_chain_id ord \<and> 0 < o_expected_amount_raw ord) \<and>
     (\<forall>r \<in> set (order_payment_overrides d).
        0 < ovr_accepted_raw r \<and> ovr_order_id r \<in> o_id ` set (orders d))"

definition cursor_ok :: "cursor_row \<Rightarrow> bool" where
  "cursor_ok c \<longleftrightarrow>
     0 \<le> cur_chain_id c \<and> 0 \<le> cur_last_scanned_block c \<and> 0 \<le> cur_seen_kv_reorg_epoch c \<and>
     cur_last_scanned_block c < 2 ^ 63 \<and> cur_seen_kv_reorg_epoch c < 2 ^ 63 \<and>
     (cur_lease_owner c = None \<longleftrightarrow> cur_lease_until c = None)"

definition schema_ok :: "db \<Rightarrow> bool" where
  "schema_ok d \<longleftrightarrow> keys_ok d \<and> payments_ok d \<and> (\<forall>c \<in> set (chain_cursors d). cursor_ok c)"

definition order_settled :: "db \<Rightarrow> order_row \<Rightarrow> bool" where
  "order_settled d ord \<longleftrightarrow>
     o_paid_amount_raw ord = confirmed_accepted_total d (o_id ord) \<and>
     (\<exists>expired. o_status ord = recompute_status_from_totals (o_expected_amount_raw ord)
        (confirmed_accepted_total d (o_id ord)) (non_orphaned_accepted_total d (o_id ord)) expired)"

definition ledger_ok :: "db \<Rightarrow> bool" where
  "ledger_ok d \<longleftrightarrow> (\<forall>ord \<in> set (orders d). order_settled d ord)"

text \<open>Between an update of payments and the recomputation, only the affected orders may lag.\<close>

definition ledger_ok_except :: "uuid set \<Rightarrow> db \<Rightarrow> bool" where
  "ledger_ok_except ids d \<longleftrightarrow> (\<forall>ord \<in> set (orders d). o_id ord \<notin> ids \<longrightarrow> order_settled d ord)"

lemma ledger_ok_except_empty: "ledger_ok_except {} d = ledger_ok d"
  by (simp add: ledger_ok_except_def ledger_ok_def)


section \<open>Totals depend on the payments of the order only\<close>

definition payments_of :: "uuid \<Rightarrow> payment_row list \<Rightarrow> payment_row list" where
  "payments_of oid ps = filter (\<lambda>p. p_order_id p = oid) ps"

lemma sums_payments_of:
  "confirmed_on_time_sum ps oid = confirmed_on_time_sum (payments_of oid ps) oid"
  "non_orphaned_on_time_sum ps oid = non_orphaned_on_time_sum (payments_of oid ps) oid"
  by (simp_all add: confirmed_on_time_sum_def non_orphaned_on_time_sum_def payments_of_def conj_commute
      cong: conj_cong)

lemma totals_cong:
  assumes "payments_of oid (payments d') = payments_of oid (payments d)"
    "order_payment_overrides d' = order_payment_overrides d"
  shows "confirmed_accepted_total d' oid = confirmed_accepted_total d oid"
    "non_orphaned_accepted_total d' oid = non_orphaned_accepted_total d oid"
  unfolding confirmed_accepted_total_def non_orphaned_accepted_total_def assms(2)
  using assms(1) sums_payments_of by metis+

lemma order_settled_cong:
  assumes "payments_of (o_id ord) (payments d') = payments_of (o_id ord) (payments d)"
    "order_payment_overrides d' = order_payment_overrides d"
  shows "order_settled d' ord = order_settled d ord"
  using totals_cong[OF assms] by (simp add: order_settled_def)

lemma payments_of_update_where:
  assumes "\<And>r. r \<in> set ps \<Longrightarrow> c r \<Longrightarrow> p_order_id r \<noteq> oid \<and> p_order_id (f r) \<noteq> oid"
  shows "payments_of oid (update_where c f ps) = payments_of oid ps"
  using assms by (induction ps) (auto simp: payments_of_def update_where_def)

lemma payments_of_append: "payments_of oid (ps @ qs) = payments_of oid ps @ payments_of oid qs"
  by (simp add: payments_of_def)


section \<open>Recomputation settles the affected orders\<close>

definition settle :: "timestamp \<Rightarrow> db \<Rightarrow> order_row \<Rightarrow> order_row" where
  "settle now d ord =
     ord\<lparr>o_paid_amount_raw := confirmed_accepted_total d (o_id ord),
         o_status := recompute_status_from_totals (o_expected_amount_raw ord)
           (confirmed_accepted_total d (o_id ord)) (non_orphaned_accepted_total d (o_id ord))
           (o_expires_at ord \<le> now),
         o_updated_at := db_now d\<rparr>"

lemma settle_simps [simp]:
  "o_id (settle now d ord) = o_id ord" "o_owner_sub (settle now d ord) = o_owner_sub ord"
  "o_external_id (settle now d ord) = o_external_id ord"
  "o_request_hash (settle now d ord) = o_request_hash ord"
  "o_child_account_id (settle now d ord) = o_child_account_id ord"
  "o_receive_address (settle now d ord) = o_receive_address ord"
  "o_chain_id (settle now d ord) = o_chain_id ord"
  "o_token_address (settle now d ord) = o_token_address ord"
  "o_expected_amount_raw (settle now d ord) = o_expected_amount_raw ord"
  "o_expires_at (settle now d ord) = o_expires_at ord"
  "o_monitor_until (settle now d ord) = o_monitor_until ord"
  by (simp_all add: settle_def)

lemma totals_orders_update [simp]:
  "confirmed_accepted_total (d\<lparr>orders := os\<rparr>) oid = confirmed_accepted_total d oid"
  "non_orphaned_accepted_total (d\<lparr>orders := os\<rparr>) oid = non_orphaned_accepted_total d oid"
  by (simp_all add: confirmed_accepted_total_def non_orphaned_accepted_total_def)

lemma settle_orders_update [simp]: "settle now (d\<lparr>orders := os\<rparr>) ord = settle now d ord"
  by (simp add: settle_def)

lemma settle_settle [simp]: "settle now d (settle now d ord) = settle now d ord"
  by (simp add: settle_def)

lemma order_settled_orders_update [simp]: "order_settled (d\<lparr>orders := os\<rparr>) ord = order_settled d ord"
  by (simp add: order_settled_def)

lemma order_settled_settle: "order_settled d (settle now d ord)"
  by (auto simp: order_settled_def settle_def)

text \<open>The row read at the start agrees with the current one on what the loop uses of it.\<close>

definition row_agrees :: "order_row list \<Rightarrow> order_row \<Rightarrow> bool" where
  "row_agrees os row \<longleftrightarrow>
     (\<forall>r \<in> set os. o_id r = o_id row \<longrightarrow>
        o_expected_amount_raw r = o_expected_amount_raw row \<and> o_expires_at r = o_expires_at row)"

lemma recompute_order_row_Ok:
  assumes "recompute_order_row now d row = Ok d'" "row_agrees (orders d) row"
  shows "d' = d\<lparr>orders := map (\<lambda>r. if o_id r = o_id row then settle now d r else r) (orders d)\<rparr>"
proof -
  have "update_where (\<lambda>r. o_id r = o_id row)
      (\<lambda>r. r\<lparr>o_paid_amount_raw := confirmed_accepted_total d (o_id row),
        o_status := recompute_status_from_totals (o_expected_amount_raw row)
          (confirmed_accepted_total d (o_id row)) (non_orphaned_accepted_total d (o_id row))
          (o_expires_at row \<le> now), o_updated_at := db_now d\<rparr>) (orders d)
    = map (\<lambda>r. if o_id r = o_id row then settle now d r else r) (orders d)"
    using assms(2) by (auto simp: update_where_def settle_def row_agrees_def)
  then show ?thesis
    using assms(1) by (auto simp: recompute_order_row_def Let_def split: if_splits)
qed

lemma recompute_rows_Ok:
  assumes "foldE (recompute_order_row now) d rows = Ok d'" "\<forall>row \<in> set rows. row_agrees (orders d) row"
  shows "d' = d\<lparr>orders := map (\<lambda>r. if o_id r \<in> o_id ` set rows then settle now d r else r) (orders d)\<rparr>"
  using assms
proof (induction rows arbitrary: d)
  case (Cons row rows)
  define os where "os = map (\<lambda>r. if o_id r = o_id row then settle now d r else r) (orders d)"
  obtain d1 where d1: "recompute_order_row now d row = Ok d1" "foldE (recompute_order_row now) d1 rows = Ok d'"
    using Cons.prems(1) by (auto simp: bindE_eq_Ok)
  have eq: "d1 = d\<lparr>orders := os\<rparr>"
    using recompute_order_row_Ok[OF d1(1)] Cons.prems(2) by (simp add: os_def)
  have "\<forall>row \<in> set rows. row_agrees (orders d1) row"
    using Cons.prems(2) by (auto simp: eq os_def row_agrees_def)
  from Cons.IH[OF d1(2) this] have "d' = d1\<lparr>orders :=
      map (\<lambda>r. if o_id r \<in> o_id ` set rows then settle now d1 r else r) (orders d1)\<rparr>" .
  then show ?case by (auto simp: eq os_def comp_def intro!: arg_cong[where f = "\<lambda>x. d\<lparr>orders := x\<rparr>"])
qed simp

lemma recompute_orders_in_tx_Ok:
  assumes "recompute_orders_in_tx now ids d = Ok d'" "distinct (map o_id (orders d))"
  shows "d' = d\<lparr>orders := map (\<lambda>r. if o_id r \<in> set ids then settle now d r else r) (orders d)\<rparr>"
proof (cases "ids = []")
  case False
  define rows where "rows = sort_key o_id (filter (\<lambda>r. o_id r \<in> set ids) (orders d))"
  have "foldE (recompute_order_row now) d rows = Ok d'"
    using assms(1) False by (auto simp: recompute_orders_in_tx_def rows_def Let_def split: if_splits)
  moreover have "\<forall>row \<in> set rows. row_agrees (orders d) row"
    using assms(2) by (auto simp: rows_def row_agrees_def distinct_map inj_on_def)
  ultimately have "d' = d\<lparr>orders := map (\<lambda>r. if o_id r \<in> o_id ` set rows then settle now d r else r) (orders d)\<rparr>"
    by (rule recompute_rows_Ok)
  also have "map (\<lambda>r. if o_id r \<in> o_id ` set rows then settle now d r else r) (orders d)
      = map (\<lambda>r. if o_id r \<in> set ids then settle now d r else r) (orders d)"
    by (rule map_cong) (auto simp: rows_def)
  finally show ?thesis .
qed (use assms in \<open>simp add: recompute_orders_in_tx_def\<close>)

text \<open>So the recomputation restores the invariant when only the given orders lag behind.\<close>

lemma recompute_restores_ledger:
  assumes "recompute_orders_in_tx now ids d = Ok d'" "distinct (map o_id (orders d))"
    "ledger_ok_except (set ids) d"
  shows "ledger_ok d'"
  using assms(3) recompute_orders_in_tx_Ok[OF assms(1,2)]
  by (auto simp: ledger_ok_def ledger_ok_except_def order_settled_settle)

lemma recompute_frame:
  assumes "recompute_orders_in_tx now ids d = Ok d'" "distinct (map o_id (orders d))"
  shows "payments d' = payments d" "chain_cursors d' = chain_cursors d"
    "payment_windows d' = payment_windows d" "order_payment_overrides d' = order_payment_overrides d"
    "map o_id (orders d') = map o_id (orders d)"
  using recompute_orders_in_tx_Ok[OF assms] by simp_all

text \<open>Replacing order rows by rows that agree on the referenced columns keeps the foreign key.\<close>

lemma payments_ok_orders_map:
  assumes ok: "payments_ok d"
    and f: "\<And>r. o_id (f r) = o_id r \<and> o_chain_id (f r) = o_chain_id r \<and> o_token_address (f r) = o_token_address r
      \<and> o_child_account_id (f r) = o_child_account_id r \<and> o_receive_address (f r) = o_receive_address r
      \<and> o_expected_amount_raw (f r) = o_expected_amount_raw r"
  shows "payments_ok (d\<lparr>orders := map f (orders d)\<rparr>)"
proof -
  have "\<exists>ord \<in> f ` set (orders d). payment_references p ord" if p: "p \<in> set (payments d)" for p
  proof -
    obtain ord where ord: "ord \<in> set (orders d)" "payment_references p ord"
      using ok p by (auto simp: payments_ok_def)
    then have "payment_references p (f ord)" using f[of ord] by (simp add: payment_references_def)
    with ord(1) show ?thesis by blast
  qed
  with ok f show ?thesis by (simp add: payments_ok_def image_image)
qed

lemma recompute_keeps_schema:
  assumes "recompute_orders_in_tx now ids d = Ok d'" "schema_ok d"
  shows "schema_ok d'"
proof -
  have dist: "distinct (map o_id (orders d))" using assms(2) by (simp add: schema_ok_def keys_ok_def)
  have "payments_ok d'"
    unfolding recompute_orders_in_tx_Ok[OF assms(1) dist]
    using assms(2) by (intro payments_ok_orders_map) (simp_all add: schema_ok_def)
  then show ?thesis
    using assms(2) by (simp add: schema_ok_def keys_ok_def recompute_frame[OF assms(1) dist])
qed


section \<open>Upserting a payment\<close>

lemma overwrite_payment_simps [simp]:
  "p_id (overwrite_payment t new old) = p_id old" "p_chain_id (overwrite_payment t new old) = p_chain_id old"
  "p_tx_hash (overwrite_payment t new old) = p_tx_hash old"
  "p_log_index (overwrite_payment t new old) = p_log_index old"
  "p_order_id (overwrite_payment t new old) = p_order_id new"
  "p_child_account_id (overwrite_payment t new old) = p_child_account_id new"
  "p_token_address (overwrite_payment t new old) = p_token_address new"
  "p_to_address (overwrite_payment t new old) = p_to_address new"
  "p_amount_raw (overwrite_payment t new old) = p_amount_raw new"
  "p_block_number (overwrite_payment t new old) = p_block_number new"
  "p_block_hash (overwrite_payment t new old) = p_block_hash new"
  "p_block_time (overwrite_payment t new old) = p_block_time new"
  "p_from_address (overwrite_payment t new old) = p_from_address new"
  "p_confirmations (overwrite_payment t new old) = p_confirmations new"
  "p_match_status (overwrite_payment t new old) = p_match_status new"
  "p_chain_status (overwrite_payment t new old) = p_chain_status new"
  by (simp_all add: overwrite_payment_def)

lemma payment_key_overwrite [simp]: "payment_key (overwrite_payment t new old) = payment_key old"
  by (simp add: payment_key_def)

text \<open>Either the row is new and appended, or it replaces the one row with its key.\<close>

lemma upsert_row_cases:
  assumes "upsert_row new d = Ok (Some r, d')"
  obtains (insert) "payment_key new \<notin> payment_key ` set (payments d)" "p_id new \<notin> p_id ` set (payments d)"
      "r = new" "d' = d\<lparr>payments := payments d @ [new]\<rparr>" "0 < p_amount_raw new"
  | (overwrite) old where "old \<in> set (payments d)" "payment_key old = payment_key new"
      "p_order_id old = p_order_id new" "r = overwrite_payment (db_now d) new old"
      "d' = d\<lparr>payments := update_where (\<lambda>q. payment_key q = payment_key new) (\<lambda>_. r) (payments d)\<rparr>"
      "0 < p_amount_raw new"
proof (cases "find_row (\<lambda>r. payment_key r = payment_key new) (payments d)")
  case None
  then have "payment_key new \<notin> payment_key ` set (payments d)" by (auto simp: find_row_None)
  with None show ?thesis
    using assms by (intro insert) (auto simp: upsert_row_def split: if_splits)
next
  case (Some old)
  then show ?thesis
    using assms find_row_Some[OF Some]
    by (intro overwrite[of old]) (auto simp: upsert_row_def Let_def split: if_splits)
qed

lemma upsert_row_keys:
  assumes "upsert_row new d = Ok (Some r, d')" "keys_ok d"
  shows "keys_ok d'"
  using assms(1)
proof (cases rule: upsert_row_cases)
  case insert
  with assms(2) show ?thesis by (auto simp: keys_ok_def)
next
  case (overwrite old)
  have same: "q = old" if "q \<in> set (payments d)" "payment_key q = payment_key new" for q
    using that overwrite(1,2) assms(2) by (auto simp: keys_ok_def distinct_map inj_on_def)
  have "map payment_key (update_where (\<lambda>q. payment_key q = payment_key new) (\<lambda>_. r) (payments d))
      = map payment_key (payments d)"
    by (rule map_update_where) (simp add: overwrite(2,4))
  moreover have "map p_id (update_where (\<lambda>q. payment_key q = payment_key new) (\<lambda>_. r) (payments d))
      = map p_id (payments d)"
    by (rule map_update_where) (use same in \<open>simp add: overwrite(4)\<close>)
  ultimately show ?thesis using assms(2) by (simp add: keys_ok_def overwrite(5))
qed

lemma upsert_row_payments_of:
  assumes "upsert_row new d = Ok (Some r, d')" "keys_ok d" "oid \<noteq> p_order_id new"
  shows "payments_of oid (payments d') = payments_of oid (payments d)"
  using assms(1)
proof (cases rule: upsert_row_cases)
  case insert
  with assms(3) show ?thesis by (simp add: payments_of_def)
next
  case (overwrite old)
  have same: "q = old" if "q \<in> set (payments d)" "payment_key q = payment_key new" for q
    using that overwrite(1,2) assms(2) by (auto simp: keys_ok_def distinct_map inj_on_def)
  have "payments_of oid (update_where (\<lambda>q. payment_key q = payment_key new) (\<lambda>_. r) (payments d))
      = payments_of oid (payments d)"
  proof (rule payments_of_update_where)
    fix q assume "q \<in> set (payments d)" "payment_key q = payment_key new"
    then have "q = old" by (rule same)
    then show "p_order_id q \<noteq> oid \<and> p_order_id r \<noteq> oid" using assms(3) by (simp add: overwrite(3,4))
  qed
  then show ?thesis by (simp add: overwrite(5))
qed

lemma upsert_row_payments_ok:
  assumes "upsert_row new d = Ok (Some r, d')" "payments_ok d" "payment_row_ok new"
    "ord \<in> set (orders d)" "payment_references new ord"
  shows "payments_ok d'"
  using assms(1)
proof (cases rule: upsert_row_cases)
  case insert
  with assms(2-5) show ?thesis by (auto simp: payments_ok_def)
next
  case (overwrite old)
  have r: "payment_row_ok r" "payment_references r ord"
    using assms(3,5) overwrite(2,4)
    by (auto simp: payment_row_ok_def payment_references_def payment_key_def)
  have "set (payments d') \<subseteq> insert r (set (payments d))"
    using overwrite(5) by (auto simp: set_update_where)
  moreover have "orders d' = orders d" "order_payment_overrides d' = order_payment_overrides d"
    using overwrite(5) by simp_all
  ultimately show ?thesis using assms(2,4) r unfolding payments_ok_def by auto
qed

lemma payment_record_from_row_Ok:
  assumes "payment_record_from_row r = Ok rec"
  shows "mp_id rec = p_id r" "mp_order_id rec = p_order_id r" "mp_tx_hash rec = p_tx_hash r"
    "uint (mp_amount_raw rec) = p_amount_raw r" "mp_match_status rec = p_match_status r"
    "mp_chain_status rec = p_chain_status r" "mp_to_address rec = p_to_address r"
  using assms
  by (auto simp: payment_record_from_row_def bindE_eq_Ok dest: raw_amount_from_numeric_Ok)

lemma select_payment_target_Some:
  assumes "select_payment_target oid chain token receive d = Some (ord, w)"
  shows "ord \<in> set (orders d)" "o_id ord = oid" "o_chain_id ord = chain" "o_token_address ord = token"
    "o_receive_address ord = receive" "w \<in> set (payment_windows d)" "w_order_id w = oid"
  using assms
  by (auto simp: select_payment_target_def split: option.splits if_splits dest!: find_row_Some)

lemma inserted_payment_simps [simp]:
  "p_id (inserted_payment ord w p l b c t) = mp_id p"
  "p_order_id (inserted_payment ord w p l b c t) = o_id ord"
  "p_amount_raw (inserted_payment ord w p l b c t) = uint (mp_amount_raw p)"
  "payment_key (inserted_payment ord w p l b c t) = (o_chain_id ord, mp_tx_hash p, l)"
  "p_match_status (inserted_payment ord w p l b c t) = window_match_status w b (mp_block_time p)"
  "p_chain_status (inserted_payment ord w p l b c t) = mp_chain_status p"
  by (simp_all add: inserted_payment_def payment_key_def raw_amount_to_numeric_def)

lemma inserted_payment_references:
  "o_receive_address ord = mp_to_address p \<Longrightarrow> payment_references (inserted_payment ord w p l b c t) ord"
  by (simp add: inserted_payment_def payment_references_def)

lemma inserted_payment_row_ok:
  "0 < mp_amount_raw p \<Longrightarrow> 0 \<le> o_chain_id ord \<Longrightarrow> 0 \<le> l \<Longrightarrow> 0 \<le> b \<Longrightarrow> b < 2 ^ 63 \<Longrightarrow> 0 \<le> c \<Longrightarrow>
    payment_row_ok (inserted_payment ord w p l b c t)"
  by (simp add: inserted_payment_def payment_row_ok_def raw_amount_to_numeric_def word_less_def)

lemma upsert_matched_payment_tx_Ok:
  assumes "upsert_matched_payment_tx chain_id token p d = Ok (rec, d')"
  obtains ord w r where
    "select_payment_target (mp_order_id p) (uint chain_id) token (mp_to_address p) d = Some (ord, w)"
    "upsert_row (inserted_payment ord w p (uint (mp_log_index p)) (uint (mp_block_number p))
       (uint (mp_confirmations p)) (db_now d)) d = Ok (Some r, d')"
    "payment_record_from_row r = Ok rec"
proof -
  from assms obtain row where
    sel: "case select_payment_target (mp_order_id p) (uint chain_id) token (mp_to_address p) d of
      None \<Rightarrow> False
    | Some (ord, w) \<Rightarrow> (\<exists>row. upsert_row (inserted_payment ord w p (uint (mp_log_index p))
        (uint (mp_block_number p)) (uint (mp_confirmations p)) (db_now d)) d = Ok (Some row, d')
        \<and> payment_record_from_row row = Ok rec)"
    by (auto simp: upsert_matched_payment_tx_def bindE_eq_Ok u64_to_i64_Ok Let_def split: option.splits)
  then show thesis by (auto split: option.splits intro: that)
qed

text \<open>What a committed call has converted fits a \<open>bigint\<close>.\<close>

lemma upsert_block_fits: "upsert_matched_payment_tx chain_id token p d = Ok x \<Longrightarrow> uint (mp_block_number p) < 2 ^ 63"
  by (auto simp: upsert_matched_payment_tx_def bindE_eq_Ok u64_to_i64_Ok)

text \<open>The frame and the invariant of one upsert.\<close>

lemma upsert_tx_keeps:
  assumes "upsert_matched_payment_tx chain_id token p d = Ok (rec, d')" "schema_ok d"
  shows "schema_ok d'" "d' = d\<lparr>payments := payments d'\<rparr>" "mp_order_id rec = mp_order_id p"
    "\<And>oid. oid \<noteq> mp_order_id p \<Longrightarrow> payments_of oid (payments d') = payments_of oid (payments d)"
    "mp_order_id p \<in> o_id ` set (orders d)"
proof -
  obtain ord w r where sel: "select_payment_target (mp_order_id p) (uint chain_id) token (mp_to_address p) d = Some (ord, w)"
    and up: "upsert_row (inserted_payment ord w p (uint (mp_log_index p)) (uint (mp_block_number p))
       (uint (mp_confirmations p)) (db_now d)) d = Ok (Some r, d')"
    and rec: "payment_record_from_row r = Ok rec"
    using assms(1) by (rule upsert_matched_payment_tx_Ok)
  let ?new = "inserted_payment ord w p (uint (mp_log_index p)) (uint (mp_block_number p))
       (uint (mp_confirmations p)) (db_now d)"
  note tgt = select_payment_target_Some[OF sel]
  have keys: "keys_ok d" "payments_ok d" using assms(2) by (simp_all add: schema_ok_def)
  have frame: "d' = d\<lparr>payments := payments d'\<rparr>" and oid: "p_order_id r = mp_order_id p"
    and pos: "0 < p_amount_raw ?new" and cur: "chain_cursors d' = chain_cursors d"
    using up tgt(2) by (cases rule: upsert_row_cases; simp)+
  have "payment_row_ok ?new"
    using tgt pos keys upsert_block_fits[OF assms(1)]
    by (intro inserted_payment_row_ok) (auto simp: payments_ok_def word_less_def)
  then have "payments_ok d'"
    using upsert_row_payments_ok[OF up keys(2) _ tgt(1)] inserted_payment_references[OF tgt(5)] by blast
  moreover have "keys_ok d'" by (rule upsert_row_keys[OF up keys(1)])
  ultimately show "schema_ok d'" using assms(2) by (simp add: schema_ok_def cur)
  show "d' = d\<lparr>payments := payments d'\<rparr>" by (fact frame)
  show "mp_order_id rec = mp_order_id p" using payment_record_from_row_Ok(2)[OF rec] oid by simp
  show "payments_of oid (payments d') = payments_of oid (payments d)" if "oid \<noteq> mp_order_id p" for oid
    using upsert_row_payments_of[OF up keys(1)] that tgt(2) by simp
  show "mp_order_id p \<in> o_id ` set (orders d)" using tgt(1,2) by force
qed


lemma upsert_all_keeps:
  assumes "upsert_all chain_id token ps d = Ok (recs, d')" "schema_ok d"
  shows "schema_ok d'" "d' = d\<lparr>payments := payments d'\<rparr>" "map mp_order_id recs = map mp_order_id ps"
    "\<And>oid. oid \<notin> mp_order_id ` set ps \<Longrightarrow> payments_of oid (payments d') = payments_of oid (payments d)"
proof -
  have "schema_ok d' \<and> d' = d\<lparr>payments := payments d'\<rparr> \<and> map mp_order_id recs = map mp_order_id ps \<and>
    (\<forall>oid. oid \<notin> mp_order_id ` set ps \<longrightarrow> payments_of oid (payments d') = payments_of oid (payments d))"
    using assms
  proof (induction ps arbitrary: d recs)
    case (Cons p ps)
    then obtain r rs d1 where 1: "upsert_matched_payment_tx chain_id token p d = Ok (r, d1)"
      "upsert_all chain_id token ps d1 = Ok (rs, d')" "recs = r # rs"
      by (auto simp: bindE_eq_Ok)
    note one = upsert_tx_keeps[OF 1(1) Cons.prems(2)]
    note rest = Cons.IH[OF 1(2) one(1)]
    have "d' = d\<lparr>payments := payments d'\<rparr>"
    proof -
      have "d' = d1\<lparr>payments := payments d'\<rparr>" using rest by blast
      also have "\<dots> = d\<lparr>payments := payments d'\<rparr>" by (subst one(2)) simp
      finally show ?thesis .
    qed
    with rest one 1(3) show ?case by simp
  qed simp
  then show "schema_ok d'" "d' = d\<lparr>payments := payments d'\<rparr>" "map mp_order_id recs = map mp_order_id ps"
    "\<And>oid. oid \<notin> mp_order_id ` set ps \<Longrightarrow> payments_of oid (payments d') = payments_of oid (payments d)"
    by blast+
qed

text \<open>A change confined to payments of some orders leaves every other order settled.\<close>

lemma ledger_except_payments:
  assumes "ledger_ok d" "orders d' = orders d" "order_payment_overrides d' = order_payment_overrides d"
    "\<And>oid. oid \<notin> ids \<Longrightarrow> payments_of oid (payments d') = payments_of oid (payments d)"
  shows "ledger_ok_except ids d'"
  using assms order_settled_cong[of _ d' d] by (simp add: ledger_ok_except_def ledger_ok_def)

lemma set_id_set [simp]: "set (id_set ids) = set ids"
  by (simp add: id_set_def)

lemma schema_distinct_orders: "schema_ok d \<Longrightarrow> distinct (map o_id (orders d))"
  by (simp add: schema_ok_def keys_ok_def)

text \<open>Updating cursor rows in place: what it keeps.\<close>

lemma totals_cursors_update [simp]:
  "confirmed_accepted_total (d\<lparr>chain_cursors := cs\<rparr>) oid = confirmed_accepted_total d oid"
  "non_orphaned_accepted_total (d\<lparr>chain_cursors := cs\<rparr>) oid = non_orphaned_accepted_total d oid"
  by (simp_all add: confirmed_accepted_total_def non_orphaned_accepted_total_def)

lemma ledger_cursors_update [simp]: "ledger_ok (d\<lparr>chain_cursors := cs\<rparr>) = ledger_ok d"
  by (simp add: ledger_ok_def order_settled_def)

lemma schema_cursors_update:
  assumes "schema_ok d" "\<And>r. c r \<Longrightarrow> cursor_key (f r) = cursor_key r"
    "\<And>r. r \<in> set (chain_cursors d) \<Longrightarrow> c r \<Longrightarrow> cursor_ok r \<Longrightarrow> cursor_ok (f r)"
  shows "schema_ok (d\<lparr>chain_cursors := update_where c f (chain_cursors d)\<rparr>)"
  using assms
  by (auto simp: schema_ok_def keys_ok_def payments_ok_def map_update_where set_update_where)


section \<open>The operations preserve the invariants\<close>

lemma recompute_orders_keeps:
  assumes "recompute_orders now ids d = Ok (u, d')" "schema_ok d" "ledger_ok d"
  shows "schema_ok d' \<and> ledger_ok d'"
proof -
  have r: "recompute_orders_in_tx now (id_set ids) d = Ok d'"
    using assms(1) by (auto simp: recompute_orders_def mapE_eq_Ok)
  have "ledger_ok_except (set (id_set ids)) d" using assms(3) by (simp add: ledger_ok_except_def ledger_ok_def)
  with r assms(2) show ?thesis
    by (metis recompute_keeps_schema recompute_restores_ledger schema_distinct_orders)
qed

lemma claim_scan_range_keeps:
  assumes "claim_scan_range now w chain_id token t d = Ok (r, d')" "schema_ok d" "ledger_ok d"
  shows "schema_ok d' \<and> ledger_ok d'"
proof -
  have "d' = d \<or> d' = d\<lparr>chain_cursors := update_where (\<lambda>c. cursor_key c = (uint chain_id, token))
      (\<lambda>c. c\<lparr>cur_lease_owner := Some w, cur_lease_until := Some t\<rparr>) (chain_cursors d)\<rparr>"
    using assms(1)
    by (auto simp: claim_scan_range_def bindE_eq_Ok u64_to_i64_Ok split: option.splits if_splits)
  moreover have "schema_ok (d\<lparr>chain_cursors := update_where (\<lambda>c. cursor_key c = (uint chain_id, token))
      (\<lambda>c. c\<lparr>cur_lease_owner := Some w, cur_lease_until := Some t\<rparr>) (chain_cursors d)\<rparr>)"
    using assms(2) by (rule schema_cursors_update) (auto simp: cursor_key_def cursor_ok_def)
  ultimately show ?thesis using assms(2,3) by auto
qed

definition batch_cursor :: "CommitScannedBatch \<Rightarrow> cursor_row \<Rightarrow> bool" where
  "batch_cursor b c \<longleftrightarrow>
     cursor_key c = (uint (csb_chain_id b), csb_token_address b) \<and>
     cur_lease_owner c = Some (csb_worker_id b) \<and>
     cur_last_scanned_block c = uint (csb_expected_last_scanned_block b) \<and>
     cur_seen_kv_reorg_epoch c = uint (csb_expected_seen_kv_reorg_epoch b)"

definition advance_cursor :: "CommitScannedBatch \<Rightarrow> cursor_row \<Rightarrow> cursor_row" where
  "advance_cursor b c =
     c\<lparr>cur_last_scanned_block := uint (csb_complete_to_block b), cur_lease_owner := None,
       cur_lease_until := None\<rparr>"

lemma commit_scanned_batch_Ok:
  assumes "commit_scanned_batch now b d = Ok (recs, d')"
  obtains c d1 d2 where
    "csb_expected_last_scanned_block b \<le> csb_complete_to_block b"
    "find_cursor (uint (csb_chain_id b)) (csb_token_address b) d = Some c" "batch_cursor b c"
    "upsert_all (csb_chain_id b) (csb_token_address b) (csb_matched_payments b) d = Ok (recs, d1)"
    "recompute_orders_in_tx now (id_set (map mp_order_id recs)) d1 = Ok d2"
    "d' = d2\<lparr>chain_cursors := update_where (batch_cursor b) (advance_cursor b) (chain_cursors d2)\<rparr>"
proof -
  from assms obtain c where c: "find_cursor (uint (csb_chain_id b)) (csb_token_address b) d = Some c"
    by (auto simp: commit_scanned_batch_def bindE_eq_Ok u64_to_i64_Ok Let_def split: option.splits if_splits)
  have key: "cursor_key c = (uint (csb_chain_id b), csb_token_address b)"
    using find_row_Some[OF c[unfolded find_cursor_def]] by simp
  have upd: "update_where (\<lambda>c. cursor_key c = (uint (csb_chain_id b), csb_token_address b) \<and>
      cur_lease_owner c = Some (csb_worker_id b) \<and>
      cur_last_scanned_block c = uint (csb_expected_last_scanned_block b) \<and>
      cur_seen_kv_reorg_epoch c = uint (csb_expected_seen_kv_reorg_epoch b))
     (\<lambda>c. c\<lparr>cur_last_scanned_block := uint (csb_complete_to_block b), cur_lease_owner := None,
       cur_lease_until := None\<rparr>) cs = update_where (batch_cursor b) (advance_cursor b) cs" for cs
    by (simp add: batch_cursor_def[abs_def] advance_cursor_def[abs_def])
  from assms c show thesis
    by (auto simp: commit_scanned_batch_def bindE_eq_Ok u64_to_i64_Ok Let_def upd split: if_splits
        intro!: that[of c] simp: batch_cursor_def key)
qed

lemma commit_block_fits: "commit_scanned_batch now b d = Ok x \<Longrightarrow> uint (csb_complete_to_block b) < 2 ^ 63"
  by (auto simp: commit_scanned_batch_def bindE_eq_Ok u64_to_i64_Ok split: if_splits)

lemma commit_scanned_batch_keeps:
  assumes "commit_scanned_batch now b d = Ok (recs, d')" "schema_ok d" "ledger_ok d"
  shows "schema_ok d' \<and> ledger_ok d'"
proof -
  obtain c d1 d2 where up: "upsert_all (csb_chain_id b) (csb_token_address b) (csb_matched_payments b) d = Ok (recs, d1)"
    and rc: "recompute_orders_in_tx now (id_set (map mp_order_id recs)) d1 = Ok d2"
    and d': "d' = d2\<lparr>chain_cursors := update_where (batch_cursor b) (advance_cursor b) (chain_cursors d2)\<rparr>"
    using assms(1) by (rule commit_scanned_batch_Ok)
  note k = upsert_all_keeps[OF up assms(2)]
  have "orders d1 = orders d" "order_payment_overrides d1 = order_payment_overrides d"
    by (subst k(2), simp)+
  moreover have "mp_order_id ` set recs = mp_order_id ` set (csb_matched_payments b)"
    using k(3) by (metis set_map)
  ultimately have "ledger_ok_except (set (id_set (map mp_order_id recs))) d1"
    using assms(3) k(4) by (intro ledger_except_payments[of d]) simp_all
  then have "ledger_ok d2" using recompute_restores_ledger[OF rc] schema_distinct_orders[OF k(1)] by blast
  moreover have "schema_ok d2" by (rule recompute_keeps_schema[OF rc k(1)])
  then have "schema_ok d'"
    unfolding d' using commit_block_fits[OF assms(1)]
    by (intro schema_cursors_update) (auto simp: advance_cursor_def cursor_key_def cursor_ok_def)
  ultimately show ?thesis by (simp add: d')
qed

lemma payments_update_keeps:
  assumes "schema_ok d" "\<And>r. payment_key (f r) = payment_key r \<and> p_id (f r) = p_id r \<and>
      p_order_id (f r) = p_order_id r \<and> p_token_address (f r) = p_token_address r \<and>
      p_child_account_id (f r) = p_child_account_id r \<and> p_to_address (f r) = p_to_address r"
    "\<And>r. r \<in> set (payments d) \<Longrightarrow> c r \<Longrightarrow> payment_row_ok r \<Longrightarrow> payment_row_ok (f r)"
  shows "schema_ok (d\<lparr>payments := update_where c f (payments d)\<rparr>)"
proof -
  have "payment_references (f r) ord = payment_references r ord" for r ord
    using assms(2)[of r] by (auto simp: payment_references_def payment_key_def)
  then have "payments_ok (d\<lparr>payments := update_where c f (payments d)\<rparr>)"
    using assms(1,3) by (auto simp: schema_ok_def payments_ok_def set_update_where)
  moreover have "map payment_key (update_where c f (payments d)) = map payment_key (payments d)"
    "map p_id (update_where c f (payments d)) = map p_id (payments d)"
    using assms(2) by (simp_all add: map_update_where)
  ultimately show ?thesis using assms(1) by (simp add: schema_ok_def keys_ok_def)
qed

lemma confirm_row_ok:
  "payment_row_ok r \<Longrightarrow> payment_row_ok (confirm_row t head r)"
  by (simp add: payment_row_ok_def confirm_row_def le_max_iff_disj)

lemma traverse_order_ids:
  assumes "traverseE payment_record_from_row rows = Ok recs"
  shows "map mp_order_id recs = map p_order_id rows"
  using assms
proof (induction rows arbitrary: recs)
  case (Cons r rows)
  then show ?case by (auto simp: bindE_eq_Ok dest: payment_record_from_row_Ok(2))
qed simp

lemma confirm_observed_payments_Ok:
  assumes "confirm_observed_payments now b d = Ok (recs, d')"
  obtains (none) "recs = []" "d' = d" "cop_payment_ids b = []"
  | (some) sel head where
    "head = uint (cb_number (cop_canonical_head b))"
    "sel = confirmable (uint (cop_chain_id b)) (cop_token_address b) (cop_payment_ids b) head"
    "traverseE payment_record_from_row
       (order_by_position (map (confirm_row (db_now d) head) (filter sel (payments d)))) = Ok recs"
    "recompute_orders_in_tx now (id_set (map mp_order_id recs))
       (d\<lparr>payments := update_where sel (confirm_row (db_now d) head) (payments d)\<rparr>) = Ok d'"
proof (cases "cop_payment_ids b = []")
  case True
  with assms show ?thesis by (intro none) (simp_all add: confirm_observed_payments_def)
next
  case False
  with assms show ?thesis
    by (auto simp: confirm_observed_payments_def bindE_eq_Ok u64_to_i64_Ok Let_def intro!: some)
qed

lemma confirm_observed_payments_keeps:
  assumes "confirm_observed_payments now b d = Ok (recs, d')" "schema_ok d" "ledger_ok d"
  shows "schema_ok d' \<and> ledger_ok d'"
  using assms(1)
proof (cases rule: confirm_observed_payments_Ok)
  case (some sel head)
  let ?d1 = "d\<lparr>payments := update_where sel (confirm_row (db_now d) head) (payments d)\<rparr>"
  have s1: "schema_ok ?d1"
    using assms(2) by (rule payments_update_keeps) (simp_all add: confirm_row_ok, simp add: confirm_row_def payment_key_def)
  have ids: "mp_order_id ` set recs = p_order_id ` set (filter sel (payments d))"
    using arg_cong[OF traverse_order_ids[OF some(3)], of set]
    by (simp add: order_by_position_def image_image confirm_row_def)
  have "ledger_ok_except (set (id_set (map mp_order_id recs))) ?d1"
    using assms(3) by (rule ledger_except_payments)
      (auto simp: ids confirm_row_def intro!: payments_of_update_where)
  with some(4) s1 show ?thesis
    using recompute_restores_ledger recompute_keeps_schema schema_distinct_orders by blast
qed (use assms in simp)

definition orphan_row :: "timestamp \<Rightarrow> payment_row \<Rightarrow> payment_row" where
  "orphan_row t r = r\<lparr>p_chain_status := Orphaned, p_updated_at := t\<rparr>"

definition rewind_cursor :: "int \<Rightarrow> int \<Rightarrow> cursor_row \<Rightarrow> cursor_row" where
  "rewind_cursor rewind_to ep c =
     c\<lparr>cur_last_scanned_block := min (cur_last_scanned_block c) rewind_to,
       cur_seen_kv_reorg_epoch := ep, cur_lease_owner := None, cur_lease_until := None\<rparr>"

lemma handle_kv_reorg_epoch_Ok:
  assumes "handle_kv_reorg_epoch now chain_id token epoch from d = Ok (u, d')"
  obtains (stale) c where "find_cursor (uint chain_id) token d = Some c"
      "uint epoch \<le> cur_seen_kv_reorg_epoch c" "d' = d"
  | (rewind) c d1 where "find_cursor (uint chain_id) token d = Some c"
      "cur_seen_kv_reorg_epoch c < uint epoch"
      "d1 = d\<lparr>payments := update_where (reorged (uint chain_id) token (uint from)) (orphan_row (db_now d)) (payments d)\<rparr>"
      "recompute_orders_in_tx now
         (id_set (map p_order_id (filter (reorged (uint chain_id) token (uint from)) (payments d))))
         (d1\<lparr>chain_cursors := update_where (\<lambda>c. cursor_key c = (uint chain_id, token))
            (rewind_cursor (uint (saturating_sub from 1)) (uint epoch)) (chain_cursors d1)\<rparr>) = Ok d'"
proof -
  from assms obtain c where c: "find_cursor (uint chain_id) token d = Some c"
    by (auto simp: handle_kv_reorg_epoch_def bindE_eq_Ok u64_to_i64_Ok Let_def split: option.splits)
  show thesis
  proof (cases "uint epoch \<le> cur_seen_kv_reorg_epoch c")
    case True
    with assms c show thesis
      by (intro stale[of c]) (auto simp: handle_kv_reorg_epoch_def bindE_eq_Ok u64_to_i64_Ok)
  next
    case False
    with assms c show thesis
      by (intro rewind[of c, OF _ _ refl])
        (auto simp: handle_kv_reorg_epoch_def bindE_eq_Ok u64_to_i64_Ok Let_def
          orphan_row_def[abs_def] rewind_cursor_def[abs_def])
  qed
qed

lemma rewind_cursor_ok: "cursor_ok c \<Longrightarrow> 0 \<le> n \<Longrightarrow> 0 \<le> ep \<Longrightarrow> ep < 2 ^ 63 \<Longrightarrow> cursor_ok (rewind_cursor n ep c)"
  by (simp add: cursor_ok_def rewind_cursor_def min.strict_coboundedI1)

lemma reorg_epoch_fits: "handle_kv_reorg_epoch now chain_id token epoch from d = Ok x \<Longrightarrow> uint epoch < 2 ^ 63"
  by (auto simp: handle_kv_reorg_epoch_def bindE_eq_Ok u64_to_i64_Ok)

lemma handle_kv_reorg_epoch_keeps:
  assumes "handle_kv_reorg_epoch now chain_id token epoch from d = Ok (u, d')" "schema_ok d" "ledger_ok d"
  shows "schema_ok d' \<and> ledger_ok d'"
  using assms(1)
proof (cases rule: handle_kv_reorg_epoch_Ok)
  case (rewind c d1)
  let ?hit = "reorged (uint chain_id) token (uint from)"
  let ?d2 = "d1\<lparr>chain_cursors := update_where (\<lambda>c. cursor_key c = (uint chain_id, token))
            (rewind_cursor (uint (saturating_sub from 1)) (uint epoch)) (chain_cursors d1)\<rparr>"
  have "schema_ok d1"
    unfolding rewind(3) using assms(2)
    by (rule payments_update_keeps) (simp_all add: orphan_row_def payment_key_def payment_row_ok_def)
  then have s2: "schema_ok ?d2"
    using reorg_epoch_fits[OF assms(1)]
    by (intro schema_cursors_update rewind_cursor_ok) (auto simp: rewind_cursor_def cursor_key_def)
  have "ledger_ok_except (set (id_set (map p_order_id (filter ?hit (payments d))))) ?d2"
    using assms(3) by (rule ledger_except_payments)
      (auto simp: rewind(3) orphan_row_def intro!: payments_of_update_where)
  with rewind(4) s2 show ?thesis
    using recompute_restores_ledger recompute_keeps_schema schema_distinct_orders by blast
qed (use assms in simp)

lemma upsert_verified_keeps:
  assumes "upsert_verified ps d = Ok d'" "schema_ok d" "\<forall>p \<in> set ps. mp_order_id p = oid"
  shows "schema_ok d' \<and> d' = d\<lparr>payments := payments d'\<rparr> \<and>
    (\<forall>o'. o' \<noteq> oid \<longrightarrow> payments_of o' (payments d') = payments_of o' (payments d))"
  using assms
proof (induction ps arbitrary: d)
  case (Cons p ps)
  then obtain r d1 where 1: "upsert_matched_payment_tx (mp_chain_id p) (mp_token_address p) p d = Ok (r, d1)"
    "upsert_verified ps d1 = Ok d'"
    by (auto simp: bindE_eq_Ok)
  note one = upsert_tx_keeps[OF 1(1) Cons.prems(2)]
  have rest: "schema_ok d' \<and> d' = d1\<lparr>payments := payments d'\<rparr> \<and>
    (\<forall>o'. o' \<noteq> oid \<longrightarrow> payments_of o' (payments d') = payments_of o' (payments d1))"
    using Cons.IH[OF 1(2) one(1)] Cons.prems(3) by simp
  have "d1\<lparr>payments := payments d'\<rparr> = d\<lparr>payments := payments d'\<rparr>" by (subst one(2)) simp
  with rest one(4) Cons.prems(3) show ?case by simp
qed simp

lemma record_verified_payments_keeps:
  assumes "record_verified_payments now oid ps d = Ok (recs, d')" "schema_ok d" "ledger_ok d"
  shows "schema_ok d' \<and> ledger_ok d'"
proof -
  obtain d1 where 1: "upsert_verified ps d = Ok d1" "recompute_orders_in_tx now [oid] d1 = Ok d'"
    and own: "\<forall>p \<in> set ps. mp_order_id p = oid"
    using assms(1) by (auto simp: record_verified_payments_def bindE_eq_Ok split: if_splits)
  have k: "schema_ok d1" "d1 = d\<lparr>payments := payments d1\<rparr>"
    "\<And>o'. o' \<noteq> oid \<Longrightarrow> payments_of o' (payments d1) = payments_of o' (payments d)"
    using upsert_verified_keeps[OF 1(1) assms(2) own] by blast+
  have "orders d1 = orders d" "order_payment_overrides d1 = order_payment_overrides d"
    by (subst k(2), simp)+
  with assms(3) k(3) have "ledger_ok_except (set [oid]) d1"
    by (intro ledger_except_payments[of d]) simp_all
  with 1(2) k(1) show ?thesis
    using recompute_restores_ledger recompute_keeps_schema schema_distinct_orders by blast
qed

end
