(* ===== verification/Payment_Props.thy ===== *)
theory Payment_Props
  imports Payment_Ledger
begin

text \<open>
  What a client of the payment repository relies on, operation by operation: the scan
  cursor's lease and compare-and-swap, the effect of a reorg, and the agreement of the
  database's recomputation with the domain rule.
\<close>

section \<open>Cursor lookups\<close>

lemma find_cursor_update:
  assumes "\<And>c. p c \<Longrightarrow> cursor_key (f c) = cursor_key c"
  shows "find_cursor chain token (d\<lparr>chain_cursors := update_where p f (chain_cursors d)\<rparr>)
    = map_option (\<lambda>c. if p c then f c else c) (find_cursor chain token d)"
  using assms by (simp add: find_cursor_def find_row_update_other)

lemma find_cursor_key: "find_cursor chain token d = Some c \<Longrightarrow> cursor_key c = (chain, token)"
  unfolding find_cursor_def by (drule find_row_Some) simp

lemma find_cursor_ok: "schema_ok d \<Longrightarrow> find_cursor chain token d = Some c \<Longrightarrow> cursor_ok c"
  unfolding find_cursor_def schema_ok_def by (drule find_row_Some) simp

lemma find_cursor_cong: "chain_cursors d' = chain_cursors d \<Longrightarrow> find_cursor chain token d' = find_cursor chain token d"
  by (simp add: find_cursor_def)

lemma commit_cursor:
  assumes "commit_scanned_batch now b d = Ok (recs, d')" "schema_ok d"
  shows "\<exists>c. find_cursor (uint (csb_chain_id b)) (csb_token_address b) d = Some c \<and> batch_cursor b c \<and>
    find_cursor (uint (csb_chain_id b)) (csb_token_address b) d' = Some (advance_cursor b c)"
proof -
  obtain c d1 d2 where c: "find_cursor (uint (csb_chain_id b)) (csb_token_address b) d = Some c" "batch_cursor b c"
    and up: "upsert_all (csb_chain_id b) (csb_token_address b) (csb_matched_payments b) d = Ok (recs, d1)"
    and rc: "recompute_orders_in_tx now (id_set (map mp_order_id recs)) d1 = Ok d2"
    and d': "d' = d2\<lparr>chain_cursors := update_where (batch_cursor b) (advance_cursor b) (chain_cursors d2)\<rparr>"
    using assms(1) by (rule commit_scanned_batch_Ok)
  have "chain_cursors d1 = chain_cursors d" by (subst upsert_all_keeps(2)[OF up assms(2)]) simp
  moreover have "chain_cursors d2 = chain_cursors d1"
    using recompute_frame(2)[OF rc] schema_distinct_orders upsert_all_keeps(1)[OF up assms(2)] by blast
  ultimately have "find_cursor (uint (csb_chain_id b)) (csb_token_address b) d2 = Some c"
    using c(1) find_cursor_cong by metis
  then have "find_cursor (uint (csb_chain_id b)) (csb_token_address b) d' = Some (advance_cursor b c)"
    using c(2) by (simp add: d' find_cursor_update advance_cursor_def cursor_key_def)
  with c show ?thesis by blast
qed


section \<open>The database's totals are the domain's\<close>

definition fact_of_row :: "payment_row \<Rightarrow> PaymentFact" where
  "fact_of_row r = \<lparr>pf_amount = of_int (p_amount_raw r), pf_match_status = p_match_status r,
     pf_chain_status = p_chain_status r\<rparr>"

definition order_facts :: "payment_row list \<Rightarrow> uuid \<Rightarrow> PaymentFact list" where
  "order_facts ps oid = map fact_of_row (payments_of oid ps)"

definition amounts_fit :: "payment_row list \<Rightarrow> bool" where
  "amounts_fit ps \<longleftrightarrow> (\<forall>p \<in> set ps. 0 \<le> p_amount_raw p \<and> p_amount_raw p < 2 ^ 256)"

lemma uint_of_int_u256: "0 \<le> i \<Longrightarrow> i < 2 ^ 256 \<Longrightarrow> uint (of_int i :: u256) = i"
  by (simp add: unsigned_of_int take_bit_int_eq_self)

lemma unat_fact:
  assumes "0 \<le> p_amount_raw r" "p_amount_raw r < 2 ^ 256"
  shows "int (unat (pf_amount (fact_of_row r))) = p_amount_raw r"
  using uint_of_int_u256[OF assms] by (simp add: fact_of_row_def)

lemma sums_are_totals:
  assumes "amounts_fit ps"
  shows "confirmed_on_time_sum ps oid = int (confirmed_total (order_facts ps oid)) \<and>
    non_orphaned_on_time_sum ps oid = int (non_orphaned_total (order_facts ps oid))"
  using assms
proof (induction ps)
  case (Cons p ps)
  have p: "int (unat (pf_amount (fact_of_row p))) = p_amount_raw p"
    using Cons.prems by (intro unat_fact) (simp_all add: amounts_fit_def)
  have st: "pf_match_status (fact_of_row p) = p_match_status p" "pf_chain_status (fact_of_row p) = p_chain_status p"
    by (simp_all add: fact_of_row_def)
  have IH: "confirmed_on_time_sum ps oid = int (confirmed_total (order_facts ps oid))"
    "non_orphaned_on_time_sum ps oid = int (non_orphaned_total (order_facts ps oid))"
    using Cons by (simp_all add: amounts_fit_def)
  have "confirmed_on_time_sum (p # ps) oid = int (confirmed_total (order_facts (p # ps) oid))"
    using IH(1) p by (simp add: confirmed_on_time_sum_def order_facts_def payments_of_def
        is_confirmed_on_time_def st del: of_nat_unat)
  moreover have "non_orphaned_on_time_sum (p # ps) oid = int (non_orphaned_total (order_facts (p # ps) oid))"
    using IH(2) p by (simp add: non_orphaned_on_time_sum_def order_facts_def payments_of_def
        is_non_orphaned_on_time_def st del: of_nat_unat)
  ultimately show ?case ..
qed (simp add: confirmed_on_time_sum_def non_orphaned_on_time_sum_def order_facts_def payments_of_def)

lemma status_from_totals_spec:
  "recompute_status_from_totals (int r) (int c) (int n) e = status_spec r c n e"
  by (auto simp: recompute_status_from_totals_def status_spec_def)


section \<open>A concrete state\<close>

definition sample_order :: order_row where
  "sample_order = \<lparr>o_id = 1, o_owner_sub = ''alice'', o_external_id = ''ext-1'', o_request_hash = ''h'',
     o_child_account_id = 5, o_receive_address = 0xB0B, o_chain_id = 137, o_token_address = 0xA,
     o_expected_amount_raw = 100, o_paid_amount_raw = 0, o_status = Pending, o_expires_at = 1000,
     o_monitor_until = 2000, o_created_at = 0, o_updated_at = 0\<rparr>"

definition sample_window :: window_row where
  "sample_window = \<lparr>w_id = 2, w_order_id = 1, w_child_account_id = 5, w_receive_address = 0xB0B,
     w_window_from = 0, w_window_from_block = 10, w_window_from_block_hash = 0, w_expires_at = 1000,
     w_monitor_until = 2000, w_created_at = 0\<rparr>"

definition sample_cursor :: cursor_row where
  "sample_cursor = \<lparr>cur_chain_id = 137, cur_token_address = 0xA, cur_last_scanned_block = 9,
     cur_seen_kv_reorg_epoch = 0, cur_lease_owner = Some ''w1'', cur_lease_until = Some 50\<rparr>"

definition sample_db :: db where
  "sample_db = \<lparr>wallet_cursors = [], child_accounts = [], orders = [sample_order],
     payment_windows = [sample_window], payments = [], chain_cursors = [sample_cursor],
     treasury_addresses = [], relayer_addresses = [], collections = [], account_nonces = [],
     outbound_transactions = [], order_payment_overrides = [], audit_events = [], db_now = 20\<rparr>"

definition sample_payment :: "RawAmount \<Rightarrow> MatchedPaymentInput" where
  "sample_payment a = \<lparr>mp_id = 77, mp_order_id = 1, mp_child_account_id = 5, mp_chain_id = 137,
     mp_token_address = 0xA, mp_tx_hash = 0xFEED, mp_log_index = 3, mp_from_address = 0xC,
     mp_to_address = 0xB0B, mp_amount_raw = a, mp_block_number = 12, mp_block_hash = 0xBEEF,
     mp_block_time = 30, mp_confirmations = 1, mp_match_status = OnTime, mp_chain_status = Observed\<rparr>"

definition sample_batch :: "MatchedPaymentInput list \<Rightarrow> CommitScannedBatch" where
  "sample_batch ps = \<lparr>csb_chain_id = 137, csb_token_address = 0xA, csb_worker_id = ''w1'',
     csb_expected_last_scanned_block = 9, csb_complete_to_block = 15,
     csb_expected_seen_kv_reorg_epoch = 0, csb_seen_kv_reorg_epoch = 0,
     csb_matched_payments = ps, csb_recompute_order_ids = []\<rparr>"

lemmas sample_defs = sample_order_def sample_window_def sample_cursor_def sample_db_def
  sample_payment_def sample_batch_def

lemma sample_schema: "schema_ok sample_db"
  by (simp add: schema_ok_def keys_ok_def payments_ok_def cursor_ok_def sample_defs)

lemma sample_ledger: "ledger_ok sample_db"
  by (auto simp: ledger_ok_def order_settled_def confirmed_accepted_total_def non_orphaned_accepted_total_def
      confirmed_on_time_sum_def non_orphaned_on_time_sum_def accepted_problem_raw_def find_row_def
      recompute_status_from_totals_def sample_defs intro!: exI[of _ False])

lemma raw_amount_from_numeric_eval:
  "0 \<le> v \<Longrightarrow> v < 2 ^ 256 \<Longrightarrow> raw_amount_from_numeric v = Ok (of_int v)"
  using raw_amount_numeric_roundtrip[of "of_int v"] uint_of_int_u256[of v]
  by (simp only: raw_amount_to_numeric_def)

lemmas payment_eval =
  commit_scanned_batch_def upsert_matched_payment_tx_def select_payment_target_def upsert_row_def
  inserted_payment_def payment_record_from_row_def recompute_orders_in_tx_def recompute_order_row_def
  u64_to_i64_def i64_to_u64_def find_cursor_def find_row_def cursor_key_def payment_key_def
  window_match_status_def raw_amount_to_numeric_def raw_amount_from_numeric_eval id_set_def
  confirmed_accepted_total_def non_orphaned_accepted_total_def confirmed_on_time_sum_def
  non_orphaned_on_time_sum_def accepted_problem_raw_def recompute_status_from_totals_def
  fits_numeric_def update_where_def Let_def

lemma sample_commit:
  "\<exists>recs d. commit_scanned_batch 40 (sample_batch [sample_payment 100]) sample_db = Ok (recs, d) \<and>
    map o_status (orders d) = [Confirming] \<and> map cur_last_scanned_block (chain_cursors d) = [15]"
  by (simp add: payment_eval sample_defs)


section \<open>Properties\<close>

text \<open>
  C12: committing a scanned batch is a compare-and-swap on the scan cursor.  It succeeds only
  for the worker that holds the lease, at the block and reorg epoch the batch was computed
  from; then the cursor stands at the batch's last block, not below where it was, with
  the lease released, and committing the same batch again fails with a cursor mismatch,
  so that no batch is applied twice.
\<close>
theorem commit_scanned_batch_cas:
  assumes "commit_scanned_batch now b d = Ok (recs, d')" "schema_ok d"
  shows "\<exists>c c'. find_cursor (uint (csb_chain_id b)) (csb_token_address b) d = Some c \<and>
    cur_lease_owner c = Some (csb_worker_id b) \<and>
    cur_last_scanned_block c = uint (csb_expected_last_scanned_block b) \<and>
    cur_seen_kv_reorg_epoch c = uint (csb_expected_seen_kv_reorg_epoch b) \<and>
    find_cursor (uint (csb_chain_id b)) (csb_token_address b) d' = Some c' \<and>
    cur_last_scanned_block c' = uint (csb_complete_to_block b) \<and>
    cur_last_scanned_block c \<le> cur_last_scanned_block c' \<and>
    cur_seen_kv_reorg_epoch c' = cur_seen_kv_reorg_epoch c \<and>
    cur_lease_owner c' = None \<and>
    (\<exists>l e own. commit_scanned_batch later b d' = Err (CursorCasMismatch (csb_chain_id b) (csb_token_address b)
       (csb_worker_id b) (csb_expected_last_scanned_block b) l (csb_expected_seen_kv_reorg_epoch b) e own))"
proof -
  obtain c where c: "find_cursor (uint (csb_chain_id b)) (csb_token_address b) d = Some c" "batch_cursor b c"
    "find_cursor (uint (csb_chain_id b)) (csb_token_address b) d' = Some (advance_cursor b c)"
    using commit_cursor[OF assms] by blast
  have le: "csb_expected_last_scanned_block b \<le> csb_complete_to_block b"
    using assms(1) by (rule commit_scanned_batch_Ok)
  have fits: "uint (csb_chain_id b) < 2 ^ 63" "uint (csb_expected_last_scanned_block b) < 2 ^ 63"
    "uint (csb_expected_seen_kv_reorg_epoch b) < 2 ^ 63" "uint (csb_complete_to_block b) < 2 ^ 63"
    using assms(1)
    by (auto simp: commit_scanned_batch_def bindE_eq_Ok u64_to_i64_Ok split: if_splits)
  have "0 \<le> cur_seen_kv_reorg_epoch c" using find_cursor_ok[OF assms(2) c(1)] by (simp add: cursor_ok_def)
  then have "\<exists>l e own. commit_scanned_batch later b d' = Err (CursorCasMismatch (csb_chain_id b) (csb_token_address b)
       (csb_worker_id b) (csb_expected_last_scanned_block b) l (csb_expected_seen_kv_reorg_epoch b) e own)"
    using le c(3) fits
    by (simp add: commit_scanned_batch_def u64_to_i64_def i64_to_u64_def advance_cursor_def Let_def)
  then show ?thesis using c le by (simp add: batch_cursor_def advance_cursor_def word_le_def)
qed

theorem commit_scanned_batch_cas_witness:
  "schema_ok sample_db \<and> (\<exists>recs d'. commit_scanned_batch 40 (sample_batch [sample_payment 100]) sample_db = Ok (recs, d') \<and>
     (\<exists>l e own. commit_scanned_batch 41 (sample_batch [sample_payment 100]) d'
        = Err (CursorCasMismatch 137 0xA ''w1'' 9 l 0 e own)))"
proof -
  obtain recs d' where ok: "commit_scanned_batch 40 (sample_batch [sample_payment 100]) sample_db = Ok (recs, d')"
    using sample_commit by blast
  show ?thesis
    using ok commit_scanned_batch_cas[OF ok sample_schema, of 41] sample_schema
    by (auto simp: sample_batch_def)
qed

text \<open>
  While a worker's lease on a cursor is live, a claim by any other worker returns nothing
  and changes nothing; two workers never hold the same cursor at the same time.
\<close>
theorem claim_scan_range_excludes:
  assumes "claim_scan_range now w chain_id token lease_until d = Ok (Some lease, d')"
    and "w' \<noteq> w" "now' < lease_until"
  shows "claim_scan_range now' w' chain_id token lease_until' d' = Ok (None, d')"
proof -
  from assms(1) obtain c where c: "find_cursor (uint chain_id) token d = Some c" "uint chain_id < 2 ^ 63"
    and d': "d' = d\<lparr>chain_cursors := update_where (\<lambda>c. cursor_key c = (uint chain_id, token))
      (\<lambda>c. c\<lparr>cur_lease_owner := Some w, cur_lease_until := Some lease_until\<rparr>) (chain_cursors d)\<rparr>"
    by (auto simp: claim_scan_range_def bindE_eq_Ok u64_to_i64_Ok split: option.splits if_splits)
  have "find_cursor (uint chain_id) token d'
      = Some (c\<lparr>cur_lease_owner := Some w, cur_lease_until := Some lease_until\<rparr>)"
    using c(1) find_cursor_key[OF c(1)] unfolding d' by (subst find_cursor_update) (simp_all add: cursor_key_def)
  then show ?thesis
    using assms(2,3) c(2)
    by (simp add: claim_scan_range_def u64_to_i64_def held_by_other_live_worker_def)
qed

theorem claim_scan_range_excludes_witness:
  "\<exists>lease d'. claim_scan_range 10 ''w1'' 137 0xA 90 sample_db = Ok (Some lease, d') \<and>
     claim_scan_range 60 ''w2'' 137 0xA 120 d' = Ok (None, d')"
proof -
  have "\<exists>lease d'. claim_scan_range 10 ''w1'' 137 0xA 90 sample_db = Ok (Some lease, d')"
    by (simp add: claim_scan_range_def held_by_other_live_worker_def payment_eval sample_defs)
  then obtain lease d' where ok: "claim_scan_range 10 ''w1'' 137 0xA 90 sample_db = Ok (Some lease, d')" by blast
  have "claim_scan_range 60 ''w2'' 137 0xA 120 d' = Ok (None, d')"
    by (rule claim_scan_range_excludes[OF ok]) simp_all
  with ok show ?thesis by blast
qed

lemma reorg_state:
  assumes "handle_kv_reorg_epoch now chain_id token epoch from d = Ok (u, d')" "schema_ok d"
    "find_cursor (uint chain_id) token d = Some c" "cur_seen_kv_reorg_epoch c < uint epoch"
  shows "payments d' = update_where (reorged (uint chain_id) token (uint from)) (orphan_row (db_now d)) (payments d)"
    "find_cursor (uint chain_id) token d' = Some (rewind_cursor (uint (saturating_sub from 1)) (uint epoch) c)"
proof -
  from assms(1) have "payments d' = update_where (reorged (uint chain_id) token (uint from)) (orphan_row (db_now d)) (payments d)
    \<and> chain_cursors d' = update_where (\<lambda>c. cursor_key c = (uint chain_id, token))
        (rewind_cursor (uint (saturating_sub from 1)) (uint epoch)) (chain_cursors d)"
  proof (cases rule: handle_kv_reorg_epoch_Ok)
    case (rewind c' d1)
    then show ?thesis
      using recompute_frame(1,2)[OF rewind(4)] schema_distinct_orders[OF assms(2)] by simp
  qed (use assms in simp)
  then show "payments d' = update_where (reorged (uint chain_id) token (uint from)) (orphan_row (db_now d)) (payments d)"
    and "find_cursor (uint chain_id) token d' = Some (rewind_cursor (uint (saturating_sub from 1)) (uint epoch) c)"
    using assms(3) find_cursor_key[OF assms(3)]
      find_cursor_update[of "\<lambda>c. cursor_key c = (uint chain_id, token)"
        "rewind_cursor (uint (saturating_sub from 1)) (uint epoch)" "uint chain_id" token d]
    by (simp_all add: find_cursor_def rewind_cursor_def cursor_key_def)
qed

text \<open>
  Handling a newer reorg epoch orphans the payments of the chain and token at or above the
  reorg and leaves every other payment untouched, rewinds the cursor below the reorg (never
  forward), records the epoch and drops the lease; handling the same epoch again changes
  nothing.
\<close>
theorem handle_kv_reorg_epoch_effect:
  assumes "handle_kv_reorg_epoch now chain_id token epoch from d = Ok (u, d')" "schema_ok d"
    "find_cursor (uint chain_id) token d = Some c" "cur_seen_kv_reorg_epoch c < uint epoch"
  shows "length (payments d') = length (payments d) \<and>
    (\<forall>i < length (payments d). let p = payments d ! i; p' = payments d' ! i in
       if p_chain_id p = uint chain_id \<and> p_token_address p = token \<and> uint from \<le> p_block_number p
       then p_chain_status p' = Orphaned else p' = p) \<and>
    (\<exists>c'. find_cursor (uint chain_id) token d' = Some c' \<and> cur_seen_kv_reorg_epoch c' = uint epoch \<and>
      cur_last_scanned_block c' = min (cur_last_scanned_block c) (uint (saturating_sub from 1)) \<and>
      cur_lease_owner c' = None) \<and>
    handle_kv_reorg_epoch later chain_id token epoch from d' = Ok ((), d')"
proof -
  note st = reorg_state[OF assms]
  have fits: "uint chain_id < 2 ^ 63" "uint epoch < 2 ^ 63" "uint from < 2 ^ 63" "uint (saturating_sub from 1) < 2 ^ 63"
    using assms(1) by (auto simp: handle_kv_reorg_epoch_def bindE_eq_Ok u64_to_i64_Ok)
  have "handle_kv_reorg_epoch later chain_id token epoch from d' = Ok ((), d')"
    using fits st(2) by (simp add: handle_kv_reorg_epoch_def u64_to_i64_def rewind_cursor_def)
  moreover have "\<forall>i < length (payments d). let p = payments d ! i; p' = payments d' ! i in
       if p_chain_id p = uint chain_id \<and> p_token_address p = token \<and> uint from \<le> p_block_number p
       then p_chain_status p' = Orphaned else p' = p"
    by (simp add: st(1) update_where_def reorged_def orphan_row_def Let_def)
  ultimately show ?thesis using st by (simp add: rewind_cursor_def)
qed

theorem handle_kv_reorg_epoch_effect_witness:
  "\<exists>d'. handle_kv_reorg_epoch 40 137 0xA 1 5 sample_db = Ok ((), d') \<and>
     handle_kv_reorg_epoch 41 137 0xA 1 5 d' = Ok ((), d')"
proof -
  have "\<exists>d'. handle_kv_reorg_epoch 40 137 0xA 1 5 sample_db = Ok ((), d')"
    by (simp add: handle_kv_reorg_epoch_def saturating_sub_def payment_eval sample_defs)
  then obtain d' where ok: "handle_kv_reorg_epoch 40 137 0xA 1 5 sample_db = Ok ((), d')" by blast
  have "find_cursor (uint (137 :: u64)) 0xA sample_db = Some sample_cursor"
    by (simp add: find_cursor_def find_row_def cursor_key_def sample_defs)
  from handle_kv_reorg_epoch_effect[OF ok sample_schema this, of 41] ok show ?thesis
    by (simp add: sample_cursor_def)
qed

text \<open>
  C27: the status the database computes for an order with no manual acceptance is the
  domain's decision on the order's payments: whenever the stored totals fit in 256 bits,
  the recomputed row carries the status and the confirmed total of
  \<open>recompute_order_status\<close> on the same payments.
\<close>
theorem recompute_agrees_with_domain:
  assumes "recompute_orders_in_tx now ids d = Ok d'" "schema_ok d" "ord \<in> set (orders d)" "o_id ord \<in> set ids"
    "accepted_problem_raw (order_payment_overrides d) (o_id ord) = 0" "amounts_fit (payments d)"
    "o_expected_amount_raw ord < 2 ^ 256"
    "recompute_order_status (of_int (o_expected_amount_raw ord)) (order_facts (payments d) (o_id ord))
       (o_expires_at ord \<le> now) = Ok dec"
  shows "\<exists>ord' \<in> set (orders d'). o_id ord' = o_id ord \<and> o_status ord' = od_status dec \<and>
    o_paid_amount_raw ord' = uint (od_confirmed_on_time_total dec)"
proof -
  let ?fs = "order_facts (payments d) (o_id ord)"
  have pos: "0 < o_expected_amount_raw ord" using assms(2,3) by (simp add: schema_ok_def payments_ok_def)
  then have e: "int (unat (of_int (o_expected_amount_raw ord) :: u256)) = o_expected_amount_raw ord"
    using uint_of_int_u256[OF _ assms(7)] by simp
  have no: "\<not> u256_overflow (non_orphaned_total ?fs)"
    and dec: "od_status dec = status_spec (unat (of_int (o_expected_amount_raw ord) :: u256))
        (confirmed_total ?fs) (non_orphaned_total ?fs) (o_expires_at ord \<le> now)"
      "od_confirmed_on_time_total dec = of_nat (confirmed_total ?fs)"
    using assms(8) by (auto simp: recompute_order_status_eq split: if_splits)
  have "\<not> u256_overflow (confirmed_total ?fs)"
    using no confirmed_le_non_orphaned[of ?fs] u256_overflow_mono by blast
  then have c: "unat (of_nat (confirmed_total ?fs) :: u256) = confirmed_total ?fs"
    unfolding u256_overflow_def not_le by (rule u256_of_nat)
  have tot: "confirmed_accepted_total d (o_id ord) = int (confirmed_total ?fs)"
    "non_orphaned_accepted_total d (o_id ord) = int (non_orphaned_total ?fs)"
    using sums_are_totals[OF assms(6), of "o_id ord"] assms(5)
    by (simp_all add: confirmed_accepted_total_def non_orphaned_accepted_total_def)
  have "settle now d ord \<in> set (orders d')"
    using assms(3,4) recompute_orders_in_tx_Ok[OF assms(1) schema_distinct_orders[OF assms(2)]] by force
  moreover have "o_status (settle now d ord) = recompute_status_from_totals
      (int (unat (of_int (o_expected_amount_raw ord) :: u256))) (int (confirmed_total ?fs))
      (int (non_orphaned_total ?fs)) (o_expires_at ord \<le> now)"
    by (simp only: e) (simp add: settle_def tot)
  then have "o_status (settle now d ord) = od_status dec"
    by (simp only: status_from_totals_spec dec(1))
  moreover have "o_paid_amount_raw (settle now d ord) = int (confirmed_total ?fs)"
    by (simp add: settle_def tot)
  then have "o_paid_amount_raw (settle now d ord) = uint (od_confirmed_on_time_total dec)"
    using arg_cong[OF c, of int] by (simp add: dec(2))
  ultimately show ?thesis by (intro bexI[of _ "settle now d ord"]) simp_all
qed

theorem recompute_agrees_with_domain_witness:
  "\<exists>d' dec. recompute_orders_in_tx 40 [1] sample_db = Ok d' \<and>
     recompute_order_status 100 (order_facts (payments sample_db) 1) False = Ok dec \<and>
     (\<exists>ord' \<in> set (orders d'). o_id ord' = 1 \<and> o_status ord' = od_status dec)"
proof -
  have "\<exists>d'. recompute_orders_in_tx 40 [1] sample_db = Ok d'"
    by (simp add: payment_eval sample_defs)
  then obtain d' where ok: "recompute_orders_in_tx 40 [1] sample_db = Ok d'" by blast
  have "\<exists>dec. recompute_order_status 100 (order_facts (payments sample_db) 1) False = Ok dec"
    by (simp add: recompute_order_status_def order_facts_def payments_of_def sample_defs)
  then obtain dec where dec: "recompute_order_status 100 (order_facts (payments sample_db) 1) False = Ok dec" by blast
  have "\<exists>ord' \<in> set (orders d'). o_id ord' = o_id sample_order \<and> o_status ord' = od_status dec \<and>
      o_paid_amount_raw ord' = uint (od_confirmed_on_time_total dec)"
    by (rule recompute_agrees_with_domain[OF ok sample_schema])
      (use dec in \<open>simp_all add: accepted_problem_raw_def find_row_def amounts_fit_def sample_defs\<close>)
  with ok dec show ?thesis by (auto simp: sample_order_def)
qed

lemma upsert_tx_positive:
  assumes "upsert_matched_payment_tx chain_id token p d = Ok (r, d')"
  shows "mp_amount_raw p \<noteq> 0"
proof -
  obtain ord w row where "upsert_row (inserted_payment ord w p (uint (mp_log_index p)) (uint (mp_block_number p))
       (uint (mp_confirmations p)) (db_now d)) d = Ok (Some row, d')"
    using assms by (rule upsert_matched_payment_tx_Ok)
  then show ?thesis by (cases rule: upsert_row_cases) auto
qed

lemma upsert_all_positive:
  "upsert_all chain_id token ps d = Ok (rs, d') \<Longrightarrow> p \<in> set ps \<Longrightarrow> mp_amount_raw p \<noteq> 0"
  by (induction ps arbitrary: d rs) (auto simp: bindE_eq_Ok dest: upsert_tx_positive)

text \<open>
  C40: a batch that contains a transfer of zero value is never committed: in every state the
  transaction fails, so the cursor does not move past the batch, because the row of such a
  transfer violates the positive-amount check of the payments table.
\<close>
theorem commit_rejects_zero_value:
  assumes "p \<in> set (csb_matched_payments b)" "mp_amount_raw p = 0"
  shows "\<exists>e. commit_scanned_batch now b d = Err e"
proof (cases "commit_scanned_batch now b d")
  case (Inr res)
  obtain recs d' where "res = (recs, d')" by (cases res)
  then have "commit_scanned_batch now b d = Ok (recs, d')" using Inr by simp
  then obtain d1 where "upsert_all (csb_chain_id b) (csb_token_address b) (csb_matched_payments b) d = Ok (recs, d1)"
    by (rule commit_scanned_batch_Ok)
  with assms upsert_all_positive show ?thesis by blast
qed simp

theorem commit_rejects_zero_value_witness:
  "sample_payment 0 \<in> set (csb_matched_payments (sample_batch [sample_payment 0])) \<and>
   (\<exists>e. commit_scanned_batch 40 (sample_batch [sample_payment 0]) sample_db = Err e) \<and>
   commit_scanned_batch 40 (sample_batch [sample_payment 0]) sample_db
     = Err (Database (CheckViolation ''payments_amount_raw_check''))"
  using commit_rejects_zero_value[of "sample_payment 0" "sample_batch [sample_payment 0]" 40 sample_db]
  by (simp add: payment_eval sample_defs)

end
