(* ===== verification/Chain_Types.thy ===== *)
theory Chain_Types
  imports Order_Status "HOL-Library.Product_Lexorder"
begin

text \<open>
  The chain boundary of \<open>src/src/chain/mod.rs\<close>: blocks, ERC-20 transfer logs, receipts,
  log ranges and capacity reports, the errors, and the in-memory chain client that the
  sources provide (\<open>FakeErc20ChainClient\<close>).  What the rest of the program relies on when it
  reads logs is the interface \<open>log_source\<close>; the in-memory client implements it.
\<close>

section \<open>Types\<close>

datatype ChainError =
    RpcUnavailable string
  | MalformedRpcResponse string
  | ProviderHashMismatch string string BlockHash string BlockHash
  | InvalidBlockRange u64 u64
  | BlockNotFound u64
  | TransactionNotFound TxHash
  | ChainIdMismatch u64 u64
  | CapacityExceeded nat nat

record ChainBlock =
  blk_number :: u64
  blk_hash :: BlockHash
  blk_parent_hash :: BlockHash
  blk_timestamp :: int

definition block_ref :: "ChainBlock \<Rightarrow> ChainBlockRef" where
  "block_ref b = \<lparr>cb_number = blk_number b, cb_hash = blk_hash b\<rparr>"

record TransferLog =
  tl_chain_id :: u64
  tl_token_address :: EvmAddress
  tl_block :: ChainBlock
  tl_tx_hash :: TxHash
  tl_log_index :: u64
  tl_from_address :: EvmAddress
  tl_to_address :: EvmAddress
  tl_amount_raw :: RawAmount

text \<open>The position of a log: block number, then log index, in this order.\<close>

definition log_position :: "TransferLog \<Rightarrow> u64 \<times> u64" where
  "log_position l = (blk_number (tl_block l), tl_log_index l)"

definition sort_logs :: "TransferLog list \<Rightarrow> TransferLog list" where
  "sort_logs ls = sort_key log_position ls"

datatype TransactionStatus = Success | Reverted

record TxReceipt =
  rcpt_tx_hash :: TxHash
  rcpt_block :: ChainBlockRef
  rcpt_status :: TransactionStatus
  rcpt_gas_used :: "u64 option"

record TransferLogRange =
  rg_chain_id :: u64
  rg_token_address :: EvmAddress
  rg_from_block :: u64
  rg_to_block :: u64
  rg_recipient :: "EvmAddress option"

definition range_new :: "u64 \<Rightarrow> EvmAddress \<Rightarrow> u64 \<Rightarrow> u64 \<Rightarrow> TransferLogRange" where
  "range_new chain_id token from_block to_block =
     \<lparr>rg_chain_id = chain_id, rg_token_address = token, rg_from_block = from_block,
      rg_to_block = to_block, rg_recipient = None\<rparr>"

definition range_with_recipient :: "TransferLogRange \<Rightarrow> EvmAddress \<Rightarrow> TransferLogRange" where
  "range_with_recipient r a = r\<lparr>rg_recipient := Some a\<rparr>"

definition range_validate :: "TransferLogRange \<Rightarrow> ChainError + unit" where
  "range_validate r =
     (if rg_to_block r < rg_from_block r then Err (InvalidBlockRange (rg_from_block r) (rg_to_block r))
      else Ok ())"

record TransferLogCapacityLimits =
  cl_max_logs :: nat
  cl_max_logs_per_block :: nat

record TransferLogCapacityReport =
  cr_range :: TransferLogRange
  cr_log_count :: nat
  cr_max_logs_in_single_block :: nat
  cr_limits :: TransferLogCapacityLimits

definition is_within_limits :: "TransferLogCapacityReport \<Rightarrow> bool" where
  "is_within_limits r \<longleftrightarrow>
     cr_log_count r \<le> cl_max_logs (cr_limits r)
     \<and> cr_max_logs_in_single_block r \<le> cl_max_logs_per_block (cr_limits r)"

definition ensure_within_limits :: "TransferLogCapacityReport \<Rightarrow> ChainError + unit" where
  "ensure_within_limits r =
     (if is_within_limits r then Ok ()
      else Err (CapacityExceeded (cr_log_count r) (cl_max_logs (cr_limits r))))"

record Eip1559FeeEstimate =
  fe_max_fee_per_gas :: RawAmount
  fe_max_priority_fee_per_gas :: RawAmount


section \<open>The in-memory chain client\<close>

datatype FakeChainCall =
    CallLatestHead
  | CallSafeHead
  | CallFinalizedHead
  | CallBlockByNumber u64
  | CallTransferLogs TransferLogRange
  | CallCapacityProbe TransferLogRange
  | CallNativeBalance u64 EvmAddress
  | CallPendingNonce u64 EvmAddress
  | CallEstimateEip1559Fees
  | CallTokenBalance EvmAddress EvmAddress
  | CallTransactionReceipt TxHash
  | CallBroadcastSignedTx nat

record FakeChainState =
  fc_chain_id :: u64
  fc_blocks :: "(u64 \<times> ChainBlock) list"
  fc_logs :: "TransferLog list"
  fc_head :: "ChainBlockRef option"
  fc_safe_head :: "ChainBlockRef option"
  fc_finalized_head :: "ChainBlockRef option"
  fc_native_balances :: "(EvmAddress \<times> RawAmount) list"
  fc_pending_nonces :: "(EvmAddress \<times> RawAmount) list"
  fc_fee_estimate :: Eip1559FeeEstimate
  fc_balances :: "((EvmAddress \<times> EvmAddress) \<times> RawAmount) list"
  fc_receipts :: "(TxHash \<times> TxReceipt) list"
  fc_next_error :: "string option"
  fc_max_range_blocks :: "u64 option"
  fc_broadcast_counter :: u64
  fc_calls :: "FakeChainCall list"

text \<open>\<open>BTreeMap::insert\<close> and \<open>get\<close> on association lists.\<close>

definition map_insert :: "'k \<Rightarrow> 'v \<Rightarrow> ('k \<times> 'v) list \<Rightarrow> ('k \<times> 'v) list" where
  "map_insert k v m = (k, v) # filter (\<lambda>(k', _). k' \<noteq> k) m"

lemma map_of_map_insert [simp]: "map_of (map_insert k v m) = (map_of m)(k \<mapsto> v)"
proof -
  have "map_of (filter (\<lambda>(k', _). k' \<noteq> k) m) x = (if x = k then None else map_of m x)" for x
    by (induction m) auto
  then show ?thesis by (auto simp: map_insert_def)
qed

text \<open>Every call is recorded; a pending injected error is consumed by it.\<close>

definition fake_call :: "FakeChainCall \<Rightarrow> FakeChainState \<Rightarrow> (ChainError + unit) \<times> FakeChainState" where
  "fake_call c s =
     (let s1 = s\<lparr>fc_calls := fc_calls s @ [c]\<rparr> in
      case fc_next_error s of
        None \<Rightarrow> (Ok (), s1)
      | Some m \<Rightarrow> (Err (RpcUnavailable m), s1\<lparr>fc_next_error := None\<rparr>))"

definition fake_insert_block :: "ChainBlock \<Rightarrow> FakeChainState \<Rightarrow> FakeChainState" where
  "fake_insert_block b s =
     s\<lparr>fc_head := Some (case fc_head s of
         Some existing \<Rightarrow> if blk_number b < cb_number existing then existing else block_ref b
       | None \<Rightarrow> block_ref b),
       fc_blocks := map_insert (blk_number b) b (fc_blocks s)\<rparr>"

definition fake_replace_block_for_reorg :: "ChainBlock \<Rightarrow> FakeChainState \<Rightarrow> FakeChainState" where
  "fake_replace_block_for_reorg b s =
     fake_insert_block b
       (s\<lparr>fc_logs := filter (\<lambda>l. blk_number (tl_block l) \<noteq> blk_number b \<or> blk_hash (tl_block l) = blk_hash b)
           (fc_logs s)\<rparr>)"

definition fake_push_transfer_log :: "TransferLog \<Rightarrow> FakeChainState \<Rightarrow> FakeChainState" where
  "fake_push_transfer_log l s = s\<lparr>fc_logs := fc_logs s @ [l]\<rparr>"

definition fake_latest_head :: "FakeChainState \<Rightarrow> (ChainError + ChainBlockRef) \<times> FakeChainState" where
  "fake_latest_head s =
     (let (r, s1) = fake_call CallLatestHead s in
      (bindE r (\<lambda>_. ok_or (fc_head s) (BlockNotFound (- 1))), s1))"

definition option_or :: "'a option \<Rightarrow> 'a option \<Rightarrow> 'a option" where
  "option_or a b = (case a of None \<Rightarrow> b | Some _ \<Rightarrow> a)"

definition fake_safe_head :: "FakeChainState \<Rightarrow> (ChainError + ChainBlockRef) \<times> FakeChainState" where
  "fake_safe_head s =
     (let (r, s1) = fake_call CallSafeHead s in
      (bindE r (\<lambda>_. ok_or (option_or (fc_safe_head s) (fc_head s)) (BlockNotFound (- 1))), s1))"

definition fake_finalized_head :: "FakeChainState \<Rightarrow> (ChainError + ChainBlockRef) \<times> FakeChainState" where
  "fake_finalized_head s =
     (let (r, s1) = fake_call CallFinalizedHead s in
      (bindE r (\<lambda>_. ok_or (option_or (fc_finalized_head s) (option_or (fc_safe_head s) (fc_head s)))
         (BlockNotFound (- 1))), s1))"

definition fake_block_by_number :: "u64 \<Rightarrow> FakeChainState \<Rightarrow> (ChainError + ChainBlock) \<times> FakeChainState" where
  "fake_block_by_number n s =
     (let (r, s1) = fake_call (CallBlockByNumber n) s in
      (bindE r (\<lambda>_. ok_or (map_of (fc_blocks s) n) (BlockNotFound n)), s1))"

text \<open>The filter of \<open>transfer_logs\<close>: in range, to the recipient if one is asked for, on a canonical block.\<close>

definition fake_log_selected :: "FakeChainState \<Rightarrow> TransferLogRange \<Rightarrow> TransferLog \<Rightarrow> bool" where
  "fake_log_selected s r l \<longleftrightarrow>
     tl_chain_id l = rg_chain_id r \<and> tl_token_address l = rg_token_address r
     \<and> rg_from_block r \<le> blk_number (tl_block l) \<and> blk_number (tl_block l) \<le> rg_to_block r
     \<and> (case rg_recipient r of None \<Rightarrow> True | Some a \<Rightarrow> tl_to_address l = a)
     \<and> map_option blk_hash (map_of (fc_blocks s) (blk_number (tl_block l))) = Some (blk_hash (tl_block l))"

definition fake_transfer_logs ::
  "TransferLogRange \<Rightarrow> FakeChainState \<Rightarrow> (ChainError + TransferLog list) \<times> FakeChainState" where
  "fake_transfer_logs r s =
     (case range_validate r of
        Inl e \<Rightarrow> (Err e, s)
      | Inr _ \<Rightarrow>
          let (q, s1) = fake_call (CallTransferLogs r) s in
          (bindE q (\<lambda>_.
             if (case fc_max_range_blocks s of None \<Rightarrow> False
                 | Some m \<Rightarrow> m < saturating_add (saturating_sub (rg_to_block r) (rg_from_block r)) 1)
             then Err (RpcUnavailable (''block range exceeds fake limit ''
                  @ show_nat (unat (the (fc_max_range_blocks s)))))
             else if rg_chain_id r \<noteq> fc_chain_id s
             then Err (ChainIdMismatch (rg_chain_id r) (fc_chain_id s))
             else Ok (sort_logs (filter (fake_log_selected s r) (fc_logs s)))), s1))"

text \<open>The largest number of logs in one block, from the per-block counts.\<close>

definition max_logs_in_single_block :: "TransferLog list \<Rightarrow> nat" where
  "max_logs_in_single_block ls =
     fold max (map (\<lambda>n. length (filter (\<lambda>l. blk_number (tl_block l) = n) ls))
       (remdups (map (blk_number \<circ> tl_block) ls))) 0"

definition fake_capacity_probe ::
  "TransferLogRange \<Rightarrow> TransferLogCapacityLimits \<Rightarrow> FakeChainState
   \<Rightarrow> (ChainError + TransferLogCapacityReport) \<times> FakeChainState" where
  "fake_capacity_probe r limits s =
     (let (q, s1) = fake_transfer_logs r (s\<lparr>fc_calls := fc_calls s @ [CallCapacityProbe r]\<rparr>) in
      (bindE q (\<lambda>logs. Ok \<lparr>cr_range = r, cr_log_count = length logs,
         cr_max_logs_in_single_block = max_logs_in_single_block logs, cr_limits = limits\<rparr>), s1))"

definition fake_chain_checked ::
  "FakeChainCall \<Rightarrow> u64 \<Rightarrow> 'a \<Rightarrow> FakeChainState \<Rightarrow> (ChainError + 'a) \<times> FakeChainState" where
  "fake_chain_checked c chain_id v s =
     (let (r, s1) = fake_call c s in
      (bindE r (\<lambda>_. if chain_id \<noteq> fc_chain_id s then Err (ChainIdMismatch chain_id (fc_chain_id s)) else Ok v), s1))"

definition map_get_or :: "('k \<times> 'v) list \<Rightarrow> 'k \<Rightarrow> 'v \<Rightarrow> 'v" where
  "map_get_or m k v = (case map_of m k of None \<Rightarrow> v | Some x \<Rightarrow> x)"

definition fake_pending_nonce where
  "fake_pending_nonce chain_id owner s =
     fake_chain_checked (CallPendingNonce chain_id owner) chain_id (map_get_or (fc_pending_nonces s) owner 0) s"

definition fake_native_balance where
  "fake_native_balance chain_id owner s =
     fake_chain_checked (CallNativeBalance chain_id owner) chain_id (map_get_or (fc_native_balances s) owner 0) s"

definition fake_estimate_eip1559_fees :: "FakeChainState \<Rightarrow> (ChainError + Eip1559FeeEstimate) \<times> FakeChainState" where
  "fake_estimate_eip1559_fees s =
     (let (r, s1) = fake_call CallEstimateEip1559Fees s in (bindE r (\<lambda>_. Ok (fc_fee_estimate s)), s1))"

definition fake_token_balance ::
  "EvmAddress \<Rightarrow> EvmAddress \<Rightarrow> FakeChainState \<Rightarrow> (ChainError + RawAmount) \<times> FakeChainState" where
  "fake_token_balance token owner s =
     (let (r, s1) = fake_call (CallTokenBalance token owner) s in
      (bindE r (\<lambda>_. Ok (map_get_or (fc_balances s) (token, owner) 0)), s1))"

definition fake_transaction_receipt ::
  "TxHash \<Rightarrow> FakeChainState \<Rightarrow> (ChainError + TxReceipt option) \<times> FakeChainState" where
  "fake_transaction_receipt tx s =
     (let (r, s1) = fake_call (CallTransactionReceipt tx) s in
      (bindE r (\<lambda>_. Ok (map_of (fc_receipts s) tx)), s1))"

definition fake_broadcast_signed_tx :: "bytes \<Rightarrow> FakeChainState \<Rightarrow> (ChainError + TxHash) \<times> FakeChainState" where
  "fake_broadcast_signed_tx raw_tx s =
     (let (r, s1) = fake_call (CallBroadcastSignedTx (length raw_tx)) s in
      case r of Inl e \<Rightarrow> (Err e, s1)
      | Inr _ \<Rightarrow>
          let n = fc_broadcast_counter s + 1 in
          (Ok (word_of_bytes (word_bytes n @ replicate 24 0)), s1\<lparr>fc_broadcast_counter := n\<rparr>))"


section \<open>The contract of a log source\<close>

text \<open>
  A source answers a range query with the canonical logs of the range in position order, or
  with an error.  \<open>canonical\<close> is the list of logs of the canonical chain.
\<close>

definition range_selects :: "TransferLogRange \<Rightarrow> TransferLog \<Rightarrow> bool" where
  "range_selects r l \<longleftrightarrow>
     tl_chain_id l = rg_chain_id r \<and> tl_token_address l = rg_token_address r
     \<and> rg_from_block r \<le> blk_number (tl_block l) \<and> blk_number (tl_block l) \<le> rg_to_block r
     \<and> (case rg_recipient r of None \<Rightarrow> True | Some a \<Rightarrow> tl_to_address l = a)"

locale log_source =
  fixes transfer_logs :: "TransferLogRange \<Rightarrow> ChainError + TransferLog list"
    and canonical :: "TransferLog list"
  assumes logs_exact: "transfer_logs r = Ok ls \<Longrightarrow> ls = sort_logs (filter (range_selects r) canonical)"
begin

lemma logs_in_range:
  "transfer_logs r = Ok ls \<Longrightarrow> l \<in> set ls \<Longrightarrow> range_selects r l \<and> l \<in> set canonical"
  using logs_exact[of r ls] by (auto simp: sort_logs_def)

lemma logs_complete:
  "transfer_logs r = Ok ls \<Longrightarrow> l \<in> set canonical \<Longrightarrow> range_selects r l \<Longrightarrow> l \<in> set ls"
  using logs_exact[of r ls] by (simp add: sort_logs_def)

lemma logs_sorted: "transfer_logs r = Ok ls \<Longrightarrow> sorted (map log_position ls)"
  using logs_exact[of r ls] by (simp add: sort_logs_def)

end

text \<open>The canonical logs of the in-memory client: those whose block is the stored one.\<close>

definition fake_canonical :: "FakeChainState \<Rightarrow> TransferLog list" where
  "fake_canonical s =
     filter (\<lambda>l. map_option blk_hash (map_of (fc_blocks s) (blk_number (tl_block l))) = Some (blk_hash (tl_block l)))
       (fc_logs s)"

lemma fake_transfer_logs_exact:
  assumes "fst (fake_transfer_logs r s) = Ok ls"
  shows "ls = sort_logs (filter (range_selects r) (fake_canonical s))"
proof -
  have "ls = sort_logs (filter (fake_log_selected s r) (fc_logs s))"
    using assms
    by (auto simp: fake_transfer_logs_def fake_call_def Let_def bindE_eq_Ok
        split: sum.splits prod.splits option.splits if_splits)
  moreover have "filter (fake_log_selected s r) (fc_logs s) = filter (range_selects r) (fake_canonical s)"
    unfolding fake_canonical_def filter_filter
    by (rule filter_cong) (auto simp: fake_log_selected_def range_selects_def)
  ultimately show ?thesis by simp
qed

interpretation fake_source: log_source "\<lambda>r. fst (fake_transfer_logs r s)" "fake_canonical s" for s
  by unfold_locales (rule fake_transfer_logs_exact)

end
