(* ===== verification/Payment_Matching.thy ===== *)
theory Payment_Matching
  imports Chain_Types Db_Tables
begin

text \<open>
  \<open>src/src/services/payments.rs\<close> and \<open>src/src/services/payment_windows.rs\<close>: from transfer
  logs and payment windows to matched payments.  The stored-log and the live-log variants
  of the matcher are translated separately, as the code has them.  \<open>Uuid::new_v4\<close> is a
  supply of ids, indexed by the number of the call.
\<close>

section \<open>Types\<close>

record StreamId =
  sid_chain_id :: u64
  sid_token_address :: EvmAddress

record StoredTransferLog =
  sl_chain_id :: u64
  sl_token_address :: EvmAddress
  sl_block_number :: u64
  sl_block_hash :: BlockHash
  sl_block_timestamp :: timestamp
  sl_tx_hash :: TxHash
  sl_tx_index :: "u64 option"
  sl_log_index :: u64
  sl_from_address :: EvmAddress
  sl_to_address :: EvmAddress
  sl_amount_raw :: RawAmount
  sl_removed :: bool
  sl_observed_at :: timestamp

record LogPageToken =
  pt_block_number :: u64
  pt_log_index :: u64

record PaymentMatchingConfig =
  pmc_stream :: StreamId
  pmc_min_confirmations :: u64
  pmc_page_limit :: nat
  pmc_max_unique_to_addresses_per_batch :: nat

datatype PaymentRejectionReason = RemovedLog | AmbiguousCandidates

record RejectedPaymentLog =
  rj_tx_hash :: TxHash
  rj_log_index :: u64
  rj_to_address :: EvmAddress
  rj_reason :: PaymentRejectionReason

record PaymentMatchPage =
  pmp_matched_payments :: "MatchedPaymentInput list"
  pmp_rejected :: "RejectedPaymentLog list"
  pmp_next_token :: "LogPageToken option"
  pmp_complete_to_block :: "u64 option"
  pmp_kv_reorg_epoch :: u64

record StoredPaymentMatchInput =
  smi_logs :: "StoredTransferLog list"
  smi_candidates :: "PaymentWindowCandidate list"
  smi_head :: ChainBlockRef
  smi_next_token :: "LogPageToken option"
  smi_complete_to_block :: "u64 option"
  smi_kv_reorg_epoch :: u64

datatype PaymentWindowLookupError =
    LookupInvalidConfig string string
  | LookupRepository RepositoryError

datatype PaymentMatchingError =
    MatchInvalidConfig string
  | UniqueAddressLimitExceeded nat nat
  | MatchChain ChainError
  | MatchWindowLookup PaymentWindowLookupError

definition recompute_order_ids :: "PaymentMatchPage \<Rightarrow> uuid list" where
  "recompute_order_ids page = sort (remdups (map mp_order_id (pmp_matched_payments page)))"


section \<open>Candidates of a log\<close>

text \<open>The \<open>BTreeMap\<close> of candidates by receive address: \<open>get\<close> of an address with no entry is \<open>None\<close>.\<close>

definition group_candidates_by_address ::
  "PaymentWindowCandidate list \<Rightarrow> EvmAddress \<Rightarrow> PaymentWindowCandidate list option" where
  "group_candidates_by_address cs a =
     (case filter (\<lambda>c. pwc_receive_address c = a) cs of [] \<Rightarrow> None | hits \<Rightarrow> Some hits)"

definition candidates_for_log ::
  "StoredTransferLog \<Rightarrow> PaymentWindowCandidate list \<Rightarrow> StreamId \<Rightarrow> PaymentWindowCandidate list" where
  "candidates_for_log l cs stream =
     filter (\<lambda>c. pwc_chain_id c = sid_chain_id stream \<and> pwc_token_address c = sid_token_address stream
       \<and> pwc_receive_address c = sl_to_address l \<and> sl_chain_id l = sid_chain_id stream
       \<and> sl_token_address l = sid_token_address stream) cs"

definition candidate_is_within_monitor_window :: "StoredTransferLog \<Rightarrow> PaymentWindowCandidate \<Rightarrow> bool" where
  "candidate_is_within_monitor_window l c \<longleftrightarrow>
     cb_number (pwc_window_from_block c) \<le> sl_block_number l \<and> sl_block_timestamp l \<le> pwc_monitor_until c"

definition match_status_stored :: "StoredTransferLog \<Rightarrow> PaymentWindowCandidate \<Rightarrow> PaymentMatchStatus" where
  "match_status_stored l c =
     (if cb_number (pwc_window_from_block c) \<le> sl_block_number l \<and> sl_block_timestamp l \<le> pwc_expires_at c
      then OnTime
      else if candidate_is_within_monitor_window l c then Late
      else OutsideWindow)"

definition chain_status_of :: "ChainBlockRef \<Rightarrow> ChainBlockRef \<Rightarrow> u64 \<Rightarrow> PaymentChainStatus \<times> u64" where
  "chain_status_of log_block head min_confirmations =
     (let confirmations = (case confirmations_against log_block head of None \<Rightarrow> 0 | Some c \<Rightarrow> c) in
      (if min_confirmations = 0 \<or> min_confirmations \<le> confirmations then Confirmed else Observed,
       confirmations))"

definition matched_payment_input ::
  "uuid \<Rightarrow> StoredTransferLog \<Rightarrow> PaymentWindowCandidate \<Rightarrow> ChainBlockRef \<Rightarrow> u64 \<Rightarrow> MatchedPaymentInput" where
  "matched_payment_input new_id l c head min_confirmations =
     (let (cs, confirmations) =
        chain_status_of \<lparr>cb_number = sl_block_number l, cb_hash = sl_block_hash l\<rparr> head min_confirmations in
      \<lparr>mp_id = new_id, mp_order_id = pwc_order_id c, mp_child_account_id = pwc_child_account_id c,
       mp_chain_id = sl_chain_id l, mp_token_address = sl_token_address l, mp_tx_hash = sl_tx_hash l,
       mp_log_index = sl_log_index l, mp_from_address = sl_from_address l, mp_to_address = sl_to_address l,
       mp_amount_raw = sl_amount_raw l, mp_block_number = sl_block_number l,
       mp_block_hash = sl_block_hash l, mp_block_time = sl_block_timestamp l,
       mp_confirmations = confirmations, mp_match_status = match_status_stored l c,
       mp_chain_status = cs\<rparr>)"

definition rejected_log :: "StoredTransferLog \<Rightarrow> PaymentRejectionReason \<Rightarrow> RejectedPaymentLog" where
  "rejected_log l reason =
     \<lparr>rj_tx_hash = sl_tx_hash l, rj_log_index = sl_log_index l, rj_to_address = sl_to_address l,
      rj_reason = reason\<rparr>"

text \<open>
  The choice among the candidates: the only eligible one, or the only one at all when none is
  eligible; \<open>Inl\<close> is the ambiguous case.
\<close>

definition select_candidate ::
  "('c \<Rightarrow> bool) \<Rightarrow> 'c list \<Rightarrow> PaymentRejectionReason + 'c" where
  "select_candidate eligible matching =
     (case filter eligible matching of
        [c] \<Rightarrow> Inr c
      | _ # _ # _ \<Rightarrow> Inl AmbiguousCandidates
      | [] \<Rightarrow> (case matching of [c] \<Rightarrow> Inr c | _ \<Rightarrow> Inl AmbiguousCandidates))"

datatype log_outcome = Skip | Reject PaymentRejectionReason | Match PaymentWindowCandidate

definition stored_log_outcome ::
  "StreamId \<Rightarrow> PaymentWindowCandidate list \<Rightarrow> StoredTransferLog \<Rightarrow> log_outcome" where
  "stored_log_outcome stream candidates l =
     (if sl_removed l then Reject RemovedLog
      else case group_candidates_by_address candidates (sl_to_address l) of
        None \<Rightarrow> Skip
      | Some cs \<Rightarrow>
          let matching = candidates_for_log l cs stream in
          if matching = [] then Skip
          else (case select_candidate (candidate_is_within_monitor_window l) matching of
             Inl r \<Rightarrow> Reject r | Inr c \<Rightarrow> Match c))"

primrec match_stored_loop ::
  "(nat \<Rightarrow> uuid) \<Rightarrow> StreamId \<Rightarrow> u64 \<Rightarrow> PaymentWindowCandidate list \<Rightarrow> ChainBlockRef
   \<Rightarrow> StoredTransferLog list \<Rightarrow> nat \<Rightarrow> MatchedPaymentInput list \<times> RejectedPaymentLog list" where
  "match_stored_loop ids stream minc cands head [] n = ([], [])"
| "match_stored_loop ids stream minc cands head (l # ls) n =
     (case stored_log_outcome stream cands l of
        Skip \<Rightarrow> match_stored_loop ids stream minc cands head ls n
      | Reject r \<Rightarrow>
          (let (ms, rs) = match_stored_loop ids stream minc cands head ls n in (ms, rejected_log l r # rs))
      | Match c \<Rightarrow>
          (let (ms, rs) = match_stored_loop ids stream minc cands head ls (n + 1) in
           (matched_payment_input (ids n) l c head minc # ms, rs)))"

definition match_stored_transfer_logs ::
  "(nat \<Rightarrow> uuid) \<Rightarrow> StreamId \<Rightarrow> u64 \<Rightarrow> StoredPaymentMatchInput \<Rightarrow> PaymentMatchPage" where
  "match_stored_transfer_logs ids stream minc inp =
     (let (ms, rs) = match_stored_loop ids stream minc (smi_candidates inp) (smi_head inp) (smi_logs inp) 0 in
      \<lparr>pmp_matched_payments = ms, pmp_rejected = rs, pmp_next_token = smi_next_token inp,
       pmp_complete_to_block = smi_complete_to_block inp, pmp_kv_reorg_epoch = smi_kv_reorg_epoch inp\<rparr>)"


section \<open>Live logs\<close>

definition unique_to_addresses_from_transfer_logs :: "TransferLog list \<Rightarrow> EvmAddress list" where
  "unique_to_addresses_from_transfer_logs ls = sort (remdups (map tl_to_address ls))"

definition candidates_for_transfer_log ::
  "TransferLog \<Rightarrow> PaymentWindowCandidate list \<Rightarrow> StreamId \<Rightarrow> PaymentWindowCandidate list" where
  "candidates_for_transfer_log l cs stream =
     filter (\<lambda>c. pwc_chain_id c = sid_chain_id stream \<and> pwc_token_address c = sid_token_address stream
       \<and> pwc_receive_address c = tl_to_address l \<and> tl_chain_id l = sid_chain_id stream
       \<and> tl_token_address l = sid_token_address stream) cs"

definition candidate_is_within_monitor_window_transfer :: "TransferLog \<Rightarrow> PaymentWindowCandidate \<Rightarrow> bool" where
  "candidate_is_within_monitor_window_transfer l c \<longleftrightarrow>
     cb_number (pwc_window_from_block c) \<le> blk_number (tl_block l)
     \<and> blk_timestamp (tl_block l) \<le> pwc_monitor_until c"

definition match_status_transfer :: "TransferLog \<Rightarrow> PaymentWindowCandidate \<Rightarrow> PaymentMatchStatus" where
  "match_status_transfer l c =
     (if cb_number (pwc_window_from_block c) \<le> blk_number (tl_block l)
         \<and> blk_timestamp (tl_block l) \<le> pwc_expires_at c
      then OnTime
      else if candidate_is_within_monitor_window_transfer l c then Late
      else OutsideWindow)"

definition matched_payment_input_from_transfer_log ::
  "uuid \<Rightarrow> TransferLog \<Rightarrow> PaymentWindowCandidate \<Rightarrow> ChainBlockRef \<Rightarrow> u64 \<Rightarrow> MatchedPaymentInput" where
  "matched_payment_input_from_transfer_log new_id l c head min_confirmations =
     (let (cs, confirmations) = chain_status_of
        \<lparr>cb_number = blk_number (tl_block l), cb_hash = blk_hash (tl_block l)\<rparr> head min_confirmations in
      \<lparr>mp_id = new_id, mp_order_id = pwc_order_id c, mp_child_account_id = pwc_child_account_id c,
       mp_chain_id = tl_chain_id l, mp_token_address = tl_token_address l, mp_tx_hash = tl_tx_hash l,
       mp_log_index = tl_log_index l, mp_from_address = tl_from_address l, mp_to_address = tl_to_address l,
       mp_amount_raw = tl_amount_raw l, mp_block_number = blk_number (tl_block l),
       mp_block_hash = blk_hash (tl_block l), mp_block_time = blk_timestamp (tl_block l),
       mp_confirmations = confirmations, mp_match_status = match_status_transfer l c,
       mp_chain_status = cs\<rparr>)"

definition transfer_log_selected ::
  "StreamId \<Rightarrow> PaymentWindowCandidate list \<Rightarrow> TransferLog \<Rightarrow> PaymentWindowCandidate option" where
  "transfer_log_selected stream candidates l =
     (case group_candidates_by_address candidates (tl_to_address l) of
        None \<Rightarrow> None
      | Some cs \<Rightarrow>
          let matching = candidates_for_transfer_log l cs stream in
          if matching = [] then None
          else (case select_candidate (candidate_is_within_monitor_window_transfer l) matching of
             Inl _ \<Rightarrow> None | Inr c \<Rightarrow> Some c))"

primrec match_transfer_loop ::
  "(nat \<Rightarrow> uuid) \<Rightarrow> StreamId \<Rightarrow> u64 \<Rightarrow> PaymentWindowCandidate list \<Rightarrow> ChainBlockRef
   \<Rightarrow> TransferLog list \<Rightarrow> nat \<Rightarrow> MatchedPaymentInput list" where
  "match_transfer_loop ids stream minc cands head [] n = []"
| "match_transfer_loop ids stream minc cands head (l # ls) n =
     (case transfer_log_selected stream cands l of
        None \<Rightarrow> match_transfer_loop ids stream minc cands head ls n
      | Some c \<Rightarrow> matched_payment_input_from_transfer_log (ids n) l c head minc
          # match_transfer_loop ids stream minc cands head ls (n + 1))"

definition match_transfer_logs ::
  "(nat \<Rightarrow> uuid) \<Rightarrow> StreamId \<Rightarrow> u64 \<Rightarrow> TransferLog list \<Rightarrow> PaymentWindowCandidate list \<Rightarrow> ChainBlockRef
   \<Rightarrow> MatchedPaymentInput list" where
  "match_transfer_logs ids stream minc ls cands head = match_transfer_loop ids stream minc cands head ls 0"

text \<open>\<open>PaymentMatcher::match_range\<close>; the log source, the head reader and the lookup are arguments.\<close>

definition match_range ::
  "(TransferLogRange \<Rightarrow> ChainError + TransferLog list) \<Rightarrow> (ChainError + ChainBlockRef)
   \<Rightarrow> (u64 \<Rightarrow> EvmAddress \<Rightarrow> EvmAddress list \<Rightarrow> PaymentWindowLookupError + PaymentWindowCandidate list)
   \<Rightarrow> (nat \<Rightarrow> uuid) \<Rightarrow> PaymentMatchingConfig \<Rightarrow> u64 \<Rightarrow> u64
   \<Rightarrow> PaymentMatchingError + MatchedPaymentInput list" where
  "match_range source latest_head lookup_batch ids cfg from_block to_block =
     (if pmc_max_unique_to_addresses_per_batch cfg = 0
      then Err (MatchInvalidConfig ''max_unique_to_addresses_per_batch'')
      else
        let stream = pmc_stream cfg in
        bindE (map_errE MatchChain (source
          (range_new (sid_chain_id stream) (sid_token_address stream) from_block to_block))) (\<lambda>logs.
        bindE (map_errE MatchChain latest_head) (\<lambda>head.
        let addrs = unique_to_addresses_from_transfer_logs logs in
        if pmc_max_unique_to_addresses_per_batch cfg < length addrs
        then Err (UniqueAddressLimitExceeded (length addrs) (pmc_max_unique_to_addresses_per_batch cfg))
        else
          bindE (if addrs = [] then Ok []
                 else map_errE MatchWindowLookup
                   (lookup_batch (sid_chain_id stream) (sid_token_address stream) addrs)) (\<lambda>cands.
          Ok (match_transfer_logs ids stream (pmc_min_confirmations cfg) logs cands head)))))"


section \<open>Payment-window lookups\<close>

type_synonym PaymentWindowKey = "u64 \<times> EvmAddress \<times> EvmAddress"
type_synonym watch_set = "PaymentWindowKey \<rightharpoonup> PaymentWindowCandidate list"

definition key_from_candidate :: "PaymentWindowCandidate \<Rightarrow> PaymentWindowKey" where
  "key_from_candidate c = (pwc_chain_id c, pwc_token_address c, pwc_receive_address c)"

definition insert_candidate :: "PaymentWindowCandidate \<Rightarrow> watch_set \<Rightarrow> watch_set" where
  "insert_candidate c ws =
     ws(key_from_candidate c \<mapsto> (case ws (key_from_candidate c) of None \<Rightarrow> [] | Some cs \<Rightarrow> cs) @ [c])"

definition replace_watch_set :: "PaymentWindowCandidate list \<Rightarrow> watch_set" where
  "replace_watch_set cs = fold insert_candidate cs Map.empty"

definition remove_address ::
  "u64 \<Rightarrow> EvmAddress \<Rightarrow> EvmAddress \<Rightarrow> watch_set \<Rightarrow> PaymentWindowCandidate list \<times> watch_set" where
  "remove_address chain_id token receive ws =
     ((case ws (chain_id, token, receive) of None \<Rightarrow> [] | Some cs \<Rightarrow> cs), ws((chain_id, token, receive) := None))"

definition deduplicate_addresses :: "EvmAddress list \<Rightarrow> EvmAddress list" where
  "deduplicate_addresses xs =
     rev (snd (foldl (\<lambda>(seen, out) a. if a \<in> seen then (seen, out) else (insert a seen, a # out)) ({}, []) xs))"

definition candidate_matches :: "PaymentWindowCandidate \<Rightarrow> PaymentWindowKey \<Rightarrow> bool" where
  "candidate_matches c k \<longleftrightarrow> (pwc_chain_id c, pwc_token_address c, pwc_receive_address c) = k"

definition candidate_is_for_lookup :: "PaymentWindowCandidate \<Rightarrow> u64 \<Rightarrow> EvmAddress \<Rightarrow> bool" where
  "candidate_is_for_lookup c chain_id token \<longleftrightarrow> pwc_chain_id c = chain_id \<and> pwc_token_address c = token"

text \<open>The loop over the addresses: the hits, in order, and the addresses to ask the fallback for.\<close>

primrec watch_set_scan ::
  "watch_set \<Rightarrow> u64 \<Rightarrow> EvmAddress \<Rightarrow> EvmAddress list \<Rightarrow> PaymentWindowCandidate list \<times> EvmAddress list" where
  "watch_set_scan ws chain_id token [] = ([], [])"
| "watch_set_scan ws chain_id token (a # as) =
     (let (cs, misses) = watch_set_scan ws chain_id token as;
          key = (chain_id, token, a)
      in case ws key of
           None \<Rightarrow> (cs, a # misses)
         | Some hits \<Rightarrow>
             (let found = filter (\<lambda>c. candidate_matches c key) hits in
              (found @ cs, if found = [] then a # misses else misses)))"

definition watch_set_lookup_batch ::
  "watch_set \<Rightarrow> (u64 \<Rightarrow> EvmAddress \<Rightarrow> EvmAddress list \<Rightarrow> PaymentWindowLookupError + PaymentWindowCandidate list)
   \<Rightarrow> u64 \<Rightarrow> EvmAddress \<Rightarrow> EvmAddress list \<Rightarrow> PaymentWindowLookupError + PaymentWindowCandidate list" where
  "watch_set_lookup_batch ws fallback chain_id token to_addresses =
     (let addrs = deduplicate_addresses to_addresses in
      if addrs = [] then Ok []
      else
        let (cs, misses) = watch_set_scan ws chain_id token addrs in
        if misses = [] then Ok cs
        else bindE (fallback chain_id token misses) (\<lambda>found.
          Ok (cs @ filter (\<lambda>c. candidate_is_for_lookup c chain_id token) found)))"

definition empty_lookup_batch ::
  "u64 \<Rightarrow> EvmAddress \<Rightarrow> EvmAddress list \<Rightarrow> PaymentWindowLookupError + PaymentWindowCandidate list" where
  "empty_lookup_batch chain_id token to_addresses = Ok []"

definition repository_lookup_batch ::
  "(u64 \<Rightarrow> EvmAddress \<Rightarrow> EvmAddress list \<Rightarrow> RepositoryError + PaymentWindowCandidate list)
   \<Rightarrow> nat \<Rightarrow> u64 \<Rightarrow> EvmAddress \<Rightarrow> EvmAddress list \<Rightarrow> PaymentWindowLookupError + PaymentWindowCandidate list" where
  "repository_lookup_batch repo max_addresses chain_id token to_addresses =
     (if max_addresses = 0 then Err (LookupInvalidConfig ''max_addresses'' ''must be greater than zero'')
      else
        let addrs = deduplicate_addresses to_addresses in
        if max_addresses < length addrs
        then Err (LookupInvalidConfig ''to_addresses''
          (''received '' @ show_nat (length addrs) @ '' addresses, max '' @ show_nat max_addresses))
        else map_errE LookupRepository (repo chain_id token addrs))"


section \<open>The reference matcher\<close>

text \<open>
  Without the grouping: the windows of the log's chain, token and recipient, and among them the
  only one whose monitoring covers the log, or the only one at all when none covers it.
\<close>

definition windows_of_log :: "StreamId \<Rightarrow> PaymentWindowCandidate list \<Rightarrow> TransferLog \<Rightarrow> PaymentWindowCandidate list" where
  "windows_of_log stream cands l =
     (if (tl_chain_id l, tl_token_address l) = (sid_chain_id stream, sid_token_address stream)
      then filter (\<lambda>c. key_from_candidate c = (tl_chain_id l, tl_token_address l, tl_to_address l)) cands
      else [])"

definition window_covers :: "TransferLog \<Rightarrow> PaymentWindowCandidate \<Rightarrow> bool" where
  "window_covers l c \<longleftrightarrow>
     unat (cb_number (pwc_window_from_block c)) \<le> unat (blk_number (tl_block l))
     \<and> blk_timestamp (tl_block l) \<le> pwc_monitor_until c"

definition payable_window :: "StreamId \<Rightarrow> PaymentWindowCandidate list \<Rightarrow> TransferLog \<Rightarrow> PaymentWindowCandidate list" where
  "payable_window stream cands l =
     (let ws = windows_of_log stream cands l; cov = filter (window_covers l) ws in
      if length cov = 1 then cov else if cov = [] \<and> length ws = 1 then ws else [])"

lemma group_candidates_None:
  "group_candidates_by_address cs a = None \<Longrightarrow> filter (\<lambda>c. pwc_receive_address c = a) cs = []"
  by (auto simp: group_candidates_by_address_def split: list.splits)

lemma group_candidates_Some:
  "group_candidates_by_address cs a = Some hits \<Longrightarrow> hits = filter (\<lambda>c. pwc_receive_address c = a) cs"
  by (auto simp: group_candidates_by_address_def split: list.splits)

lemma candidates_for_grouped:
  "candidates_for_transfer_log l (filter (\<lambda>c. pwc_receive_address c = tl_to_address l) cands) stream
    = windows_of_log stream cands l"
  by (auto simp: candidates_for_transfer_log_def windows_of_log_def key_from_candidate_def filter_empty_conv
      intro!: filter_cong)

lemma windows_of_log_grouped_Nil:
  "filter (\<lambda>c. pwc_receive_address c = tl_to_address l) cands = [] \<Longrightarrow> windows_of_log stream cands l = []"
  using candidates_for_grouped[of l cands stream] by (simp add: candidates_for_transfer_log_def)

lemma select_candidate_cases:
  "select_candidate e m = Inr c \<longleftrightarrow> filter e m = [c] \<or> (filter e m = [] \<and> m = [c])"
  by (auto simp: select_candidate_def split: list.splits)

lemma window_covers_eq: "candidate_is_within_monitor_window_transfer l = window_covers l"
  by (auto simp: candidate_is_within_monitor_window_transfer_def window_covers_def word_le_nat_alt fun_eq_iff)

lemma selected_payable:
  "transfer_log_selected stream cands l = (case payable_window stream cands l of [] \<Rightarrow> None | c # _ \<Rightarrow> Some c)"
proof -
  let ?m = "windows_of_log stream cands l"
  have sel: "transfer_log_selected stream cands l =
      (if ?m = [] then None else case select_candidate (window_covers l) ?m of Inl _ \<Rightarrow> None | Inr c \<Rightarrow> Some c)"
  proof (cases "group_candidates_by_address cands (tl_to_address l)")
    case None
    then show ?thesis
      using windows_of_log_grouped_Nil[OF group_candidates_None[OF None]] by (simp add: transfer_log_selected_def)
  next
    case (Some hits)
    with group_candidates_Some[OF Some] show ?thesis
      by (simp add: transfer_log_selected_def candidates_for_grouped window_covers_eq)
  qed
  show ?thesis
  proof (cases "filter (window_covers l) ?m")
    case Nil
    then show ?thesis
      by (cases ?m) (auto simp: sel payable_window_def select_candidate_def split: list.splits)
  next
    case (Cons c cs)
    then have "?m \<noteq> []" by auto
    with Cons show ?thesis
      by (cases cs) (simp_all add: sel payable_window_def select_candidate_def)
  qed
qed

lemma payable_window_single: "payable_window stream cands l = [] \<or> (\<exists>c. payable_window stream cands l = [c])"
  by (auto simp: payable_window_def Let_def length_Suc_conv)

lemma payable_window_member:
  "c \<in> set (payable_window stream cands l) \<Longrightarrow> c \<in> set cands \<and>
    key_from_candidate c = (tl_chain_id l, tl_token_address l, tl_to_address l) \<and>
    sid_chain_id stream = tl_chain_id l \<and> sid_token_address stream = tl_token_address l"
  by (auto simp: payable_window_def Let_def windows_of_log_def split: if_splits)

lemma match_transfer_loop_exact:
  "match_transfer_loop ids stream minc cands head ls n =
    map (\<lambda>(i, l, c). matched_payment_input_from_transfer_log (ids i) l c head minc)
      (List.enumerate n (concat (map (\<lambda>l. map (Pair l) (payable_window stream cands l)) ls)))"
proof (induction ls arbitrary: n)
  case (Cons l ls)
  then show ?case
    using payable_window_single[of stream cands l] by (auto simp: selected_payable)
qed simp


section \<open>Stored logs are matched as live ones\<close>

definition stored_of_live :: "timestamp \<Rightarrow> TransferLog \<Rightarrow> StoredTransferLog" where
  "stored_of_live t l =
     \<lparr>sl_chain_id = tl_chain_id l, sl_token_address = tl_token_address l,
      sl_block_number = blk_number (tl_block l), sl_block_hash = blk_hash (tl_block l),
      sl_block_timestamp = blk_timestamp (tl_block l), sl_tx_hash = tl_tx_hash l, sl_tx_index = None,
      sl_log_index = tl_log_index l, sl_from_address = tl_from_address l,
      sl_to_address = tl_to_address l, sl_amount_raw = tl_amount_raw l, sl_removed = False,
      sl_observed_at = t\<rparr>"

lemma stored_simps [simp]:
  "candidates_for_log (stored_of_live t l) cs stream = candidates_for_transfer_log l cs stream"
  "candidate_is_within_monitor_window (stored_of_live t l) = candidate_is_within_monitor_window_transfer l"
  "matched_payment_input i (stored_of_live t l) c head minc = matched_payment_input_from_transfer_log i l c head minc"
  "sl_removed (stored_of_live t l) = False" "sl_to_address (stored_of_live t l) = tl_to_address l"
  by (simp_all add: stored_of_live_def candidates_for_log_def candidates_for_transfer_log_def
      candidate_is_within_monitor_window_def[abs_def] candidate_is_within_monitor_window_transfer_def[abs_def]
      matched_payment_input_def matched_payment_input_from_transfer_log_def match_status_stored_def
      match_status_transfer_def cong: if_cong)

lemma stored_outcome_live:
  "(case stored_log_outcome stream cands (stored_of_live t l) of Match c \<Rightarrow> Some c | _ \<Rightarrow> None)
    = transfer_log_selected stream cands l"
  by (auto simp: stored_log_outcome_def transfer_log_selected_def Let_def split: option.splits sum.splits)

lemma match_stored_loop_live:
  "fst (match_stored_loop ids stream minc cands head (map (stored_of_live t) ls) n)
    = match_transfer_loop ids stream minc cands head ls n"
proof (induction ls arbitrary: n)
  case (Cons l ls)
  show ?case
  proof (cases "stored_log_outcome stream cands (stored_of_live t l)")
    case Skip
    with stored_outcome_live[of stream cands t l] Cons.IH show ?thesis by simp
  next
    case (Reject r)
    with stored_outcome_live[of stream cands t l] Cons.IH show ?thesis by (simp add: case_prod_beta)
  next
    case (Match c)
    with stored_outcome_live[of stream cands t l] have "transfer_log_selected stream cands l = Some c" by simp
    with Match Cons.IH show ?thesis by (simp add: case_prod_beta)
  qed
qed simp


section \<open>Lookups\<close>

lemma dedup_fold:
  assumes "set out = seen" "distinct out"
  shows "let (seen', out') = foldl (\<lambda>(seen, out) a. if a \<in> seen then (seen, out) else (insert a seen, a # out))
      (seen, out) xs in set out' = seen' \<and> seen' = seen \<union> set xs \<and> distinct out'"
  using assms
proof (induction xs arbitrary: seen out)
  case (Cons x xs)
  show ?case
  proof (cases "x \<in> seen")
    case True
    with Cons.IH[OF Cons.prems] show ?thesis by (auto simp: case_prod_beta Let_def)
  next
    case False
    with Cons.prems Cons.IH[of "x # out" "insert x seen"] show ?thesis
      by (auto simp: case_prod_beta Let_def)
  qed
qed simp

lemma set_deduplicate [simp]: "set (deduplicate_addresses xs) = set xs"
  and distinct_deduplicate: "distinct (deduplicate_addresses xs)"
  using dedup_fold[of "[]" "{}" xs] by (auto simp: deduplicate_addresses_def case_prod_beta Let_def)

text \<open>
  The contract of a lookup with respect to the windows that exist: when it answers, the answer is
  exactly the windows of the asked chain, token and addresses.
\<close>

definition wanted :: "u64 \<Rightarrow> EvmAddress \<Rightarrow> EvmAddress list \<Rightarrow> PaymentWindowCandidate \<Rightarrow> bool" where
  "wanted chain_id token as c \<longleftrightarrow>
     pwc_chain_id c = chain_id \<and> pwc_token_address c = token \<and> pwc_receive_address c \<in> set as"

text \<open>The scan of the watch set, address by address.\<close>

definition watched :: "watch_set \<Rightarrow> PaymentWindowKey \<Rightarrow> PaymentWindowCandidate list" where
  "watched ws k = (case ws k of None \<Rightarrow> [] | Some hits \<Rightarrow> filter (\<lambda>c. candidate_matches c k) hits)"

lemma watch_set_scan_eq:
  "watch_set_scan ws chain_id token as =
    (concat (map (\<lambda>a. watched ws (chain_id, token, a)) as), filter (\<lambda>a. watched ws (chain_id, token, a) = []) as)"
  by (induction as) (auto simp: watched_def Let_def split: option.splits)

text \<open>A watch set agrees with the windows when each address it knows is known with all its windows.\<close>

definition watch_set_agrees :: "watch_set \<Rightarrow> PaymentWindowCandidate set \<Rightarrow> bool" where
  "watch_set_agrees ws windows \<longleftrightarrow>
     (\<forall>k hits. ws k = Some hits \<longrightarrow> set hits = {c \<in> windows. key_from_candidate c = k})"

lemma watched_agrees:
  assumes "watch_set_agrees ws windows" "watched ws k \<noteq> []"
  shows "set (watched ws k) = {c \<in> windows. key_from_candidate c = k}"
proof -
  obtain hits where "ws k = Some hits" using assms(2) by (auto simp: watched_def split: option.splits)
  with assms(1) show ?thesis
    by (auto simp: watched_def watch_set_agrees_def candidate_matches_def key_from_candidate_def)
qed

locale window_lookup =
  fixes lookup :: "u64 \<Rightarrow> EvmAddress \<Rightarrow> EvmAddress list \<Rightarrow> PaymentWindowLookupError + PaymentWindowCandidate list"
    and windows :: "PaymentWindowCandidate set"
  assumes lookup_exact: "lookup chain_id token as = Ok cs \<Longrightarrow> set cs = {c \<in> windows. wanted chain_id token as c}"
begin

text \<open>What the matcher sees of the windows does not depend on which addresses were asked for in one batch.\<close>

lemma windows_of_log_lookup:
  assumes "lookup (sid_chain_id stream) (sid_token_address stream) as = Ok cs" "tl_to_address l \<in> set as"
    "tl_chain_id l = sid_chain_id stream" "tl_token_address l = sid_token_address stream"
  shows "set (windows_of_log stream cs l) =
    {c \<in> windows. key_from_candidate c = (tl_chain_id l, tl_token_address l, tl_to_address l)}"
proof -
  have "set (windows_of_log stream cs l) =
      {c \<in> set cs. key_from_candidate c = (tl_chain_id l, tl_token_address l, tl_to_address l)}"
    using assms(3,4) by (simp add: windows_of_log_def)
  also have "\<dots> = {c \<in> windows. key_from_candidate c = (tl_chain_id l, tl_token_address l, tl_to_address l)}"
    unfolding lookup_exact[OF assms(1)]
    by (rule Collect_cong) (use assms(2-4) in \<open>auto simp: wanted_def key_from_candidate_def\<close>)
  finally show ?thesis .
qed

text \<open>An agreeing watch set in front of a lookup gives a lookup of the same windows again.\<close>

lemma watch_set_lookup_exact:
  assumes agrees: "watch_set_agrees ws windows"
    and ok: "watch_set_lookup_batch ws lookup chain_id token as = Ok cs"
  shows "set cs = {c \<in> windows. wanted chain_id token as c}"
proof -
  define ds where "ds = deduplicate_addresses as"
  define ms where "ms = filter (\<lambda>a. watched ws (chain_id, token, a) = []) ds"
  have hit: "set (concat (map (\<lambda>a. watched ws (chain_id, token, a)) ds)) =
      {c \<in> windows. wanted chain_id token as c \<and> pwc_receive_address c \<notin> set ms}"
  proof -
    have "c \<in> set (watched ws (chain_id, token, a)) \<longleftrightarrow>
        c \<in> windows \<and> key_from_candidate c = (chain_id, token, a) \<and> watched ws (chain_id, token, a) \<noteq> []" for c a
      using watched_agrees[OF agrees, of "(chain_id, token, a)"] by (cases "watched ws (chain_id, token, a) = []") auto
    then show ?thesis
      by (auto simp: ms_def ds_def wanted_def key_from_candidate_def)
  qed
  consider "ds = []" "cs = []" | "ms = []" "cs = concat (map (\<lambda>a. watched ws (chain_id, token, a)) ds)"
    | found where "lookup chain_id token ms = Ok found"
      "cs = concat (map (\<lambda>a. watched ws (chain_id, token, a)) ds)
        @ filter (\<lambda>c. candidate_is_for_lookup c chain_id token) found"
    using ok by (auto simp: watch_set_lookup_batch_def watch_set_scan_eq ds_def ms_def Let_def bindE_eq_Ok
        split: if_splits)
  then show ?thesis
  proof cases
    case 1
    then have "set as = {}" unfolding ds_def by (metis set_deduplicate set_empty)
    with 1 show ?thesis by (auto simp: wanted_def)
  next
    case 2
    then show ?thesis using hit by simp
  next
    case (3 found)
    have "set ms \<subseteq> set as" by (auto simp: ms_def ds_def)
    with 3 hit lookup_exact[OF 3(1)] show ?thesis
      by (auto simp: wanted_def candidate_is_for_lookup_def)
  qed
qed

end

interpretation empty_lookup: window_lookup empty_lookup_batch "{}"
  by unfold_locales (simp add: empty_lookup_batch_def)


lemma fold_insert_candidate:
  "fold insert_candidate cs ws k =
    (case ws k of None \<Rightarrow> (case filter (\<lambda>c. key_from_candidate c = k) cs of [] \<Rightarrow> None | hs \<Rightarrow> Some hs)
     | Some old \<Rightarrow> Some (old @ filter (\<lambda>c. key_from_candidate c = k) cs))"
proof (induction cs arbitrary: ws)
  case (Cons c cs)
  have "insert_candidate c ws k =
      (if key_from_candidate c = k then Some ((case ws k of None \<Rightarrow> [] | Some old \<Rightarrow> old) @ [c]) else ws k)"
    by (simp add: insert_candidate_def)
  then show ?case by (simp add: Cons.IH split: option.splits list.splits)
qed (simp split: option.splits)

lemma replace_watch_set_agrees: "watch_set_agrees (replace_watch_set cs) (set cs)"
proof -
  have "set hits = {c \<in> set cs. key_from_candidate c = k}" if "replace_watch_set cs k = Some hits" for k hits
  proof -
    have "hits = filter (\<lambda>c. key_from_candidate c = k) cs"
      using that by (simp add: replace_watch_set_def fold_insert_candidate split: list.splits)
    then show ?thesis by simp
  qed
  then show ?thesis unfolding watch_set_agrees_def by blast
qed


section \<open>Properties\<close>

text \<open>
  C32: the matcher credits exactly the logs that have an unambiguous payment window, once each
  and in the order of the logs: the window is the only one of the log's chain, token and
  recipient whose monitoring covers the log, or the only one at all when none covers it.
\<close>
theorem match_transfer_logs_exact:
  "match_transfer_logs ids stream minc ls cands head =
    map (\<lambda>(i, l, c). matched_payment_input_from_transfer_log (ids i) l c head minc)
      (List.enumerate 0 (concat (map (\<lambda>l. map (Pair l) (payable_window stream cands l)) ls)))"
  unfolding match_transfer_logs_def by (rule match_transfer_loop_exact)

text \<open>
  matching stored logs and matching the same logs live give the same payments, so the two
  copies of the matching rules in the code agree.
\<close>
theorem stored_and_live_matching_agree:
  "pmp_matched_payments (match_stored_transfer_logs ids stream minc
     \<lparr>smi_logs = map (stored_of_live t) ls, smi_candidates = cands, smi_head = head,
      smi_next_token = tok, smi_complete_to_block = complete_to, smi_kv_reorg_epoch = ep\<rparr>)
   = match_transfer_logs ids stream minc ls cands head"
  by (simp add: match_stored_transfer_logs_def match_transfer_logs_def case_prod_beta match_stored_loop_live)

end
