(* ===== verification/Order_Repo.thy ===== *)
theory Order_Repo
  imports Payment_Props Payment_Matching
begin

text \<open>
  \<open>src/src/db/repositories/orders.rs\<close>: allocation of derivation segments from the wallet
  cursor, idempotent creation of orders, reads, the window lookup of the scanner, expiry and
  the retention floor.  The repository has its own integer conversions, whose errors
  differ from those of the payment repository.
\<close>

section \<open>Conversions of this repository\<close>

definition ord_u64_to_i64 :: "u64 \<Rightarrow> string \<Rightarrow> RepositoryError + int" where
  "ord_u64_to_i64 v field = (if uint v < 2 ^ 63 then Ok (uint v) else Err (IntegerOutOfRange field))"

definition ord_i64_to_u64 :: "int \<Rightarrow> string \<Rightarrow> RepositoryError + u64" where
  "ord_i64_to_u64 v field = (if 0 \<le> v then Ok (of_int v) else Err (IntegerOutOfRange field))"

definition u32_to_i32 :: "u32 \<Rightarrow> string \<Rightarrow> RepositoryError + int" where
  "u32_to_i32 v field = (if uint v < 2 ^ 31 then Ok (uint v) else Err (IntegerOutOfRange field))"

definition i32_to_u32 :: "int \<Rightarrow> string \<Rightarrow> RepositoryError + u32" where
  "i32_to_u32 v field = (if 0 \<le> v then Ok (of_int v) else Err (IntegerOutOfRange field))"

definition index_from_i64 :: "int \<Rightarrow> string \<Rightarrow> RepositoryError + u32" where
  "index_from_i64 v field =
     (if v < 0 \<or> uint MAX_DERIVATION_INDEX < v
      then Err (InvariantViolation (field @ '' derivation index '' @ show_int v @ '' outside 0..=''
        @ show_nat (unat MAX_DERIVATION_INDEX)))
      else Ok (of_int v))"

definition big_decimal_to_raw_amount :: "int \<Rightarrow> RepositoryError + RawAmount" where
  "big_decimal_to_raw_amount v =
     map_errE (\<lambda>e. InvariantViolation (''invalid persisted raw amount '' @ show_int v @ '': '' @ amount_error_text e))
       (parse_dec_str (show_int v))"

lemma big_decimal_roundtrip [simp]: "big_decimal_to_raw_amount (uint (a :: u256)) = Ok a"
  by (simp only: big_decimal_to_raw_amount_def show_int_uint raw_amount.dec_enc map_errE_simps)

lemma big_decimal_Ok: "big_decimal_to_raw_amount v = Ok a \<Longrightarrow> v = uint a"
  by (rule raw_amount_from_numeric_Ok) (simp add: big_decimal_to_raw_amount_def raw_amount_from_numeric_def)


section \<open>Derivation segments\<close>

record AllocatedDerivation =
  ad_signer_key_ref :: string
  ad_derivation_version :: u32
  ad_segment :: DerivationSegment
  ad_derivation_path :: string

definition allocate_derivation_segment :: "string \<Rightarrow> db \<Rightarrow> AllocatedDerivation tx" where
  "allocate_derivation_segment cursor_id d =
     (case find_row (\<lambda>r. wc_id r = cursor_id) (wallet_cursors d) of
        None \<Rightarrow> Err (NotFound ''wallet_cursors'' cursor_id)
      | Some row \<Rightarrow>
          bindE (index_from_i64 (wc_account_index row) ''account'') (\<lambda>account.
          bindE (index_from_i64 (wc_change_index row) ''change'') (\<lambda>change.
          bindE (index_from_i64 (wc_next_address_index row) ''address'') (\<lambda>address.
          bindE (map_errE repository_error_of_segment (segment_new account change address)) (\<lambda>segment.
          bindE (map_errE repository_error_of_segment (segment_next segment)) (\<lambda>next.
          bindE (i32_to_u32 (wc_derivation_version row) ''wallet_cursors.derivation_version'') (\<lambda>version.
          Ok (\<lparr>ad_signer_key_ref = wc_signer_key_ref row, ad_derivation_version = version,
               ad_segment = segment, ad_derivation_path = derivation_path segment\<rparr>,
              d\<lparr>wallet_cursors := update_where (\<lambda>r. wc_id r = cursor_id)
                (\<lambda>r. r\<lparr>wc_account_index := uint (account_index next), wc_change_index := uint (change_index next),
                       wc_next_address_index := uint (address_index next)\<rparr>) (wallet_cursors d)\<rparr>))))))))"


section \<open>Reading orders\<close>

definition row_to_order_record :: "order_row \<Rightarrow> RepositoryError + OrderRecord" where
  "row_to_order_record r =
     bindE (ord_i64_to_u64 (o_chain_id r) ''chain_id'') (\<lambda>chain_id.
     bindE (big_decimal_to_raw_amount (o_expected_amount_raw r)) (\<lambda>expected.
     bindE (big_decimal_to_raw_amount (o_paid_amount_raw r)) (\<lambda>paid.
     Ok \<lparr>or_id = o_id r, or_owner_sub = o_owner_sub r, or_external_id = o_external_id r,
         or_request_hash = o_request_hash r, or_child_account_id = o_child_account_id r,
         or_receive_address = o_receive_address r, or_chain_id = chain_id,
         or_token_address = o_token_address r, or_expected_amount_raw = expected,
         or_paid_amount_raw = paid, or_status = o_status r, or_expires_at = o_expires_at r,
         or_monitor_until = o_monitor_until r, or_created_at = o_created_at r,
         or_updated_at = o_updated_at r\<rparr>)))"

definition fetch_order :: "(order_row \<Rightarrow> bool) \<Rightarrow> db \<Rightarrow> RepositoryError + OrderRecord option" where
  "fetch_order c d =
     (case find_row c (orders d) of None \<Rightarrow> Ok None | Some r \<Rightarrow> mapE Some (row_to_order_record r))"

definition get_order :: "uuid \<Rightarrow> db \<Rightarrow> RepositoryError + OrderRecord option" where
  "get_order oid d = fetch_order (\<lambda>r. o_id r = oid) d"

definition get_order_for_owner :: "uuid \<Rightarrow> string \<Rightarrow> db \<Rightarrow> RepositoryError + OrderRecord option" where
  "get_order_for_owner oid owner d = fetch_order (\<lambda>r. o_id r = oid \<and> o_owner_sub r = owner) d"

definition get_order_by_external_id_for_owner :: "string \<Rightarrow> string \<Rightarrow> db \<Rightarrow> RepositoryError + OrderRecord option" where
  "get_order_by_external_id_for_owner ext owner d =
     fetch_order (\<lambda>r. o_external_id r = ext \<and> o_owner_sub r = owner) d"

definition row_to_child_account :: "child_account_row \<Rightarrow> RepositoryError + ChildAccountRecord" where
  "row_to_child_account c =
     bindE (i32_to_u32 (c_derivation_version c) ''child_accounts.derivation_version'') (\<lambda>version.
     bindE (index_from_i64 (c_account_index c) ''account'') (\<lambda>account.
     bindE (index_from_i64 (c_change_index c) ''change'') (\<lambda>change.
     bindE (index_from_i64 (c_address_index c) ''address'') (\<lambda>address.
     bindE (map_errE repository_error_of_segment (segment_new account change address)) (\<lambda>segment.
     Ok \<lparr>car_id = c_id c, car_signer_key_ref = c_signer_key_ref c, car_derivation_version = version,
         car_derivation_segment = segment, car_derivation_path = c_derivation_path c,
         car_address = c_address c, car_last_used_at = c_last_used_at c,
         car_created_at = c_created_at c\<rparr>)))))"

definition row_to_order_view ::
  "order_row \<Rightarrow> child_account_row \<Rightarrow> window_row \<Rightarrow> RepositoryError + OrderView" where
  "row_to_order_view r c w =
     bindE (row_to_order_record r) (\<lambda>ord.
     bindE (row_to_child_account c) (\<lambda>child.
     bindE (ord_i64_to_u64 (w_window_from_block w) ''payment_windows.window_from_block'') (\<lambda>block.
     Ok \<lparr>ov_order = ord, ov_child_account = child,
         ov_payment_window = \<lparr>pwr_id = w_id w, pwr_order_id = w_order_id w,
           pwr_child_account_id = w_child_account_id w, pwr_receive_address = w_receive_address w,
           pwr_window_from = w_window_from w,
           pwr_window_from_block = \<lparr>cb_number = block, cb_hash = w_window_from_block_hash w\<rparr>,
           pwr_expires_at = w_expires_at w, pwr_monitor_until = w_monitor_until w,
           pwr_created_at = w_created_at w\<rparr>\<rparr>)))"

text \<open>The two inner joins of \<open>ORDER_VIEW_SELECT\<close>.\<close>

definition fetch_order_view :: "(order_row \<Rightarrow> bool) \<Rightarrow> db \<Rightarrow> RepositoryError + OrderView option" where
  "fetch_order_view q d =
     (case find_row q (orders d) of
        None \<Rightarrow> Ok None
      | Some r \<Rightarrow>
          (case (find_row (\<lambda>c. c_id c = o_child_account_id r) (child_accounts d),
                 find_row (\<lambda>w. w_order_id w = o_id r) (payment_windows d)) of
             (Some c, Some w) \<Rightarrow> mapE Some (row_to_order_view r c w)
           | _ \<Rightarrow> Ok None))"

definition get_order_view :: "uuid \<Rightarrow> db \<Rightarrow> RepositoryError + OrderView option" where
  "get_order_view oid d = fetch_order_view (\<lambda>r. o_id r = oid) d"

definition get_order_view_for_owner :: "uuid \<Rightarrow> string \<Rightarrow> db \<Rightarrow> RepositoryError + OrderView option" where
  "get_order_view_for_owner oid owner d = fetch_order_view (\<lambda>r. o_id r = oid \<and> o_owner_sub r = owner) d"


section \<open>Creating orders\<close>

datatype CreateOrderOutcome = Created OrderRecord | Existing OrderRecord

definition validate_create_order_command :: "CreateOrderCommand \<Rightarrow> RepositoryError + unit" where
  "validate_create_order_command c =
     (let ca = coc_child_account c; pw = coc_payment_window c;
          expected_path = derivation_path (nca_derivation_segment ca) in
      if trim (coc_owner_sub c) = [] then Err (InvariantViolation ''order owner_sub must not be empty'')
      else if npw_order_id pw \<noteq> coc_order_id c
      then Err (InvariantViolation ''payment_window.order_id does not match command.order_id'')
      else if npw_child_account_id pw \<noteq> nca_id ca
      then Err (InvariantViolation ''payment_window.child_account_id does not match child_account.id'')
      else if npw_receive_address pw \<noteq> nca_address ca
      then Err (InvariantViolation ''payment_window.receive_address does not match child_account.address'')
      else if nca_derivation_path ca \<noteq> expected_path
      then Err (InvariantViolation (''child_account.derivation_path does not match segment: expected ''
        @ expected_path @ '', got '' @ nca_derivation_path ca))
      else Ok ())"

text \<open>The inserts with the checks and the unique keys of their tables.\<close>

definition child_derivation_key :: "child_account_row \<Rightarrow> string \<times> int \<times> int \<times> int \<times> int" where
  "child_derivation_key c =
     (c_signer_key_ref c, c_derivation_version c, c_account_index c, c_change_index c, c_address_index c)"

definition insert_child_account :: "child_account_row \<Rightarrow> db \<Rightarrow> RepositoryError + db" where
  "insert_child_account c d =
     (if c_signer_key_ref c = [] \<or> c_derivation_version c \<le> 0
         \<or> \<not> (c_account_index c \<in> {0..2147483647} \<and> c_change_index c \<in> {0..2147483647}
              \<and> c_address_index c \<in> {0..2147483647})
      then Err (Database (CheckViolation ''child_accounts''))
      else if \<exists>r \<in> set (child_accounts d). c_id r = c_id c \<or> c_address r = c_address c
         \<or> child_derivation_key r = child_derivation_key c
      then Err (Database (UniqueViolation ''child_accounts''))
      else Ok (d\<lparr>child_accounts := child_accounts d @ [c]\<rparr>))"

definition insert_order :: "order_row \<Rightarrow> db \<Rightarrow> RepositoryError + db" where
  "insert_order r d =
     (if o_owner_sub r = [] \<or> o_external_id r = [] \<or> o_request_hash r = [] \<or> o_chain_id r < 0
         \<or> o_expected_amount_raw r \<le> 0 \<or> o_monitor_until r < o_expires_at r
      then Err (Database (CheckViolation ''orders''))
      else if \<exists>q \<in> set (orders d). o_id q = o_id r \<or> o_receive_address q = o_receive_address r
         \<or> (o_owner_sub q = o_owner_sub r \<and> o_external_id q = o_external_id r)
      then Err (Database (UniqueViolation ''orders''))
      else if \<not> (\<exists>c \<in> set (child_accounts d). c_id c = o_child_account_id r \<and> c_address c = o_receive_address r)
      then Err (Database (ForeignKeyViolation ''orders''))
      else Ok (d\<lparr>orders := orders d @ [r]\<rparr>))"

definition insert_window :: "window_row \<Rightarrow> db \<Rightarrow> RepositoryError + db" where
  "insert_window w d =
     (if w_window_from_block w < 0 \<or> w_expires_at w \<le> w_window_from w \<or> w_monitor_until w < w_expires_at w
      then Err (Database (CheckViolation ''payment_windows''))
      else if \<exists>v \<in> set (payment_windows d). w_id v = w_id w \<or> w_order_id v = w_order_id w
      then Err (Database (UniqueViolation ''payment_windows''))
      else if \<not> (\<exists>r \<in> set (orders d). o_id r = w_order_id w \<and> o_child_account_id r = w_child_account_id w
           \<and> o_receive_address r = w_receive_address w)
      then Err (Database (ForeignKeyViolation ''payment_windows''))
      else Ok (d\<lparr>payment_windows := payment_windows d @ [w]\<rparr>))"

definition insert_order_tx :: "CreateOrderCommand \<Rightarrow> db \<Rightarrow> OrderRecord tx" where
  "insert_order_tx c d =
     bindE (validate_create_order_command c) (\<lambda>_.
     bindE (ord_u64_to_i64 (coc_chain_id c) ''chain_id'') (\<lambda>chain.
     let ca = coc_child_account c; pw = coc_payment_window c; seg = nca_derivation_segment ca in
     bindE (u32_to_i32 (nca_derivation_version ca) ''child_accounts.derivation_version'') (\<lambda>version.
     bindE (ord_u64_to_i64 (cb_number (npw_window_from_block pw)) ''window_from_block'') (\<lambda>from_block.
     bindE (insert_child_account \<lparr>c_id = nca_id ca, c_signer_key_ref = nca_signer_key_ref ca,
         c_derivation_version = version, c_account_index = uint (account_index seg),
         c_change_index = uint (change_index seg), c_address_index = uint (address_index seg),
         c_derivation_path = nca_derivation_path ca, c_address = nca_address ca,
         c_last_used_at = Some (db_now d), c_created_at = db_now d\<rparr> d) (\<lambda>d1.
     bindE (insert_order \<lparr>o_id = coc_order_id c, o_owner_sub = coc_owner_sub c,
         o_external_id = coc_external_id c, o_request_hash = coc_request_hash c,
         o_child_account_id = nca_id ca, o_receive_address = nca_address ca, o_chain_id = chain,
         o_token_address = coc_token_address c,
         o_expected_amount_raw = raw_amount_to_numeric (coc_expected_amount_raw c),
         o_paid_amount_raw = 0, o_status = Pending, o_expires_at = npw_expires_at pw,
         o_monitor_until = npw_monitor_until pw, o_created_at = db_now d, o_updated_at = db_now d\<rparr> d1) (\<lambda>d2.
     bindE (insert_window \<lparr>w_id = npw_id pw, w_order_id = coc_order_id c, w_child_account_id = nca_id ca,
         w_receive_address = nca_address ca, w_window_from = npw_window_from pw,
         w_window_from_block = from_block, w_window_from_block_hash = cb_hash (npw_window_from_block pw),
         w_expires_at = npw_expires_at pw, w_monitor_until = npw_monitor_until pw,
         w_created_at = db_now d\<rparr> d2) (\<lambda>d3.
     bindE (get_order (coc_order_id c) d3) (\<lambda>found.
     case found of
       None \<Rightarrow> Err (InvariantViolation (''created order '' @ show_uuid (coc_order_id c) @ '' was not readable''))
     | Some rec \<Rightarrow> Ok (rec, d3)))))))))"

definition create_order_idempotent :: "CreateOrderCommand \<Rightarrow> db \<Rightarrow> CreateOrderOutcome tx" where
  "create_order_idempotent c d =
     bindE (get_order_by_external_id_for_owner (coc_external_id c) (coc_owner_sub c) d) (\<lambda>found.
     case found of
       Some existing \<Rightarrow>
         if or_request_hash existing = coc_request_hash c then Ok (Existing existing, d)
         else Err (IdempotencyConflict ''orders'' (coc_external_id c) (Some (or_id existing)))
     | None \<Rightarrow> bindE (insert_order_tx c d) (\<lambda>(rec, d'). Ok (Created rec, d')))"


section \<open>The window lookup of the scanner\<close>

definition row_to_payment_window_candidate ::
  "window_row \<times> order_row \<Rightarrow> RepositoryError + PaymentWindowCandidate" where
  "row_to_payment_window_candidate wr =
     (let w = fst wr; r = snd wr in
      bindE (ord_i64_to_u64 (w_window_from_block w) ''payment_windows.window_from_block'') (\<lambda>block.
      bindE (ord_i64_to_u64 (o_chain_id r) ''chain_id'') (\<lambda>chain_id.
      bindE (big_decimal_to_raw_amount (o_expected_amount_raw r)) (\<lambda>expected.
      bindE (big_decimal_to_raw_amount (o_paid_amount_raw r)) (\<lambda>paid.
      Ok \<lparr>pwc_order_id = o_id r, pwc_child_account_id = o_child_account_id r,
          pwc_receive_address = w_receive_address w, pwc_chain_id = chain_id,
          pwc_token_address = o_token_address r, pwc_expected_amount_raw = expected,
          pwc_paid_amount_raw = paid, pwc_order_status = o_status r, pwc_window_from = w_window_from w,
          pwc_window_from_block = \<lparr>cb_number = block, cb_hash = w_window_from_block_hash w\<rparr>,
          pwc_expires_at = w_expires_at w, pwc_monitor_until = w_monitor_until w\<rparr>)))))"

definition window_order_join :: "db \<Rightarrow> (window_row \<times> order_row) list" where
  "window_order_join d =
     concat (map (\<lambda>w. map (Pair w) (filter (\<lambda>r. o_id r = w_order_id w) (orders d))) (payment_windows d))"

definition lookup_payment_window_candidates ::
  "db \<Rightarrow> u64 \<Rightarrow> EvmAddress \<Rightarrow> EvmAddress list \<Rightarrow> RepositoryError + PaymentWindowCandidate list" where
  "lookup_payment_window_candidates d chain_id token to_addresses =
     (if to_addresses = [] then Ok []
      else
        bindE (ord_u64_to_i64 chain_id ''chain_id'') (\<lambda>chain.
        let addrs = sort (remdups to_addresses);
            rows = filter (\<lambda>(w, r). o_chain_id r = chain \<and> o_token_address r = token
                      \<and> w_receive_address w \<in> set addrs) (window_order_join d)
        in traverseE row_to_payment_window_candidate
          (sort_key (w_receive_address \<circ> fst) (sort_key (w_window_from_block \<circ> fst) (sort_key (o_id \<circ> snd) rows)))))"


section \<open>Expiry and retention\<close>

definition recompute_expired_open_orders :: "timestamp \<Rightarrow> u32 \<Rightarrow> db \<Rightarrow> nat tx" where
  "recompute_expired_open_orders now limit d =
     (if limit = 0 then Ok (0, d)
      else
        let rows = take (unat limit) (sort_key o_expires_at (sort_key o_id (filter
              (\<lambda>r. (o_status r = Pending \<or> o_status r = Partial) \<and> o_expires_at r \<le> db_now d) (orders d))));
            order_ids = id_set (map o_id rows)
        in mapE (\<lambda>d'. (length order_ids, d')) (recompute_orders_in_tx now order_ids d))"

definition select_retention_floor :: "u64 \<Rightarrow> u64 option \<Rightarrow> u64 option \<Rightarrow> u64" where
  "select_retention_floor lookback active manual =
     (let floor = (case active of None \<Rightarrow> lookback | Some a \<Rightarrow> min lookback a) in
      case manual of None \<Rightarrow> floor | Some m \<Rightarrow> min floor m)"

definition window_is_active :: "int \<Rightarrow> EvmAddress \<Rightarrow> timestamp \<Rightarrow> window_row \<times> order_row \<Rightarrow> bool" where
  "window_is_active chain token tnow wr \<longleftrightarrow>
     o_chain_id (snd wr) = chain \<and> o_token_address (snd wr) = token
     \<and> (o_status (snd wr) = Pending \<or> o_status (snd wr) = Partial \<or> o_status (snd wr) = Confirming
        \<or> tnow \<le> w_monitor_until (fst wr))"

text \<open>\<open>MIN\<close> of no rows is \<open>NULL\<close>.\<close>

definition sql_min :: "int list \<Rightarrow> int option" where
  "sql_min xs = (case xs of [] \<Rightarrow> None | y # ys \<Rightarrow> Some (foldl min y ys))"

definition retention_floor_block ::
  "u64 \<Rightarrow> EvmAddress \<Rightarrow> u64 \<Rightarrow> u64 option \<Rightarrow> db \<Rightarrow> RepositoryError + u64 option" where
  "retention_floor_block chain_id token lookback manual d =
     bindE (ord_u64_to_i64 chain_id ''chain_id'') (\<lambda>chain.
     case find_cursor chain token d of
       None \<Rightarrow> Ok None
     | Some c \<Rightarrow>
         bindE (ord_i64_to_u64 (cur_last_scanned_block c) ''last_scanned_block'') (\<lambda>last.
         bindE (case sql_min (map (w_window_from_block \<circ> fst)
                        (filter (window_is_active chain token (db_now d)) (window_order_join d))) of
                  None \<Rightarrow> Ok None
                | Some v \<Rightarrow> mapE Some (ord_i64_to_u64 v ''active_window_from_block'')) (\<lambda>active.
         Ok (Some (select_retention_floor (saturating_sub last lookback) active manual)))))"


section \<open>Problem payments\<close>

definition is_problem_payment :: "payment_row \<Rightarrow> bool" where
  "is_problem_payment p \<longleftrightarrow>
     (p_match_status p = Late \<or> p_match_status p = OutsideWindow) \<and> p_chain_status p \<noteq> Orphaned"

definition row_to_order_problem_payment :: "payment_row \<Rightarrow> RepositoryError + OrderProblemPaymentRecord" where
  "row_to_order_problem_payment p =
     bindE (big_decimal_to_raw_amount (p_amount_raw p)) (\<lambda>amount.
     bindE (ord_i64_to_u64 (p_block_number p) ''payments.block_number'') (\<lambda>block.
     bindE (ord_i64_to_u64 (p_confirmations p) ''payments.confirmations'') (\<lambda>confirmations.
     Ok \<lparr>opp_tx_hash = p_tx_hash p, opp_amount_raw = amount, opp_block_number = block,
         opp_block_time = p_block_time p, opp_confirmations = confirmations,
         opp_match_status = p_match_status p, opp_chain_status = p_chain_status p\<rparr>)))"

definition optionE :: "('a \<Rightarrow> 'e + 'b) \<Rightarrow> 'a option \<Rightarrow> 'e + 'b option" where
  "optionE f x = (case x of None \<Rightarrow> Ok None | Some v \<Rightarrow> mapE Some (f v))"

definition row_to_order_problem_collection ::
  "collection_row \<Rightarrow> RepositoryError + OrderProblemCollectionRecord" where
  "row_to_order_problem_collection c =
     bindE (optionE big_decimal_to_raw_amount (col_amount_raw c)) (\<lambda>amount.
     Ok \<lparr>opc_id = col_id c, opc_status = col_status c, opc_amount_raw = amount,
         opc_outbound_tx_id = col_outbound_tx_id c, opc_to_address = col_to_address c,
         opc_updated_at = col_updated_at c\<rparr>)"

definition row_to_order_manual_acceptance :: "override_row \<Rightarrow> RepositoryError + OrderManualAcceptanceRecord" where
  "row_to_order_manual_acceptance r =
     bindE (big_decimal_to_raw_amount (ovr_accepted_raw r)) (\<lambda>amount.
     Ok \<lparr>oma_accepted_problem_payment_raw = amount, oma_accepted_by = ovr_accepted_by r,
         oma_reason = ovr_reason r, oma_created_at = ovr_created_at r, oma_updated_at = ovr_updated_at r\<rparr>)"

definition problem_collection_rank :: "CollectionRecordStatus \<Rightarrow> nat" where
  "problem_collection_rank s = (case s of
      ColConfirmed \<Rightarrow> 0 | ColConfirming \<Rightarrow> 1 | ColTransferring \<Rightarrow> 2 | ColQueued \<Rightarrow> 3 | ColReplacing \<Rightarrow> 4
    | _ \<Rightarrow> 5)"

definition first_row :: "'r list \<Rightarrow> 'r option" where
  "first_row rs = (case rs of [] \<Rightarrow> None | r # _ \<Rightarrow> Some r)"

definition sum_amounts :: "(payment_row \<Rightarrow> bool) \<Rightarrow> payment_row list \<Rightarrow> int" where
  "sum_amounts c ps = sum_list (map p_amount_raw (filter c ps))"

definition get_order_payment_diagnostics_for_owner ::
  "uuid \<Rightarrow> string \<Rightarrow> EvmAddress \<Rightarrow> db \<Rightarrow> RepositoryError + OrderPaymentDiagnostics option" where
  "get_order_payment_diagnostics_for_owner oid owner problem_funds_address d =
     (if find_row (\<lambda>r. o_id r = oid \<and> o_owner_sub r = owner) (orders d) = None then Ok None
      else
        let ps = filter (\<lambda>p. p_order_id p = oid) (payments d);
            late = (\<lambda>p. p_match_status p = Late \<and> p_chain_status p \<noteq> Orphaned);
            outside = (\<lambda>p. p_match_status p = OutsideWindow \<and> p_chain_status p \<noteq> Orphaned);
            latest = first_row (sort_key (\<lambda>p. - p_block_time p) (sort_key (\<lambda>p. - p_block_number p)
              (sort_key (\<lambda>p. - p_log_index p) (filter is_problem_payment ps))));
            collection = first_row (sort_key (problem_collection_rank \<circ> col_status)
              (sort_key (\<lambda>c. - col_updated_at c) (sort_key col_id
                (filter (\<lambda>c. col_order_id c = oid \<and> col_to_address c = problem_funds_address) (collections d)))));
            acceptance = find_row (\<lambda>r. ovr_order_id r = oid) (order_payment_overrides d)
        in
        bindE (optionE row_to_order_problem_payment latest) (\<lambda>latest_payment.
        bindE (optionE row_to_order_problem_collection collection) (\<lambda>problem_collection.
        bindE (optionE row_to_order_manual_acceptance acceptance) (\<lambda>manual_acceptance.
        bindE (ord_i64_to_u64 (int (length (filter is_problem_payment ps))) ''problem_payment_count'') (\<lambda>n.
        bindE (big_decimal_to_raw_amount (sum_amounts is_problem_payment ps)) (\<lambda>total.
        bindE (ord_i64_to_u64 (int (length (filter late ps))) ''late_payment_count'') (\<lambda>late_n.
        bindE (big_decimal_to_raw_amount (sum_amounts late ps)) (\<lambda>late_total.
        bindE (ord_i64_to_u64 (int (length (filter outside ps))) ''outside_window_payment_count'') (\<lambda>out_n.
        bindE (big_decimal_to_raw_amount (sum_amounts outside ps)) (\<lambda>out_total.
        Ok (Some \<lparr>opd_problem_payment_count = n, opd_problem_payment_total_raw = total,
          opd_late_payment_count = late_n, opd_late_payment_total_raw = late_total,
          opd_outside_window_payment_count = out_n, opd_outside_window_payment_total_raw = out_total,
          opd_latest_problem_payment = latest_payment, opd_problem_collection = problem_collection,
          opd_manual_acceptance = manual_acceptance\<rparr>)))))))))))"

definition upsert_override :: "override_row \<Rightarrow> db \<Rightarrow> RepositoryError + db" where
  "upsert_override new d =
     (if \<not> 0 < ovr_accepted_raw new \<or> ovr_accepted_by new = [] \<or> ovr_reason new = Some []
      then Err (Database (CheckViolation ''order_payment_overrides''))
      else if \<exists>r \<in> set (order_payment_overrides d). ovr_order_id r = ovr_order_id new
      then Ok (d\<lparr>order_payment_overrides := update_where (\<lambda>r. ovr_order_id r = ovr_order_id new)
             (\<lambda>r. r\<lparr>ovr_accepted_raw := ovr_accepted_raw new, ovr_accepted_by := ovr_accepted_by new,
                    ovr_reason := ovr_reason new, ovr_updated_at := db_now d\<rparr>) (order_payment_overrides d)\<rparr>)
      else if \<not> (\<exists>r \<in> set (orders d). o_id r = ovr_order_id new)
      then Err (Database (ForeignKeyViolation ''order_payment_overrides''))
      else Ok (d\<lparr>order_payment_overrides := order_payment_overrides d @ [new]\<rparr>))"

definition normalize_reason :: "string option \<Rightarrow> string option" where
  "normalize_reason reason =
     (case reason of None \<Rightarrow> None | Some t \<Rightarrow> if trim t = [] then None else Some (trim t))"

definition accept_problem_payment_for_owner ::
  "timestamp \<Rightarrow> uuid \<Rightarrow> string \<Rightarrow> string \<Rightarrow> string option \<Rightarrow> db \<Rightarrow> OrderView option tx" where
  "accept_problem_payment_for_owner now oid owner accepted_by0 reason0 d =
     (let accepted_by = trim accepted_by0; reason = normalize_reason reason0 in
      if accepted_by = [] then Err (InvalidArgument ''accepted_by'' ''must not be empty'')
      else case find_row (\<lambda>r. o_id r = oid \<and> o_owner_sub r = owner) (orders d) of
        None \<Rightarrow> Ok (None, d)
      | Some ord \<Rightarrow>
          bindE (big_decimal_to_raw_amount (o_expected_amount_raw ord)) (\<lambda>expected.
          let ps = filter (\<lambda>p. p_order_id p = oid) (payments d) in
          bindE (big_decimal_to_raw_amount (sum_amounts
              (\<lambda>p. p_match_status p = OnTime \<and> p_chain_status p = Confirmed) ps)) (\<lambda>on_time.
          bindE (big_decimal_to_raw_amount (sum_amounts
              (\<lambda>p. (p_match_status p = Late \<or> p_match_status p = OutsideWindow)
                 \<and> p_chain_status p = Confirmed) ps)) (\<lambda>problem.
          if is_zero problem
          then Err (InvalidArgument ''problem_payment''
            ''no confirmed late or outside_window payment is available to accept'')
          else case checked_add on_time problem of
            None \<Rightarrow> Err (InvariantViolation ''accepted payment total overflow'')
          | Some accepted_total \<Rightarrow>
              if accepted_total < expected
              then Err (InvalidArgument ''problem_payment''
                ''confirmed accepted payment total is lower than expected order amount'')
              else
                bindE (upsert_override \<lparr>ovr_order_id = oid, ovr_accepted_raw = raw_amount_to_numeric problem,
                    ovr_accepted_by = accepted_by, ovr_reason = reason, ovr_created_at = db_now d,
                    ovr_updated_at = db_now d\<rparr> d) (\<lambda>d1.
                bindE (recompute_orders_in_tx now [oid] d1) (\<lambda>d2.
                bindE (get_order_view_for_owner oid owner d2) (\<lambda>view.
                Ok (view, d2))))))))"

end
