(* ===== verification/Order_Ledger.thy ===== *)
theory Order_Ledger
  imports Order_Repo
begin

text \<open>
  What the operations of \<open>Order_Repo\<close> do to the schema invariant and to the ledger, and the
  facts about single operations that the properties of orders rest on.
\<close>

section \<open>Tables no payment operation reads\<close>

lemma totals_frame:
  assumes "payments d' = payments d" "order_payment_overrides d' = order_payment_overrides d"
  shows "confirmed_accepted_total d' = confirmed_accepted_total d"
    "non_orphaned_accepted_total d' = non_orphaned_accepted_total d"
    "order_settled d' = order_settled d"
  using assms
  by (simp_all add: fun_eq_iff confirmed_accepted_total_def non_orphaned_accepted_total_def order_settled_def)

lemma schema_wallet_update [simp]:
  "schema_ok (d\<lparr>wallet_cursors := ws\<rparr>) = schema_ok d" "ledger_ok (d\<lparr>wallet_cursors := ws\<rparr>) = ledger_ok d"
  "schema_ok (d\<lparr>child_accounts := cs\<rparr>) = schema_ok d" "ledger_ok (d\<lparr>child_accounts := cs\<rparr>) = ledger_ok d"
  by (simp_all add: schema_ok_def keys_ok_def payments_ok_def ledger_ok_def
      totals_frame(3)[of "d\<lparr>wallet_cursors := ws\<rparr>" d] totals_frame(3)[of "d\<lparr>child_accounts := cs\<rparr>" d])

section \<open>Allocation of segments\<close>

lemma index_from_i64_Ok:
  "index_from_i64 v f = Ok i \<longleftrightarrow> 0 \<le> v \<and> v \<le> uint MAX_DERIVATION_INDEX \<and> i = of_int v"
  by (auto simp: index_from_i64_def)

definition advance_wallet :: "DerivationSegment \<Rightarrow> wallet_cursor_row \<Rightarrow> wallet_cursor_row" where
  "advance_wallet nx r =
     r\<lparr>wc_account_index := uint (account_index nx), wc_change_index := uint (change_index nx),
       wc_next_address_index := uint (address_index nx)\<rparr>"

lemma advance_wallet_id [simp]: "wc_id (advance_wallet nx r) = wc_id r"
  by (simp add: advance_wallet_def)

lemma allocate_derivation_segment_Ok:
  assumes "allocate_derivation_segment cid d = Ok (a, d')"
  obtains row nx where "find_row (\<lambda>r. wc_id r = cid) (wallet_cursors d) = Some row"
    "segment_next (ad_segment a) = Ok nx" "ad_derivation_path a = derivation_path (ad_segment a)"
    "ad_signer_key_ref a = wc_signer_key_ref row"
    "uint (account_index (ad_segment a)) = wc_account_index row"
    "uint (change_index (ad_segment a)) = wc_change_index row"
    "uint (address_index (ad_segment a)) = wc_next_address_index row"
    "d' = d\<lparr>wallet_cursors := update_where (\<lambda>r. wc_id r = cid)
       (advance_wallet nx) (wallet_cursors d)\<rparr>"
proof -
  obtain row where row: "find_row (\<lambda>r. wc_id r = cid) (wallet_cursors d) = Some row"
    using assms by (auto simp: allocate_derivation_segment_def split: option.splits)
  have bound: "uint (of_int v :: u32) = v" if "0 \<le> v" "v \<le> uint MAX_DERIVATION_INDEX" for v
    using that by (simp add: unsigned_of_int take_bit_int_eq_self MAX_DERIVATION_INDEX_def)
  show thesis
    using assms row
    by (auto simp: allocate_derivation_segment_def result_unfold index_from_i64_Ok segment_new_def bound
        advance_wallet_def[abs_def] intro!: that)
qed

lemma allocate_keeps:
  assumes "allocate_derivation_segment cid d = Ok (a, d')" "schema_ok d" "ledger_ok d"
  shows "schema_ok d' \<and> ledger_ok d'"
  using assms by (elim allocate_derivation_segment_Ok) simp

text \<open>The position of a wallet cursor in the order in which segments are handed out.\<close>

definition cursor_position :: "string \<Rightarrow> db \<Rightarrow> int option" where
  "cursor_position cid d =
     map_option (\<lambda>r. (wc_account_index r * 2 ^ 31 + wc_change_index r) * 2 ^ 31 + wc_next_address_index r)
       (find_row (\<lambda>r. wc_id r = cid) (wallet_cursors d))"

lemma allocate_advances:
  assumes "allocate_derivation_segment cid d = Ok (a, d')"
  shows "segment_valid (ad_segment a) \<and> cursor_position cid d = Some (int (segment_position (ad_segment a))) \<and>
    cursor_position cid d' = Some (int (segment_position (ad_segment a)) + 1)"
proof -
  obtain row nx where row: "find_row (\<lambda>r. wc_id r = cid) (wallet_cursors d) = Some row"
    and nx: "segment_next (ad_segment a) = Ok nx"
    and idx: "uint (account_index (ad_segment a)) = wc_account_index row"
      "uint (change_index (ad_segment a)) = wc_change_index row"
      "uint (address_index (ad_segment a)) = wc_next_address_index row"
    and d': "d' = d\<lparr>wallet_cursors := update_where (\<lambda>r. wc_id r = cid)
       (advance_wallet nx) (wallet_cursors d)\<rparr>"
    using assms by (rule allocate_derivation_segment_Ok)
  have valid: "segment_valid (ad_segment a)"
    using assms row by (auto simp: allocate_derivation_segment_def result_unfold segment_new_Ok)
  have pos: "int (segment_position s) =
      (uint (account_index s) * 2 ^ 31 + uint (change_index s)) * 2 ^ 31 + uint (address_index s)" for s
    by (simp add: segment_position_def)
  have "cursor_position cid d' = Some (int (segment_position nx))"
    using row find_row_Some[OF row] by (simp add: cursor_position_def d' find_row_update_other advance_wallet_def pos)
  moreover have "cursor_position cid d = Some (int (segment_position (ad_segment a)))"
    using row by (simp add: cursor_position_def pos idx)
  ultimately show ?thesis using valid segment_next_Ok[OF valid nx] by simp
qed


section \<open>Creation of orders\<close>

text \<open>The three rows of a creation.\<close>

definition new_order_row :: "CreateOrderCommand \<Rightarrow> timestamp \<Rightarrow> order_row" where
  "new_order_row c tnow =
     (let ca = coc_child_account c; pw = coc_payment_window c in
      \<lparr>o_id = coc_order_id c, o_owner_sub = coc_owner_sub c,
       o_external_id = coc_external_id c, o_request_hash = coc_request_hash c,
       o_child_account_id = nca_id ca, o_receive_address = nca_address ca, o_chain_id = uint (coc_chain_id c),
       o_token_address = coc_token_address c,
       o_expected_amount_raw = uint (coc_expected_amount_raw c),
       o_paid_amount_raw = 0, o_status = Pending, o_expires_at = npw_expires_at pw,
       o_monitor_until = npw_monitor_until pw, o_created_at = tnow, o_updated_at = tnow\<rparr>)"

definition new_window_row :: "CreateOrderCommand \<Rightarrow> timestamp \<Rightarrow> window_row" where
  "new_window_row c tnow =
     (let ca = coc_child_account c; pw = coc_payment_window c in
      \<lparr>w_id = npw_id pw, w_order_id = coc_order_id c, w_child_account_id = nca_id ca,
       w_receive_address = nca_address ca, w_window_from = npw_window_from pw,
       w_window_from_block = uint (cb_number (npw_window_from_block pw)),
       w_window_from_block_hash = cb_hash (npw_window_from_block pw),
       w_expires_at = npw_expires_at pw, w_monitor_until = npw_monitor_until pw, w_created_at = tnow\<rparr>)"

lemma ord_u64_to_i64_Ok: "ord_u64_to_i64 v f = Ok i \<longleftrightarrow> uint v < 2 ^ 63 \<and> i = uint v"
  by (auto simp: ord_u64_to_i64_def)

lemma ord_i64_roundtrip [simp]: "ord_i64_to_u64 (uint v) f = Ok v"
  by (simp add: ord_i64_to_u64_def)

lemma insert_child_account_Ok:
  "insert_child_account c d = Ok d' \<Longrightarrow> d' = d\<lparr>child_accounts := child_accounts d @ [c]\<rparr>"
  by (simp add: insert_child_account_def split: if_splits)

lemma insert_order_Ok:
  assumes "insert_order r d = Ok d'"
  shows "d' = d\<lparr>orders := orders d @ [r]\<rparr> \<and> o_id r \<notin> o_id ` set (orders d) \<and> 0 < o_expected_amount_raw r
    \<and> 0 \<le> o_chain_id r"
  using assms by (auto simp: insert_order_def split: if_splits)

lemma insert_window_Ok:
  assumes "insert_window w d = Ok d'"
  shows "d' = d\<lparr>payment_windows := payment_windows d @ [w]\<rparr> \<and> w_order_id w \<notin> w_order_id ` set (payment_windows d)"
  using assms by (auto simp: insert_window_def split: if_splits)

lemma insert_order_tx_Ok:
  assumes "insert_order_tx c d = Ok (rec, d')"
  obtains ca where
    "d' = d\<lparr>child_accounts := child_accounts d @ [ca], orders := orders d @ [new_order_row c (db_now d)],
            payment_windows := payment_windows d @ [new_window_row c (db_now d)]\<rparr>"
    "coc_order_id c \<notin> o_id ` set (orders d)" "coc_order_id c \<notin> w_order_id ` set (payment_windows d)"
    "0 < uint (coc_expected_amount_raw c)" "get_order (coc_order_id c) d' = Ok (Some rec)"
proof -
  from assms obtain ca d1 d2 where
    1: "insert_child_account ca d = Ok d1" and
    2: "insert_order (new_order_row c (db_now d)) d1 = Ok d2" and
    3: "insert_window (new_window_row c (db_now d)) d2 = Ok d'" and
    4: "get_order (coc_order_id c) d' = Ok (Some rec)"
    by (auto simp: insert_order_tx_def result_unfold Let_def new_order_row_def new_window_row_def
        ord_u64_to_i64_Ok raw_amount_to_numeric_def split: option.splits)
  have ids: "o_id (new_order_row c t) = coc_order_id c" "w_order_id (new_window_row c t) = coc_order_id c"
    "o_expected_amount_raw (new_order_row c t) = uint (coc_expected_amount_raw c)" for t
    by (simp_all add: new_order_row_def new_window_row_def Let_def)
  show thesis
    using insert_child_account_Ok[OF 1] insert_order_Ok[OF 2] insert_window_Ok[OF 3] 4
    by (intro that[of ca]) (simp_all add: ids)
qed

lemma insert_order_tx_keeps:
  assumes "insert_order_tx c d = Ok (rec, d')" "schema_ok d" "ledger_ok d"
  shows "schema_ok d' \<and> ledger_ok d'"
proof -
  let ?r = "new_order_row c (db_now d)"
  obtain ca where d': "d' = d\<lparr>child_accounts := child_accounts d @ [ca], orders := orders d @ [?r],
            payment_windows := payment_windows d @ [new_window_row c (db_now d)]\<rparr>"
    and fresh: "coc_order_id c \<notin> o_id ` set (orders d)" "coc_order_id c \<notin> w_order_id ` set (payment_windows d)"
    and pos: "0 < uint (coc_expected_amount_raw c)"
    using assms(1) by (rule insert_order_tx_Ok)
  have ids: "o_id ?r = coc_order_id c" "w_order_id (new_window_row c (db_now d)) = coc_order_id c"
    "o_expected_amount_raw ?r = uint (coc_expected_amount_raw c)" "0 \<le> o_chain_id ?r"
    "o_paid_amount_raw ?r = 0" "o_status ?r = Pending"
    by (simp_all add: new_order_row_def new_window_row_def Let_def)
  have "\<forall>p \<in> set (payments d). p_order_id p \<noteq> coc_order_id c"
    using assms(2) fresh(1) unfolding schema_ok_def payments_ok_def payment_references_def by (metis image_eqI)
  then have none: "payments_of (coc_order_id c) (payments d) = []"
    by (simp add: payments_of_def filter_empty_conv)
  have no_ovr: "accepted_problem_raw (order_payment_overrides d) (coc_order_id c) = 0"
  proof -
    have "find_row (\<lambda>r. ovr_order_id r = coc_order_id c) (order_payment_overrides d) = None"
      using assms(2) fresh(1) unfolding find_row_None schema_ok_def payments_ok_def by metis
    then show ?thesis by (simp add: accepted_problem_raw_def)
  qed
  have totals: "confirmed_accepted_total d (coc_order_id c) = 0" "non_orphaned_accepted_total d (coc_order_id c) = 0"
    unfolding confirmed_accepted_total_def non_orphaned_accepted_total_def no_ovr
      sums_payments_of[of "payments d" "coc_order_id c"] none
    by (simp_all add: confirmed_on_time_sum_def non_orphaned_on_time_sum_def)
  have settled: "order_settled d' = order_settled d" by (rule totals_frame) (simp_all add: d')
  have "order_settled d ?r"
    using pos by (auto simp: order_settled_def ids totals recompute_status_from_totals_def intro: exI[of _ False])
  then have "ledger_ok d'" using assms(3) by (simp add: ledger_ok_def settled) (simp add: d')
  moreover have "schema_ok d'"
    using assms(2) fresh pos unfolding schema_ok_def keys_ok_def payments_ok_def
    by (simp add: d' ids)
  ultimately show ?thesis by simp
qed

lemma create_order_keeps:
  assumes "create_order_idempotent c d = Ok (res, d')" "schema_ok d" "ledger_ok d"
  shows "schema_ok d' \<and> ledger_ok d'"
  using assms insert_order_tx_keeps
  by (auto simp: create_order_idempotent_def result_unfold split: option.splits if_splits)


section \<open>Expiry and manual acceptance\<close>

lemma recompute_keeps:
  assumes "recompute_orders_in_tx now ids d = Ok d'" "schema_ok d" "ledger_ok_except (set ids) d"
  shows "schema_ok d' \<and> ledger_ok d'"
  using recompute_keeps_schema[OF assms(1,2)]
    recompute_restores_ledger[OF assms(1) schema_distinct_orders[OF assms(2)] assms(3)] by simp

lemma ledger_ok_weaken: "ledger_ok d \<Longrightarrow> ledger_ok_except ids d"
  by (simp add: ledger_ok_def ledger_ok_except_def)

lemma recompute_expired_keeps:
  assumes "recompute_expired_open_orders now limit d = Ok (n, d')" "schema_ok d" "ledger_ok d"
  shows "schema_ok d' \<and> ledger_ok d'"
  using assms recompute_keeps ledger_ok_weaken
  by (auto simp: recompute_expired_open_orders_def Let_def mapE_eq_Ok split: if_splits)

lemma upsert_override_Ok:
  assumes "upsert_override new d = Ok d'" "schema_ok d" "ledger_ok d" "ovr_order_id new \<in> o_id ` set (orders d)"
  shows "schema_ok d' \<and> ledger_ok_except {ovr_order_id new} d' \<and> orders d' = orders d \<and> payments d' = payments d
    \<and> accepted_problem_raw (order_payment_overrides d') (ovr_order_id new) = ovr_accepted_raw new"
proof -
  let ?oid = "ovr_order_id new"
  let ?os = "order_payment_overrides d"
  let ?set = "\<lambda>r. r\<lparr>ovr_accepted_raw := ovr_accepted_raw new, ovr_accepted_by := ovr_accepted_by new,
                    ovr_reason := ovr_reason new, ovr_updated_at := db_now d\<rparr>"
  have pos: "0 < ovr_accepted_raw new" using assms(1) by (auto simp: upsert_override_def split: if_splits)
  define os where "os = (if ?oid \<in> ovr_order_id ` set ?os
     then update_where (\<lambda>r. ovr_order_id r = ?oid) ?set ?os else ?os @ [new])"
  have hit: "(\<exists>r \<in> set ?os. ovr_order_id r = ?oid) \<longleftrightarrow> ?oid \<in> ovr_order_id ` set ?os"
    unfolding image_iff by metis
  have d': "d' = d\<lparr>order_payment_overrides := os\<rparr>"
    using assms(1) unfolding upsert_override_def os_def hit by (simp split: if_splits)
  have os: "(?oid \<in> ovr_order_id ` set ?os \<and> os = update_where (\<lambda>r. ovr_order_id r = ?oid) ?set ?os)
     \<or> (?oid \<notin> ovr_order_id ` set ?os \<and> os = ?os @ [new])"
    by (simp add: os_def)
  have keys: "distinct (map ovr_order_id os)"
    using assms(2) os by (auto simp: schema_ok_def keys_ok_def map_update_where)
  have rows: "0 < ovr_accepted_raw r \<and> ovr_order_id r \<in> o_id ` set (orders d)" if "r \<in> set os" for r
    using assms(2,4) os pos that by (auto simp: schema_ok_def payments_ok_def set_update_where)
  have found: "accepted_problem_raw os oid =
      (if oid = ?oid then ovr_accepted_raw new else accepted_problem_raw ?os oid)" for oid
    using os
  proof (elim disjE conjE)
    assume "?oid \<in> ovr_order_id ` set ?os" "os = update_where (\<lambda>r. ovr_order_id r = ?oid) ?set ?os"
    then show ?thesis
      by (auto simp: accepted_problem_raw_def find_row_update_other find_row_None split: option.splits
          dest: find_row_Some)
  next
    assume "?oid \<notin> ovr_order_id ` set ?os" "os = ?os @ [new]"
    then show ?thesis
      by (force simp: accepted_problem_raw_def find_row_append find_row_None image_iff split: option.splits
          dest: find_row_Some)
  qed
  have "order_settled d' ord = order_settled d ord" if "o_id ord \<noteq> ?oid" for ord
    using that by (simp add: order_settled_def d' confirmed_accepted_total_def non_orphaned_accepted_total_def found)
  then have "ledger_ok_except {?oid} d'"
    using assms(3) by (simp add: ledger_ok_except_def ledger_ok_def) (simp add: d')
  moreover have "schema_ok d'"
    using assms(2) keys rows by (simp add: schema_ok_def keys_ok_def payments_ok_def d')
  ultimately show ?thesis by (simp add: d' found)
qed

lemma accept_problem_payment_Ok:
  assumes "accept_problem_payment_for_owner now oid owner by_whom reason d = Ok (view, d')"
    and "schema_ok d" "ledger_ok d"
  obtains "view = None" "d' = d" "find_row (\<lambda>r. o_id r = oid \<and> o_owner_sub r = owner) (orders d) = None"
  | ord d1 where "find_row (\<lambda>r. o_id r = oid \<and> o_owner_sub r = owner) (orders d) = Some ord"
      "schema_ok d1" "ledger_ok_except {oid} d1" "orders d1 = orders d"
      "recompute_orders_in_tx now [oid] d1 = Ok d'" "get_order_view_for_owner oid owner d' = Ok view"
      "o_expected_amount_raw ord \<le> confirmed_accepted_total d1 oid"
      "confirmed_accepted_total d1 oid = confirmed_on_time_sum (payments d) oid
         + sum_amounts (\<lambda>p. (p_match_status p = Late \<or> p_match_status p = OutsideWindow) \<and> p_chain_status p = Confirmed)
             (payments_of oid (payments d))"
proof (cases "find_row (\<lambda>r. o_id r = oid \<and> o_owner_sub r = owner) (orders d)")
  case None
  then show thesis
    using assms(1) that(1) by (auto simp: accept_problem_payment_for_owner_def Let_def split: if_splits)
next
  case (Some ord)
  let ?ps = "payments_of oid (payments d)"
  let ?prob = "\<lambda>p. (p_match_status p = Late \<or> p_match_status p = OutsideWindow) \<and> p_chain_status p = Confirmed"
  let ?ontime = "\<lambda>p. p_match_status p = OnTime \<and> p_chain_status p = Confirmed"
  from assms(1) Some obtain expected on_time problem total new d1 where
    e: "big_decimal_to_raw_amount (o_expected_amount_raw ord) = Ok expected"
    and t: "big_decimal_to_raw_amount (sum_amounts ?ontime ?ps) = Ok on_time"
    and q: "big_decimal_to_raw_amount (sum_amounts ?prob ?ps) = Ok problem"
    and add: "checked_add on_time problem = Some total" "\<not> total < expected"
    and new: "upsert_override new d = Ok d1" "ovr_order_id new = oid" "ovr_accepted_raw new = uint problem"
    and rec: "recompute_orders_in_tx now [oid] d1 = Ok d'" "get_order_view_for_owner oid owner d' = Ok view"
    by (auto simp: accept_problem_payment_for_owner_def Let_def result_unfold payments_of_def raw_amount_to_numeric_def
        split: if_splits option.splits)
  have mem: "oid \<in> o_id ` set (orders d)" using find_row_Some[OF Some] by auto
  note up = upsert_override_Ok[OF new(1) assms(2,3)] 
  have up: "schema_ok d1 \<and> ledger_ok_except {oid} d1 \<and> orders d1 = orders d \<and> payments d1 = payments d
      \<and> accepted_problem_raw (order_payment_overrides d1) oid = uint problem"
    using up mem new by simp
  have on: "confirmed_on_time_sum (payments d) oid = sum_amounts ?ontime ?ps"
    by (simp add: confirmed_on_time_sum_def sum_amounts_def payments_of_def conj_commute conj_left_commute)
  have tot: "confirmed_accepted_total d1 oid = sum_amounts ?ontime ?ps + sum_amounts ?prob ?ps"
    using up by (simp add: confirmed_accepted_total_def on big_decimal_Ok[OF q])
  have "unat expected \<le> unat on_time + unat problem"
    using add by (simp add: checked_add_Some word_less_nat_alt)
  then have "o_expected_amount_raw ord \<le> confirmed_accepted_total d1 oid"
    by (simp add: tot big_decimal_Ok[OF e] big_decimal_Ok[OF t] big_decimal_Ok[OF q] uint_nat del: of_nat_unat)
  then show thesis
    using up rec tot by (intro that(2)[OF Some]) (simp_all add: on)
qed

lemma accept_keeps:
  assumes "accept_problem_payment_for_owner now oid owner by_whom reason d = Ok (view, d')"
    and "schema_ok d" "ledger_ok d"
  shows "schema_ok d' \<and> ledger_ok d'"
  using assms by (elim accept_problem_payment_Ok) (simp_all add: assms recompute_keeps)

end
