(* ===== verification/Repository_Tx.thy ===== *)
theory Repository_Tx
  imports Order_Ledger "HOL-Library.Sublist"
begin

text \<open>
  The contract every write transaction of the repositories satisfies: it keeps the schema and
  the ledger, and it never drops or rewrites what identifies an order, a window or a
  payment.  The contract is a locale; each operation is an interpretation of it, and
  sequences of operations inherit it.
\<close>

section \<open>What only grows\<close>

definition order_identity ::
  "order_row \<Rightarrow> (uuid \<times> string \<times> string \<times> string) \<times> (uuid \<times> EvmAddress \<times> int \<times> EvmAddress) \<times> int \<times> timestamp \<times> timestamp"
  where
  "order_identity r =
     ((o_id r, o_owner_sub r, o_external_id r, o_request_hash r),
      (o_child_account_id r, o_receive_address r, o_chain_id r, o_token_address r),
      o_expected_amount_raw r, o_expires_at r, o_monitor_until r)"

definition grows :: "db \<Rightarrow> db \<Rightarrow> bool" where
  "grows d d' \<longleftrightarrow>
     prefix (map order_identity (orders d)) (map order_identity (orders d')) \<and>
     prefix (payment_windows d) (payment_windows d') \<and>
     prefix (map payment_key (payments d)) (map payment_key (payments d')) \<and>
     (\<forall>cid. rel_option (\<le>) (cursor_position cid d) (cursor_position cid d'))"

text \<open>One window per order, at the order's own address, and one order per address.\<close>

definition windows_ok :: "db \<Rightarrow> bool" where
  "windows_ok d \<longleftrightarrow>
     distinct (map o_receive_address (orders d)) \<and>
     (\<forall>w \<in> set (payment_windows d). \<exists>r \<in> set (orders d).
        o_id r = w_order_id w \<and> o_receive_address r = w_receive_address w
        \<and> o_child_account_id r = w_child_account_id w)"

definition repo_ok :: "db \<Rightarrow> bool" where
  "repo_ok d \<longleftrightarrow> schema_ok d \<and> ledger_ok d \<and> windows_ok d"

lemma rel_option_refl_le [simp]: "rel_option (\<le>) x (x :: int option)"
  by (cases x) simp_all

lemma grows_refl [simp]: "grows d d"
  by (simp add: grows_def)

lemma grows_trans: "grows d d' \<Longrightarrow> grows d' d'' \<Longrightarrow> grows d d''"
  unfolding grows_def
proof (intro conjI allI; elim conjE)
  fix cid
  assume "\<forall>cid. rel_option (\<le>) (cursor_position cid d) (cursor_position cid d')"
    "\<forall>cid. rel_option (\<le>) (cursor_position cid d') (cursor_position cid d'')"
  then show "rel_option (\<le>) (cursor_position cid d) (cursor_position cid d'')"
    by (metis (mono_tags, lifting) option.rel_transp order_trans transpD transpI)
qed (blast intro: prefix_order.trans)+

lemma cursor_position_cong: "wallet_cursors d' = wallet_cursors d \<Longrightarrow> cursor_position cid d' = cursor_position cid d"
  by (simp add: cursor_position_def)

lemma order_identity_mem:
  assumes "map order_identity (orders d') = map order_identity (orders d)" "r \<in> set (orders d)"
  shows "\<exists>r' \<in> set (orders d'). order_identity r' = order_identity r"
proof -
  have "order_identity r \<in> set (map order_identity (orders d'))"
    unfolding assms(1) using assms(2) by simp
  then show ?thesis by auto
qed

lemma windows_ok_cong:
  assumes "map order_identity (orders d') = map order_identity (orders d)" "payment_windows d' = payment_windows d"
    "windows_ok d"
  shows "windows_ok d'"
proof -
  have addr: "map o_receive_address rs = map (\<lambda>i. fst (snd (fst (snd i)))) (map order_identity rs)" for rs
    by (simp add: order_identity_def)
  have "map o_receive_address (orders d') = map o_receive_address (orders d)" unfolding addr assms(1) ..
  moreover have "\<exists>r' \<in> set (orders d'). o_id r' = w_order_id w \<and> o_receive_address r' = w_receive_address w
      \<and> o_child_account_id r' = w_child_account_id w" if w: "w \<in> set (payment_windows d)" for w
  proof -
    obtain r where r: "r \<in> set (orders d)" "o_id r = w_order_id w" "o_receive_address r = w_receive_address w"
      "o_child_account_id r = w_child_account_id w"
      using assms(3) w unfolding windows_ok_def by blast
    obtain r' where "r' \<in> set (orders d')" "order_identity r' = order_identity r"
      using order_identity_mem[OF assms(1) r(1)] by blast
    with r show ?thesis by (intro bexI[of _ r']) (simp_all add: order_identity_def)
  qed
  ultimately show ?thesis using assms(2,3) by (simp add: windows_ok_def)
qed


section \<open>The contract\<close>

locale repository_tx =
  fixes run :: "db \<Rightarrow> 'a tx"
  assumes run_repo: "run d = Ok (a, d') \<Longrightarrow> repo_ok d \<Longrightarrow> repo_ok d'"
    and run_grows: "run d = Ok (a, d') \<Longrightarrow> repo_ok d \<Longrightarrow> grows d d'"
begin

text \<open>The state after a call, whether it committed or rolled back.\<close>

definition after :: "db \<Rightarrow> db" where
  "after d = (case run d of Err _ \<Rightarrow> d | Ok (_, d') \<Rightarrow> d')"

lemma after_step: "repo_ok d \<Longrightarrow> repo_ok (after d) \<and> grows d (after d)"
  unfolding after_def using run_repo run_grows by (auto split: sum.splits)

lemma after_many: "repo_ok d \<Longrightarrow> repo_ok ((after ^^ n) d) \<and> grows d ((after ^^ n) d)"
proof (induction n)
  case (Suc n)
  then show ?case using after_step[of "(after ^^ n) d"] grows_trans by auto
qed simp

text \<open>An order seen before a call is still there, with the same identity, and exactly settled.\<close>

lemma order_survives:
  assumes "repo_ok d" "r \<in> set (orders d)"
  obtains r' where "r' \<in> set (orders (after d))" "order_identity r' = order_identity r"
    "order_settled (after d) r'"
proof -
  have "repo_ok (after d)" "grows d (after d)" using after_step[OF assms(1)] by blast+
  then have "order_identity r \<in> set (map order_identity (orders (after d)))"
    using assms(2) set_mono_prefix by (fastforce simp: grows_def)
  then obtain r' where "r' \<in> set (orders (after d))" "order_identity r' = order_identity r" by auto
  moreover have "order_settled (after d) r'"
    using \<open>repo_ok (after d)\<close> calculation(1) by (simp add: repo_ok_def ledger_ok_def)
  ultimately show thesis by (rule that)
qed

end

text \<open>An operation that leaves order identities, windows and wallet cursors alone only owes the ledger.\<close>

definition identity_kept :: "db \<Rightarrow> db \<Rightarrow> bool" where
  "identity_kept d d' \<longleftrightarrow>
     map order_identity (orders d') = map order_identity (orders d) \<and> payment_windows d' = payment_windows d \<and>
     wallet_cursors d' = wallet_cursors d \<and>
     prefix (map payment_key (payments d)) (map payment_key (payments d'))"

lemma identity_kept_refl [simp]: "identity_kept d d"
  by (simp add: identity_kept_def)

lemma identity_kept_trans: "identity_kept d d' \<Longrightarrow> identity_kept d' d'' \<Longrightarrow> identity_kept d d''"
  unfolding identity_kept_def by (elim conjE, intro conjI) (simp, simp, simp, rule prefix_order.trans)

lemma identity_kept_grows:
  assumes "identity_kept d d'"
  shows "grows d d'"
proof -
  have "cursor_position cid d' = cursor_position cid d" for cid
    using assms by (intro cursor_position_cong) (simp add: identity_kept_def)
  with assms show ?thesis by (simp add: identity_kept_def grows_def)
qed

lemma identity_kept_repo: "identity_kept d d' \<Longrightarrow> schema_ok d' \<and> ledger_ok d' \<Longrightarrow> repo_ok d \<Longrightarrow> repo_ok d'"
  unfolding repo_ok_def identity_kept_def by (elim conjE) (simp add: windows_ok_cong[of d' d])

lemma identity_kept_cursors [simp]: "identity_kept d (d'\<lparr>chain_cursors := cs\<rparr>) = identity_kept d d'"
  by (simp add: identity_kept_def)

lemma repository_tx_stable:
  assumes "\<And>d a d'. run d = Ok (a, d') \<Longrightarrow> schema_ok d \<Longrightarrow> ledger_ok d \<Longrightarrow> schema_ok d' \<and> ledger_ok d'"
    and "\<And>d a d'. run d = Ok (a, d') \<Longrightarrow> schema_ok d \<Longrightarrow> ledger_ok d \<Longrightarrow> identity_kept d d'"
  shows "repository_tx run"
proof
  fix d a d'
  assume run: "run d = Ok (a, d')" and ok: "repo_ok d"
  then have "schema_ok d" "ledger_ok d" by (simp_all add: repo_ok_def)
  note keep = assms(1)[OF run this] assms(2)[OF run this]
  show "repo_ok d'" by (rule identity_kept_repo[OF keep(2,1) ok])
  show "grows d d'" by (rule identity_kept_grows[OF keep(2)])
qed


section \<open>The operations satisfy it\<close>

lemma recompute_identity_kept:
  assumes "recompute_orders_in_tx now ids d = Ok d'" "schema_ok d"
  shows "identity_kept d d'"
  unfolding recompute_orders_in_tx_Ok[OF assms(1) schema_distinct_orders[OF assms(2)]]
  by (simp add: identity_kept_def order_identity_def)

lemma upsert_row_keys_prefix:
  assumes "upsert_row new d = Ok (row, d')"
  shows "prefix (map payment_key (payments d)) (map payment_key (payments d'))"
  using assms
  by (auto simp: upsert_row_def Let_def map_update_where split: if_splits option.splits dest!: find_row_Some)

lemma upsert_tx_identity_kept:
  assumes "upsert_matched_payment_tx chain_id token p d = Ok (rec, d')" "schema_ok d"
  shows "identity_kept d d'"
proof -
  obtain new row where "upsert_row new d = Ok (row, d')"
    using assms(1) by (rule upsert_matched_payment_tx_Ok)
  then have "prefix (map payment_key (payments d)) (map payment_key (payments d'))" by (rule upsert_row_keys_prefix)
  then show ?thesis
    by (subst upsert_tx_keeps(2)[OF assms]) (simp add: identity_kept_def)
qed

lemma upsert_all_identity_kept:
  assumes "upsert_all chain_id token ps d = Ok (recs, d')" "schema_ok d"
  shows "identity_kept d d'"
  using assms
proof (induction ps arbitrary: d recs)
  case (Cons p ps)
  then obtain r rs d1 where 1: "upsert_matched_payment_tx chain_id token p d = Ok (r, d1)"
    "upsert_all chain_id token ps d1 = Ok (rs, d')"
    by (auto simp: bindE_eq_Ok)
  show ?case
    using upsert_tx_identity_kept[OF 1(1) Cons.prems(2)] Cons.IH[OF 1(2) upsert_tx_keeps(1)[OF 1(1) Cons.prems(2)]]
    by (rule identity_kept_trans)
qed simp

lemma upsert_verified_identity_kept:
  assumes "upsert_verified ps d = Ok d'" "schema_ok d"
  shows "identity_kept d d' \<and> schema_ok d'"
  using assms
proof (induction ps arbitrary: d)
  case (Cons p ps)
  then obtain r d1 where 1: "upsert_matched_payment_tx (mp_chain_id p) (mp_token_address p) p d = Ok (r, d1)"
    "upsert_verified ps d1 = Ok d'"
    by (auto simp: bindE_eq_Ok)
  note step = upsert_tx_keeps(1)[OF 1(1) Cons.prems(2)] upsert_tx_identity_kept[OF 1(1) Cons.prems(2)]
  show ?case using Cons.IH[OF 1(2) step(1)] identity_kept_trans[OF step(2)] by blast
qed simp

lemma payments_update_identity_kept:
  "(\<And>r. payment_key (f r) = payment_key r) \<Longrightarrow>
    identity_kept d (d\<lparr>payments := update_where c f (payments d)\<rparr>)"
  by (simp add: identity_kept_def map_update_where)

lemma commit_identity_kept:
  assumes "commit_scanned_batch now b d = Ok (recs, d')" "schema_ok d"
  shows "identity_kept d d'"
proof -
  obtain d1 d2 where up: "upsert_all (csb_chain_id b) (csb_token_address b) (csb_matched_payments b) d = Ok (recs, d1)"
    and rc: "recompute_orders_in_tx now (id_set (map mp_order_id recs)) d1 = Ok d2"
    and d': "d' = d2\<lparr>chain_cursors := update_where (batch_cursor b) (advance_cursor b) (chain_cursors d2)\<rparr>"
    using assms(1) by (rule commit_scanned_batch_Ok)
  have "identity_kept d d2"
    using upsert_all_identity_kept[OF up assms(2)]
      recompute_identity_kept[OF rc upsert_all_keeps(1)[OF up assms(2)]]
    by (rule identity_kept_trans)
  then show ?thesis by (simp add: d')
qed

lemma confirm_identity_kept:
  assumes "confirm_observed_payments now b d = Ok (recs, d')" "schema_ok d"
  shows "identity_kept d d'"
  using assms(1)
proof (cases rule: confirm_observed_payments_Ok)
  case (some sel head)
  let ?d1 = "d\<lparr>payments := update_where sel (confirm_row (db_now d) head) (payments d)\<rparr>"
  have "schema_ok ?d1"
    using assms(2) by (rule payments_update_keeps) (simp_all add: confirm_row_ok, simp add: confirm_row_def payment_key_def)
  with some(4) have "identity_kept ?d1 d'" by (rule recompute_identity_kept)
  moreover have "identity_kept d ?d1"
    by (rule payments_update_identity_kept) (simp add: confirm_row_def payment_key_def)
  ultimately show ?thesis using identity_kept_trans by blast
qed simp

lemma reorg_identity_kept:
  assumes "handle_kv_reorg_epoch now chain_id token epoch from d = Ok (u, d')" "schema_ok d"
  shows "identity_kept d d'"
  using assms(1)
proof (cases rule: handle_kv_reorg_epoch_Ok)
  case (rewind c d1)
  let ?d2 = "d1\<lparr>chain_cursors := update_where (\<lambda>c. cursor_key c = (uint chain_id, token))
            (rewind_cursor (uint (saturating_sub from 1)) (uint epoch)) (chain_cursors d1)\<rparr>"
  have "schema_ok d1"
    unfolding rewind(3) using assms(2)
    by (rule payments_update_keeps) (simp_all add: orphan_row_def payment_key_def payment_row_ok_def)
  then have "schema_ok ?d2"
    using reorg_epoch_fits[OF assms(1)]
    by (intro schema_cursors_update rewind_cursor_ok) (auto simp: rewind_cursor_def cursor_key_def)
  with rewind(4) have "identity_kept ?d2 d'" by (rule recompute_identity_kept)
  moreover have "identity_kept d ?d2"
    unfolding rewind(3) identity_kept_cursors
    by (rule payments_update_identity_kept) (simp add: orphan_row_def payment_key_def)
  ultimately show ?thesis using identity_kept_trans by blast
qed simp

lemma claim_identity_kept:
  "claim_scan_range now w chain_id token t d = Ok (r, d') \<Longrightarrow> identity_kept d d'"
  by (auto simp: claim_scan_range_def bindE_eq_Ok split: option.splits if_splits)

lemma verified_identity_kept:
  assumes "record_verified_payments now oid ps d = Ok (recs, d')" "schema_ok d"
  shows "identity_kept d d'"
proof -
  obtain d1 where 1: "upsert_verified ps d = Ok d1" "recompute_orders_in_tx now [oid] d1 = Ok d'"
    using assms(1) by (auto simp: record_verified_payments_def bindE_eq_Ok split: if_splits)
  note k = upsert_verified_identity_kept[OF 1(1) assms(2)]
  show ?thesis using k recompute_identity_kept[OF 1(2)] identity_kept_trans by blast
qed

lemma accept_identity_kept:
  assumes "accept_problem_payment_for_owner now oid owner by_whom reason d = Ok (view, d')"
    and "schema_ok d" "ledger_ok d"
  shows "identity_kept d d'"
proof (cases "find_row (\<lambda>r. o_id r = oid \<and> o_owner_sub r = owner) (orders d)")
  case None
  then show ?thesis
    using assms(1) by (auto simp: accept_problem_payment_for_owner_def Let_def split: if_splits)
next
  case (Some ord)
  with assms(1) obtain new d1 where 1: "upsert_override new d = Ok d1" "recompute_orders_in_tx now [oid] d1 = Ok d'"
    and oid: "ovr_order_id new = oid"
    by (auto simp: accept_problem_payment_for_owner_def Let_def result_unfold split: if_splits option.splits)
  have "oid \<in> o_id ` set (orders d)" using find_row_Some[OF Some] by auto
  then have "schema_ok d1" using upsert_override_Ok[OF 1(1) assms(2,3)] oid by simp
  moreover have "identity_kept d d1"
    using 1(1) by (auto simp: upsert_override_def identity_kept_def split: if_splits)
  ultimately show ?thesis using recompute_identity_kept[OF 1(2)] identity_kept_trans by blast
qed

interpretation recompute_tx: repository_tx "recompute_orders now ids" for now ids
  by (rule repository_tx_stable, rule recompute_orders_keeps, assumption+)
    (auto simp: recompute_orders_def mapE_eq_Ok intro: recompute_identity_kept)

interpretation claim_tx: repository_tx "claim_scan_range now w chain_id token t" for now w chain_id token t
  by (rule repository_tx_stable, rule claim_scan_range_keeps, assumption+) (rule claim_identity_kept)

interpretation commit_tx: repository_tx "commit_scanned_batch now b" for now b
  by (rule repository_tx_stable, rule commit_scanned_batch_keeps, assumption+) (rule commit_identity_kept)

interpretation confirm_tx: repository_tx "confirm_observed_payments now b" for now b
  by (rule repository_tx_stable, rule confirm_observed_payments_keeps, assumption+) (rule confirm_identity_kept)

interpretation reorg_tx: repository_tx "handle_kv_reorg_epoch now chain_id token epoch from"
  for now chain_id token epoch "from"
  by (rule repository_tx_stable, rule handle_kv_reorg_epoch_keeps, assumption+) (rule reorg_identity_kept)

interpretation verified_tx: repository_tx "record_verified_payments now oid ps" for now oid ps
  by (rule repository_tx_stable, rule record_verified_payments_keeps, assumption+) (rule verified_identity_kept)

interpretation expired_tx: repository_tx "recompute_expired_open_orders now limit" for now limit
  by (rule repository_tx_stable, rule recompute_expired_keeps, assumption+)
    (auto simp: recompute_expired_open_orders_def Let_def mapE_eq_Ok intro: recompute_identity_kept split: if_splits)

interpretation accept_tx: repository_tx "accept_problem_payment_for_owner now oid owner by_whom reason"
  for now oid owner by_whom reason
  by (rule repository_tx_stable, rule accept_keeps, assumption+) (rule accept_identity_kept)


text \<open>The two operations that add something to what identifies the state.\<close>

lemma allocate_other_cursor:
  assumes "allocate_derivation_segment cid d = Ok (a, d')" "cid' \<noteq> cid"
  shows "cursor_position cid' d' = cursor_position cid' d"
proof -
  obtain row nx where "find_row (\<lambda>r. wc_id r = cid) (wallet_cursors d) = Some row"
    and d': "d' = d\<lparr>wallet_cursors := update_where (\<lambda>r. wc_id r = cid)
       (advance_wallet nx) (wallet_cursors d)\<rparr>"
    using assms(1) by (rule allocate_derivation_segment_Ok)
  have "map_option (\<lambda>r. if wc_id r = cid then advance_wallet nx r else r)
      (find_row (\<lambda>r. wc_id r = cid') (wallet_cursors d)) = find_row (\<lambda>r. wc_id r = cid') (wallet_cursors d)"
    using assms(2) by (cases "find_row (\<lambda>r. wc_id r = cid') (wallet_cursors d)") (auto dest: find_row_Some)
  then show ?thesis by (simp add: cursor_position_def d' find_row_update_other)
qed

lemma allocate_grows:
  assumes "allocate_derivation_segment cid d = Ok (a, d')"
  shows "grows d d'"
proof -
  have "orders d' = orders d \<and> payment_windows d' = payment_windows d \<and> payments d' = payments d"
    using assms by (elim allocate_derivation_segment_Ok) simp
  moreover have "rel_option (\<le>) (cursor_position cid' d) (cursor_position cid' d')" for cid'
    using allocate_advances[OF assms] allocate_other_cursor[OF assms, of cid'] by (cases "cid' = cid") simp_all
  ultimately show ?thesis by (simp add: grows_def)
qed

interpretation allocate_tx: repository_tx "allocate_derivation_segment cid" for cid
proof
  fix d a d'
  assume run: "allocate_derivation_segment cid d = Ok (a, d')" and ok: "repo_ok d"
  show "grows d d'" using run by (rule allocate_grows)
  have "orders d' = orders d \<and> payment_windows d' = payment_windows d"
    using run by (elim allocate_derivation_segment_Ok) simp
  then have "windows_ok d'" using ok by (simp add: repo_ok_def windows_ok_def)
  with allocate_keeps[OF run] ok show "repo_ok d'" by (simp add: repo_ok_def)
qed

lemma insert_order_tx_addresses:
  assumes "insert_order_tx c d = Ok (rec, d')"
  shows "nca_address (coc_child_account c) \<notin> o_receive_address ` set (orders d)"
proof -
  have "insert_order r d1 = Ok d2 \<Longrightarrow> o_receive_address r \<notin> o_receive_address ` set (orders d1)" for r d1 d2
    by (auto simp: insert_order_def split: if_splits)
  with assms show ?thesis
    by (auto simp: insert_order_tx_def result_unfold Let_def dest!: insert_child_account_Ok) fastforce
qed

lemma create_order_cases:
  assumes "create_order_idempotent c d = Ok (res, d')"
  obtains (existing) r where "res = Existing r" "d' = d"
      "get_order_by_external_id_for_owner (coc_external_id c) (coc_owner_sub c) d = Ok (Some r)"
      "or_request_hash r = coc_request_hash c"
  | (created) r where "res = Created r" "insert_order_tx c d = Ok (r, d')"
      "get_order_by_external_id_for_owner (coc_external_id c) (coc_owner_sub c) d = Ok None"
proof -
  obtain found where found: "get_order_by_external_id_for_owner (coc_external_id c) (coc_owner_sub c) d = Ok found"
    using assms by (auto simp: create_order_idempotent_def result_unfold)
  show thesis
    using assms found
    by (cases found)
      (auto simp: create_order_idempotent_def result_unfold intro: existing created split: if_splits)
qed

lemma insert_order_tx_windows:
  assumes "insert_order_tx c d = Ok (rec, d')" "windows_ok d"
  shows "grows d d' \<and> windows_ok d'"
proof -
  let ?r = "new_order_row c (db_now d)"
  let ?w = "new_window_row c (db_now d)"
  obtain ca where d': "d' = d\<lparr>child_accounts := child_accounts d @ [ca], orders := orders d @ [?r],
            payment_windows := payment_windows d @ [?w]\<rparr>"
    using assms(1) by (rule insert_order_tx_Ok)
  have eq: "o_id ?r = w_order_id ?w" "o_receive_address ?r = w_receive_address ?w"
    "o_child_account_id ?r = w_child_account_id ?w" "w_receive_address ?w = nca_address (coc_child_account c)"
    by (simp_all add: new_order_row_def new_window_row_def Let_def)
  have "cursor_position cid d' = cursor_position cid d" for cid
    by (rule cursor_position_cong) (simp add: d')
  then have "grows d d'" by (simp add: grows_def d')
  moreover have "windows_ok d'"
    using assms(2) insert_order_tx_addresses[OF assms(1)] unfolding windows_ok_def
    by (simp add: d' eq)
  ultimately show ?thesis ..
qed

interpretation create_tx: repository_tx "create_order_idempotent c" for c
proof
  fix d a d'
  assume run: "create_order_idempotent c d = Ok (a, d')" and ok: "repo_ok d"
  have "grows d d' \<and> windows_ok d'"
    using run ok by (cases rule: create_order_cases) (simp_all add: repo_ok_def insert_order_tx_windows)
  with create_order_keeps[OF run] ok show "grows d d'" "repo_ok d'" by (simp_all add: repo_ok_def)
qed

end
