(* ===== verification/Order_Props.thy ===== *)
theory Order_Props
  imports Repository_Tx
begin

text \<open>
  What the clients of the order repository rely on: idempotent creation, manual acceptance,
  expiry, the retention floor, and the window lookup behind the payment matcher.
\<close>

section \<open>Concrete states\<close>

definition sample_segment :: DerivationSegment where
  "sample_segment = \<lparr>account_index = 0, change_index = 0, address_index = 7\<rparr>"

definition sample_create :: "string \<Rightarrow> CreateOrderCommand" where
  "sample_create hash = \<lparr>coc_order_id = 21, coc_owner_sub = ''alice'', coc_external_id = ''ext-2'',
     coc_request_hash = hash,
     coc_child_account = \<lparr>nca_id = 22, nca_signer_key_ref = ''root'', nca_derivation_version = 1,
        nca_derivation_segment = sample_segment, nca_derivation_path = derivation_path sample_segment,
        nca_address = 0xC0FFEE\<rparr>,
     coc_chain_id = 137, coc_token_address = 0xA, coc_expected_amount_raw = 50,
     coc_payment_window = \<lparr>npw_id = 23, npw_order_id = 21, npw_child_account_id = 22,
        npw_receive_address = 0xC0FFEE, npw_window_from = 20,
        npw_window_from_block = \<lparr>cb_number = 12, cb_hash = 1\<rparr>, npw_expires_at = 1000, npw_monitor_until = 2000\<rparr>\<rparr>"

definition late_payment :: payment_row where
  "late_payment = \<lparr>p_id = 31, p_order_id = 1, p_child_account_id = 5, p_chain_id = 137, p_token_address = 0xA,
     p_tx_hash = 0x77, p_log_index = 0, p_from_address = 3, p_to_address = 0xB0B, p_amount_raw = 120,
     p_block_number = 40, p_block_hash = 9, p_block_time = 1500, p_confirmations = 20,
     p_match_status = Late, p_chain_status = Confirmed, p_created_at = 0, p_updated_at = 0\<rparr>"

definition sample_child :: child_account_row where
  "sample_child = \<lparr>c_id = 5, c_signer_key_ref = ''root'', c_derivation_version = 1, c_account_index = 0,
     c_change_index = 0, c_address_index = 3, c_derivation_path = ''p'', c_address = 0xB0B,
     c_last_used_at = None, c_created_at = 0\<rparr>"

definition late_db :: db where
  "late_db = sample_db\<lparr>child_accounts := [sample_child], payments := [late_payment],
     orders := [sample_order\<lparr>o_status := Expired\<rparr>], db_now := 1600\<rparr>"

lemmas order_eval = ord_u64_to_i64_def ord_i64_to_u64_def u32_to_i32_def i32_to_u32_def index_from_i64_def
  find_row_def get_order_def fetch_order_def get_order_by_external_id_for_owner_def

lemma big_decimal_numeral: "0 \<le> v \<Longrightarrow> v < 2 ^ 256 \<Longrightarrow> big_decimal_to_raw_amount v = Ok (of_int v)"
  using big_decimal_roundtrip[of "of_int v"] uint_of_int_u256[of v] by simp


section \<open>Idempotent creation\<close>

lemma get_order_by_external_id_None:
  assumes "get_order_by_external_id_for_owner ext owner d = Ok None"
  shows "find_row (\<lambda>r. o_external_id r = ext \<and> o_owner_sub r = owner) (orders d) = None"
  using assms
  by (auto simp: get_order_by_external_id_for_owner_def fetch_order_def mapE_eq_Ok split: option.splits)

lemma created_record:
  assumes "insert_order_tx c d = Ok (rec, d')"
  shows "row_to_order_record (new_order_row c (db_now d)) = Ok rec"
proof -
  let ?r = "new_order_row c (db_now d)"
  obtain ca where d': "d' = d\<lparr>child_accounts := child_accounts d @ [ca], orders := orders d @ [?r],
            payment_windows := payment_windows d @ [new_window_row c (db_now d)]\<rparr>"
    and fresh: "coc_order_id c \<notin> o_id ` set (orders d)" and get: "get_order (coc_order_id c) d' = Ok (Some rec)"
    using assms by (rule insert_order_tx_Ok)
  have "find_row (\<lambda>r. o_id r = coc_order_id c) (orders d) = None" using fresh by (force simp: find_row_None)
  moreover have "o_id ?r = coc_order_id c" by (simp add: new_order_row_def Let_def)
  ultimately show ?thesis using get by (auto simp: get_order_def fetch_order_def d' find_row_append mapE_eq_Ok)
qed

lemma created_row_found:
  assumes "insert_order_tx c d = Ok (rec, d')"
    "get_order_by_external_id_for_owner (coc_external_id c) (coc_owner_sub c) d = Ok None"
  shows "get_order_by_external_id_for_owner (coc_external_id c) (coc_owner_sub c) d' = Ok (Some rec) \<and>
    get_order (coc_order_id c) d' = Ok (Some rec) \<and> or_request_hash rec = coc_request_hash c \<and>
    or_id rec = coc_order_id c \<and> or_status rec = Pending \<and> or_paid_amount_raw rec = 0 \<and>
    or_expected_amount_raw rec = coc_expected_amount_raw c \<and> or_chain_id rec = coc_chain_id c"
proof -
  let ?r = "new_order_row c (db_now d)"
  note row = created_record[OF assms(1)]
  obtain ca where d': "d' = d\<lparr>child_accounts := child_accounts d @ [ca], orders := orders d @ [?r],
            payment_windows := payment_windows d @ [new_window_row c (db_now d)]\<rparr>"
    and get: "get_order (coc_order_id c) d' = Ok (Some rec)"
    using assms(1) by (rule insert_order_tx_Ok)
  have "o_external_id ?r = coc_external_id c" "o_owner_sub ?r = coc_owner_sub c"
    by (simp_all add: new_order_row_def Let_def)
  then have "get_order_by_external_id_for_owner (coc_external_id c) (coc_owner_sub c) d' = Ok (Some rec)"
    using get_order_by_external_id_None[OF assms(2)] row
    by (simp add: get_order_by_external_id_for_owner_def fetch_order_def d' find_row_append)
  moreover have "or_request_hash rec = coc_request_hash c \<and> or_id rec = coc_order_id c \<and> or_status rec = Pending
      \<and> or_paid_amount_raw rec = 0 \<and> or_expected_amount_raw rec = coc_expected_amount_raw c
      \<and> or_chain_id rec = coc_chain_id c"
    using row big_decimal_roundtrip[of 0]
    by (auto simp: row_to_order_record_def new_order_row_def Let_def result_unfold)
  ultimately show ?thesis using get by simp
qed

text \<open>
  creating an order is idempotent per owner and external id.  After a creation, the same
  request again (whatever fresh ids, derivation and window it carries) returns the existing
  record and changes nothing, a different request under the same external id is refused
  with the id of the existing order, and the record is readable under its id as
  pending with nothing paid and the requested amount.
\<close>
theorem create_order_idempotent_repeat:
  assumes "create_order_idempotent c d = Ok (Created rec, d')"
    "coc_external_id c' = coc_external_id c" "coc_owner_sub c' = coc_owner_sub c"
  shows "create_order_idempotent c' d' =
      (if coc_request_hash c' = coc_request_hash c then Ok (Existing rec, d')
       else Err (IdempotencyConflict ''orders'' (coc_external_id c) (Some (or_id rec)))) \<and>
    get_order (coc_order_id c) d' = Ok (Some rec) \<and> or_status rec = Pending \<and> or_paid_amount_raw rec = 0 \<and>
      or_expected_amount_raw rec = coc_expected_amount_raw c"
proof -
  have ins: "insert_order_tx c d = Ok (rec, d')"
    "get_order_by_external_id_for_owner (coc_external_id c) (coc_owner_sub c) d = Ok None"
    using assms(1) by (cases rule: create_order_cases; simp)+
  note found = created_row_found[OF ins]
  show ?thesis using found assms(2,3) by (simp add: create_order_idempotent_def)
qed

lemma sample_creation: "\<exists>rec d'. create_order_idempotent (sample_create ''h1'') sample_db = Ok (Created rec, d')"
proof -
  have path: "validate_create_order_command (sample_create h) = Ok ()" for h
    using trim_visible_ends[of "''alice''"]
    by (simp add: validate_create_order_command_def sample_create_def visible_def Let_def)
  show ?thesis
    unfolding create_order_idempotent_def insert_order_tx_def path bindE_Ok
    using big_decimal_numeral[of 50] big_decimal_numeral[of 0]
    by (simp add: order_eval sample_create_def sample_defs
        insert_child_account_def insert_order_def insert_window_def row_to_order_record_def sample_segment_def
        raw_amount_to_numeric_def child_derivation_key_def)
qed

theorem create_order_idempotent_repeat_witness:
  "\<exists>rec d'. create_order_idempotent (sample_create ''h1'') sample_db = Ok (Created rec, d') \<and>
     create_order_idempotent (sample_create ''h1'') d' = Ok (Existing rec, d') \<and>
     create_order_idempotent (sample_create ''h2'') d' =
       Err (IdempotencyConflict ''orders'' ''ext-2'' (Some (or_id rec)))"
proof -
  obtain rec d' where ok: "create_order_idempotent (sample_create ''h1'') sample_db = Ok (Created rec, d')"
    using sample_creation by blast
  have "create_order_idempotent (sample_create h) d' =
      (if h = ''h1'' then Ok (Existing rec, d')
       else Err (IdempotencyConflict ''orders'' ''ext-2'' (Some (or_id rec))))" for h
    using create_order_idempotent_repeat[OF ok, of "sample_create h"] by (simp add: sample_create_def)
  with ok show ?thesis by simp
qed


section \<open>Manual acceptance\<close>

lemma find_order_distinct:
  assumes "distinct (map o_id (orders d))" "find_row (\<lambda>r. o_id r = oid \<and> q r) (orders d) = Some ord"
  shows "ord \<in> set (orders d) \<and> o_id ord = oid \<and> (\<forall>r \<in> set (orders d). o_id r = oid \<longrightarrow> r = ord)"
proof -
  have ord: "ord \<in> set (orders d)" "o_id ord = oid" using find_row_Some[OF assms(2)] by simp_all
  moreover have "r = ord" if "r \<in> set (orders d)" "o_id r = oid" for r
    using assms(1) that ord by (auto simp: distinct_map dest: inj_onD)
  ultimately show ?thesis by blast
qed

text \<open>
  C34: a manual acceptance that succeeds for an existing order leaves it Paid, and what the
  order then shows as paid is exactly its confirmed on-time payments plus its confirmed late
  and outside-window payments; every other order is unchanged.  This is what the code does and it
  departs from the documentation: README.md says that paid_amount_raw never includes late or
  outside-window payments, and after an acceptance it does.
\<close>
theorem accept_problem_payment_paid:
  assumes "accept_problem_payment_for_owner now oid owner by_whom reason d = Ok (view, d')" "schema_ok d" "ledger_ok d"
    and "find_row (\<lambda>r. o_id r = oid \<and> o_owner_sub r = owner) (orders d) = Some ord"
  shows "\<exists>ord' \<in> set (orders d'). o_id ord' = oid \<and> o_status ord' = Paid \<and>
      o_paid_amount_raw ord' = confirmed_on_time_sum (payments d) oid
        + sum_amounts (\<lambda>p. (p_match_status p = Late \<or> p_match_status p = OutsideWindow) \<and> p_chain_status p = Confirmed)
            (payments_of oid (payments d)) \<and>
      (\<forall>r \<in> set (orders d). o_id r \<noteq> oid \<longrightarrow> r \<in> set (orders d'))"
  using assms(1-3)
proof (cases rule: accept_problem_payment_Ok)
  case 1
  with assms(4) show ?thesis by simp
next
  case (2 ord' d1)
  have ord: "ord' = ord" "ord \<in> set (orders d1)" "o_id ord = oid"
    using 2 assms(4) find_row_Some[OF assms(4)] by simp_all
  have d': "d' = d1\<lparr>orders := map (\<lambda>r. if o_id r \<in> set [oid] then settle now d1 r else r) (orders d1)\<rparr>"
    by (rule recompute_orders_in_tx_Ok[OF 2(5) schema_distinct_orders[OF 2(2)]])
  have "settle now d1 ord \<in> set (orders d')" using ord by (force simp: d')
  moreover have "o_status (settle now d1 ord) = Paid"
    "o_paid_amount_raw (settle now d1 ord) = confirmed_accepted_total d1 oid"
    using 2 ord by (simp_all add: settle_def recompute_status_from_totals_def)
  moreover have "\<forall>r \<in> set (orders d). o_id r \<noteq> oid \<longrightarrow> r \<in> set (orders d')"
    using 2(4) by (auto simp: d' image_iff)
  ultimately show ?thesis
    using 2(8) ord(3) by (intro bexI[of _ "settle now d1 ord"]) simp_all
qed


lemma late_schema: "schema_ok late_db"
  by (simp add: schema_ok_def keys_ok_def payments_ok_def payment_row_ok_def payment_references_def cursor_ok_def
      late_db_def late_payment_def sample_defs)

lemma late_ledger: "ledger_ok late_db"
  by (auto simp: ledger_ok_def order_settled_def confirmed_accepted_total_def non_orphaned_accepted_total_def
      confirmed_on_time_sum_def non_orphaned_on_time_sum_def accepted_problem_raw_def
      recompute_status_from_totals_def late_db_def late_payment_def sample_defs intro: exI[of _ True])

lemma late_accept: "\<exists>view d'. accept_problem_payment_for_owner 1700 1 ''alice'' ''ops'' None late_db = Ok (view, d')"
proof -
  have trim: "trim ''ops'' = ''ops''" using trim_visible_ends[of "''ops''"] by (simp add: visible_def)
  have amounts: "big_decimal_to_raw_amount 100 = Ok 100" "big_decimal_to_raw_amount 120 = Ok 120"
    "big_decimal_to_raw_amount 0 = Ok 0"
    using big_decimal_numeral[of 100] big_decimal_numeral[of 120] big_decimal_numeral[of 0] by simp_all
  have segment: "\<exists>s. segment_new 0 0 3 = Ok s"
    by (simp add: segment_new_def validate_index_def MAX_DERIVATION_INDEX_def)
  then show ?thesis
    by (auto simp: accept_problem_payment_for_owner_def trim amounts upsert_override_def normalize_reason_def
        sum_amounts_def checked_add_def is_zero_def raw_amount_to_numeric_def payment_eval
        get_order_view_for_owner_def fetch_order_view_def row_to_order_view_def row_to_order_record_def
        row_to_child_account_def order_eval MAX_DERIVATION_INDEX_def
        late_db_def late_payment_def sample_child_def sample_defs)
qed

theorem accept_problem_payment_paid_witness:
  "\<exists>view d'. accept_problem_payment_for_owner 1700 1 ''alice'' ''ops'' None late_db = Ok (view, d') \<and>
     (\<exists>ord' \<in> set (orders d'). o_id ord' = 1 \<and> o_status ord' = Paid \<and> o_paid_amount_raw ord' = 120)"
proof -
  obtain view d' where ok: "accept_problem_payment_for_owner 1700 1 ''alice'' ''ops'' None late_db = Ok (view, d')"
    using late_accept by blast
  have "find_row (\<lambda>r. o_id r = 1 \<and> o_owner_sub r = ''alice'') (orders late_db)
      = Some (sample_order\<lparr>o_status := Expired\<rparr>)"
    by (simp add: late_db_def sample_defs)
  from accept_problem_payment_paid[OF ok late_schema late_ledger this] ok show ?thesis
    by (auto simp: confirmed_on_time_sum_def sum_amounts_def payments_of_def late_db_def late_payment_def)
qed


section \<open>Expiry\<close>

definition open_expired :: "timestamp \<Rightarrow> order_row \<Rightarrow> bool" where
  "open_expired t r \<longleftrightarrow> (o_status r = Pending \<or> o_status r = Partial) \<and> o_expires_at r \<le> t"

lemma status_of_expired: "recompute_status_from_totals e c n True \<in> {Paid, Confirming, Expired}"
  by (simp add: recompute_status_from_totals_def)

text \<open>
  A run of the expiry job with a clock that is not behind the database's and a limit that
  is not exceeded closes every open order that is due: afterwards no order past its
  expiry is Pending or Partial, and the job reports how many orders it closed.
\<close>
theorem recompute_expired_closes:
  assumes "recompute_expired_open_orders now limit d = Ok (n, d')" "schema_ok d" "db_now d \<le> now"
    "length (filter (open_expired (db_now d)) (orders d)) \<le> unat limit"
  shows "(\<forall>r \<in> set (orders d'). \<not> open_expired (db_now d) r) \<and>
    n = length (filter (open_expired (db_now d)) (orders d))"
proof -
  let ?due = "filter (open_expired (db_now d)) (orders d)"
  let ?rows = "sort_key o_expires_at (sort_key o_id ?due)"
  have dist: "distinct (map o_id (orders d))" by (rule schema_distinct_orders[OF assms(2)])
  have due: "filter (\<lambda>r. (o_status r = Pending \<or> o_status r = Partial) \<and> o_expires_at r \<le> db_now d) (orders d) = ?due"
    by (simp add: open_expired_def[abs_def])
  have ids: "set (id_set (map o_id ?rows)) = o_id ` set ?due" by simp
  show ?thesis
  proof (cases "limit = 0")
    case True
    with assms(1,4) have "?due = []" "n = 0" "d' = d" by (simp_all add: recompute_expired_open_orders_def)
    then show ?thesis by (auto simp: filter_empty_conv)
  next
    case False
    have "take (unat limit) ?rows = ?rows" using assms(4) by simp
    with False assms(1) have run: "recompute_orders_in_tx now (id_set (map o_id ?rows)) d = Ok d'"
      and n: "n = length (id_set (map o_id ?rows))"
      by (auto simp: recompute_expired_open_orders_def due Let_def mapE_eq_Ok)
    have "inj_on o_id (set ?due)" using dist by (auto simp: distinct_map intro: inj_on_subset)
    moreover have "distinct ?due" using dist distinct_map distinct_filter by blast
    ultimately have "card (o_id ` set ?due) = length ?due"
      using distinct_card card_image by metis
    moreover have "n = card (set (id_set (map o_id ?rows)))" 
      unfolding n id_set_def by (subst distinct_card) simp_all
    ultimately have "n = length ?due" unfolding ids by simp
    moreover
    have "\<not> open_expired (db_now d) (if o_id r \<in> o_id ` set ?due then settle now d r else r)"
      if "r \<in> set (orders d)" for r
    proof (cases "o_id r \<in> o_id ` set ?due")
      case True
      then have "r \<in> set ?due" using that dist by (auto simp: distinct_map dest: inj_onD)
      then have "o_expires_at r \<le> now" using assms(3) by (simp add: open_expired_def)
      then have "o_status (settle now d r) \<in> {Paid, Confirming, Expired}"
        using status_of_expired by (simp add: settle_def)
      with True show ?thesis by (auto simp: open_expired_def)
    next
      case False
      with that show ?thesis by auto
    qed
    then have "\<forall>r \<in> (\<lambda>r. if o_id r \<in> o_id ` set ?due then settle now d r else r) ` set (orders d).
        \<not> open_expired (db_now d) r"
      by blast
    moreover have "set (orders d') = (\<lambda>r. if o_id r \<in> o_id ` set ?due then settle now d r else r) ` set (orders d)"
      unfolding recompute_orders_in_tx_Ok[OF run dist] ids by simp
    ultimately show ?thesis by (simp only: simp_thms)
  qed
qed

theorem recompute_expired_closes_witness:
  "\<exists>n d'. recompute_expired_open_orders 3000 10 (sample_db\<lparr>db_now := 3000\<rparr>) = Ok (n, d') \<and> n = 1 \<and>
     (\<forall>r \<in> set (orders d'). \<not> open_expired 3000 r)"
proof -
  let ?d = "sample_db\<lparr>db_now := 3000\<rparr>"
  have "\<exists>n d'. recompute_expired_open_orders 3000 10 ?d = Ok (n, d')"
    by (simp add: recompute_expired_open_orders_def payment_eval sample_defs)
  then obtain n d' where ok: "recompute_expired_open_orders 3000 10 ?d = Ok (n, d')" by blast
  have "schema_ok ?d"
    by (simp add: schema_ok_def keys_ok_def payments_ok_def cursor_ok_def sample_defs)
  from recompute_expired_closes[OF ok this] ok show ?thesis
    by (simp add: open_expired_def sample_defs)
qed


section \<open>The retention floor\<close>

lemma foldl_min_le: "g \<le> foldl min y ys \<longleftrightarrow> g \<le> y \<and> (\<forall>z \<in> set ys. g \<le> z)" for g :: int
  by (induction ys arbitrary: y) auto

lemma sql_min_le: "sql_min xs = Some m \<Longrightarrow> g \<le> m \<longleftrightarrow> (\<forall>x \<in> set xs. g \<le> x)"
  by (auto simp: sql_min_def foldl_min_le split: list.splits)

lemma sql_min_None: "sql_min xs = None \<longleftrightarrow> xs = []"
  by (simp add: sql_min_def split: list.splits)

lemma sql_min_mem: "sql_min xs = Some m \<Longrightarrow> m \<in> set xs"
proof -
  have "foldl min y ys \<in> set (y # ys)" for y :: int and ys
    by (induction ys arbitrary: y) (auto simp: min_def)
  then show "sql_min xs = Some m \<Longrightarrow> m \<in> set xs" by (auto simp: sql_min_def split: list.splits)
qed

lemma select_retention_floor_le:
  "g \<le> select_retention_floor lookback active manual \<longleftrightarrow>
     g \<le> lookback \<and> (\<forall>a. active = Some a \<longrightarrow> g \<le> a) \<and> (\<forall>m. manual = Some m \<longrightarrow> g \<le> m)"
  by (auto simp: select_retention_floor_def Let_def split: option.splits)

text \<open>
  C35: the retention floor is the greatest block that is safe to prune below: a block is at most
  the floor exactly when it is not above the scanned block less the reorg lookback, not above
  the first block of any window that is still open or monitored, and not above the
  manual rebuild floor.
\<close>
theorem retention_floor_greatest_safe:
  assumes "retention_floor_block chain_id token lookback manual d = Ok (Some f)"
    "\<forall>w \<in> set (payment_windows d). w_window_from_block w < 2 ^ 63"
  shows "\<exists>c. find_cursor (uint chain_id) token d = Some c \<and>
    (\<forall>g. g \<le> f \<longleftrightarrow>
       g \<le> saturating_sub (of_int (cur_last_scanned_block c)) lookback \<and>
       (\<forall>wr \<in> set (window_order_join d). window_is_active (uint chain_id) token (db_now d) wr \<longrightarrow>
          uint g \<le> w_window_from_block (fst wr)) \<and>
       (\<forall>m. manual = Some m \<longrightarrow> g \<le> m))"
proof -
  let ?blocks = "map (w_window_from_block \<circ> fst) (filter (window_is_active (uint chain_id) token (db_now d)) (window_order_join d))"
  obtain c active where c: "find_cursor (uint chain_id) token d = Some c"
    and active: "(case sql_min ?blocks of None \<Rightarrow> Ok None | Some v \<Rightarrow> mapE Some (ord_i64_to_u64 v ''active_window_from_block'')) = Ok active"
    and f: "f = select_retention_floor (saturating_sub (of_int (cur_last_scanned_block c)) lookback) active manual"
    using assms(1)
    by (auto simp: retention_floor_block_def result_unfold ord_u64_to_i64_Ok ord_i64_to_u64_def
        split: option.splits if_splits)
  have "g \<le> a \<longleftrightarrow> (\<forall>x \<in> set ?blocks. uint g \<le> x)" if "active = Some a" for g a
  proof -
    from active that obtain v where v: "sql_min ?blocks = Some v" "0 \<le> v" "a = of_int v"
      by (auto simp: ord_i64_to_u64_def split: option.splits if_splits)
    have "v < 2 ^ 63" using sql_min_mem[OF v(1)] assms(2) by (auto simp: window_order_join_def)
    then have "uint a = v" using v(2,3) by (simp add: unsigned_of_int take_bit_int_eq_self)
    then show ?thesis using sql_min_le[OF v(1)] by (simp add: word_le_def)
  qed
  moreover have "?blocks = []" if "active = None"
    using active that by (auto simp: mapE_eq_Ok sql_min_None split: option.splits)
  ultimately have "(\<forall>a. active = Some a \<longrightarrow> g \<le> a) \<longleftrightarrow> (\<forall>x \<in> set ?blocks. uint g \<le> x)" for g
    by (cases active) simp_all
  moreover have "(\<forall>x \<in> set ?blocks. uint g \<le> x) \<longleftrightarrow>
      (\<forall>wr \<in> set (window_order_join d). window_is_active (uint chain_id) token (db_now d) wr \<longrightarrow>
          uint g \<le> w_window_from_block (fst wr))" for g :: u64
    by auto
  ultimately show ?thesis using c by (simp add: f select_retention_floor_le)
qed

theorem retention_floor_greatest_safe_witness:
  "\<exists>f. retention_floor_block 137 0xA 4 None sample_db = Ok (Some f) \<and> (\<forall>g. g \<le> f \<longrightarrow> uint g \<le> 10)"
proof -
  have "\<exists>f. retention_floor_block 137 0xA 4 None sample_db = Ok (Some f)"
    by (simp add: retention_floor_block_def ord_u64_to_i64_def ord_i64_to_u64_def find_cursor_def cursor_key_def
        window_order_join_def window_is_active_def sql_min_def sample_defs)
  then obtain f where ok: "retention_floor_block 137 0xA 4 None sample_db = Ok (Some f)" by blast
  have "\<forall>w \<in> set (payment_windows sample_db). w_window_from_block w < 2 ^ 63" by (simp add: sample_defs)
  from retention_floor_greatest_safe[OF ok this] ok show ?thesis
    by (auto simp: window_order_join_def window_is_active_def sample_defs)
qed

end
