(* ===== verification/Payment_Flow.thy ===== *)
theory Payment_Flow
  imports Order_Props
begin

text \<open>
  The path of a transfer through the components: the repository's window lookup under the
  matcher's interface, what the matcher makes of a transfer to an order's address, and what
  the repository records for it.
\<close>

section \<open>The repository behind the lookup interface\<close>

definition repository_windows :: "db \<Rightarrow> PaymentWindowCandidate set" where
  "repository_windows d =
     {c. \<exists>wr \<in> set (window_order_join d). row_to_payment_window_candidate wr = Ok c
           \<and> o_chain_id (snd wr) = uint (pwc_chain_id c)}"

lemma traverseE_Ok_image: "traverseE f xs = Ok ys \<Longrightarrow> set ys = {y. \<exists>x \<in> set xs. f x = Ok y}"
proof (induction xs arbitrary: ys)
  case (Cons x xs)
  then obtain z zs where z: "f x = Ok z" "traverseE f xs = Ok zs" "ys = z # zs" by (auto simp: bindE_eq_Ok)
  with Cons.IH[OF z(2)] show ?case by auto
qed simp

lemma traverseE_mem: "traverseE f xs = Ok ys \<Longrightarrow> x \<in> set xs \<Longrightarrow> \<exists>y \<in> set ys. f x = Ok y"
  by (induction xs arbitrary: ys) (auto simp: bindE_eq_Ok)

lemma enumerate_mem: "(i, x) \<in> set (List.enumerate n xs) \<Longrightarrow> x \<in> set xs"
  by (auto simp: enumerate_eq_zip dest: set_zip_rightD)

lemma mem_enumerate: "x \<in> set xs \<Longrightarrow> \<exists>i. (i, x) \<in> set (List.enumerate n xs)"
proof -
  assume "x \<in> set xs"
  then obtain j where "j < length xs" "xs ! j = x" by (auto simp: in_set_conv_nth)
  then have "(n + j, x) \<in> set (List.enumerate n xs)" by (simp add: in_set_enumerate_eq)
  then show ?thesis ..
qed

lemma candidate_fields:
  assumes "row_to_payment_window_candidate (w, r) = Ok c"
  shows "pwc_order_id c = o_id r \<and> pwc_chain_id c = of_int (o_chain_id r) \<and> pwc_token_address c = o_token_address r
    \<and> pwc_receive_address c = w_receive_address w \<and> pwc_expires_at c = w_expires_at w
    \<and> pwc_monitor_until c = w_monitor_until w \<and> 0 \<le> w_window_from_block w
    \<and> cb_number (pwc_window_from_block c) = of_int (w_window_from_block w)"
  using assms
  by (auto simp: row_to_payment_window_candidate_def result_unfold ord_i64_to_u64_def split: if_splits)

definition selected_rows :: "db \<Rightarrow> u64 \<Rightarrow> EvmAddress \<Rightarrow> EvmAddress list \<Rightarrow> (window_row \<times> order_row) list" where
  "selected_rows d chain_id token as =
     sort_key (w_receive_address \<circ> fst) (sort_key (w_window_from_block \<circ> fst) (sort_key (o_id \<circ> snd)
       (filter (\<lambda>(w, r). o_chain_id r = uint chain_id \<and> o_token_address r = token
          \<and> w_receive_address w \<in> set as) (window_order_join d))))"

lemma lookup_rows:
  assumes "lookup_payment_window_candidates d chain_id token as = Ok cs" "as \<noteq> []"
  shows "traverseE row_to_payment_window_candidate (selected_rows d chain_id token as) = Ok cs"
  using assms
  by (auto simp: lookup_payment_window_candidates_def selected_rows_def result_unfold ord_u64_to_i64_Ok Let_def)

lemma selected_row_iff:
  assumes "row_to_payment_window_candidate (w, r) = Ok c"
  shows "o_chain_id r = uint chain_id \<and> o_token_address r = token \<and> w_receive_address w \<in> set as \<longleftrightarrow>
    o_chain_id r = uint (pwc_chain_id c) \<and> wanted chain_id token as c"
  using candidate_fields[OF assms] by (auto simp: wanted_def)

lemma selected_iff_wanted:
  "(\<exists>wr \<in> set (selected_rows d chain_id token as). row_to_payment_window_candidate wr = Ok c) \<longleftrightarrow>
    c \<in> repository_windows d \<and> wanted chain_id token as c"
proof -
  have "(\<exists>wr \<in> set (selected_rows d chain_id token as). row_to_payment_window_candidate wr = Ok c) \<longleftrightarrow>
      (\<exists>w r. (w, r) \<in> set (window_order_join d) \<and> row_to_payment_window_candidate (w, r) = Ok c \<and>
        (o_chain_id r = uint chain_id \<and> o_token_address r = token \<and> w_receive_address w \<in> set as))"
    by (auto simp: selected_rows_def)
  also have "\<dots> \<longleftrightarrow> (\<exists>w r. (w, r) \<in> set (window_order_join d) \<and> row_to_payment_window_candidate (w, r) = Ok c \<and>
        (o_chain_id r = uint (pwc_chain_id c) \<and> wanted chain_id token as c))"
    using selected_row_iff by (intro iff_exI) blast
  also have "\<dots> \<longleftrightarrow> c \<in> repository_windows d \<and> wanted chain_id token as c"
    unfolding repository_windows_def by force
  finally show ?thesis .
qed

lemma lookup_candidates_exact:
  assumes "lookup_payment_window_candidates d chain_id token as = Ok cs"
  shows "set cs = {c \<in> repository_windows d. wanted chain_id token as c}"
proof (cases "as = []")
  case True
  with assms show ?thesis by (simp add: lookup_payment_window_candidates_def wanted_def)
next
  case False
  have "set cs = {c. \<exists>wr \<in> set (selected_rows d chain_id token as). row_to_payment_window_candidate wr = Ok c}"
    by (rule traverseE_Ok_image[OF lookup_rows[OF assms False]])
  also have "\<dots> = {c \<in> repository_windows d. wanted chain_id token as c}"
    by (rule Collect_cong) (rule selected_iff_wanted)
  finally show ?thesis .
qed

interpretation repository_lookup: window_lookup
  "repository_lookup_batch (lookup_payment_window_candidates d) max_addresses" "repository_windows d"
  for d max_addresses
proof
  fix chain_id token as cs
  assume "repository_lookup_batch (lookup_payment_window_candidates d) max_addresses chain_id token as = Ok cs"
  then have "lookup_payment_window_candidates d chain_id token (deduplicate_addresses as) = Ok cs"
    by (auto simp: repository_lookup_batch_def Let_def split: if_splits)
  from lookup_candidates_exact[OF this]
  show "set cs = {c \<in> repository_windows d. wanted chain_id token as c}" by (simp add: wanted_def)
qed


section \<open>One window per address\<close>

lemma filter_order_id:
  assumes "distinct (map o_id rs)"
  shows "filter (\<lambda>r. o_id r = x) rs = [] \<or> (\<exists>r. filter (\<lambda>r. o_id r = x) rs = [r])"
  using assms
proof (induction rs)
  case (Cons a rs)
  then show ?case by (auto simp: filter_empty_conv image_iff)
qed simp

lemma join_order_ids:
  assumes "distinct (map o_id rs)" "distinct (map w_order_id ws)"
  shows "distinct (map (o_id \<circ> snd) (concat (map (\<lambda>w. map (Pair w) (filter (\<lambda>r. o_id r = w_order_id w) rs)) ws)))"
  using assms(2)
proof (induction ws)
  case (Cons w ws)
  let ?join = "\<lambda>ws. concat (map (\<lambda>w. map (Pair w) (filter (\<lambda>r. o_id r = w_order_id w) rs)) ws)"
  have fresh: "w_order_id w \<notin> set (map (o_id \<circ> snd) (?join ws))"
    using Cons.prems by auto
  have rest: "distinct (map (o_id \<circ> snd) (?join ws))" using Cons.IH Cons.prems by (simp add: comp_def)
  consider "filter (\<lambda>r. o_id r = w_order_id w) rs = []"
    | r where "filter (\<lambda>r. o_id r = w_order_id w) rs = [r]" "o_id r = w_order_id w"
  proof (cases "filter (\<lambda>r. o_id r = w_order_id w) rs")
    case (Cons r rest)
    then have "r \<in> set (filter (\<lambda>r. o_id r = w_order_id w) rs)" by simp
    then have "o_id r = w_order_id w" by simp
    moreover have "rest = []" using filter_order_id[OF assms(1), of "w_order_id w"] Cons by simp
    ultimately show thesis using Cons that(2) by simp
  qed (rule that(1))
  then show ?case by cases (use fresh rest in \<open>simp_all add: comp_def\<close>)
qed simp

lemma selected_rows_distinct:
  assumes "schema_ok d"
  shows "distinct (map (o_id \<circ> snd) (selected_rows d chain_id token as))"
proof -
  have "distinct (map (o_id \<circ> snd) (window_order_join d))"
    using assms unfolding window_order_join_def
    by (intro join_order_ids) (simp_all add: schema_ok_def keys_ok_def)
  then show ?thesis
    by (auto simp: selected_rows_def distinct_map intro: inj_on_subset)
qed

lemma traverse_order_keys:
  "traverseE row_to_payment_window_candidate rows = Ok cs \<Longrightarrow> map pwc_order_id cs = map (o_id \<circ> snd) rows"
proof (induction rows arbitrary: cs)
  case (Cons wr rows)
  then show ?case by (cases wr) (auto simp: bindE_eq_Ok dest: candidate_fields)
qed simp

lemma join_member:
  "(w, r) \<in> set (window_order_join d) \<longleftrightarrow> w \<in> set (payment_windows d) \<and> r \<in> set (orders d) \<and> o_id r = w_order_id w"
  by (auto simp: window_order_join_def)

text \<open>Under the invariant an address determines its window and its order.\<close>

lemma address_determines_window:
  assumes "repo_ok d" "(w, r) \<in> set (window_order_join d)" "(w', r') \<in> set (window_order_join d)"
    "w_receive_address w = w_receive_address w'"
  shows "w = w' \<and> r = r'"
proof -
  note m = assms(2,3)[unfolded join_member]
  have wok: "windows_ok d" and sok: "schema_ok d" using assms(1) by (simp_all add: repo_ok_def)
  have inj_addr: "inj_on o_receive_address (set (orders d))" and inj_id: "inj_on o_id (set (orders d))"
    and inj_w: "inj_on w_order_id (set (payment_windows d))"
    using wok sok by (simp_all add: windows_ok_def schema_ok_def keys_ok_def distinct_map)
  have own: "o_receive_address x = w_receive_address v"
    if "v \<in> set (payment_windows d)" "x \<in> set (orders d)" "o_id x = w_order_id v" for v x
    using wok that inj_id unfolding windows_ok_def by (metis inj_onD)
  have "r = r'" using m own assms(4) inj_addr by (metis inj_onD)
  moreover from this m inj_w have "w = w'" by (metis inj_onD)
  ultimately show ?thesis by simp
qed


section \<open>A transfer to an order's address\<close>

definition log_for_order :: "TransferLog \<Rightarrow> order_row \<Rightarrow> bool" where
  "log_for_order l r \<longleftrightarrow>
     uint (tl_chain_id l) = o_chain_id r \<and> tl_token_address l = o_token_address r
     \<and> tl_to_address l = o_receive_address r"

definition bigint_windows :: "db \<Rightarrow> bool" where
  "bigint_windows d \<longleftrightarrow> (\<forall>w \<in> set (payment_windows d). w_window_from_block w < 2 ^ 63)"

text \<open>The matcher's verdict on a log is the one the repository computes from the stored window.\<close>

lemma match_status_agrees:
  assumes "row_to_payment_window_candidate (w, r) = Ok c" "w_window_from_block w < 2 ^ 63"
  shows "match_status_transfer l c =
    window_match_status w (uint (blk_number (tl_block l))) (blk_timestamp (tl_block l))"
proof -
  note f = candidate_fields[OF assms(1)]
  have "uint (of_int (w_window_from_block w) :: u64) = w_window_from_block w"
    using f assms(2) by (simp add: unsigned_of_int take_bit_int_eq_self)
  then show ?thesis
    using f by (simp add: match_status_transfer_def candidate_is_within_monitor_window_transfer_def
        window_match_status_def word_le_def)
qed

lemma distinct_singleton: "distinct ys \<Longrightarrow> set ys = {x} \<Longrightarrow> ys = [x]"
  by (cases ys; cases "tl ys") auto

lemma filter_unique:
  assumes "distinct xs" "\<And>x y. x \<in> set xs \<Longrightarrow> y \<in> set xs \<Longrightarrow> P x \<Longrightarrow> P y \<Longrightarrow> x = y" "x \<in> set xs" "P x"
  shows "filter P xs = [x]"
proof -
  have "set (filter P xs) = {x}" using assms(2-4) by auto
  moreover have "distinct (filter P xs)" using assms(1) by simp
  ultimately show ?thesis by (rule distinct_singleton[rotated])
qed


lemma window_own_address:
  assumes "repo_ok d" "(w, r) \<in> set (window_order_join d)"
  shows "w_receive_address w = o_receive_address r"
proof -
  note m = assms(2)[unfolded join_member]
  obtain x where "x \<in> set (orders d)" "o_id x = w_order_id w" "o_receive_address x = w_receive_address w"
    using assms(1) m unfolding repo_ok_def windows_ok_def by blast
  moreover have "inj_on o_id (set (orders d))"
    using assms(1) by (simp add: repo_ok_def schema_ok_def keys_ok_def distinct_map)
  ultimately show ?thesis using m by (metis inj_onD)
qed

lemma lookup_window_of_order:
  assumes ok: "repo_ok d" and lk: "lookup_payment_window_candidates d chain_id token as = Ok cs"
    and row: "(w, r) \<in> set (window_order_join d)" "o_chain_id r = uint chain_id" "o_token_address r = token"
    and addr: "o_receive_address r \<in> set as"
  obtains c where "row_to_payment_window_candidate (w, r) = Ok c"
    "filter (\<lambda>c. key_from_candidate c = (chain_id, token, o_receive_address r)) cs = [c]"
proof -
  have as: "as \<noteq> []" using addr by auto
  note tr = lookup_rows[OF lk as]
  have own: "w_receive_address w = o_receive_address r" by (rule window_own_address[OF ok row(1)])
  have sel: "(w, r) \<in> set (selected_rows d chain_id token as)"
    using row addr own by (simp add: selected_rows_def)
  obtain c where c: "row_to_payment_window_candidate (w, r) = Ok c" "c \<in> set cs"
    using traverseE_mem[OF tr sel] by blast
  have key: "key_from_candidate c = (chain_id, token, o_receive_address r)"
    using candidate_fields[OF c(1)] row own by (simp add: key_from_candidate_def)
  have "schema_ok d" using ok by (simp add: repo_ok_def)
  then have "distinct (map pwc_order_id cs)"
    unfolding traverse_order_keys[OF tr] by (rule selected_rows_distinct)
  then have dist: "distinct cs" by (rule distinct_map[THEN iffD1, THEN conjunct1])
  have unique: "c' = c" if c': "c' \<in> set cs" "key_from_candidate c' = (chain_id, token, o_receive_address r)" for c'
  proof -
    obtain w' r' where w': "(w', r') \<in> set (window_order_join d)" "row_to_payment_window_candidate (w', r') = Ok c'"
      using traverseE_Ok_set[OF tr c'(1)] by (auto simp: selected_rows_def)
    have "w_receive_address w = w_receive_address w'"
      using candidate_fields[OF w'(2)] c'(2) own by (simp add: key_from_candidate_def)
    with address_determines_window[OF ok row(1) w'(1)] w'(2) c(1) show ?thesis by simp
  qed
  show thesis
  proof (rule that[OF c(1)], rule filter_unique[OF dist])
    show "x = y" if "x \<in> set cs" "y \<in> set cs" "key_from_candidate x = (chain_id, token, o_receive_address r)"
      "key_from_candidate y = (chain_id, token, o_receive_address r)" for x y
      by (simp only: unique[OF that(1,3)] unique[OF that(2,4)])
  qed (fact c(2), fact key)
qed

lemma payable_window_only:
  assumes "filter (\<lambda>c. key_from_candidate c = (tl_chain_id l, tl_token_address l, tl_to_address l)) cs = [c]"
    "sid_chain_id stream = tl_chain_id l" "sid_token_address stream = tl_token_address l"
  shows "payable_window stream cs l = [c]"
  using assms by (auto simp: payable_window_def windows_of_log_def Let_def)

lemma matched_member:
  assumes "c \<in> set (payable_window stream cs l)" "l \<in> set ls"
  shows "\<exists>i. matched_payment_input_from_transfer_log (ids i) l c head minc
    \<in> set (match_transfer_logs ids stream minc ls cs head)"
proof -
  let ?xs = "concat (map (\<lambda>l. map (Pair l) (payable_window stream cs l)) ls)"
  have "(l, c) \<in> set ?xs" using assms by auto
  from mem_enumerate[OF this, of 0] obtain i where "(i, l, c) \<in> set (List.enumerate 0 ?xs)" ..
  then show ?thesis unfolding match_transfer_logs_def match_transfer_loop_exact set_map by force
qed

lemma member_matched:
  assumes "m \<in> set (match_transfer_logs ids stream minc ls cs head)"
  obtains i l c where "l \<in> set ls" "c \<in> set (payable_window stream cs l)"
    "m = matched_payment_input_from_transfer_log (ids i) l c head minc"
proof -
  obtain i l c where "(i, l, c) \<in> set (List.enumerate 0 (concat (map (\<lambda>l. map (Pair l) (payable_window stream cs l)) ls)))"
    "m = matched_payment_input_from_transfer_log (ids i) l c head minc"
    using assms unfolding match_transfer_logs_def match_transfer_loop_exact by auto
  with enumerate_mem[OF this(1)] that show thesis by auto
qed


lemma batch_lookup:
  assumes "repository_lookup_batch (lookup_payment_window_candidates d) mx chain_id token as = Ok cs"
  shows "lookup_payment_window_candidates d chain_id token (deduplicate_addresses as) = Ok cs"
  using assms by (auto simp: repository_lookup_batch_def Let_def split: if_splits)

lemma matched_input_fields:
  "mp_order_id (matched_payment_input_from_transfer_log i l c head minc) = pwc_order_id c"
  "mp_tx_hash (matched_payment_input_from_transfer_log i l c head minc) = tl_tx_hash l"
  "mp_log_index (matched_payment_input_from_transfer_log i l c head minc) = tl_log_index l"
  "mp_amount_raw (matched_payment_input_from_transfer_log i l c head minc) = tl_amount_raw l"
  "mp_to_address (matched_payment_input_from_transfer_log i l c head minc) = tl_to_address l"
  "mp_chain_id (matched_payment_input_from_transfer_log i l c head minc) = tl_chain_id l"
  "mp_token_address (matched_payment_input_from_transfer_log i l c head minc) = tl_token_address l"
  "mp_block_number (matched_payment_input_from_transfer_log i l c head minc) = blk_number (tl_block l)"
  "mp_block_time (matched_payment_input_from_transfer_log i l c head minc) = blk_timestamp (tl_block l)"
  "mp_match_status (matched_payment_input_from_transfer_log i l c head minc) = match_status_transfer l c"
  by (simp_all add: matched_payment_input_from_transfer_log_def case_prod_beta)

text \<open>
  No transfer to an order is lost.  In a consistent database, every transfer of the order's
  token on its chain to its receive address is matched to exactly that order with its full
  amount, whatever else is in the batch, once the lookup of the batch answers; it is
  never rejected as ambiguous.
\<close>
theorem transfer_to_order_is_matched:
  assumes "repo_ok d" "(w, r) \<in> set (window_order_join d)" "log_for_order l r" "l \<in> set ls" "tl_to_address l \<in> set as"
    "sid_chain_id stream = tl_chain_id l" "sid_token_address stream = tl_token_address l"
    "repository_lookup_batch (lookup_payment_window_candidates d) mx (sid_chain_id stream) (sid_token_address stream) as = Ok cs"
  shows "\<exists>m \<in> set (match_transfer_logs ids stream minc ls cs head).
    mp_order_id m = o_id r \<and> mp_tx_hash m = tl_tx_hash l \<and> mp_log_index m = tl_log_index l \<and>
    mp_amount_raw m = tl_amount_raw l"
proof -
  note log = assms(3)[unfolded log_for_order_def]
  obtain c where row: "row_to_payment_window_candidate (w, r) = Ok c"
    and only: "filter (\<lambda>c. key_from_candidate c = (tl_chain_id l, tl_token_address l, o_receive_address r)) cs = [c]"
    using lookup_window_of_order[OF assms(1) batch_lookup[OF assms(8)] assms(2)] log assms(5-7) by auto
  have "payable_window stream cs l = [c]"
    using only log by (intro payable_window_only assms(6,7)) simp
  then obtain i where "matched_payment_input_from_transfer_log (ids i) l c head minc
      \<in> set (match_transfer_logs ids stream minc ls cs head)"
    using matched_member[of c stream cs l ls ids head minc] assms(4) by auto
  then show ?thesis
    using candidate_fields[OF row] by (intro bexI) (simp_all add: matched_input_fields)
qed

text \<open>
  Every payment the matcher produces from the repository's windows is accepted by the
  repository for the order it names: its target order and window exist under the
  matcher's chain, token and address, and the status the repository derives from the
  stored window is the one the matcher computed.
\<close>
theorem matched_payment_has_target:
  assumes "repo_ok d" "bigint_windows d"
    "repository_lookup_batch (lookup_payment_window_candidates d) mx (sid_chain_id stream) (sid_token_address stream) as = Ok cs"
    "m \<in> set (match_transfer_logs ids stream minc ls cs head)"
  shows "\<exists>ord w. select_payment_target (mp_order_id m) (uint (sid_chain_id stream)) (sid_token_address stream)
      (mp_to_address m) d = Some (ord, w) \<and>
    window_match_status w (uint (mp_block_number m)) (mp_block_time m) = mp_match_status m"
proof -
  obtain i l c where l: "l \<in> set ls" and c: "c \<in> set (payable_window stream cs l)"
    and m: "m = matched_payment_input_from_transfer_log (ids i) l c head minc"
    using assms(4) by (rule member_matched)
  note mem = payable_window_member[OF c]
  have "c \<in> repository_windows d"
    using repository_lookup.lookup_exact[OF assms(3)] mem by blast
  then obtain w r where row: "(w, r) \<in> set (window_order_join d)" "row_to_payment_window_candidate (w, r) = Ok c"
    and chain: "o_chain_id r = uint (pwc_chain_id c)"
    by (auto simp: repository_windows_def)
  note f = candidate_fields[OF row(2)]
  note j = row(1)[unfolded join_member]
  have keys: "distinct (map o_id (orders d))" "distinct (map w_order_id (payment_windows d))"
    using assms(1) by (simp_all add: repo_ok_def schema_ok_def keys_ok_def)
  have "find_row (\<lambda>x. o_id x = o_id r) (orders d) = Some r"
    using j by (intro find_row_unique[OF keys(1)]) simp_all
  moreover have "find_row (\<lambda>v. w_order_id v = o_id r) (payment_windows d) = Some w"
    using j by (intro find_row_unique[OF keys(2)]) simp_all
  moreover have "o_receive_address r = tl_to_address l" "o_token_address r = sid_token_address stream"
    "o_chain_id r = uint (sid_chain_id stream)"
    using window_own_address[OF assms(1) row(1)] f mem chain by (simp_all add: key_from_candidate_def)
  ultimately have "select_payment_target (mp_order_id m) (uint (sid_chain_id stream)) (sid_token_address stream)
      (mp_to_address m) d = Some (r, w)"
    using f by (simp add: select_payment_target_def m matched_input_fields)
  moreover have "w_window_from_block w < 2 ^ 63" using assms(2) j by (simp add: bigint_windows_def)
  then have "window_match_status w (uint (mp_block_number m)) (mp_block_time m) = mp_match_status m"
    using match_status_agrees[OF row(2)] by (simp add: m matched_input_fields)
  ultimately show ?thesis by blast
qed


section \<open>Witnesses\<close>

definition sample_log :: TransferLog where
  "sample_log = \<lparr>tl_chain_id = 137, tl_token_address = 0xA,
     tl_block = \<lparr>blk_number = 12, blk_hash = 0xBEEF, blk_parent_hash = 0, blk_timestamp = 30\<rparr>,
     tl_tx_hash = 0xFEED, tl_log_index = 3, tl_from_address = 0xC, tl_to_address = 0xB0B,
     tl_amount_raw = 100\<rparr>"

definition sample_stream :: StreamId where
  "sample_stream = \<lparr>sid_chain_id = 137, sid_token_address = 0xA\<rparr>"

lemma sample_repo: "repo_ok sample_db"
  using sample_schema sample_ledger by (simp add: repo_ok_def windows_ok_def sample_defs)

lemma sample_lookup:
  "\<exists>cs. repository_lookup_batch (lookup_payment_window_candidates sample_db) 10 137 0xA [0xB0B] = Ok cs"
  using big_decimal_numeral[of 100] big_decimal_numeral[of 0]
  by (simp add: repository_lookup_batch_def deduplicate_addresses_def lookup_payment_window_candidates_def
      window_order_join_def row_to_payment_window_candidate_def order_eval sample_defs)

theorem transfer_to_order_is_matched_witness:
  "\<exists>cs. repository_lookup_batch (lookup_payment_window_candidates sample_db) 10 137 0xA [0xB0B] = Ok cs \<and>
     (\<exists>m \<in> set (match_transfer_logs (\<lambda>_. 9) sample_stream 1 [sample_log] cs \<lparr>cb_number = 12, cb_hash = 0xBEEF\<rparr>).
        mp_order_id m = 1 \<and> mp_amount_raw m = 100)"
proof -
  obtain cs where lk: "repository_lookup_batch (lookup_payment_window_candidates sample_db) 10 137 0xA [0xB0B] = Ok cs"
    using sample_lookup by blast
  have join: "(sample_window, sample_order) \<in> set (window_order_join sample_db)"
    by (simp add: window_order_join_def sample_defs)
  have log: "log_for_order sample_log sample_order"
    by (simp add: log_for_order_def sample_log_def sample_order_def)
  have "\<exists>m \<in> set (match_transfer_logs (\<lambda>_. 9) sample_stream 1 [sample_log] cs \<lparr>cb_number = 12, cb_hash = 0xBEEF\<rparr>).
      mp_order_id m = o_id sample_order \<and> mp_tx_hash m = tl_tx_hash sample_log \<and>
      mp_log_index m = tl_log_index sample_log \<and> mp_amount_raw m = tl_amount_raw sample_log"
    using lk by (intro transfer_to_order_is_matched[OF sample_repo join log, where as = "[0xB0B]" and mx = 10])
      (simp_all add: sample_stream_def sample_log_def)
  with lk show ?thesis by (auto simp: sample_order_def sample_log_def)
qed

theorem matched_payment_has_target_witness:
  "\<exists>cs m ord w. repository_lookup_batch (lookup_payment_window_candidates sample_db) 10 137 0xA [0xB0B] = Ok cs \<and>
     match_transfer_logs (\<lambda>_. 9) sample_stream 1 [sample_log] cs \<lparr>cb_number = 12, cb_hash = 0xBEEF\<rparr> = [m] \<and>
     select_payment_target (mp_order_id m) 137 0xA (mp_to_address m) sample_db = Some (ord, w) \<and>
     window_match_status w (uint (mp_block_number m)) (mp_block_time m) = mp_match_status m"
proof -
  let ?head = "\<lparr>cb_number = 12, cb_hash = 0xBEEF\<rparr> :: ChainBlockRef"
  have "\<exists>cs m. repository_lookup_batch (lookup_payment_window_candidates sample_db) 10 137 0xA [0xB0B] = Ok cs \<and>
      match_transfer_logs (\<lambda>_. 9) sample_stream 1 [sample_log] cs ?head = [m]"
    using big_decimal_numeral[of 100] big_decimal_numeral[of 0]
    by (simp add: repository_lookup_batch_def deduplicate_addresses_def lookup_payment_window_candidates_def
        window_order_join_def row_to_payment_window_candidate_def order_eval sample_defs sample_stream_def sample_log_def
        match_transfer_logs_def selected_payable payable_window_def windows_of_log_def key_from_candidate_def
        window_covers_def)
  then obtain cs m where lk: "repository_lookup_batch (lookup_payment_window_candidates sample_db) 10 137 0xA [0xB0B] = Ok cs"
    and m: "match_transfer_logs (\<lambda>_. 9) sample_stream 1 [sample_log] cs ?head = [m]" by blast
  have big: "bigint_windows sample_db" by (simp add: bigint_windows_def sample_defs)
  have "\<exists>ord w. select_payment_target (mp_order_id m) (uint (sid_chain_id sample_stream)) (sid_token_address sample_stream)
      (mp_to_address m) sample_db = Some (ord, w) \<and>
    window_match_status w (uint (mp_block_number m)) (mp_block_time m) = mp_match_status m"
    by (rule matched_payment_has_target[OF sample_repo big, where as = "[0xB0B]" and mx = 10 and ls = "[sample_log]"
          and cs = cs and ids = "\<lambda>_. 9" and minc = 1 and head = ?head])
      (use lk m in \<open>simp_all add: sample_stream_def\<close>)
  with lk m show ?thesis by (auto simp: sample_stream_def)
qed

end
