(* ===== verification/Collection_Repo.thy ===== *)
theory Collection_Repo
  imports Order_Repo
begin

text \<open>
  \<open>src/src/db/repositories/collections.rs\<close>: sweeps of an order's child account into a treasury,
  their idempotent creation, the lease under which a worker processes one, and the link to the
  signed transaction.  An operation that commits before it decodes the returned row keeps its
  write when the decoding fails; its result is a state together with an error or a value.
\<close>

type_synonym 'a committed = "RepositoryError + ((RepositoryError + 'a) \<times> db)"

section \<open>Decoding\<close>

definition i64_to_u32 :: "int \<Rightarrow> string \<Rightarrow> RepositoryError + u32" where
  "i64_to_u32 v field = (if 0 \<le> v \<and> v < 2 ^ 32 then Ok (of_int v) else Err (IntegerOutOfRange field))"

definition decimal_to_raw_amount :: "int \<Rightarrow> string \<Rightarrow> RepositoryError + RawAmount" where
  "decimal_to_raw_amount v field =
     map_errE (\<lambda>e. InvalidDbValue field (show_int v) (''invalid raw amount: '' @ amount_error_text e))
       (parse_dec_str (show_int v))"

definition collection_record_from_row :: "collection_row \<Rightarrow> RepositoryError + CollectionRecord" where
  "collection_record_from_row r =
     bindE (ord_i64_to_u64 (col_chain_id r) ''collections.chain_id'') (\<lambda>chain_id.
     bindE (optionE (\<lambda>v. decimal_to_raw_amount v ''numeric(78,0)'') (col_amount_raw r)) (\<lambda>amount.
     bindE (i32_to_u32 (col_attempt_count r) ''collections.attempt_count'') (\<lambda>attempts.
     Ok \<lparr>cr_id = col_id r, cr_owner_sub = col_owner_sub r, cr_order_id = col_order_id r,
         cr_idempotency_key = col_idempotency_key r, cr_request_hash = col_request_hash r,
         cr_child_account_id = col_child_account_id r, cr_chain_id = chain_id,
         cr_token_address = col_token_address r, cr_from_address = col_from_address r,
         cr_to_address = col_to_address r, cr_amount_raw = amount, cr_status = col_status r,
         cr_outbound_tx_id = col_outbound_tx_id r, cr_attempt_count = attempts,
         cr_locked_by = col_locked_by r, cr_locked_until = col_locked_until r, cr_error = col_error r,
         cr_created_at = col_created_at r, cr_updated_at = col_updated_at r\<rparr>)))"

definition collection_job_from_record :: "db \<Rightarrow> CollectionRecord \<Rightarrow> RepositoryError + CollectionJob" where
  "collection_job_from_record d c =
     (case find_row (\<lambda>a. c_id a = cr_child_account_id c) (child_accounts d) of
        None \<Rightarrow> Err (Database RowNotFound)
      | Some a \<Rightarrow>
          bindE (i64_to_u32 (c_account_index a) ''child_accounts.account_index'') (\<lambda>account.
          bindE (i64_to_u32 (c_change_index a) ''child_accounts.change_index'') (\<lambda>change.
          bindE (i64_to_u32 (c_address_index a) ''child_accounts.address_index'') (\<lambda>address.
          bindE (i32_to_u32 (c_derivation_version a) ''child_accounts.derivation_version'') (\<lambda>version.
          bindE (map_errE repository_error_of_segment (segment_new account change address)) (\<lambda>segment.
          Ok \<lparr>cj_collection = c, cj_signer_key_ref = c_signer_key_ref a, cj_derivation_version = version,
              cj_derivation_segment = segment, cj_derivation_path = c_derivation_path a\<rparr>))))))"


section \<open>Writing the collections table\<close>

definition collection_active :: "CollectionRecordStatus \<Rightarrow> bool" where
  "collection_active s \<longleftrightarrow> s \<in> {ColQueued, ColTransferring, ColReplacing, ColConfirming}"

text \<open>The partial unique index \<open>one_active_collection_per_child\<close>.\<close>

definition collection_indexed :: "collection_row \<Rightarrow> bool" where
  "collection_indexed r \<longleftrightarrow> col_status r \<in> {ColQueued, ColTransferring, ColConfirming}"

definition one_active_per_child :: "collection_row list \<Rightarrow> bool" where
  "one_active_per_child rs \<longleftrightarrow> distinct (map col_child_account_id (filter collection_indexed rs))"

definition collection_checks :: "collection_row \<Rightarrow> bool" where
  "collection_checks r \<longleftrightarrow>
     col_idempotency_key r \<noteq> [] \<and> col_request_hash r \<noteq> [] \<and> col_owner_sub r \<noteq> [] \<and> 0 \<le> col_chain_id r
     \<and> (case col_amount_raw r of None \<Rightarrow> True | Some a \<Rightarrow> 0 < a) \<and> 0 \<le> col_attempt_count r
     \<and> (col_locked_by r = None \<longleftrightarrow> col_locked_until r = None)"

text \<open>The trigger \<open>enforce_collection_outbound_tx\<close>.\<close>

definition enforce_collection_outbound_tx :: "db \<Rightarrow> collection_row \<Rightarrow> RepositoryError + unit" where
  "enforce_collection_outbound_tx d r =
     (case col_outbound_tx_id r of
        None \<Rightarrow> Ok ()
      | Some oid \<Rightarrow>
          (case find_row (\<lambda>x. ob_id x = oid) (outbound_transactions d) of
             None \<Rightarrow> Err (Database (ForeignKeyViolation ''collections_outbound_tx_fk''))
           | Some x \<Rightarrow>
               if ob_purpose x \<noteq> Collect \<or> ob_chain_id x \<noteq> col_chain_id r
                  \<or> (ob_from_address x \<noteq> col_from_address r
                     \<and> (col_chain_id r, ob_from_address x) \<notin> set (relayer_addresses d))
                  \<or> ob_to_address x \<noteq> col_to_address r
               then Err (Database (CheckViolation ''collection outbound transaction invariant violation''))
               else Ok ()))"

definition fits_i32 :: "int \<Rightarrow> bool" where
  "fits_i32 v \<longleftrightarrow> - (2 ^ 31) \<le> v \<and> v < 2 ^ 31"

text \<open>\<open>UPDATE collections SET f WHERE c\<close>: the updated rows and the new state.\<close>

definition update_collections ::
  "bool \<Rightarrow> (collection_row \<Rightarrow> bool) \<Rightarrow> (collection_row \<Rightarrow> collection_row) \<Rightarrow> db \<Rightarrow> collection_row list tx" where
  "update_collections trigger c f d =
     (let new = update_where c f (collections d); changed = map f (filter c (collections d)) in
      if \<exists>r \<in> set changed. \<not> fits_i32 (col_attempt_count r) then Err (Database NumericOverflow)
      else
        bindE (if trigger then traverseE (enforce_collection_outbound_tx d) changed else Ok []) (\<lambda>_.
        if \<exists>r \<in> set changed. \<not> collection_checks r then Err (Database (CheckViolation ''collections''))
        else if changed \<noteq> [] \<and> \<not> one_active_per_child new
        then Err (Database (UniqueViolation ''one_active_collection_per_child''))
        else Ok (changed, d\<lparr>collections := new\<rparr>)))"


section \<open>Creation\<close>

definition select_collection_by_idempotency_key ::
  "string \<Rightarrow> string \<Rightarrow> db \<Rightarrow> RepositoryError + CollectionRecord option" where
  "select_collection_by_idempotency_key owner key d =
     optionE collection_record_from_row
       (find_row (\<lambda>r. col_owner_sub r = owner \<and> col_idempotency_key r = key) (collections d))"

definition select_active_collection_by_child_account ::
  "uuid \<Rightarrow> db \<Rightarrow> RepositoryError + CollectionRecord option" where
  "select_active_collection_by_child_account child d =
     optionE collection_record_from_row
       (first_row (sort_key (\<lambda>r. - col_created_at r)
          (filter (\<lambda>r. col_child_account_id r = child \<and> collection_active (col_status r)) (collections d))))"

definition ensure_same_collection_request ::
  "CollectionRecord \<Rightarrow> CreateCollectionCommand \<Rightarrow> RepositoryError + unit" where
  "ensure_same_collection_request existing c =
     (if cr_request_hash existing = ccc_request_hash c then Ok ()
      else Err (IdempotencyConflict ''collections.idempotency_key'' (ccc_idempotency_key c) (Some (cr_id existing))))"

definition lock_collectable_order :: "CreateCollectionCommand \<Rightarrow> db \<Rightarrow> RepositoryError + unit" where
  "lock_collectable_order c d =
     bindE (ord_u64_to_i64 (ccc_chain_id c) ''collections.chain_id'') (\<lambda>chain.
     case find_row (\<lambda>r. o_id r = ccc_order_id c \<and> o_owner_sub r = ccc_owner_sub c
            \<and> o_child_account_id r = ccc_child_account_id c \<and> o_chain_id r = chain
            \<and> o_token_address r = ccc_token_address c \<and> o_receive_address r = ccc_from_address c) (orders d) of
       None \<Rightarrow> Err (NotFound ''orders'' (show_uuid (ccc_order_id c)))
     | Some r \<Rightarrow>
         (case ccc_order_requirement c of
            RequirePaid \<Rightarrow>
              if o_status r = Paid then Ok ()
              else Err (InvariantViolation (''order '' @ show_uuid (ccc_order_id c)
                @ '' must be paid before collection, got '' @ order_status_as_db_str (o_status r)))
          | RequireProblemFunds \<Rightarrow>
              if o_status r = Expired \<or> o_status r = Paid then Ok ()
              else Err (InvariantViolation (''order '' @ show_uuid (ccc_order_id c)
                @ '' must be expired or paid before problem funds collection, got ''
                @ order_status_as_db_str (o_status r)))))"

text \<open>The foreign keys of an inserted row.\<close>

definition collection_references :: "collection_row \<Rightarrow> db \<Rightarrow> bool" where
  "collection_references r d \<longleftrightarrow>
     (\<exists>a \<in> set (child_accounts d). c_id a = col_child_account_id r \<and> c_address a = col_from_address r)
     \<and> (\<exists>x \<in> set (orders d). o_id x = col_order_id r \<and> o_chain_id x = col_chain_id r
          \<and> o_token_address x = col_token_address r \<and> o_child_account_id x = col_child_account_id r
          \<and> o_receive_address x = col_from_address r \<and> o_owner_sub x = col_owner_sub r)
     \<and> (col_chain_id r, col_token_address r, col_to_address r) \<in> set (treasury_addresses d)"

definition new_collection_row :: "CreateCollectionCommand \<Rightarrow> int \<Rightarrow> timestamp \<Rightarrow> collection_row" where
  "new_collection_row c chain tnow =
     \<lparr>col_id = ccc_collection_id c, col_owner_sub = ccc_owner_sub c, col_order_id = ccc_order_id c,
      col_idempotency_key = ccc_idempotency_key c, col_request_hash = ccc_request_hash c,
      col_child_account_id = ccc_child_account_id c, col_chain_id = chain,
      col_token_address = ccc_token_address c, col_from_address = ccc_from_address c,
      col_to_address = ccc_to_address c,
      col_amount_raw = map_option raw_amount_to_numeric (ccc_amount_raw c), col_status = ColQueued,
      col_outbound_tx_id = None, col_attempt_count = 0, col_locked_by = None, col_locked_until = None,
      col_error = None, col_created_at = tnow, col_updated_at = tnow\<rparr>"

definition insert_collection :: "CreateCollectionCommand \<Rightarrow> db \<Rightarrow> CollectionRecord option tx" where
  "insert_collection c d =
     bindE (ord_u64_to_i64 (ccc_chain_id c) ''collections.chain_id'') (\<lambda>chain.
     let r = new_collection_row c chain (db_now d) in
     if \<not> collection_checks r then Err (Database (CheckViolation ''collections''))
     else if \<exists>x \<in> set (collections d). col_owner_sub x = col_owner_sub r \<and> col_idempotency_key x = col_idempotency_key r
     then Ok (None, d)
     else if \<exists>x \<in> set (collections d). col_id x = col_id r
     then Err (Database (UniqueViolation ''collections_pkey''))
     else if \<not> one_active_per_child (collections d @ [r])
     then Err (Database (UniqueViolation ''one_active_collection_per_child''))
     else if \<not> collection_references r d then Err (Database (ForeignKeyViolation ''collections''))
     else bindE (collection_record_from_row r) (\<lambda>rec. Ok (Some rec, d\<lparr>collections := collections d @ [r]\<rparr>)))"

definition create_collection_idempotent :: "CreateCollectionCommand \<Rightarrow> db \<Rightarrow> CollectionRecord tx" where
  "create_collection_idempotent c d =
     bindE (select_collection_by_idempotency_key (ccc_owner_sub c) (ccc_idempotency_key c) d) (\<lambda>found.
     case found of
       Some existing \<Rightarrow> bindE (ensure_same_collection_request existing c) (\<lambda>_. Ok (existing, d))
     | None \<Rightarrow>
         bindE (select_active_collection_by_child_account (ccc_child_account_id c) d) (\<lambda>active.
         case active of
           Some a \<Rightarrow> Ok (a, d)
         | None \<Rightarrow>
             bindE (lock_collectable_order c d) (\<lambda>_.
             bindE (insert_collection c d) (\<lambda>(inserted, d1).
             case inserted of
               Some rec \<Rightarrow> Ok (rec, d1)
             | None \<Rightarrow>
                 bindE (select_collection_by_idempotency_key (ccc_owner_sub c) (ccc_idempotency_key c) d1) (\<lambda>again.
                 case again of
                   None \<Rightarrow> Err (InvariantViolation ''collection idempotency conflict did not return a row'')
                 | Some existing \<Rightarrow> bindE (ensure_same_collection_request existing c) (\<lambda>_. Ok (existing, d1)))))))"


section \<open>Reads, leases and the link to a transaction\<close>

definition get_collection :: "uuid \<Rightarrow> db \<Rightarrow> RepositoryError + CollectionRecord option" where
  "get_collection cid d = optionE collection_record_from_row (find_row (\<lambda>r. col_id r = cid) (collections d))"

definition get_collection_for_owner :: "uuid \<Rightarrow> string \<Rightarrow> db \<Rightarrow> RepositoryError + CollectionRecord option" where
  "get_collection_for_owner cid owner d =
     optionE collection_record_from_row (find_row (\<lambda>r. col_id r = cid \<and> col_owner_sub r = owner) (collections d))"

definition get_collection_job :: "uuid \<Rightarrow> db \<Rightarrow> RepositoryError + CollectionJob option" where
  "get_collection_job cid d =
     (case find_row (\<lambda>r. col_id r = cid) (collections d) of
        None \<Rightarrow> Ok None
      | Some r \<Rightarrow>
          bindE (collection_record_from_row r) (\<lambda>rec. mapE Some (collection_job_from_record d rec)))"

definition lease_free :: "timestamp \<Rightarrow> collection_row \<Rightarrow> bool" where
  "lease_free tnow r \<longleftrightarrow> (case col_locked_until r of None \<Rightarrow> True | Some t \<Rightarrow> t \<le> tnow)"

definition claimable :: "int \<Rightarrow> EvmAddress \<Rightarrow> timestamp \<Rightarrow> collection_row \<Rightarrow> bool" where
  "claimable chain token tnow r \<longleftrightarrow>
     col_status r = ColQueued \<and> col_chain_id r = chain \<and> col_token_address r = token \<and> lease_free tnow r"

definition claim_collection_job ::
  "u64 \<Rightarrow> string \<Rightarrow> u64 \<Rightarrow> EvmAddress \<Rightarrow> db \<Rightarrow> CollectionJob option tx" where
  "claim_collection_job lease_secs worker chain_id token d =
     bindE (ord_u64_to_i64 lease_secs ''claim_lease_seconds'') (\<lambda>lease.
     bindE (ord_u64_to_i64 chain_id ''chain_id'') (\<lambda>chain.
     case first_row (sort_key col_created_at (sort_key col_id
            (filter (claimable chain token (db_now d)) (collections d)))) of
       None \<Rightarrow> Ok (None, d)
     | Some pick \<Rightarrow>
         bindE (update_collections False (\<lambda>r. col_id r = col_id pick)
             (\<lambda>r. r\<lparr>col_locked_by := Some worker, col_locked_until := Some (db_now d + lease * one_second),
                    col_attempt_count := col_attempt_count r + 1, col_updated_at := db_now d\<rparr>) d) (\<lambda>(changed, d1).
         case changed of
           [] \<Rightarrow> Ok (None, d1)
         | r # _ \<Rightarrow>
             bindE (collection_record_from_row r) (\<lambda>rec.
             bindE (collection_job_from_record d1 rec) (\<lambda>job. Ok (Some job, d1))))))"

definition attach_row :: "timestamp \<Rightarrow> uuid \<Rightarrow> RawAmount \<Rightarrow> collection_row \<Rightarrow> collection_row" where
  "attach_row tnow oid amount r =
     r\<lparr>col_outbound_tx_id := Some oid,
       col_amount_raw := Some (case col_amount_raw r of None \<Rightarrow> raw_amount_to_numeric amount | Some a \<Rightarrow> a),
       col_status := ColTransferring, col_locked_by := None, col_locked_until := None, col_error := None,
       col_updated_at := tnow\<rparr>"

definition attachable :: "uuid \<Rightarrow> collection_row \<Rightarrow> bool" where
  "attachable cid r \<longleftrightarrow> col_id r = cid \<and> col_status r \<in> {ColQueued, ColTransferring, ColReplacing}"

definition attach_outbound_tx :: "uuid \<Rightarrow> uuid \<Rightarrow> RawAmount \<Rightarrow> db \<Rightarrow> CollectionRecord committed" where
  "attach_outbound_tx cid oid amount d =
     bindE (update_collections True (attachable cid) (attach_row (db_now d) oid amount) d) (\<lambda>(changed, d1).
     case changed of
       [] \<Rightarrow> Err (InvariantViolation (''collection '' @ show_uuid cid @ '' is not attachable''))
     | r # _ \<Rightarrow> Ok (collection_record_from_row r, d1))"

end
