(* ===== verification/Outbound_Repo.thy ===== *)
theory Outbound_Repo
  imports Collection_Repo
begin

text \<open>
  \<open>src/src/db/repositories/outbound.rs\<close>: nonce reservation, signed transactions and their life
  cycle together with the collections they pay for.
\<close>

section \<open>Decoding\<close>

definition optional_receipt_block :: "int option \<Rightarrow> BlockHash option \<Rightarrow> RepositoryError + ChainBlockRef option" where
  "optional_receipt_block number hash =
     (case (number, hash) of
        (Some n, Some h) \<Rightarrow>
          bindE (ord_i64_to_u64 n ''receipt_block_number'') (\<lambda>k. Ok (Some \<lparr>cb_number = k, cb_hash = h\<rparr>))
      | (None, None) \<Rightarrow> Ok None
      | _ \<Rightarrow> Err (InvalidDbValue ''outbound_transactions.receipt_block'' ''partial receipt block''
          ''receipt block number and hash must be set together''))"

definition outbound_record_from_row :: "outbound_row \<Rightarrow> RepositoryError + OutboundTxRecord" where
  "outbound_record_from_row r =
     bindE (ord_i64_to_u64 (ob_chain_id r) ''outbound_transactions.chain_id'') (\<lambda>chain_id.
     bindE (decimal_to_raw_amount (ob_nonce r) ''outbound_transactions.nonce'') (\<lambda>nonce.
     bindE (ord_i64_to_u64 (ob_gas_limit r) ''outbound_transactions.gas_limit'') (\<lambda>gas_limit.
     bindE (decimal_to_raw_amount (ob_max_fee_per_gas r) ''outbound_transactions.max_fee_per_gas'') (\<lambda>max_fee.
     bindE (decimal_to_raw_amount (ob_max_priority_fee_per_gas r)
         ''outbound_transactions.max_priority_fee_per_gas'') (\<lambda>priority_fee.
     bindE (i32_to_u32 (ob_broadcast_count r) ''broadcast_count'') (\<lambda>count.
     bindE (optional_receipt_block (ob_receipt_block_number r) (ob_receipt_block_hash r)) (\<lambda>receipt.
     Ok \<lparr>otr_id = ob_id r, otr_chain_id = chain_id, otr_purpose = ob_purpose r,
         otr_from_address = ob_from_address r, otr_to_address = ob_to_address r, otr_nonce = nonce,
         otr_gas_limit = gas_limit, otr_max_fee_per_gas = max_fee,
         otr_max_priority_fee_per_gas = priority_fee, otr_tx_hash = ob_tx_hash r,
         otr_signed_tx = ob_signed_tx r, otr_status = ob_status r, otr_replacement_of = ob_replacement_of r,
         otr_replacement_reason = ob_replacement_reason r, otr_broadcast_count = count,
         otr_last_broadcast_at = ob_last_broadcast_at r, otr_receipt_block = receipt, otr_error = ob_error r,
         otr_created_at = ob_created_at r, otr_updated_at = ob_updated_at r\<rparr>)))))))"


section \<open>Nonces\<close>

definition nonce_key :: "nonce_row \<Rightarrow> int \<times> EvmAddress" where
  "nonce_key r = (an_chain_id r, an_address r)"

definition reserve_nonce :: "u64 \<Rightarrow> EvmAddress \<Rightarrow> RawAmount \<Rightarrow> db \<Rightarrow> ReservedNonce committed" where
  "reserve_nonce chain_id from_address pending d =
     bindE (ord_u64_to_i64 chain_id ''chain_id'') (\<lambda>chain.
     let key = (chain, from_address);
         rows1 = (case find_row (\<lambda>r. nonce_key r = key) (account_nonces d) of
                    None \<Rightarrow> account_nonces d
                      @ [\<lparr>an_chain_id = chain, an_address = from_address, an_next_nonce = raw_amount_to_numeric pending\<rparr>]
                  | Some _ \<Rightarrow> update_where (\<lambda>r. nonce_key r = key)
                      (\<lambda>r. r\<lparr>an_next_nonce := max (an_next_nonce r) (raw_amount_to_numeric pending)\<rparr>) (account_nonces d))
     in case find_row (\<lambda>r. nonce_key r = key) rows1 of
          None \<Rightarrow> Err (Database RowNotFound)
        | Some row \<Rightarrow>
            if \<not> fits_numeric (an_next_nonce row + 1) then Err (Database NumericOverflow)
            else Ok (mapE (\<lambda>n. \<lparr>rn_chain_id = chain_id, rn_address = from_address, rn_nonce = n\<rparr>)
                       (decimal_to_raw_amount (an_next_nonce row) ''account_nonces.next_nonce''),
                     d\<lparr>account_nonces := update_where (\<lambda>r. nonce_key r = key)
                         (\<lambda>r. r\<lparr>an_next_nonce := an_next_nonce r + 1\<rparr>) rows1\<rparr>))"


section \<open>Inserting signed transactions\<close>

text \<open>The partial unique index \<open>outbound_active_nonce_idx\<close>.\<close>

definition outbound_indexed :: "outbound_row \<Rightarrow> bool" where
  "outbound_indexed r \<longleftrightarrow> ob_status r \<in> {TxSigned, TxBroadcast, TxConfirmed}"

definition outbound_nonce_key :: "outbound_row \<Rightarrow> int \<times> EvmAddress \<times> int" where
  "outbound_nonce_key r = (ob_chain_id r, ob_from_address r, ob_nonce r)"

definition one_active_per_nonce :: "outbound_row list \<Rightarrow> bool" where
  "one_active_per_nonce rs \<longleftrightarrow> distinct (map outbound_nonce_key (filter outbound_indexed rs))"

definition outbound_checks :: "outbound_row \<Rightarrow> bool" where
  "outbound_checks r \<longleftrightarrow>
     0 \<le> ob_chain_id r \<and> 0 \<le> ob_nonce r \<and> ob_signed_tx r \<noteq> [] \<and> 0 \<le> ob_broadcast_count r
     \<and> (case ob_receipt_block_number r of None \<Rightarrow> True | Some n \<Rightarrow> 0 \<le> n)
     \<and> 0 < ob_gas_limit r \<and> 0 \<le> ob_max_fee_per_gas r \<and> 0 \<le> ob_max_priority_fee_per_gas r
     \<and> ob_max_priority_fee_per_gas r \<le> ob_max_fee_per_gas r"

definition new_outbound_row :: "NewSignedOutboundTx \<Rightarrow> uuid option \<Rightarrow> int \<Rightarrow> int \<Rightarrow> timestamp \<Rightarrow> outbound_row" where
  "new_outbound_row t replacement_of chain gas_limit tnow =
     \<lparr>ob_id = nst_id t, ob_chain_id = chain, ob_purpose = nst_purpose t,
      ob_from_address = nst_from_address t, ob_to_address = nst_to_address t,
      ob_nonce = raw_amount_to_numeric (nst_nonce t), ob_gas_limit = gas_limit,
      ob_max_fee_per_gas = raw_amount_to_numeric (nst_max_fee_per_gas t),
      ob_max_priority_fee_per_gas = raw_amount_to_numeric (nst_max_priority_fee_per_gas t),
      ob_tx_hash = nst_tx_hash t, ob_signed_tx = nst_signed_tx t, ob_status = TxSigned,
      ob_replacement_of = (case replacement_of of None \<Rightarrow> nst_replacement_of t | Some r \<Rightarrow> Some r),
      ob_replacement_reason = nst_replacement_reason t, ob_broadcast_count = 0,
      ob_last_broadcast_at = None, ob_receipt_block_number = None, ob_receipt_block_hash = None,
      ob_error = None, ob_created_at = tnow, ob_updated_at = tnow\<rparr>"

definition insert_signed_tx_row :: "NewSignedOutboundTx \<Rightarrow> uuid option \<Rightarrow> db \<Rightarrow> OutboundTxRecord tx" where
  "insert_signed_tx_row t replacement_of d =
     bindE (ord_u64_to_i64 (nst_chain_id t) ''outbound.chain_id'') (\<lambda>chain.
     bindE (ord_u64_to_i64 (nst_gas_limit t) ''outbound.gas_limit'') (\<lambda>gas_limit.
     let r = new_outbound_row t replacement_of chain gas_limit (db_now d) in
     if \<not> outbound_checks r then Err (Database (CheckViolation ''outbound_transactions''))
     else if \<exists>x \<in> set (outbound_transactions d). ob_id x = ob_id r
          \<or> (ob_chain_id x = ob_chain_id r \<and> ob_tx_hash x = ob_tx_hash r)
     then Err (Database (UniqueViolation ''outbound_transactions''))
     else if \<not> one_active_per_nonce (outbound_transactions d @ [r])
     then Err (Database (UniqueViolation ''outbound_active_nonce_idx''))
     else if (case ob_replacement_of r of None \<Rightarrow> False
          | Some o' \<Rightarrow> \<not> (\<exists>x \<in> set (outbound_transactions d). ob_id x = o'))
     then Err (Database (ForeignKeyViolation ''outbound_transactions''))
     else bindE (outbound_record_from_row r) (\<lambda>rec.
       Ok (rec, d\<lparr>outbound_transactions := outbound_transactions d @ [r]\<rparr>))))"

definition insert_signed_tx :: "NewSignedOutboundTx \<Rightarrow> db \<Rightarrow> OutboundTxRecord tx" where
  "insert_signed_tx t d = insert_signed_tx_row t None d"

definition insert_signed_collect_tx :: "uuid \<Rightarrow> NewSignedOutboundTx \<Rightarrow> RawAmount \<Rightarrow> db \<Rightarrow> (uuid \<times> OutboundTxRecord) tx" where
  "insert_signed_collect_tx cid t amount d =
     bindE (insert_signed_tx_row t None d) (\<lambda>(rec, d1).
     bindE (update_collections True (attachable cid) (attach_row (db_now d) (otr_id rec) amount) d1) (\<lambda>(changed, d2).
     if length changed \<noteq> 1
     then Err (InvariantViolation (''collection '' @ show_uuid cid @ '' is not attachable''))
     else Ok ((cid, rec), d2)))"


section \<open>Replacement\<close>

definition ensure_replaceable :: "OutboundTxRecord \<Rightarrow> RepositoryError + unit" where
  "ensure_replaceable old =
     (case otr_status old of
        TxSigned \<Rightarrow> Ok () | TxBroadcast \<Rightarrow> Ok () | TxFailed \<Rightarrow> Ok () | TxDropped \<Rightarrow> Ok ()
      | TxConfirmed \<Rightarrow> Err (InvariantViolation (''outbound transaction '' @ show_uuid (otr_id old)
          @ '' with status Confirmed cannot be replaced''))
      | TxReplaced \<Rightarrow> Err (InvariantViolation (''outbound transaction '' @ show_uuid (otr_id old)
          @ '' with status Replaced cannot be replaced'')))"

definition ensure_replacement_invariants :: "OutboundTxRecord \<Rightarrow> NewSignedOutboundTx \<Rightarrow> RepositoryError + unit" where
  "ensure_replacement_invariants old t =
     (if (case nst_replacement_of t of None \<Rightarrow> False | Some r \<Rightarrow> r \<noteq> otr_id old)
      then Err (InvariantViolation (''replacement for outbound transaction '' @ show_uuid (otr_id old)
        @ '' points at a different original transaction''))
      else if otr_chain_id old \<noteq> nst_chain_id t \<or> otr_purpose old \<noteq> nst_purpose t
         \<or> otr_from_address old \<noteq> nst_from_address t \<or> otr_to_address old \<noteq> nst_to_address t
         \<or> otr_nonce old \<noteq> nst_nonce t
      then Err (InvariantViolation (''replacement for outbound transaction '' @ show_uuid (otr_id old)
        @ '' changed chain/purpose/from/to/nonce invariant''))
      else Ok ())"

definition select_outbound_for_update :: "uuid \<Rightarrow> db \<Rightarrow> RepositoryError + OutboundTxRecord" where
  "select_outbound_for_update oid d =
     (case find_row (\<lambda>r. ob_id r = oid) (outbound_transactions d) of
        None \<Rightarrow> Err (InvariantViolation (''outbound transaction '' @ show_uuid oid @ '' not found''))
      | Some r \<Rightarrow> outbound_record_from_row r)"

definition retire_row :: "timestamp \<Rightarrow> string option \<Rightarrow> outbound_row \<Rightarrow> outbound_row" where
  "retire_row tnow reason r =
     r\<lparr>ob_status := TxReplaced,
       ob_replacement_reason := (case reason of None \<Rightarrow> ob_replacement_reason r | Some t \<Rightarrow> Some t),
       ob_updated_at := tnow\<rparr>"

definition move_to_replacement :: "timestamp \<Rightarrow> uuid \<Rightarrow> collection_row \<Rightarrow> collection_row" where
  "move_to_replacement tnow new_id r =
     r\<lparr>col_outbound_tx_id := Some new_id, col_status := ColTransferring,
       col_attempt_count := col_attempt_count r + 1, col_locked_by := None, col_locked_until := None,
       col_error := None, col_updated_at := tnow\<rparr>"

definition replace_signed_tx :: "uuid \<Rightarrow> NewSignedOutboundTx \<Rightarrow> db \<Rightarrow> OutboundTxRecord tx" where
  "replace_signed_tx old_id t d =
     bindE (select_outbound_for_update old_id d) (\<lambda>old.
     bindE (ensure_replaceable old) (\<lambda>_.
     bindE (ensure_replacement_invariants old t) (\<lambda>_.
     bindE (ord_u64_to_i64 (otr_chain_id old) ''chain_id'') (\<lambda>_.
     let d1 = d\<lparr>outbound_transactions := update_where (\<lambda>r. ob_id r = old_id)
                 (retire_row (db_now d) (nst_replacement_reason t)) (outbound_transactions d)\<rparr> in
     bindE (insert_signed_tx_row t (Some old_id) d1) (\<lambda>(rec, d2).
     bindE (update_collections True (\<lambda>r. col_outbound_tx_id r = Some old_id)
         (move_to_replacement (db_now d) (otr_id rec)) d2) (\<lambda>(_, d3).
     Ok (rec, d3)))))))"


section \<open>Claims of workers\<close>

text \<open>The row of \<open>next_outbound\<close>: the oldest free collection whose transaction has the wanted status.\<close>

definition claimable_outbound ::
  "CollectionRecordStatus \<Rightarrow> OutboundTxStatus \<Rightarrow> int \<Rightarrow> EvmAddress \<Rightarrow> db \<Rightarrow> (collection_row \<times> outbound_row) list" where
  "claimable_outbound cs os chain token d =
     sort_key (col_updated_at \<circ> fst) (sort_key (col_id \<circ> fst)
       (concat (map (\<lambda>c. map (Pair c) (filter (\<lambda>x. col_outbound_tx_id c = Some (ob_id x) \<and> ob_status x = os)
            (outbound_transactions d)))
          (filter (\<lambda>c. col_status c = cs \<and> col_chain_id c = chain \<and> col_token_address c = token
             \<and> lease_free (db_now d) c) (collections d)))))"

definition claim_outbound ::
  "CollectionRecordStatus \<Rightarrow> OutboundTxStatus \<Rightarrow> u64 \<Rightarrow> string \<Rightarrow> u64 \<Rightarrow> EvmAddress \<Rightarrow> db
   \<Rightarrow> (uuid \<times> OutboundTxRecord) option committed" where
  "claim_outbound cs os lease_secs worker chain_id token d =
     bindE (ord_u64_to_i64 lease_secs ''claim_lease_seconds'') (\<lambda>lease.
     bindE (ord_u64_to_i64 chain_id ''chain_id'') (\<lambda>chain.
     case first_row (claimable_outbound cs os chain token d) of
       None \<Rightarrow> Ok (Ok None, d)
     | Some (c, x) \<Rightarrow>
         bindE (update_collections False (\<lambda>r. col_id r = col_id c)
             (\<lambda>r. r\<lparr>col_locked_by := Some worker, col_locked_until := Some (db_now d + lease * one_second),
                    col_updated_at := db_now d\<rparr>) d) (\<lambda>(_, d1).
         Ok (mapE (\<lambda>rec. Some (col_id c, rec)) (outbound_record_from_row x), d1))))"

definition claim_signed_collect_tx_for_broadcast ::
  "u64 \<Rightarrow> string \<Rightarrow> u64 \<Rightarrow> EvmAddress \<Rightarrow> db \<Rightarrow> (uuid \<times> OutboundTxRecord) option committed" where
  "claim_signed_collect_tx_for_broadcast = claim_outbound ColTransferring TxSigned"

definition claim_broadcast_collect_tx_for_receipt ::
  "u64 \<Rightarrow> string \<Rightarrow> u64 \<Rightarrow> EvmAddress \<Rightarrow> db \<Rightarrow> (uuid \<times> OutboundTxRecord) option committed" where
  "claim_broadcast_collect_tx_for_receipt = claim_outbound ColConfirming TxBroadcast"


section \<open>Outcomes\<close>

text \<open>
  The two updates the three \<open>mark_\<close> operations share: one transaction that is still signed or
  broadcast, then the collection that is attached to it.
\<close>

definition markable :: "uuid \<Rightarrow> outbound_row \<Rightarrow> bool" where
  "markable oid r \<longleftrightarrow> ob_id r = oid \<and> ob_status r \<in> {TxSigned, TxBroadcast}"

definition mark_outbound ::
  "uuid \<Rightarrow> (outbound_row \<Rightarrow> outbound_row) \<Rightarrow> string \<Rightarrow> CollectionRecordStatus set \<Rightarrow> (collection_row \<Rightarrow> collection_row)
   \<Rightarrow> string \<Rightarrow> db \<Rightarrow> OutboundTxRecord tx" where
  "mark_outbound oid f not_markable from_statuses g not_attached d =
     (let changed = map f (filter (markable oid) (outbound_transactions d));
          new = update_where (markable oid) f (outbound_transactions d) in
      if \<exists>r \<in> set changed. \<not> fits_i32 (ob_broadcast_count r) then Err (Database NumericOverflow)
      else if \<exists>r \<in> set changed. \<not> outbound_checks r then Err (Database (CheckViolation ''outbound_transactions''))
      else if changed \<noteq> [] \<and> \<not> one_active_per_nonce new
      then Err (Database (UniqueViolation ''outbound_active_nonce_idx''))
      else case changed of
        [] \<Rightarrow> Err (InvariantViolation (''outbound transaction '' @ show_uuid oid @ not_markable))
      | r # _ \<Rightarrow>
          bindE (outbound_record_from_row r) (\<lambda>rec.
          bindE (update_collections False
              (\<lambda>c. col_outbound_tx_id c = Some oid \<and> col_status c \<in> from_statuses) g
              (d\<lparr>outbound_transactions := new\<rparr>)) (\<lambda>(cs, d2).
          if length cs \<noteq> 1
          then Err (InvariantViolation (''outbound transaction '' @ show_uuid oid @ not_attached))
          else Ok (rec, d2))))"

definition mark_broadcast :: "uuid \<Rightarrow> db \<Rightarrow> OutboundTxRecord tx" where
  "mark_broadcast oid d =
     mark_outbound oid
       (\<lambda>r. r\<lparr>ob_status := TxBroadcast, ob_broadcast_count := ob_broadcast_count r + 1,
              ob_last_broadcast_at := Some (db_now d), ob_error := None, ob_updated_at := db_now d\<rparr>)
       '' is not broadcastable'' {ColTransferring, ColConfirming}
       (\<lambda>c. c\<lparr>col_status := ColConfirming, col_locked_by := None, col_locked_until := None,
              col_updated_at := db_now d\<rparr>)
       '' is not attached to a broadcastable collection'' d"

definition mark_confirmed :: "uuid \<Rightarrow> ChainBlockRef \<Rightarrow> db \<Rightarrow> OutboundTxRecord tx" where
  "mark_confirmed oid receipt d =
     bindE (ord_u64_to_i64 (cb_number receipt) ''receipt_block.number'') (\<lambda>number.
     mark_outbound oid
       (\<lambda>r. r\<lparr>ob_status := TxConfirmed, ob_receipt_block_number := Some number,
              ob_receipt_block_hash := Some (cb_hash receipt), ob_error := None, ob_updated_at := db_now d\<rparr>)
       '' is not confirmable'' {ColConfirming}
       (\<lambda>c. c\<lparr>col_status := ColConfirmed, col_locked_by := None, col_locked_until := None, col_error := None,
              col_updated_at := db_now d\<rparr>)
       '' is not attached to a confirmable collection'' d)"

definition mark_failed :: "uuid \<Rightarrow> string \<Rightarrow> db \<Rightarrow> OutboundTxRecord tx" where
  "mark_failed oid error d =
     mark_outbound oid
       (\<lambda>r. r\<lparr>ob_status := TxFailed, ob_error := Some error, ob_updated_at := db_now d\<rparr>)
       '' is not failable'' {ColConfirming}
       (\<lambda>c. c\<lparr>col_status := ColFailed, col_locked_by := None, col_locked_until := None, col_error := Some error,
              col_updated_at := db_now d\<rparr>)
       '' is not attached to a failable collection'' d"

end
