(* ===== verification/Collection_Lifecycle.thy ===== *)
theory Collection_Lifecycle
  imports Outbound_Repo Repository_Tx
begin

text \<open>
  The life cycle of a sweep: the abstract machine its status follows, the invariant that ties a
  collection to its transaction, and the contract that every operation on collections and
  transactions satisfies.
\<close>

section \<open>The abstract machine\<close>

inductive collection_step :: "CollectionRecordStatus \<Rightarrow> CollectionRecordStatus \<Rightarrow> bool" where
  attach: "s \<in> {ColQueued, ColTransferring, ColReplacing} \<Longrightarrow> collection_step s ColTransferring"
| broadcast: "s \<in> {ColTransferring, ColConfirming} \<Longrightarrow> collection_step s ColConfirming"
| confirm: "collection_step ColConfirming ColConfirmed"
| fail: "collection_step ColConfirming ColFailed"
| replace: "s \<notin> {ColQueued, ColConfirmed} \<Longrightarrow> collection_step s ColTransferring"

inductive_simps collection_step_from_confirmed: "collection_step ColConfirmed s"
inductive_simps collection_step_to_confirmed: "collection_step s ColConfirmed"
inductive_simps collection_step_to_failed: "collection_step s ColFailed"

lemma confirmed_is_final: "collection_step\<^sup>*\<^sup>* ColConfirmed s \<Longrightarrow> s = ColConfirmed"
  by (induction rule: rtranclp_induct) (auto simp: collection_step_from_confirmed)


section \<open>The invariant\<close>

definition tx_pays_for :: "db \<Rightarrow> outbound_row \<Rightarrow> collection_row \<Rightarrow> bool" where
  "tx_pays_for d x r \<longleftrightarrow>
     ob_purpose x = Collect \<and> ob_chain_id x = col_chain_id r \<and> ob_to_address x = col_to_address r
     \<and> (ob_from_address x = col_from_address r \<or> (col_chain_id r, ob_from_address x) \<in> set (relayer_addresses d))"

definition statuses_agree :: "CollectionRecordStatus \<Rightarrow> OutboundTxStatus \<Rightarrow> bool" where
  "statuses_agree s t \<longleftrightarrow>
     (s = ColConfirming \<longrightarrow> t = TxBroadcast) \<and> (s = ColConfirmed \<longrightarrow> t = TxConfirmed)
     \<and> (s = ColFailed \<longrightarrow> t = TxFailed)"

definition lifecycle_row :: "db \<Rightarrow> collection_row \<Rightarrow> bool" where
  "lifecycle_row d r \<longleftrightarrow>
     (case col_outbound_tx_id r of
        None \<Rightarrow> col_status r \<notin> {ColTransferring, ColConfirming, ColConfirmed, ColFailed}
      | Some i \<Rightarrow> col_status r \<noteq> ColQueued \<and>
          (\<exists>x \<in> set (outbound_transactions d). ob_id x = i \<and> tx_pays_for d x r
             \<and> statuses_agree (col_status r) (ob_status x)))"

text \<open>What no operation changes of a collection.\<close>

definition collection_identity ::
  "collection_row \<Rightarrow> (uuid \<times> string \<times> uuid \<times> string \<times> string) \<times> uuid \<times> int \<times> EvmAddress \<times> EvmAddress \<times> EvmAddress"
  where
  "collection_identity r =
     ((col_id r, col_owner_sub r, col_order_id r, col_idempotency_key r, col_request_hash r),
      col_child_account_id r, col_chain_id r, col_token_address r, col_from_address r, col_to_address r)"

text \<open>Funds only ever go to a registered treasury of the collection's chain and token.\<close>

definition treasury_only :: "db \<Rightarrow> bool" where
  "treasury_only d \<longleftrightarrow>
     (\<forall>r \<in> set (collections d). (col_chain_id r, col_token_address r, col_to_address r) \<in> set (treasury_addresses d))"

lemma treasury_only_cong:
  assumes "map collection_identity (collections d') = map collection_identity (collections d)"
    "treasury_addresses d' = treasury_addresses d"
  shows "treasury_only d' = treasury_only d"
proof -
  have "treasury_only d \<longleftrightarrow>
      (\<forall>i \<in> set (map collection_identity (collections d)).
         (fst (snd (snd i)), fst (snd (snd (snd i))), snd (snd (snd (snd (snd i))))) \<in> set (treasury_addresses d))" for d
    by (simp add: treasury_only_def collection_identity_def)
  then show ?thesis unfolding assms by (simp only: assms)
qed

definition sweep_ok :: "db \<Rightarrow> bool" where
  "sweep_ok d \<longleftrightarrow>
     distinct (map ob_id (outbound_transactions d)) \<and> one_active_per_nonce (outbound_transactions d) \<and>
     distinct (map col_id (collections d)) \<and> one_active_per_child (collections d) \<and> treasury_only d \<and>
     (\<forall>r \<in> set (collections d). lifecycle_row d r)"

definition row_moves :: "collection_row \<Rightarrow> collection_row \<Rightarrow> bool" where
  "row_moves r r' \<longleftrightarrow>
     collection_identity r' = collection_identity r \<and>
     (col_status r' = col_status r \<and> col_outbound_tx_id r' = col_outbound_tx_id r
      \<or> collection_step (col_status r) (col_status r')) \<and>
     (\<forall>a. col_amount_raw r = Some a \<longrightarrow> col_amount_raw r' = Some a)"

definition sweeps_move :: "db \<Rightarrow> db \<Rightarrow> bool" where
  "sweeps_move d d' \<longleftrightarrow> (\<forall>r \<in> set (collections d). \<exists>r' \<in> set (collections d'). row_moves r r')"

lemma row_moves_refl [simp]: "row_moves r r"
  by (simp add: row_moves_def)

lemma sweeps_move_refl [simp]: "sweeps_move d d"
  unfolding sweeps_move_def using row_moves_refl by blast

text \<open>The tables that collections and transactions do not touch.\<close>

definition base_tables :: "db \<Rightarrow> db" where
  "base_tables d = d\<lparr>collections := [], outbound_transactions := []\<rparr>"

lemma base_tables_fields:
  assumes "base_tables d' = base_tables d"
  shows "orders d' = orders d" "payments d' = payments d" "payment_windows d' = payment_windows d"
    "chain_cursors d' = chain_cursors d" "order_payment_overrides d' = order_payment_overrides d"
    "wallet_cursors d' = wallet_cursors d" "relayer_addresses d' = relayer_addresses d"
    "treasury_addresses d' = treasury_addresses d" "child_accounts d' = child_accounts d"
    "account_nonces d' = account_nonces d"
  using arg_cong[OF assms, of orders] arg_cong[OF assms, of payments] arg_cong[OF assms, of payment_windows]
    arg_cong[OF assms, of chain_cursors] arg_cong[OF assms, of order_payment_overrides]
    arg_cong[OF assms, of wallet_cursors] arg_cong[OF assms, of relayer_addresses]
    arg_cong[OF assms, of treasury_addresses] arg_cong[OF assms, of child_accounts]
    arg_cong[OF assms, of account_nonces]
  by (simp_all add: base_tables_def)

lemma base_tables_repo:
  assumes "base_tables d' = base_tables d" "repo_ok d"
  shows "repo_ok d' \<and> grows d d'"
proof -
  note f = base_tables_fields[OF assms(1)]
  have "order_settled d' = order_settled d" by (rule totals_frame(3)) (simp_all add: f)
  then have "repo_ok d'"
    using assms(2)
    by (simp add: repo_ok_def schema_ok_def keys_ok_def payments_ok_def ledger_ok_def windows_ok_def f)
  moreover have "identity_kept d d'" by (simp add: identity_kept_def f)
  ultimately show ?thesis using identity_kept_grows by blast
qed

definition sweep_kept :: "db \<Rightarrow> db \<Rightarrow> bool" where
  "sweep_kept d d' \<longleftrightarrow> base_tables d' = base_tables d \<and> (sweep_ok d \<longrightarrow> sweep_ok d' \<and> sweeps_move d d')"

lemma sweep_kept_refl [simp]: "sweep_kept d d"
  by (simp add: sweep_kept_def)

lemma sweep_keptI:
  "base_tables d' = base_tables d \<Longrightarrow> (sweep_ok d \<Longrightarrow> sweep_ok d' \<and> sweeps_move d d') \<Longrightarrow> sweep_kept d d'"
  by (simp add: sweep_kept_def)

locale sweep_tx =
  fixes run :: "db \<Rightarrow> 'a tx"
  assumes run_kept: "run d = Ok (a, d') \<Longrightarrow> sweep_kept d d'"
begin

lemma run_sweep: "run d = Ok (a, d') \<Longrightarrow> sweep_ok d \<Longrightarrow> sweep_ok d' \<and> sweeps_move d d'"
  using run_kept by (simp add: sweep_kept_def)

lemma run_base: "run d = Ok (a, d') \<Longrightarrow> base_tables d' = base_tables d"
  using run_kept by (simp add: sweep_kept_def)

end

text \<open>Operations on collections and transactions are transactions of the repositories: they keep the ledger.\<close>

sublocale sweep_tx \<subseteq> repository_tx run
proof
  fix d a d'
  assume "run d = Ok (a, d')" "repo_ok d"
  then have "repo_ok d' \<and> grows d d'" by (intro base_tables_repo run_base)
  then show "repo_ok d'" "grows d d'" by blast+
qed


section \<open>Updates of the collections table\<close>

lemma update_collections_Ok:
  assumes "update_collections trig c f d = Ok (changed, d')"
  shows "d' = d\<lparr>collections := update_where c f (collections d)\<rparr>"
    and "changed = map f (filter c (collections d))"
    and "changed \<noteq> [] \<Longrightarrow> one_active_per_child (update_where c f (collections d))"
    and "trig \<Longrightarrow> r \<in> set changed \<Longrightarrow> enforce_collection_outbound_tx d r = Ok ()"
proof -
  obtain us where us: "(if trig then traverseE (enforce_collection_outbound_tx d) (map f (filter c (collections d))) else Ok []) = Ok us"
    and rest: "d' = d\<lparr>collections := update_where c f (collections d)\<rparr>" "changed = map f (filter c (collections d))"
      "changed \<noteq> [] \<longrightarrow> one_active_per_child (update_where c f (collections d))"
    using assms by (auto simp: update_collections_def Let_def bindE_eq_Ok split: if_splits)
  show "d' = d\<lparr>collections := update_where c f (collections d)\<rparr>" "changed = map f (filter c (collections d))"
    by (fact rest)+
  show "one_active_per_child (update_where c f (collections d))" if "changed \<noteq> []" using rest(3) that by blast
  show "enforce_collection_outbound_tx d r = Ok ()" if tr: "trig" and mem: "r \<in> set changed"
  proof -
    have "traverseE (enforce_collection_outbound_tx d) changed = Ok us" using us tr rest(2) by simp
    then obtain i where "i < length changed" "changed ! i = r" "enforce_collection_outbound_tx d r = Ok (us ! i)"
      using traverseE_OkD[of "enforce_collection_outbound_tx d" changed us] mem by (auto simp: in_set_conv_nth)
    then show ?thesis by simp
  qed
qed

lemma update_where_mem: "r \<in> set rs \<Longrightarrow> (if c r then f r else r) \<in> set (update_where c f rs)"
  unfolding set_update_where by (rule imageI)

lemma update_where_unchanged: "filter c rs = [] \<Longrightarrow> update_where c f rs = rs"
  by (rule update_where_none) (auto simp: filter_empty_conv)

lemma enforce_Ok:
  assumes "enforce_collection_outbound_tx d r = Ok ()" "col_outbound_tx_id r = Some i"
  shows "\<exists>x \<in> set (outbound_transactions d). ob_id x = i \<and> tx_pays_for d x r"
  using assms
  by (auto simp: enforce_collection_outbound_tx_def tx_pays_for_def split: option.splits if_splits
      dest!: find_row_Some)

text \<open>
  What an update of the collections owes the invariant: it keeps ids, and every row it writes
  respects the life cycle and moves along the machine.
\<close>

lemma update_collections_sweep:
  assumes "update_collections trig c f d = Ok (changed, d')"
    and row: "\<And>r. r \<in> set (collections d) \<Longrightarrow> lifecycle_row d r \<Longrightarrow> c r \<Longrightarrow>
      (trig \<longrightarrow> enforce_collection_outbound_tx d (f r) = Ok ()) \<Longrightarrow> lifecycle_row d (f r) \<and> row_moves r (f r)"
  shows "sweep_kept d d'"
proof (rule sweep_keptI)
  note up = update_collections_Ok[OF assms(1)]
  show "base_tables d' = base_tables d" by (simp add: up(1) base_tables_def)
  assume ok: "sweep_ok d"
  have rows: "lifecycle_row d (f r) \<and> row_moves r (f r)" if "r \<in> set (collections d)" "c r" for r
    using row[OF that(1) _ that(2)] ok up(2,4) that by (auto simp: sweep_ok_def)
  then have ids: "c r \<Longrightarrow> r \<in> set (collections d) \<Longrightarrow> col_id (f r) = col_id r" for r
    by (simp add: row_moves_def collection_identity_def)
  have frame: "lifecycle_row d' r = lifecycle_row d r" for r
    by (simp add: up(1) lifecycle_row_def tx_pays_for_def split: option.split)
  have "one_active_per_child (collections d')"
  proof (cases "filter c (collections d) = []")
    case True
    with ok show ?thesis by (simp add: up(1) update_where_unchanged sweep_ok_def)
  next
    case False
    with up(3) show ?thesis by (simp add: up(1,2))
  qed
  moreover have "map col_id (collections d') = map col_id (collections d)"
    by (simp add: up(1) map_update_where ids)
  moreover have "treasury_only d' = treasury_only d"
    using rows by (intro treasury_only_cong) (simp_all add: up(1) map_update_where row_moves_def)
  moreover have "\<forall>r \<in> set (collections d'). lifecycle_row d' r"
    using rows ok by (auto simp: frame sweep_ok_def) (auto simp: up(1) set_update_where)
  moreover have "sweeps_move d d'"
    unfolding sweeps_move_def
  proof
    fix r
    assume r: "r \<in> set (collections d)"
    have "collections d' = update_where c f (collections d)" by (simp add: up(1))
    with update_where_mem[OF r] have "(if c r then f r else r) \<in> set (collections d')" by metis
    moreover have "row_moves r (if c r then f r else r)" using rows[OF r] by simp
    ultimately show "\<exists>r' \<in> set (collections d'). row_moves r r'" by blast
  qed
  ultimately show "sweep_ok d' \<and> sweeps_move d d'" using ok by (simp add: sweep_ok_def) (simp add: up(1))
qed

lemma claim_row_ok:
  assumes "col_outbound_tx_id r' = col_outbound_tx_id r" "col_status r' = col_status r"
    "collection_identity r' = collection_identity r" "col_amount_raw r' = col_amount_raw r" "lifecycle_row d r"
  shows "lifecycle_row d r' \<and> row_moves r r'"
proof -
  have "tx_pays_for d x r' = tx_pays_for d x r" for x
    using assms(3) by (simp add: tx_pays_for_def collection_identity_def)
  with assms show ?thesis by (simp add: lifecycle_row_def row_moves_def split: option.split_asm option.split)
qed

lemma attach_row_ok:
  assumes "attachable cid r" "enforce_collection_outbound_tx d (attach_row t oid a r) = Ok ()"
  shows "lifecycle_row d (attach_row t oid a r) \<and> row_moves r (attach_row t oid a r)"
proof -
  have f: "col_outbound_tx_id (attach_row t oid a r) = Some oid" "col_status (attach_row t oid a r) = ColTransferring"
    "collection_identity (attach_row t oid a r) = collection_identity r"
    "col_amount_raw r = Some v \<Longrightarrow> col_amount_raw (attach_row t oid a r) = Some v" for v
    by (simp_all add: attach_row_def collection_identity_def)
  have "collection_step (col_status r) ColTransferring"
    using assms(1) by (intro collection_step.attach) (simp add: attachable_def)
  moreover obtain x where "x \<in> set (outbound_transactions d)" "ob_id x = oid" "tx_pays_for d x (attach_row t oid a r)"
    using enforce_Ok[OF assms(2) f(1)] by blast
  ultimately show ?thesis
    by (auto simp: lifecycle_row_def row_moves_def f statuses_agree_def)
qed


section \<open>Operations on collections\<close>

definition leased_row :: "string \<Rightarrow> timestamp \<Rightarrow> timestamp \<Rightarrow> int \<Rightarrow> collection_row \<Rightarrow> collection_row" where
  "leased_row w l t k r =
     r\<lparr>col_locked_by := Some w, col_locked_until := Some l, col_attempt_count := col_attempt_count r + k,
       col_updated_at := t\<rparr>"

lemma lease_kept:
  assumes "update_collections False (\<lambda>r. col_id r = cid) (leased_row w l t k) d = Ok (changed, d')"
  shows "sweep_kept d d'"
  using assms
proof (rule update_collections_sweep)
  fix r
  assume "lifecycle_row d r"
  then show "lifecycle_row d (leased_row w l t k r) \<and> row_moves r (leased_row w l t k r)"
    by (intro claim_row_ok) (simp_all add: leased_row_def collection_identity_def)
qed

lemma claim_collection_job_Ok:
  assumes "claim_collection_job lease w chain_id token d = Ok (job, d')"
  obtains "d' = d" | cid l changed where
    "update_collections False (\<lambda>r. col_id r = cid) (leased_row w l (db_now d) 1) d = Ok (changed, d')"
proof -
  obtain ls chain where c:
    "(case first_row (sort_key col_created_at (sort_key col_id
            (filter (claimable chain token (db_now d)) (collections d)))) of
       None \<Rightarrow> Ok (None, d)
     | Some pick \<Rightarrow>
         bindE (update_collections False (\<lambda>r. col_id r = col_id pick) (leased_row w (db_now d + ls * one_second) (db_now d) 1) d)
           (\<lambda>(changed, d1). case changed of [] \<Rightarrow> Ok (None, d1)
         | r # _ \<Rightarrow> bindE (collection_record_from_row r) (\<lambda>rec.
             bindE (collection_job_from_record d1 rec) (\<lambda>job. Ok (Some job, d1))))) = Ok (job, d')"
    using assms unfolding claim_collection_job_def leased_row_def by (elim bindE_OkE) auto
  show thesis
  proof (cases "first_row (sort_key col_created_at (sort_key col_id
            (filter (claimable chain token (db_now d)) (collections d))))")
    case None
    with c that(1) show thesis by simp
  next
    case (Some pick)
    with c obtain changed d1 where
      up: "update_collections False (\<lambda>r. col_id r = col_id pick) (leased_row w (db_now d + ls * one_second) (db_now d) 1) d = Ok (changed, d1)"
      and fin: "(case changed of [] \<Rightarrow> Ok (None, d1)
         | r # _ \<Rightarrow> bindE (collection_record_from_row r) (\<lambda>rec.
             bindE (collection_job_from_record d1 rec) (\<lambda>job. Ok (Some job, d1)))) = Ok (job, d')"
      by (auto elim!: bindE_OkE)
    from fin have "d1 = d'" by (cases changed) (auto simp: bindE_eq_Ok)
    with up that(2) show thesis by blast
  qed
qed

interpretation claim_job_tx: sweep_tx "claim_collection_job lease w chain_id token" for lease w chain_id token
proof
  fix d a d'
  assume "claim_collection_job lease w chain_id token d = Ok (a, d')"
  then show "sweep_kept d d'" by (rule claim_collection_job_Ok) (simp, erule lease_kept)
qed

lemma new_collection_kept:
  assumes "col_status r = ColQueued" "col_outbound_tx_id r = None" "one_active_per_child (collections d @ [r])"
    "\<not> (\<exists>x \<in> set (collections d). col_id x = col_id r)" "collection_references r d"
  shows "sweep_kept d (d\<lparr>collections := collections d @ [r]\<rparr>)"
proof (rule sweep_keptI)
  assume ok: "sweep_ok d"
  have "lifecycle_row (d\<lparr>collections := cs\<rparr>) r' = lifecycle_row d r'" for cs r'
    by (simp add: lifecycle_row_def tx_pays_for_def split: option.split)
  moreover have "lifecycle_row d r" using assms(1,2) by (simp add: lifecycle_row_def)
  moreover have "sweeps_move d (d\<lparr>collections := collections d @ [r]\<rparr>)"
    unfolding sweeps_move_def using row_moves_refl by force
  ultimately show "sweep_ok (d\<lparr>collections := collections d @ [r]\<rparr>) \<and> sweeps_move d (d\<lparr>collections := collections d @ [r]\<rparr>)"
    using ok assms by (auto simp: sweep_ok_def treasury_only_def collection_references_def)
qed (simp add: base_tables_def)

lemma insert_collection_Ok:
  assumes "insert_collection c d = Ok (res, d')"
  obtains "d' = d" "res = None" | chain rec r where
    "r = new_collection_row c chain (db_now d)" "chain = uint (ccc_chain_id c)"
    "d' = d\<lparr>collections := collections d @ [r]\<rparr>" "one_active_per_child (collections d @ [r])"
    "\<not> (\<exists>x \<in> set (collections d). col_id x = col_id r)" "collection_references r d" "collection_checks r"
    "collection_record_from_row r = Ok rec" "res = Some rec"
proof -
  obtain chain where ch: "ord_u64_to_i64 (ccc_chain_id c) ''collections.chain_id'' = Ok chain"
    using assms unfolding insert_collection_def by (rule bindE_OkE)
  define r where "r = new_collection_row c chain (db_now d)"
  have run: "(if \<not> collection_checks r then Err (Database (CheckViolation ''collections''))
     else if \<exists>x \<in> set (collections d). col_owner_sub x = col_owner_sub r \<and> col_idempotency_key x = col_idempotency_key r
     then Ok (None, d)
     else if \<exists>x \<in> set (collections d). col_id x = col_id r
     then Err (Database (UniqueViolation ''collections_pkey''))
     else if \<not> one_active_per_child (collections d @ [r])
     then Err (Database (UniqueViolation ''one_active_collection_per_child''))
     else if \<not> collection_references r d then Err (Database (ForeignKeyViolation ''collections''))
     else bindE (collection_record_from_row r) (\<lambda>rec. Ok (Some rec, d\<lparr>collections := collections d @ [r]\<rparr>)))
     = Ok (res, d')"
    using assms unfolding insert_collection_def ch bindE_Ok Let_def r_def .
  have "chain = uint (ccc_chain_id c)" using ch by (simp add: ord_u64_to_i64_def split: if_splits)
  note new = that(2)[OF r_def this]
  from run show thesis
    by (simp split: if_split_asm; elim conjE bindE_OkE; simp) (use that(1) new in blast)+
qed

lemma create_collection_Ok:
  assumes "create_collection_idempotent c d = Ok (rec, d')"
  obtains "d' = d" | res where "insert_collection c d = Ok (res, d')" "lock_collectable_order c d = Ok ()"
  using assms by (auto simp: create_collection_idempotent_def bindE_eq_Ok split: option.splits)

lemma insert_collection_kept:
  assumes "insert_collection c d = Ok (res, d')"
  shows "sweep_kept d d'"
  using assms
proof (cases rule: insert_collection_Ok)
  case (2 chain rec r)
  then show ?thesis using new_collection_kept[of r d] by (simp add: new_collection_row_def)
qed simp

interpretation create_collection_tx: sweep_tx "create_collection_idempotent c" for c
proof
  fix d a d'
  assume "create_collection_idempotent c d = Ok (a, d')"
  then show "sweep_kept d d'" by (rule create_collection_Ok) (simp, erule insert_collection_kept)
qed

lemma attach_kept:
  assumes "update_collections True (attachable cid) (attach_row t oid amount) d = Ok (changed, d')"
  shows "sweep_kept d d'"
  using assms by (rule update_collections_sweep) (simp add: attach_row_ok)

interpretation attach_tx: sweep_tx "attach_outbound_tx cid oid amount" for cid oid amount
proof
  fix d a d'
  assume "attach_outbound_tx cid oid amount d = Ok (a, d')"
  then obtain changed d1 where
    up: "update_collections True (attachable cid) (attach_row (db_now d) oid amount) d = Ok (changed, d1)"
    and "(case changed of [] \<Rightarrow> Err (InvariantViolation (''collection '' @ show_uuid cid @ '' is not attachable''))
     | r # _ \<Rightarrow> Ok (collection_record_from_row r, d1)) = Ok (a, d')"
    by (auto simp: attach_outbound_tx_def elim!: bindE_OkE)
  then have "d1 = d'" by (cases changed) auto
  with up show "sweep_kept d d'" using attach_kept by blast
qed


section \<open>Operations on transactions\<close>

text \<open>What no operation changes of a transaction.\<close>

definition tx_party :: "outbound_row \<Rightarrow> uuid \<times> OutboundTxPurpose \<times> int \<times> EvmAddress \<times> EvmAddress \<times> int" where
  "tx_party x = (ob_id x, ob_purpose x, ob_chain_id x, ob_from_address x, ob_to_address x, ob_nonce x)"

lemma tx_party_id: "tx_party x = tx_party y \<Longrightarrow> ob_id x = ob_id y"
  by (simp add: tx_party_def)

lemma tx_pays_for_cong:
  assumes "tx_party x' = tx_party x" "collection_identity r' = collection_identity r"
    "relayer_addresses d' = relayer_addresses d"
  shows "tx_pays_for d' x' r' = tx_pays_for d x r"
  using assms by (simp add: tx_pays_for_def tx_party_def collection_identity_def)

lemma base_txs_collections: "base_tables (d\<lparr>outbound_transactions := xs, collections := cs\<rparr>) = base_tables d"
  by (simp add: base_tables_def)

lemma lifecycle_row_Some:
  assumes "lifecycle_row d r" "col_outbound_tx_id r = Some i"
  obtains x where "x \<in> set (outbound_transactions d)" "ob_id x = i" "tx_pays_for d x r"
    "statuses_agree (col_status r) (ob_status x)" "col_status r \<noteq> ColQueued"
  using assms by (auto simp: lifecycle_row_def)

lemma lifecycle_rowI:
  assumes "col_outbound_tx_id r = Some i" "col_status r \<noteq> ColQueued" "x \<in> set (outbound_transactions d)"
    "ob_id x = i" "tx_pays_for d x r" "statuses_agree (col_status r) (ob_status x)"
  shows "lifecycle_row d r"
  using assms by (auto simp: lifecycle_row_def)

lemma lifecycle_row_None:
  "col_outbound_tx_id r = None \<Longrightarrow> lifecycle_row d' r = lifecycle_row d r"
  by (simp add: lifecycle_row_def)

text \<open>A row keeps its life cycle when its transaction does.\<close>

lemma lifecycle_row_kept:
  assumes "lifecycle_row d r" "relayer_addresses d' = relayer_addresses d"
    and "\<And>x. x \<in> set (outbound_transactions d) \<Longrightarrow> col_outbound_tx_id r = Some (ob_id x) \<Longrightarrow>
      statuses_agree (col_status r) (ob_status x) \<Longrightarrow>
      \<exists>x' \<in> set (outbound_transactions d'). tx_party x' = tx_party x \<and> statuses_agree (col_status r) (ob_status x')"
  shows "lifecycle_row d' r"
proof (cases "col_outbound_tx_id r")
  case None
  with assms(1) show ?thesis using lifecycle_row_None by blast
next
  case (Some i)
  obtain x where x: "x \<in> set (outbound_transactions d)" "ob_id x = i" "tx_pays_for d x r"
    "statuses_agree (col_status r) (ob_status x)" "col_status r \<noteq> ColQueued"
    using assms(1) Some by (rule lifecycle_row_Some)
  with Some assms(3) obtain x' where x': "x' \<in> set (outbound_transactions d')" "tx_party x' = tx_party x"
    "statuses_agree (col_status r) (ob_status x')" by blast
  show ?thesis
    by (rule lifecycle_rowI[OF Some x(5) x'(1) _ _ x'(3)])
      (use tx_party_id[OF x'(2)] x(2,3) tx_pays_for_cong[OF x'(2) refl assms(2)] in simp_all)
qed

lemma sweeps_move_same: "collections d' = collections d \<Longrightarrow> sweeps_move d d'"
  unfolding sweeps_move_def using row_moves_refl by metis

lemma insert_signed_tx_row_Ok:
  assumes "insert_signed_tx_row t rep d = Ok (rec, d')"
  obtains r where "r = new_outbound_row t rep (uint (nst_chain_id t)) (uint (nst_gas_limit t)) (db_now d)"
    "d' = d\<lparr>outbound_transactions := outbound_transactions d @ [r]\<rparr>" "outbound_record_from_row r = Ok rec"
    "outbound_checks r" "one_active_per_nonce (outbound_transactions d @ [r])"
    "\<not> (\<exists>x \<in> set (outbound_transactions d). ob_id x = ob_id r)"
proof -
  obtain chain gas where ch: "ord_u64_to_i64 (nst_chain_id t) ''outbound.chain_id'' = Ok chain"
    "ord_u64_to_i64 (nst_gas_limit t) ''outbound.gas_limit'' = Ok gas"
    using assms unfolding insert_signed_tx_row_def by (elim bindE_OkE) blast
  define r where "r = new_outbound_row t rep chain gas (db_now d)"
  have "chain = uint (nst_chain_id t)" "gas = uint (nst_gas_limit t)"
    using ch by (simp_all add: ord_u64_to_i64_def split: if_splits)
  with r_def have r: "r = new_outbound_row t rep (uint (nst_chain_id t)) (uint (nst_gas_limit t)) (db_now d)" by simp
  have "(if \<not> outbound_checks r then Err (Database (CheckViolation ''outbound_transactions''))
     else if \<exists>x \<in> set (outbound_transactions d). ob_id x = ob_id r
          \<or> (ob_chain_id x = ob_chain_id r \<and> ob_tx_hash x = ob_tx_hash r)
     then Err (Database (UniqueViolation ''outbound_transactions''))
     else if \<not> one_active_per_nonce (outbound_transactions d @ [r])
     then Err (Database (UniqueViolation ''outbound_active_nonce_idx''))
     else if (case ob_replacement_of r of None \<Rightarrow> False
          | Some o' \<Rightarrow> \<not> (\<exists>x \<in> set (outbound_transactions d). ob_id x = o'))
     then Err (Database (ForeignKeyViolation ''outbound_transactions''))
     else bindE (outbound_record_from_row r) (\<lambda>rec.
       Ok (rec, d\<lparr>outbound_transactions := outbound_transactions d @ [r]\<rparr>))) = Ok (rec, d')"
    using assms unfolding insert_signed_tx_row_def ch bindE_Ok Let_def r_def .
  then show thesis
    by (simp split: if_split_asm; elim conjE bindE_OkE; simp) (use that[OF r] in blast)+
qed

lemma insert_tx_row_kept:
  assumes "insert_signed_tx_row t rep d = Ok (rec, d')"
  shows "sweep_kept d d'"
  using assms
proof (rule insert_signed_tx_row_Ok)
  fix r
  assume d': "d' = d\<lparr>outbound_transactions := outbound_transactions d @ [r]\<rparr>"
    and new: "one_active_per_nonce (outbound_transactions d @ [r])"
      "\<not> (\<exists>x \<in> set (outbound_transactions d). ob_id x = ob_id r)"
  show "sweep_kept d d'"
  proof (rule sweep_keptI)
    assume ok: "sweep_ok d"
    have "lifecycle_row d' c" if "lifecycle_row d c" for c
      using that by (rule lifecycle_row_kept) (auto simp: d')
    then show "sweep_ok d' \<and> sweeps_move d d'"
      using ok new treasury_only_cong[of d' d] by (auto simp: sweep_ok_def d' image_iff intro: sweeps_move_same)
  qed (simp add: d' base_tables_def)
qed

interpretation insert_tx: sweep_tx "insert_signed_tx t" for t
proof
  fix d a d'
  assume "insert_signed_tx t d = Ok (a, d')"
  then show "sweep_kept d d'" unfolding insert_signed_tx_def by (rule insert_tx_row_kept)
qed

lemma row_moves_trans_same: "sweep_kept d d1 \<Longrightarrow> collections d1 = collections d \<Longrightarrow> sweep_kept d1 d2 \<Longrightarrow> sweep_kept d d2"
  unfolding sweep_kept_def sweeps_move_def by simp

interpretation insert_collect: sweep_tx "insert_signed_collect_tx cid t amount" for cid t amount
proof
  fix d a d'
  assume run: "insert_signed_collect_tx cid t amount d = Ok (a, d')"
  then obtain rec d1 where ins: "insert_signed_tx_row t None d = Ok (rec, d1)"
    and rest: "bindE (update_collections True (attachable cid) (attach_row (db_now d) (otr_id rec) amount) d1) (\<lambda>(changed, d2).
     if length changed \<noteq> 1
     then Err (InvariantViolation (''collection '' @ show_uuid cid @ '' is not attachable''))
     else Ok ((cid, rec), d2)) = Ok (a, d')"
    by (auto simp: insert_signed_collect_tx_def elim!: bindE_OkE)
  from rest obtain changed where
    "update_collections True (attachable cid) (attach_row (db_now d) (otr_id rec) amount) d1 = Ok (changed, d')"
    by (auto elim!: bindE_OkE split: if_split_asm)
  then have "sweep_kept d1 d'" by (rule attach_kept)
  moreover have "collections d1 = collections d" using ins by (rule insert_signed_tx_row_Ok) simp
  ultimately show "sweep_kept d d'" using insert_tx_row_kept[OF ins] row_moves_trans_same by blast
qed

lemma reserve_nonce_kept:
  assumes "reserve_nonce chain_id from pending d = Ok (res, d')"
  obtains rows where "d' = d\<lparr>account_nonces := rows\<rparr>"
  using assms unfolding reserve_nonce_def Let_def
  by (elim bindE_OkE) (simp split: option.split_asm if_split_asm, blast+)

lemma reserve_nonce_sweep:
  assumes "reserve_nonce chain_id from pending d = Ok (a, d')"
  shows "sweep_ok d' = sweep_ok d \<and> sweeps_move d d'"
proof -
  obtain rows where d': "d' = d\<lparr>account_nonces := rows\<rparr>" using assms by (rule reserve_nonce_kept)
  have "lifecycle_row d' c = lifecycle_row d c" for c
    by (simp add: d' lifecycle_row_def tx_pays_for_def split: option.split)
  then show ?thesis by (simp add: d' sweep_ok_def sweeps_move_same treasury_only_def)
qed

interpretation reserve_tx: repository_tx "reserve_nonce chain_id from pending" for chain_id "from" pending
proof
  fix d a d'
  assume "reserve_nonce chain_id from pending d = Ok (a, d')" and ok: "repo_ok d"
  then obtain rows where d': "d' = d\<lparr>account_nonces := rows\<rparr>" by (elim reserve_nonce_kept)
  have "order_settled d' = order_settled d" by (rule totals_frame(3)) (simp_all add: d')
  then show "repo_ok d'"
    using ok by (simp add: d' repo_ok_def schema_ok_def keys_ok_def payments_ok_def ledger_ok_def windows_ok_def)
  show "grows d d'" by (rule identity_kept_grows) (simp add: d' identity_kept_def)
qed

interpretation claim_outbound_tx: sweep_tx "claim_outbound cs os lease w chain_id token" for cs os lease w chain_id token
proof
  fix d a d'
  assume run: "claim_outbound cs os lease w chain_id token d = Ok (a, d')"
  have row: "leased_row w l t 0 = (\<lambda>r. r\<lparr>col_locked_by := Some w, col_locked_until := Some l, col_updated_at := t\<rparr>)" for l t
    by (simp add: leased_row_def[abs_def])
  obtain ls chain where "(case first_row (claimable_outbound cs os chain token d) of
       None \<Rightarrow> Ok (Ok None, d)
     | Some (c, x) \<Rightarrow>
         bindE (update_collections False (\<lambda>r. col_id r = col_id c) (leased_row w (db_now d + ls * one_second) (db_now d) 0) d)
           (\<lambda>(_, d1). Ok (mapE (\<lambda>rec. Some (col_id c, rec)) (outbound_record_from_row x), d1))) = Ok (a, d')"
    using run unfolding claim_outbound_def row by (elim bindE_OkE)
  then show "sweep_kept d d'" by (auto elim!: bindE_OkE dest: lease_kept split: option.split_asm)
qed


section \<open>Outcomes and replacement\<close>

text \<open>The final state of the three marking operations, from the two updates they make.\<close>

lemma mark_outbound_Ok:
  assumes "mark_outbound oid f e1 S g e2 d = Ok (rec, d')"
  obtains changed r where
    "d' = d\<lparr>outbound_transactions := update_where (markable oid) f (outbound_transactions d),
            collections := update_where (\<lambda>c. col_outbound_tx_id c = Some oid \<and> col_status c \<in> S) g (collections d)\<rparr>"
    "one_active_per_nonce (outbound_transactions d')" "one_active_per_child (collections d')"
    "r \<in> set (outbound_transactions d)" "markable oid r" "outbound_record_from_row (f r) = Ok rec"
proof -
  let ?changed = "map f (filter (markable oid) (outbound_transactions d))"
  let ?new = "update_where (markable oid) f (outbound_transactions d)"
  have run: "?changed \<noteq> [] \<longrightarrow> one_active_per_nonce ?new"
    "(case ?changed of
        [] \<Rightarrow> Err (InvariantViolation (''outbound transaction '' @ show_uuid oid @ e1))
      | r # _ \<Rightarrow>
          bindE (outbound_record_from_row r) (\<lambda>rec.
          bindE (update_collections False
              (\<lambda>c. col_outbound_tx_id c = Some oid \<and> col_status c \<in> S) g
              (d\<lparr>outbound_transactions := ?new\<rparr>)) (\<lambda>(cs, d2).
          if length cs \<noteq> 1
          then Err (InvariantViolation (''outbound transaction '' @ show_uuid oid @ e2))
          else Ok (rec, d2)))) = Ok (rec, d')"
    using assms unfolding mark_outbound_def Let_def by (simp_all only: split: if_split_asm) (simp_all, blast)
  then obtain y ys where ch: "?changed = y # ys" by (cases ?changed) auto
  then obtain r rs where r: "filter (markable oid) (outbound_transactions d) = r # rs" "y = f r" by auto
  from run(2) obtain cs where rec: "outbound_record_from_row (f r) = Ok rec" and
    up: "update_collections False (\<lambda>c. col_outbound_tx_id c = Some oid \<and> col_status c \<in> S) g
              (d\<lparr>outbound_transactions := ?new\<rparr>) = Ok (cs, d')" and one: "length cs = 1"
    unfolding ch r(2) by (auto elim!: bindE_OkE split: if_split_asm)
  note upd = update_collections_Ok[OF up]
  have d': "d' = d\<lparr>outbound_transactions := ?new,
            collections := update_where (\<lambda>c. col_outbound_tx_id c = Some oid \<and> col_status c \<in> S) g (collections d)\<rparr>"
    using upd(1) by simp
  have mem: "r \<in> set (outbound_transactions d) \<and> markable oid r"
  proof -
    have "r \<in> set (filter (markable oid) (outbound_transactions d))" unfolding r(1) by simp
    then show ?thesis by simp
  qed
  have "cs \<noteq> []" using one by auto
  then have "one_active_per_child (collections d')" using upd(3) by (simp add: d')
  moreover have "one_active_per_nonce (outbound_transactions d')" using run(1) ch by (simp add: d')
  ultimately show thesis using that[OF d' _ _ conjunct1[OF mem] conjunct2[OF mem] rec] by blast
qed

lemma mark_outbound_kept:
  assumes "mark_outbound oid f e1 S g e2 d = Ok (rec, d')"
    and f: "\<And>x. tx_party (f x) = tx_party x" "\<And>x. ob_status (f x) = t"
    and g: "\<And>c. collection_identity (g c) = collection_identity c" "\<And>c. col_outbound_tx_id (g c) = col_outbound_tx_id c"
      "\<And>c. col_amount_raw (g c) = col_amount_raw c" "\<And>c. col_status (g c) = s"
    and machine: "\<And>s'. s' \<in> S \<Longrightarrow> collection_step s' s" "s \<noteq> ColQueued" "statuses_agree s t"
      "\<And>s' t'. s' \<notin> S \<Longrightarrow> statuses_agree s' t' \<Longrightarrow> t' \<in> {TxSigned, TxBroadcast} \<Longrightarrow> statuses_agree s' t"
  shows "sweep_kept d d'"
  using assms(1)
proof (rule mark_outbound_Ok)
  let ?c = "\<lambda>c. col_outbound_tx_id c = Some oid \<and> col_status c \<in> S"
  fix r
  assume d': "d' = d\<lparr>outbound_transactions := update_where (markable oid) f (outbound_transactions d),
            collections := update_where ?c g (collections d)\<rparr>"
    and uniq: "one_active_per_nonce (outbound_transactions d')" "one_active_per_child (collections d')"
    and r: "r \<in> set (outbound_transactions d)" "markable oid r"
  have ids: "ob_id (f x) = ob_id x" "col_id (g c) = col_id c" for x c
    using f(1) g(1) by (simp_all add: tx_party_def collection_identity_def)
  have idsk: "map ob_id (outbound_transactions d') = map ob_id (outbound_transactions d)"
    "map col_id (collections d') = map col_id (collections d)"
    by (simp_all add: d' map_update_where ids)
  have fr: "f r \<in> set (outbound_transactions d')" using r by (auto simp: d' set_update_where)
  have tx: "(if markable oid x then f x else x) \<in> set (outbound_transactions d')"
    if "x \<in> set (outbound_transactions d)" for x
    using that by (simp add: d' update_where_mem)
  show "sweep_kept d d'"
  proof (rule sweep_keptI)
    show "base_tables d' = base_tables d" unfolding d' by (rule base_txs_collections)
    assume ok: "sweep_ok d"
    have only: "x = r" if "x \<in> set (outbound_transactions d)" "ob_id x = oid" for x
      using ok that r by (auto simp: sweep_ok_def distinct_map markable_def inj_on_def)
    have moved: "lifecycle_row d' (g c)" if life: "lifecycle_row d c" and sel: "?c c" for c
    proof -
      obtain x where x: "x \<in> set (outbound_transactions d)" "ob_id x = oid" "tx_pays_for d x c"
        by (rule lifecycle_row_Some[OF life conjunct1[OF sel]]) blast
      then have "tx_pays_for d' (f r) (g c)"
        using only[OF x(1,2)] tx_pays_for_cong[OF f(1) g(1), of d' d r c] by (simp add: d')
      then show ?thesis
        using fr sel machine(2,3) r(2) by (intro lifecycle_rowI[of _ oid "f r"]) (simp_all add: g f ids markable_def)
    qed
    have stayed: "lifecycle_row d' c" if "lifecycle_row d c" "\<not> ?c c" for c
      using that(1)
    proof (rule lifecycle_row_kept)
      fix x
      assume x: "x \<in> set (outbound_transactions d)" "col_outbound_tx_id c = Some (ob_id x)"
        "statuses_agree (col_status c) (ob_status x)"
      then have "statuses_agree (col_status c) (ob_status (if markable oid x then f x else x))"
        using machine(4)[OF _ x(3)] that(2) by (auto simp: f markable_def)
      then show "\<exists>x' \<in> set (outbound_transactions d'). tx_party x' = tx_party x \<and> statuses_agree (col_status c) (ob_status x')"
        using tx[OF x(1)] f(1) by (intro bexI[of _ "if markable oid x then f x else x"]) auto
    qed (simp add: d')
    have rows: "\<forall>c \<in> set (collections d'). lifecycle_row d' c"
      using ok moved stayed by (auto simp: d' set_update_where sweep_ok_def)
    have "row_moves c (if ?c c then g c else c)" for c
      using machine(1) by (simp add: row_moves_def g)
    then have "sweeps_move d d'"
      unfolding sweeps_move_def using update_where_mem[of _ "collections d" ?c g] by (fastforce simp: d')
    moreover have "treasury_only d' = treasury_only d"
      by (rule treasury_only_cong) (simp_all add: d' map_update_where g)
    ultimately show "sweep_ok d' \<and> sweeps_move d d'" using ok rows uniq idsk by (simp add: sweep_ok_def)
  qed
qed

interpretation broadcast_tx: sweep_tx "mark_broadcast oid" for oid
proof
  fix d a d'
  assume "mark_broadcast oid d = Ok (a, d')"
  then show "sweep_kept d d'"
    unfolding mark_broadcast_def
    by (rule mark_outbound_kept[where t = TxBroadcast and s = ColConfirming])
      (auto simp: tx_party_def collection_identity_def statuses_agree_def intro: collection_step.intros)
qed

interpretation confirmed_tx: sweep_tx "mark_confirmed oid receipt" for oid receipt
proof
  fix d a d'
  assume "mark_confirmed oid receipt d = Ok (a, d')"
  then show "sweep_kept d d'"
    unfolding mark_confirmed_def
    by (elim bindE_OkE mark_outbound_kept[where t = TxConfirmed and s = ColConfirmed])
      (auto simp: tx_party_def collection_identity_def statuses_agree_def intro: collection_step.intros)
qed

interpretation failed_tx: sweep_tx "mark_failed oid err" for oid err
proof
  fix d a d'
  assume "mark_failed oid err d = Ok (a, d')"
  then show "sweep_kept d d'"
    unfolding mark_failed_def
    by (rule mark_outbound_kept[where t = TxFailed and s = ColFailed])
      (auto simp: tx_party_def collection_identity_def statuses_agree_def intro: collection_step.intros)
qed

lemma map_eq_bex: "map k xs = map k ys \<Longrightarrow> (\<exists>x \<in> set xs. k x = i) = (\<exists>x \<in> set ys. k x = i)"
proof -
  have in_map: "(\<exists>x \<in> set zs. k x = i) \<longleftrightarrow> i \<in> set (map k zs)" for zs by auto
  assume "map k xs = map k ys"
  then show ?thesis unfolding in_map by simp
qed

text \<open>A replacement: the old transaction is retired, the new one takes its parties, nonce and collections.\<close>

lemma replace_signed_tx_Ok:
  assumes "replace_signed_tx old_id t d = Ok (rec, d')"
  obtains x old r cs where
    "find_row (\<lambda>r. ob_id r = old_id) (outbound_transactions d) = Some x"
    "outbound_record_from_row x = Ok old" "otr_status old \<notin> {TxConfirmed, TxReplaced}"
    "r = new_outbound_row t (Some old_id) (uint (nst_chain_id t)) (uint (nst_gas_limit t)) (db_now d)"
    "outbound_record_from_row r = Ok rec" "otr_nonce old = nst_nonce t" "otr_chain_id old = nst_chain_id t"
    "otr_from_address old = nst_from_address t" "otr_to_address old = nst_to_address t" "otr_purpose old = nst_purpose t"
    "\<not> (\<exists>x \<in> set (outbound_transactions d). ob_id x = ob_id r)"
    "one_active_per_nonce (update_where (\<lambda>r. ob_id r = old_id)
                 (retire_row (db_now d) (nst_replacement_reason t)) (outbound_transactions d) @ [r])"
    "update_collections True (\<lambda>c. col_outbound_tx_id c = Some old_id) (move_to_replacement (db_now d) (otr_id rec))
       (d\<lparr>outbound_transactions := update_where (\<lambda>r. ob_id r = old_id)
                 (retire_row (db_now d) (nst_replacement_reason t)) (outbound_transactions d) @ [r]\<rparr>) = Ok (cs, d')"
proof -
  let ?old = "update_where (\<lambda>r. ob_id r = old_id) (retire_row (db_now d) (nst_replacement_reason t)) (outbound_transactions d)"
  obtain old d2 cs where sel: "select_outbound_for_update old_id d = Ok old" and able: "ensure_replaceable old = Ok ()"
    and inv: "ensure_replacement_invariants old t = Ok ()"
    and ins: "insert_signed_tx_row t (Some old_id) (d\<lparr>outbound_transactions := ?old\<rparr>) = Ok (rec, d2)"
    and up: "update_collections True (\<lambda>r. col_outbound_tx_id r = Some old_id) (move_to_replacement (db_now d) (otr_id rec)) d2 = Ok (cs, d')"
    using assms unfolding replace_signed_tx_def Let_def by (auto elim!: bindE_OkE)
  obtain x where x: "find_row (\<lambda>r. ob_id r = old_id) (outbound_transactions d) = Some x" "outbound_record_from_row x = Ok old"
    using sel by (auto simp: select_outbound_for_update_def split: option.splits)
  have st: "otr_status old \<notin> {TxConfirmed, TxReplaced}"
    using able by (auto simp: ensure_replaceable_def split: OutboundTxStatus.splits)
  have same: "otr_nonce old = nst_nonce t" "otr_chain_id old = nst_chain_id t" "otr_from_address old = nst_from_address t"
    "otr_to_address old = nst_to_address t" "otr_purpose old = nst_purpose t"
    using inv by (simp_all add: ensure_replacement_invariants_def split: if_split_asm)
  have "map ob_id ?old = map ob_id (outbound_transactions d)" by (rule map_update_where) (simp add: retire_row_def)
  then have ids: "(\<exists>x \<in> set ?old. ob_id x = i) = (\<exists>x \<in> set (outbound_transactions d). ob_id x = i)" for i
    by (rule map_eq_bex)
  from ins show thesis
  proof (rule insert_signed_tx_row_Ok)
    fix r
    assume r: "r = new_outbound_row t (Some old_id) (uint (nst_chain_id t)) (uint (nst_gas_limit t)) (db_now (d\<lparr>outbound_transactions := ?old\<rparr>))"
      "d2 = d\<lparr>outbound_transactions := ?old, outbound_transactions := outbound_transactions (d\<lparr>outbound_transactions := ?old\<rparr>) @ [r]\<rparr>"
      "outbound_record_from_row r = Ok rec"
      "one_active_per_nonce (outbound_transactions (d\<lparr>outbound_transactions := ?old\<rparr>) @ [r])"
      "\<not> (\<exists>x \<in> set (outbound_transactions (d\<lparr>outbound_transactions := ?old\<rparr>)). ob_id x = ob_id r)"
    have d2: "d2 = d\<lparr>outbound_transactions := ?old @ [r]\<rparr>" using r(2) by simp
    have r': "r = new_outbound_row t (Some old_id) (uint (nst_chain_id t)) (uint (nst_gas_limit t)) (db_now d)"
      "one_active_per_nonce (?old @ [r])" "\<not> (\<exists>x \<in> set (outbound_transactions d). ob_id x = ob_id r)"
      using r(1,4,5) by (simp_all add: ids[symmetric])
    show thesis by (rule that[OF x st r'(1) r(3) same r'(3,2) up[unfolded d2]])
  qed
qed

lemma outbound_record_status: "outbound_record_from_row x = Ok rec \<Longrightarrow> otr_status rec = ob_status x \<and> otr_id rec = ob_id x"
  by (auto simp: outbound_record_from_row_def elim!: bindE_OkE)

lemma move_to_replacement_row:
  "collection_identity (move_to_replacement t i c) = collection_identity c"
  "col_outbound_tx_id (move_to_replacement t i c) = Some i"
  "col_status (move_to_replacement t i c) = ColTransferring"
  "col_amount_raw (move_to_replacement t i c) = col_amount_raw c"
  by (simp_all add: move_to_replacement_def collection_identity_def)

interpretation replace_tx: sweep_tx "replace_signed_tx old_id t" for old_id t
proof
  fix d rec d'
  assume "replace_signed_tx old_id t d = Ok (rec, d')"
  then show "sweep_kept d d'"
  proof (rule replace_signed_tx_Ok)
    fix x old r cs
    let ?old = "update_where (\<lambda>r. ob_id r = old_id) (retire_row (db_now d) (nst_replacement_reason t)) (outbound_transactions d)"
    let ?sel = "\<lambda>c. col_outbound_tx_id c = Some old_id"
    let ?mv = "move_to_replacement (db_now d) (otr_id rec)"
    let ?d2 = "d\<lparr>outbound_transactions := ?old @ [r]\<rparr>"
    assume x: "find_row (\<lambda>r. ob_id r = old_id) (outbound_transactions d) = Some x"
        "outbound_record_from_row x = Ok old" "otr_status old \<notin> {TxConfirmed, TxReplaced}"
      and rec: "outbound_record_from_row r = Ok rec"
      and fresh: "\<not> (\<exists>x \<in> set (outbound_transactions d). ob_id x = ob_id r)"
      and nonce: "one_active_per_nonce (?old @ [r])"
      and up: "update_collections True ?sel ?mv ?d2 = Ok (cs, d')"
    note upd = update_collections_Ok[OF up]
    have d': "outbound_transactions d' = ?old @ [r]" "collections d' = update_where ?sel ?mv (collections d)"
      "relayer_addresses d' = relayer_addresses d" "base_tables d' = base_tables d"
      "treasury_addresses d' = treasury_addresses d"
      using upd(1) by (simp_all add: base_tables_def)
    have ids: "map ob_id ?old = map ob_id (outbound_transactions d)" "map col_id (collections d') = map col_id (collections d)"
      unfolding d' by (rule map_update_where; simp add: retire_row_def move_to_replacement_def)+
    show "sweep_kept d d'"
    proof (rule sweep_keptI)
      assume ok: "sweep_ok d"
      have only: "y = x" if "y \<in> set (outbound_transactions d)" "ob_id y = old_id" for y
        using find_row_unique[of ob_id "outbound_transactions d" y old_id] x(1) that ok by (simp add: sweep_ok_def)
      have st: "ob_status x \<noteq> TxConfirmed" using outbound_record_status[OF x(2)] x(3) by auto
      have moved: "lifecycle_row d' (?mv c) \<and> row_moves c (?mv c)"
        if c: "c \<in> set (collections d)" and life: "lifecycle_row d c" and sel: "?sel c" for c
      proof -
        obtain y where y: "y \<in> set (outbound_transactions d)" "ob_id y = old_id"
          "statuses_agree (col_status c) (ob_status y)" "col_status c \<noteq> ColQueued"
          by (rule lifecycle_row_Some[OF life sel]) blast
        then have "col_status c \<notin> {ColQueued, ColConfirmed}"
          using only[OF y(1,2)] st by (auto simp: statuses_agree_def)
        then have step: "collection_step (col_status c) ColTransferring" by (rule collection_step.replace)
        have "enforce_collection_outbound_tx ?d2 (?mv c) = Ok ()" using upd(2,4) c sel by simp
        then obtain z where "z \<in> set (outbound_transactions ?d2)" "ob_id z = otr_id rec" "tx_pays_for ?d2 z (?mv c)"
          using enforce_Ok move_to_replacement_row(2) by blast
        then have "lifecycle_row d' (?mv c)"
          by (intro lifecycle_rowI[of _ "otr_id rec" z])
            (simp_all add: move_to_replacement_row d' statuses_agree_def tx_pays_for_def)
        with step show ?thesis by (simp add: row_moves_def move_to_replacement_row)
      qed
      have stayed: "lifecycle_row d' c" if "lifecycle_row d c" "\<not> ?sel c" for c
        using that(1)
      proof (rule lifecycle_row_kept)
        fix y
        assume y: "y \<in> set (outbound_transactions d)" "col_outbound_tx_id c = Some (ob_id y)"
          "statuses_agree (col_status c) (ob_status y)"
        then have "ob_id y \<noteq> old_id" using that(2) by simp
        then have "y \<in> set (outbound_transactions d')" using y(1) by (auto simp: d' set_update_where image_iff)
        with y(3) show "\<exists>x' \<in> set (outbound_transactions d'). tx_party x' = tx_party y \<and> statuses_agree (col_status c) (ob_status x')"
          by blast
      qed (rule d'(3))
      have rows: "\<forall>c \<in> set (collections d'). lifecycle_row d' c"
        using ok moved stayed by (auto simp: d'(2) set_update_where sweep_ok_def)
      have "one_active_per_child (collections d')"
        using ok upd(2,3) update_where_unchanged[of ?sel "collections d" ?mv] by (cases "cs = []") (auto simp: d'(2) sweep_ok_def)
      moreover have "sweeps_move d d'"
        unfolding sweeps_move_def
      proof
        fix c
        assume c: "c \<in> set (collections d)"
        have "row_moves c (if ?sel c then ?mv c else c)" using moved[OF c] ok c by (simp add: sweep_ok_def)
        moreover have "(if ?sel c then ?mv c else c) \<in> set (collections d')" unfolding d'(2) using c by (rule update_where_mem)
        ultimately show "\<exists>r' \<in> set (collections d'). row_moves c r'" by blast
      qed
      moreover have "treasury_only d' = treasury_only d"
        by (rule treasury_only_cong) (simp_all add: d' map_update_where move_to_replacement_row)
      moreover have "distinct (map ob_id (outbound_transactions d'))"
      proof -
        have "distinct (map ob_id (outbound_transactions d) @ [ob_id r])" using ok fresh by (auto simp: sweep_ok_def)
        then show ?thesis unfolding d'(1) map_append ids(1) by simp
      qed
      ultimately show "sweep_ok d' \<and> sweeps_move d d'"
        using rows nonce ok by (simp add: sweep_ok_def ids(2) d'(1))
    qed (rule d'(4))
  qed
qed

end
