(* ===== verification/Collection_Props.thy ===== *)
theory Collection_Props
  imports Collection_Lifecycle Order_Props
begin

text \<open>
  What the collector and the collection service rely on: idempotent creation, nonces that are
  never handed out twice, replacements that stay on their nonce, and the treasury as
  the only destination.
\<close>

section \<open>Decoding\<close>

lemma decimal_to_raw_amount_eq: "decimal_to_raw_amount v f = Ok a \<longleftrightarrow> raw_amount_from_numeric v = Ok a"
  by (simp add: decimal_to_raw_amount_def raw_amount_from_numeric_def)

lemma decimal_to_raw_amount_Ok: "decimal_to_raw_amount v f = Ok a \<Longrightarrow> v = uint a"
  by (simp only: decimal_to_raw_amount_eq raw_amount_from_numeric_Ok)

lemma decimal_to_raw_amount_eval: "0 \<le> v \<Longrightarrow> v < 2 ^ 256 \<Longrightarrow> decimal_to_raw_amount v f = Ok (of_int v)"
  by (simp only: decimal_to_raw_amount_eq raw_amount_from_numeric_eval)

lemma outbound_record_fields:
  assumes "outbound_record_from_row x = Ok rec"
  shows "otr_id rec = ob_id x" "otr_purpose rec = ob_purpose x" "otr_from_address rec = ob_from_address x"
    "otr_to_address rec = ob_to_address x" "otr_chain_id rec = of_int (ob_chain_id x)" "ob_nonce x = uint (otr_nonce rec)"
    "otr_status rec = ob_status x" "otr_replacement_of rec = ob_replacement_of x"
  using assms
  by (auto simp: outbound_record_from_row_def ord_i64_to_u64_def elim!: bindE_OkE dest: decimal_to_raw_amount_Ok
      split: if_splits)


section \<open>Concrete states\<close>

definition sweep_db :: db where
  "sweep_db = sample_db\<lparr>child_accounts := [sample_child], orders := [sample_order\<lparr>o_status := Paid, o_paid_amount_raw := 120\<rparr>],
     payments := [late_payment\<lparr>p_match_status := OnTime\<rparr>], treasury_addresses := [(137, 0xA, 0x7EA)]\<rparr>"

definition sample_sweep :: CreateCollectionCommand where
  "sample_sweep = \<lparr>ccc_collection_id = 61, ccc_owner_sub = ''alice'', ccc_order_id = 1, ccc_idempotency_key = ''sweep-1'',
     ccc_request_hash = ''rh'', ccc_child_account_id = 5, ccc_chain_id = 137, ccc_token_address = 0xA,
     ccc_from_address = 0xB0B, ccc_to_address = 0x7EA, ccc_amount_raw = Some 100, ccc_order_requirement = RequirePaid\<rparr>"

definition sample_tx :: "uuid \<Rightarrow> TxHash \<Rightarrow> NewSignedOutboundTx" where
  "sample_tx i h = \<lparr>nst_id = i, nst_chain_id = 137, nst_purpose = Collect, nst_from_address = 0xB0B,
     nst_to_address = 0x7EA, nst_nonce = 4, nst_gas_limit = 60000, nst_max_fee_per_gas = 30,
     nst_max_priority_fee_per_gas = 2, nst_tx_hash = h, nst_signed_tx = [2], nst_replacement_of = None,
     nst_replacement_reason = None\<rparr>"

definition attached_db :: db where
  "attached_db = sweep_db\<lparr>
     collections := [(new_collection_row sample_sweep 137 20)\<lparr>col_status := ColTransferring, col_outbound_tx_id := Some 71\<rparr>],
     outbound_transactions := [new_outbound_row (sample_tx 71 0x1) None 137 60000 20]\<rparr>"

lemma attached_ok: "sweep_ok attached_db"
  by (simp add: sweep_ok_def one_active_per_nonce_def one_active_per_child_def lifecycle_row_def tx_pays_for_def
      statuses_agree_def treasury_only_def attached_db_def new_collection_row_def new_outbound_row_def sample_tx_def sample_sweep_def
      sweep_db_def)

lemmas collection_eval = create_collection_idempotent_def select_collection_by_idempotency_key_def
  select_active_collection_by_child_account_def lock_collectable_order_def insert_collection_def
  new_collection_row_def collection_checks_def one_active_per_child_def collection_indexed_def
  collection_references_def collection_record_from_row_def optionE_def first_row_def order_eval
  sweep_db_def sample_sweep_def sample_child_def sample_defs Let_def raw_amount_to_numeric_def


section \<open>Creation\<close>

lemma insert_collection_found:
  assumes "insert_collection c d = Ok (Some rec, d')"
  shows "select_collection_by_idempotency_key (ccc_owner_sub c) (ccc_idempotency_key c) d' = Ok (Some rec)"
    and "cr_request_hash rec = ccc_request_hash c"
proof -
  obtain chain where run: "bindE (collection_record_from_row (new_collection_row c chain (db_now d)))
       (\<lambda>rec. Ok (Some rec, d\<lparr>collections := collections d @ [new_collection_row c chain (db_now d)]\<rparr>)) = Ok (Some rec, d')"
    and fresh: "\<not> (\<exists>x \<in> set (collections d). col_owner_sub x = ccc_owner_sub c \<and> col_idempotency_key x = ccc_idempotency_key c)"
    using assms unfolding insert_collection_def Let_def
    by (elim bindE_OkE) (simp split: if_split_asm add: new_collection_row_def)
  then obtain dec: "collection_record_from_row (new_collection_row c chain (db_now d)) = Ok rec"
    and d': "d' = d\<lparr>collections := collections d @ [new_collection_row c chain (db_now d)]\<rparr>"
    by (auto elim!: bindE_OkE)
  have none: "find_row (\<lambda>r. col_owner_sub r = ccc_owner_sub c \<and> col_idempotency_key r = ccc_idempotency_key c) (collections d) = None"
    using fresh by (simp add: find_row_None)
  show "select_collection_by_idempotency_key (ccc_owner_sub c) (ccc_idempotency_key c) d' = Ok (Some rec)"
    by (simp add: select_collection_by_idempotency_key_def d' find_row_append none optionE_def dec)
      (simp add: new_collection_row_def)
  show "cr_request_hash rec = ccc_request_hash c"
    using dec by (auto simp: collection_record_from_row_def new_collection_row_def elim!: bindE_OkE)
qed

text \<open>
  Creating a sweep is idempotent.  Whatever the call returns, repeating it returns the same
  collection and leaves the database as it is; and a call adds at most one row, a queued one.
\<close>
theorem create_collection_idempotent_repeat:
  assumes "create_collection_idempotent c d = Ok (rec, d')"
  shows "create_collection_idempotent c d' = Ok (rec, d') \<and>
    (d' = d \<or> (\<exists>r. collections d' = collections d @ [r] \<and> col_status r = ColQueued \<and> col_id r = cr_id rec))"
proof -
  obtain found where found: "select_collection_by_idempotency_key (ccc_owner_sub c) (ccc_idempotency_key c) d = Ok found"
    using assms unfolding create_collection_idempotent_def by (rule bindE_OkE)
  show ?thesis
  proof (cases found)
    case (Some x)
    with assms found show ?thesis by (auto simp: create_collection_idempotent_def elim!: bindE_OkE)
  next
    case None
    obtain active where active: "select_active_collection_by_child_account (ccc_child_account_id c) d = Ok active"
      using assms unfolding create_collection_idempotent_def found None by (auto elim!: bindE_OkE)
    show ?thesis
    proof (cases active)
      case (Some a)
      with assms found None active show ?thesis by (simp add: create_collection_idempotent_def)
    next
      case none: None
      obtain ins d1 where ins: "insert_collection c d = Ok (ins, d1)"
        and rest: "(case ins of Some rec \<Rightarrow> Ok (rec, d1)
             | None \<Rightarrow>
                 bindE (select_collection_by_idempotency_key (ccc_owner_sub c) (ccc_idempotency_key c) d1) (\<lambda>again.
                 case again of
                   None \<Rightarrow> Err (InvariantViolation ''collection idempotency conflict did not return a row'')
                 | Some existing \<Rightarrow> bindE (ensure_same_collection_request existing c) (\<lambda>_. Ok (existing, d1)))) = Ok (rec, d')"
        using assms unfolding create_collection_idempotent_def found None active none by (auto elim!: bindE_OkE)
      show ?thesis
      proof (cases ins)
        case None
        then have "d1 = d" using ins by (auto elim: insert_collection_Ok)
        then show ?thesis using rest found \<open>found = None\<close> None by simp
      next
        case (Some new)
        with rest have eq: "new = rec" "d1 = d'" by simp_all
        note again = insert_collection_found[OF ins[unfolded Some eq]]
        have "create_collection_idempotent c d' = Ok (rec, d')"
          by (simp add: create_collection_idempotent_def again ensure_same_collection_request_def)
        moreover have "\<exists>r. collections d' = collections d @ [r] \<and> col_status r = ColQueued \<and> col_id r = cr_id rec"
          using ins[unfolded Some eq]
          by (rule insert_collection_Ok)
            (auto simp: new_collection_row_def collection_record_from_row_def elim!: bindE_OkE)
        ultimately show ?thesis by blast
      qed
    qed
  qed
qed

theorem create_collection_idempotent_repeat_witness:
  "\<exists>rec d'. create_collection_idempotent sample_sweep sweep_db = Ok (rec, d') \<and>
     create_collection_idempotent sample_sweep d' = Ok (rec, d') \<and> length (collections d') = 1"
proof -
  have "\<exists>rec d'. create_collection_idempotent sample_sweep sweep_db = Ok (rec, d') \<and> length (collections d') = 1"
    by (simp add: collection_eval decimal_to_raw_amount_eval)
  then obtain rec d' where ok: "create_collection_idempotent sample_sweep sweep_db = Ok (rec, d')"
    "length (collections d') = 1" by blast
  with create_collection_idempotent_repeat[OF ok(1)] show ?thesis by blast
qed


section \<open>Replacement\<close>

lemma replaced_stays:
  assumes "\<forall>y \<in> set (outbound_transactions d). ob_id y = oid \<longrightarrow> ob_status y = TxReplaced"
  shows "\<not> is_ok (replace_signed_tx oid t d)"
proof (cases "select_outbound_for_update oid d")
  case (Inr old)
  then obtain y where "find_row (\<lambda>r. ob_id r = oid) (outbound_transactions d) = Some y" "outbound_record_from_row y = Ok old"
    by (auto simp: select_outbound_for_update_def split: option.split_asm)
  then have "otr_status old = TxReplaced"
    using find_row_Some[of _ _ y] assms outbound_record_fields(7)[of y old] by metis
  then have "\<exists>e. ensure_replaceable old = Err e" by (simp add: ensure_replaceable_def)
  then show ?thesis using Inr by (auto simp only: replace_signed_tx_def bindE_Ok bindE_Err is_ok_simps)
qed (simp add: replace_signed_tx_def)

text \<open>
  A replacement transaction takes the place of the old one without changing what is paid:
  it has the chain, purpose, sender, recipient and nonce of the old transaction and
  names it; the old one is retired, every collection attached to it is attached to the new
  one, and no second replacement of the same transaction is accepted.
\<close>
theorem replace_signed_tx_same_nonce:
  assumes "replace_signed_tx old_id t d = Ok (rec, d')"
  shows "\<exists>old. select_outbound_for_update old_id d = Ok old \<and>
    (otr_chain_id rec, otr_purpose rec, otr_from_address rec, otr_to_address rec, otr_nonce rec) =
      (otr_chain_id old, otr_purpose old, otr_from_address old, otr_to_address old, otr_nonce old) \<and>
    otr_replacement_of rec = Some old_id \<and> otr_status rec = TxSigned \<and>
    (\<forall>x \<in> set (outbound_transactions d'). ob_id x = old_id \<longrightarrow> ob_status x = TxReplaced) \<and>
    map col_outbound_tx_id (collections d') =
      map (\<lambda>c. if col_outbound_tx_id c = Some old_id then Some (otr_id rec) else col_outbound_tx_id c) (collections d) \<and>
    (\<forall>t'. \<not> is_ok (replace_signed_tx old_id t' d'))"
  using assms
proof (rule replace_signed_tx_Ok)
  fix x old r cs
  let ?old = "update_where (\<lambda>r. ob_id r = old_id) (retire_row (db_now d) (nst_replacement_reason t)) (outbound_transactions d)"
  let ?sel = "\<lambda>c. col_outbound_tx_id c = Some old_id"
  let ?mv = "move_to_replacement (db_now d) (otr_id rec)"
  assume x: "find_row (\<lambda>r. ob_id r = old_id) (outbound_transactions d) = Some x" "outbound_record_from_row x = Ok old"
    and r: "r = new_outbound_row t (Some old_id) (uint (nst_chain_id t)) (uint (nst_gas_limit t)) (db_now d)"
    and rec: "outbound_record_from_row r = Ok rec"
    and same: "otr_nonce old = nst_nonce t" "otr_chain_id old = nst_chain_id t"
    "otr_from_address old = nst_from_address t" "otr_to_address old = nst_to_address t" "otr_purpose old = nst_purpose t"
    and fresh: "\<not> (\<exists>x \<in> set (outbound_transactions d). ob_id x = ob_id r)"
    and up: "update_collections True ?sel ?mv (d\<lparr>outbound_transactions := ?old @ [r]\<rparr>) = Ok (cs, d')"
  have d': "outbound_transactions d' = ?old @ [r]" "collections d' = update_where ?sel ?mv (collections d)"
    using update_collections_Ok(1)[OF up] by simp_all
  have rf: "ob_nonce r = uint (nst_nonce t)" "ob_chain_id r = uint (nst_chain_id t)" "ob_purpose r = nst_purpose t"
    "ob_from_address r = nst_from_address t" "ob_to_address r = nst_to_address t" "ob_replacement_of r = Some old_id"
    "ob_status r = TxSigned"
    by (simp_all add: r new_outbound_row_def raw_amount_to_numeric_def)
  note f = outbound_record_fields[OF rec]
  have nonce: "otr_nonce rec = nst_nonce t" using f(6)[unfolded rf(1)] by (rule unsigned_word_eqI[symmetric])
  have "ob_id r \<noteq> old_id" using fresh find_row_Some[OF x(1)] by metis
  moreover have "ob_status y = TxReplaced" if "y \<in> set ?old" "ob_id y = old_id" for y
    using that unfolding set_update_where by (elim imageE) (simp add: retire_row_def split: if_split_asm)
  ultimately have retired: "\<forall>y \<in> set (outbound_transactions d'). ob_id y = old_id \<longrightarrow> ob_status y = TxReplaced"
    unfolding d'(1) by (metis Un_iff empty_iff empty_set set_ConsD set_append)
  have "\<not> is_ok (replace_signed_tx old_id t' d')" for t' using retired by (rule replaced_stays)
  moreover have "map col_outbound_tx_id (collections d') =
      map (\<lambda>c. if ?sel c then Some (otr_id rec) else col_outbound_tx_id c) (collections d)"
    by (simp add: d' update_where_def move_to_replacement_row)
  moreover have "select_outbound_for_update old_id d = Ok old" by (simp add: select_outbound_for_update_def x)
  moreover have "(otr_chain_id rec, otr_purpose rec, otr_from_address rec, otr_to_address rec, otr_nonce rec) =
      (otr_chain_id old, otr_purpose old, otr_from_address old, otr_to_address old, otr_nonce old)"
    "otr_replacement_of rec = Some old_id" "otr_status rec = TxSigned"
    using f(1-4,7,8) by (simp_all add: nonce f(5) rf same)
  ultimately show ?thesis using retired by blast
qed

lemmas outbound_eval = insert_signed_tx_row_def select_outbound_for_update_def ensure_replaceable_def
  ensure_replacement_invariants_def replace_signed_tx_def outbound_record_from_row_def new_outbound_row_def
  outbound_checks_def one_active_per_nonce_def outbound_indexed_def outbound_nonce_key_def retire_row_def
  optional_receipt_block_def update_collections_def enforce_collection_outbound_tx_def move_to_replacement_def
  update_where_def fits_i32_def attached_db_def sample_tx_def

theorem replace_signed_tx_same_nonce_witness:
  "\<exists>rec d'. replace_signed_tx 71 (sample_tx 72 0x2) attached_db = Ok (rec, d') \<and> otr_nonce rec = 4 \<and>
     map col_outbound_tx_id (collections d') = [Some 72] \<and> \<not> is_ok (replace_signed_tx 71 (sample_tx 73 0x3) d')"
proof -
  have "\<exists>rec d'. replace_signed_tx 71 (sample_tx 72 0x2) attached_db = Ok (rec, d') \<and> otr_nonce rec = 4 \<and>
      map col_outbound_tx_id (collections d') = [Some 72]"
    by (simp add: outbound_eval collection_eval decimal_to_raw_amount_eval)
  then obtain rec d' where ok: "replace_signed_tx 71 (sample_tx 72 0x2) attached_db = Ok (rec, d')" "otr_nonce rec = 4"
     "map col_outbound_tx_id (collections d') = [Some 72]" by (elim exE conjE)
  moreover have "\<not> is_ok (replace_signed_tx 71 (sample_tx 73 0x3) d')"
    using replace_signed_tx_same_nonce[OF ok(1)] by blast
  ultimately show ?thesis by (intro exI conjI)
qed


section \<open>Nonces\<close>

definition next_nonce :: "int \<Rightarrow> EvmAddress \<Rightarrow> db \<Rightarrow> int option" where
  "next_nonce chain a d = map_option an_next_nonce (find_row (\<lambda>r. nonce_key r = (chain, a)) (account_nonces d))"

lemma reserve_nonce_effect:
  assumes "reserve_nonce chain_id a pending d = Ok (res, d')"
  obtains n where "next_nonce (uint chain_id) a d' = Some (n + 1)" "uint pending \<le> n"
    "\<And>m. next_nonce (uint chain_id) a d = Some m \<Longrightarrow> m \<le> n"
    "\<And>rn. res = Ok rn \<Longrightarrow> uint (rn_nonce rn) = n"
    "\<And>key. key \<noteq> (uint chain_id, a) \<Longrightarrow> next_nonce (fst key) (snd key) d' = next_nonce (fst key) (snd key) d"
proof -
  let ?key = "(uint chain_id, a)"
  let ?is = "\<lambda>r. nonce_key r = ?key"
  let ?bump = "\<lambda>r. r\<lparr>an_next_nonce := an_next_nonce r + 1\<rparr>"
  let ?rows = "case find_row ?is (account_nonces d) of
      None \<Rightarrow> account_nonces d @ [\<lparr>an_chain_id = uint chain_id, an_address = a, an_next_nonce = raw_amount_to_numeric pending\<rparr>]
    | Some _ \<Rightarrow> update_where ?is (\<lambda>r. r\<lparr>an_next_nonce := max (an_next_nonce r) (raw_amount_to_numeric pending)\<rparr>) (account_nonces d)"
  obtain row where row: "find_row ?is ?rows = Some row"
    and res: "res = mapE (\<lambda>n. \<lparr>rn_chain_id = chain_id, rn_address = a, rn_nonce = n\<rparr>)
                       (decimal_to_raw_amount (an_next_nonce row) ''account_nonces.next_nonce'')"
    and d': "d' = d\<lparr>account_nonces := update_where ?is ?bump ?rows\<rparr>"
    using assms unfolding reserve_nonce_def Let_def
    by (elim bindE_OkE) (auto simp: ord_u64_to_i64_def split: if_split_asm option.split_asm)
  have keep: "nonce_key (r\<lparr>an_next_nonce := v\<rparr>) = nonce_key r" for r v by (simp add: nonce_key_def)
  have other: "find_row (\<lambda>r. nonce_key r = key) (update_where ?is (\<lambda>r. r\<lparr>an_next_nonce := f r\<rparr>) rs)
      = find_row (\<lambda>r. nonce_key r = key) rs" if "key \<noteq> ?key" for key f rs
    using that by (induction rs) (auto simp: update_where_def keep)
  have "next_nonce (fst key) (snd key) d' = next_nonce (fst key) (snd key) d" if "key \<noteq> ?key" for key
    using that other[OF that]
    by (auto simp: next_nonce_def d' find_row_append nonce_key_def split: option.split)
  moreover have "next_nonce (uint chain_id) a d' = Some (an_next_nonce row + 1)"
    using find_row_Some[OF row] by (simp add: next_nonce_def d' find_row_update_other keep row)
  moreover have "uint pending \<le> an_next_nonce row"
  proof (cases "find_row ?is (account_nonces d)")
    case None
    then show ?thesis using row by (auto simp: find_row_append raw_amount_to_numeric_def nonce_key_def)
  next
    case (Some r0)
    then show ?thesis using row find_row_Some[OF Some]
      by (auto simp: find_row_update_other keep raw_amount_to_numeric_def)
  qed
  moreover have "m \<le> an_next_nonce row" if "next_nonce (uint chain_id) a d = Some m" for m
    using row that by (auto simp: next_nonce_def find_row_update_other keep split: option.split_asm if_split_asm)
  moreover have "uint (rn_nonce rn) = an_next_nonce row" if "res = Ok rn" for rn
    using res[symmetric] that by (auto simp: mapE_eq_Ok dest!: decimal_to_raw_amount_Ok)
  ultimately show thesis using that by blast
qed

end
