(* ===== verification/Audit_Repo.thy ===== *)
theory Audit_Repo
  imports Payment_Repo
begin

text \<open>
  The audit log of \<open>src/src/db/repositories/audit.rs\<close>: one insert under the constraints of the
  \<open>audit_events\<close> table.  The transaction hash is kept as the text the table holds.
\<close>

definition hex_error_text :: "HexParseError \<Rightarrow> string" where
  "hex_error_text e = (case e of
      MissingPrefix kind \<Rightarrow> kind @ '' must start with 0x''
    | InvalidLength kind expected actual \<Rightarrow>
        kind @ '' must contain '' @ show_nat expected @ '' hex chars, got '' @ show_nat actual
    | InvalidHex kind index \<Rightarrow> kind @ '' contains invalid hex at char '' @ show_nat index)"

definition optional_tx_hash :: "string option \<Rightarrow> RepositoryError + TxHash option" where
  "optional_tx_hash value =
     (case value of
        None \<Rightarrow> Ok None
      | Some text \<Rightarrow>
          mapE Some (map_errE (\<lambda>e. InvalidDbValue ''audit_events.tx_hash'' text (''invalid tx hash: '' @ hex_error_text e)) (tx_hash_from_str text)))"

definition audit_event_from_row :: "audit_row \<Rightarrow> RepositoryError + AuditEventRecord" where
  "audit_event_from_row r =
     bindE (optional_tx_hash (au_tx_hash r)) (\<lambda>tx_hash.
     Ok \<lparr>aei_id = au_id r, aei_event_type = au_event_type r, aei_request_id = au_request_id r,
         aei_principal_sub = au_principal_sub r, aei_scopes = au_scopes r, aei_order_id = au_order_id r,
         aei_collection_id = au_collection_id r, aei_tx_hash = tx_hash, aei_payload = au_payload r,
         aer_created_at = au_created_at r\<rparr>)"

definition append_audit_event :: "AuditEventInput \<Rightarrow> db \<Rightarrow> AuditEventRecord tx" where
  "append_audit_event event d =
     (let row = \<lparr>au_id = aei_id event, au_event_type = aei_event_type event, au_request_id = aei_request_id event,
            au_principal_sub = aei_principal_sub event, au_scopes = aei_scopes event, au_order_id = aei_order_id event,
            au_collection_id = aei_collection_id event, au_tx_hash = map_option hash_to_lower_hex (aei_tx_hash event),
            au_payload = aei_payload event, au_created_at = db_now d\<rparr> in
      if aei_event_type event = [] then Err (Database (CheckViolation ''audit_events_event_type_check''))
      else if \<exists>r \<in> set (audit_events d). au_id r = aei_id event
      then Err (Database (UniqueViolation ''audit_events_pkey''))
      else if \<not> (case aei_order_id event of None \<Rightarrow> True | Some oid \<Rightarrow> \<exists>r \<in> set (orders d). o_id r = oid)
      then Err (Database (ForeignKeyViolation ''audit_events_order_id_fkey''))
      else if \<not> (case aei_collection_id event of None \<Rightarrow> True | Some cid \<Rightarrow> \<exists>r \<in> set (collections d). col_id r = cid)
      then Err (Database (ForeignKeyViolation ''audit_events_collection_id_fkey''))
      else bindE (audit_event_from_row row) (\<lambda>rec. Ok (rec, d\<lparr>audit_events := audit_events d @ [row]\<rparr>)))"

lemma append_audit_event_Ok:
  assumes "append_audit_event event d = Ok (rec, d')"
  obtains row where "d' = d\<lparr>audit_events := audit_events d @ [row]\<rparr>" "audit_event_from_row row = Ok rec"
  using assms by (auto simp: append_audit_event_def Let_def bindE_eq_Ok split: if_splits)

text \<open>The hash that is written reads back, so an append that passes the constraints returns its event.\<close>

lemma audit_hash_roundtrip [simp]: "optional_tx_hash (map_option hash_to_lower_hex h) = Ok h"
  by (cases h) (simp_all add: optional_tx_hash_def tx_hash_from_str_def hash_to_lower_hex_def fixed_hex_roundtrip)

end
