(* ===== verification/Repository_System.thy ===== *)
theory Repository_System
  imports Collection_Props Audit_Repo
begin

text \<open>
  The repositories as one system: every write operation as a command, the states that sequences
  of commands and the passing of time reach, and what holds in all of them.  A command
  that returns an error is a transaction that rolled back.
\<close>

section \<open>Orders and payments leave the sweep tables alone\<close>

definition sweep_tables ::
  "db \<Rightarrow> collection_row list \<times> nonce_row list \<times> outbound_row list \<times> (int \<times> EvmAddress \<times> EvmAddress) list \<times> (int \<times> EvmAddress) list"
  where
  "sweep_tables d =
     (collections d, account_nonces d, outbound_transactions d, treasury_addresses d, relayer_addresses d)"

lemma sweep_tables_update [simp]:
  "sweep_tables (d\<lparr>orders := os\<rparr>) = sweep_tables d" "sweep_tables (d\<lparr>payments := ps\<rparr>) = sweep_tables d"
  "sweep_tables (d\<lparr>chain_cursors := cs\<rparr>) = sweep_tables d" "sweep_tables (d\<lparr>wallet_cursors := ws\<rparr>) = sweep_tables d"
  "sweep_tables (d\<lparr>order_payment_overrides := ovs\<rparr>) = sweep_tables d" "sweep_tables (d\<lparr>child_accounts := cas\<rparr>) = sweep_tables d"
  "sweep_tables (d\<lparr>payment_windows := pws\<rparr>) = sweep_tables d" "sweep_tables (d\<lparr>audit_events := as\<rparr>) = sweep_tables d"
  "sweep_tables (d\<lparr>db_now := t\<rparr>) = sweep_tables d"
  by (simp_all add: sweep_tables_def)

lemma sweep_tables_ok:
  assumes "sweep_tables d' = sweep_tables d"
  shows "sweep_ok d' = sweep_ok d" "sweeps_move d d'" "next_nonce chain a d' = next_nonce chain a d"
proof -
  have f: "collections d' = collections d" "outbound_transactions d' = outbound_transactions d"
    "treasury_addresses d' = treasury_addresses d" "relayer_addresses d' = relayer_addresses d"
    "account_nonces d' = account_nonces d"
    using assms by (simp_all add: sweep_tables_def)
  have "lifecycle_row d' r = lifecycle_row d r" for r
    by (simp add: lifecycle_row_def tx_pays_for_def f split: option.split)
  then show "sweep_ok d' = sweep_ok d" by (simp add: sweep_ok_def treasury_only_def f)
  show "sweeps_move d d'" using f(1) by (rule sweeps_move_same)
  show "next_nonce chain a d' = next_nonce chain a d" by (simp add: next_nonce_def f)
qed

lemma recompute_sweep_frame:
  assumes "recompute_orders_in_tx now ids d = Ok d'"
  shows "sweep_tables d' = sweep_tables d"
proof (cases "ids = []")
  case False
  let ?rows = "sort_key o_id (filter (\<lambda>r. o_id r \<in> set ids) (orders d))"
  have fold: "foldE (recompute_order_row now) d ?rows = Ok d'"
    using assms False by (auto simp: recompute_orders_in_tx_def Let_def split: if_splits)
  show ?thesis
    by (rule foldE_invariant[OF fold, of "\<lambda>s. sweep_tables s = sweep_tables d"])
      (auto simp: recompute_order_row_def Let_def elim!: bindE_OkE split: if_split_asm)
qed (use assms in \<open>simp add: recompute_orders_in_tx_def\<close>)

lemma upsert_tx_frame:
  assumes "upsert_matched_payment_tx chain_id token p d = Ok (rec, d')"
  shows "sweep_tables d' = sweep_tables d"
proof -
  obtain new row where "upsert_row new d = Ok (row, d')" using assms by (rule upsert_matched_payment_tx_Ok)
  then show ?thesis by (auto simp: upsert_row_def Let_def split: if_splits option.splits)
qed

lemma upsert_all_frame: "upsert_all chain_id token ps d = Ok (recs, d') \<Longrightarrow> sweep_tables d' = sweep_tables d"
proof (induction ps arbitrary: d recs)
  case (Cons p ps)
  then show ?case by (auto dest: upsert_tx_frame elim!: bindE_OkE)
qed simp

lemma upsert_verified_frame: "upsert_verified ps d = Ok d' \<Longrightarrow> sweep_tables d' = sweep_tables d"
proof (induction ps arbitrary: d)
  case (Cons p ps)
  then show ?case by (auto dest: upsert_tx_frame elim!: bindE_OkE)
qed simp

locale ledger_tx = repository_tx run for run :: "db \<Rightarrow> 'a tx" +
  assumes run_frame: "run d = Ok (a, d') \<Longrightarrow> sweep_tables d' = sweep_tables d"

interpretation ledger_recompute: ledger_tx "recompute_orders now ids" for now ids
  by unfold_locales (auto simp: recompute_orders_def mapE_eq_Ok dest: recompute_sweep_frame)

interpretation ledger_claim: ledger_tx "claim_scan_range now w chain_id token t" for now w chain_id token t
  by unfold_locales (auto simp: claim_scan_range_def bindE_eq_Ok split: option.splits if_splits)

interpretation ledger_commit: ledger_tx "commit_scanned_batch now b" for now b
  by unfold_locales (erule commit_scanned_batch_Ok, auto dest!: recompute_sweep_frame upsert_all_frame)

interpretation ledger_confirm: ledger_tx "confirm_observed_payments now b" for now b
  by unfold_locales (erule confirm_observed_payments_Ok, auto dest!: recompute_sweep_frame)

interpretation ledger_reorg: ledger_tx "handle_kv_reorg_epoch now chain_id token epoch from"
  for now chain_id token epoch "from"
  by unfold_locales (erule handle_kv_reorg_epoch_Ok, auto dest!: recompute_sweep_frame)

interpretation ledger_verified: ledger_tx "record_verified_payments now oid ps" for now oid ps
  by unfold_locales
    (auto simp: record_verified_payments_def bindE_eq_Ok dest!: recompute_sweep_frame upsert_verified_frame split: if_splits)

interpretation ledger_expired: ledger_tx "recompute_expired_open_orders now limit" for now limit
  by unfold_locales
    (auto simp: recompute_expired_open_orders_def Let_def mapE_eq_Ok dest!: recompute_sweep_frame split: if_splits)

interpretation ledger_allocate: ledger_tx "allocate_derivation_segment cid" for cid
  by unfold_locales (erule allocate_derivation_segment_Ok, simp)

interpretation ledger_create: ledger_tx "create_order_idempotent c" for c
  by unfold_locales (erule create_order_cases, auto elim: insert_order_tx_Ok)

interpretation ledger_accept: ledger_tx "accept_problem_payment_for_owner now oid owner by_whom reason"
  for now oid owner by_whom reason
proof
  have override: "upsert_override new d = Ok d' \<Longrightarrow> sweep_tables d' = sweep_tables d" for new d d'
    by (auto simp: upsert_override_def split: if_splits)
  fix d a d'
  assume "accept_problem_payment_for_owner now oid owner by_whom reason d = Ok (a, d')"
  then show "sweep_tables d' = sweep_tables d"
    by (auto simp: accept_problem_payment_for_owner_def Let_def dest!: recompute_sweep_frame override
        elim!: bindE_OkE split: if_split_asm option.split_asm)
qed

lemma audit_events_repo [simp]: "repo_ok (d\<lparr>audit_events := as\<rparr>) = repo_ok d"
proof -
  have "order_settled (d\<lparr>audit_events := as\<rparr>) = order_settled d" by (rule totals_frame(3)) simp_all
  then show ?thesis
    by (simp add: repo_ok_def schema_ok_def keys_ok_def payments_ok_def ledger_ok_def windows_ok_def)
qed

interpretation audit_tx: repository_tx "append_audit_event event" for event
proof
  fix d a d'
  assume run: "append_audit_event event d = Ok (a, d')" and ok: "repo_ok d"
  show "repo_ok d'" using run ok by (elim append_audit_event_Ok) simp
  show "grows d d'" using run
    by (elim append_audit_event_Ok) (auto intro!: identity_kept_grows simp: identity_kept_def)
qed

interpretation ledger_audit: ledger_tx "append_audit_event event" for event
  by unfold_locales (erule append_audit_event_Ok, simp)


section \<open>Commands\<close>

datatype command =
  AllocateSegment string
| CreateOrder CreateOrderCommand
| AcceptProblemPayment timestamp uuid string string "string option"
| RecomputeOrders timestamp "uuid list"
| RecomputeExpired timestamp u32
| ClaimScanRange timestamp string u64 EvmAddress timestamp
| CommitBatch timestamp CommitScannedBatch
| ConfirmObserved timestamp ConfirmObservedPaymentsBatch
| HandleReorg timestamp u64 EvmAddress u64 u64
| RecordVerified timestamp uuid "MatchedPaymentInput list"
| CreateCollection CreateCollectionCommand
| ClaimCollectionJob u64 string u64 EvmAddress
| AttachOutbound uuid uuid RawAmount
| ReserveNonce u64 EvmAddress RawAmount
| InsertSignedTx NewSignedOutboundTx
| InsertSignedCollectTx uuid NewSignedOutboundTx RawAmount
| ReplaceSignedTx uuid NewSignedOutboundTx
| ClaimSignedForBroadcast u64 string u64 EvmAddress
| ClaimBroadcastForReceipt u64 string u64 EvmAddress
| MarkBroadcast uuid
| MarkConfirmed uuid ChainBlockRef
| MarkFailed uuid string
| AppendAudit AuditEventInput

text \<open>The state a command leaves: its writes when it committed, the old state when it rolled back.\<close>

definition state_after :: "('e + ('a \<times> db)) \<Rightarrow> db \<Rightarrow> db" where
  "state_after res d = (case res of Err _ \<Rightarrow> d | Ok (_, d') \<Rightarrow> d')"

fun execute :: "command \<Rightarrow> db \<Rightarrow> db" where
  "execute (AllocateSegment cid) d = state_after (allocate_derivation_segment cid d) d"
| "execute (CreateOrder c) d = state_after (create_order_idempotent c d) d"
| "execute (AcceptProblemPayment now i owner by_whom reason) d =
     state_after (accept_problem_payment_for_owner now i owner by_whom reason d) d"
| "execute (RecomputeOrders now ids) d = state_after (recompute_orders now ids d) d"
| "execute (RecomputeExpired now limit) d = state_after (recompute_expired_open_orders now limit d) d"
| "execute (ClaimScanRange now w chain_id token t) d = state_after (claim_scan_range now w chain_id token t d) d"
| "execute (CommitBatch now b) d = state_after (commit_scanned_batch now b d) d"
| "execute (ConfirmObserved now b) d = state_after (confirm_observed_payments now b d) d"
| "execute (HandleReorg now chain_id token epoch fromb) d =
     state_after (handle_kv_reorg_epoch now chain_id token epoch fromb d) d"
| "execute (RecordVerified now i ps) d = state_after (record_verified_payments now i ps d) d"
| "execute (CreateCollection c) d = state_after (create_collection_idempotent c d) d"
| "execute (ClaimCollectionJob lease w chain_id token) d = state_after (claim_collection_job lease w chain_id token d) d"
| "execute (AttachOutbound cid i amount) d = state_after (attach_outbound_tx cid i amount d) d"
| "execute (ReserveNonce chain_id a pending) d = state_after (reserve_nonce chain_id a pending d) d"
| "execute (InsertSignedTx t) d = state_after (insert_signed_tx t d) d"
| "execute (InsertSignedCollectTx cid t amount) d = state_after (insert_signed_collect_tx cid t amount d) d"
| "execute (ReplaceSignedTx i t) d = state_after (replace_signed_tx i t d) d"
| "execute (ClaimSignedForBroadcast lease w chain_id token) d =
     state_after (claim_signed_collect_tx_for_broadcast lease w chain_id token d) d"
| "execute (ClaimBroadcastForReceipt lease w chain_id token) d =
     state_after (claim_broadcast_collect_tx_for_receipt lease w chain_id token d) d"
| "execute (MarkBroadcast i) d = state_after (mark_broadcast i d) d"
| "execute (MarkConfirmed i receipt) d = state_after (mark_confirmed i receipt d) d"
| "execute (MarkFailed i err) d = state_after (mark_failed i err d) d"
| "execute (AppendAudit event) d = state_after (append_audit_event event d) d"

inductive system_step :: "db \<Rightarrow> db \<Rightarrow> bool" where
  command: "system_step d (execute c d)"
| tick: "db_now d \<le> t \<Longrightarrow> system_step d (d\<lparr>db_now := t\<rparr>)"

inductive_cases system_stepE: "system_step d d'"


section \<open>What every step keeps\<close>

definition system_ok :: "db \<Rightarrow> bool" where
  "system_ok d \<longleftrightarrow> repo_ok d \<and> sweep_ok d"

definition follows :: "collection_row \<Rightarrow> collection_row \<Rightarrow> bool" where
  "follows r r' \<longleftrightarrow>
     collection_identity r' = collection_identity r \<and> collection_step\<^sup>*\<^sup>* (col_status r) (col_status r') \<and>
     (\<forall>a. col_amount_raw r = Some a \<longrightarrow> col_amount_raw r' = Some a)"

definition evolves :: "db \<Rightarrow> db \<Rightarrow> bool" where
  "evolves d d' \<longleftrightarrow>
     grows d d' \<and> (\<forall>r \<in> set (collections d). \<exists>r' \<in> set (collections d'). follows r r') \<and>
     (\<forall>chain a n. next_nonce chain a d = Some n \<longrightarrow> (\<exists>m \<ge> n. next_nonce chain a d' = Some m))"

lemma follows_refl [simp]: "follows r r"
  by (simp add: follows_def)

lemma follows_trans: "follows r r' \<Longrightarrow> follows r' r'' \<Longrightarrow> follows r r''"
  unfolding follows_def using rtranclp_trans[of collection_step] by (elim conjE, intro conjI) (simp, blast, simp)

lemma row_moves_follows: "row_moves r r' \<Longrightarrow> follows r r'"
  by (auto simp: row_moves_def follows_def)

lemma evolves_refl [simp]: "evolves d d"
  unfolding evolves_def using follows_refl grows_refl by blast

lemma evolves_trans: "evolves d d' \<Longrightarrow> evolves d' d'' \<Longrightarrow> evolves d d''"
  unfolding evolves_def by (elim conjE, intro conjI) (erule (1) grows_trans, metis follows_trans, metis order_trans)

lemma evolvesI:
  assumes "grows d d'" "sweeps_move d d'"
    and "\<And>chain a n. next_nonce chain a d = Some n \<Longrightarrow> \<exists>m \<ge> n. next_nonce chain a d' = Some m"
  shows "evolves d d'"
  using assms row_moves_follows unfolding evolves_def sweeps_move_def by blast

context ledger_tx
begin

lemma ledger_step: "system_ok d \<Longrightarrow> system_ok (state_after (run d) d) \<and> evolves d (state_after (run d) d)"
proof (cases "run d")
  case (Inr p)
  assume ok: "system_ok d"
  obtain a d' where run: "run d = Ok (a, d')" using Inr by (cases p) auto
  note frame = sweep_tables_ok[OF run_frame[OF run]]
  have "repo_ok d'" "grows d d'" using run_repo[OF run] run_grows[OF run] ok by (simp_all add: system_ok_def)
  moreover have "evolves d d'" by (rule evolvesI) (use \<open>grows d d'\<close> frame in auto)
  ultimately show ?thesis using ok frame(1) by (simp add: run state_after_def system_ok_def)
qed (simp add: state_after_def)

end

context sweep_tx
begin

lemma sweep_step: "system_ok d \<Longrightarrow> system_ok (state_after (run d) d) \<and> evolves d (state_after (run d) d)"
proof (cases "run d")
  case (Inr p)
  assume ok: "system_ok d"
  obtain a d' where run: "run d = Ok (a, d')" using Inr by (cases p) auto
  have "repo_ok d'" "grows d d'" using run_repo[OF run] run_grows[OF run] ok by (simp_all add: system_ok_def)
  moreover have "next_nonce chain a d' = next_nonce chain a d" for chain a
    using base_tables_fields(10)[OF run_base[OF run]] by (simp add: next_nonce_def)
  ultimately show ?thesis
    using ok run_sweep[OF run] by (simp add: run state_after_def system_ok_def evolvesI)
qed (simp add: state_after_def)

end

lemma reserve_step:
  assumes "system_ok d"
  shows "system_ok (state_after (reserve_nonce chain_id a pending d) d) \<and> evolves d (state_after (reserve_nonce chain_id a pending d) d)"
proof (cases "reserve_nonce chain_id a pending d")
  case (Inr p)
  obtain res d' where run: "reserve_nonce chain_id a pending d = Ok (res, d')" using Inr by (cases p) auto
  obtain k where eff: "next_nonce (uint chain_id) a d' = Some (k + 1)"
    "\<And>m. next_nonce (uint chain_id) a d = Some m \<Longrightarrow> m \<le> k"
    "\<And>key. key \<noteq> (uint chain_id, a) \<Longrightarrow> next_nonce (fst key) (snd key) d' = next_nonce (fst key) (snd key) d"
    using run by (rule reserve_nonce_effect) blast
  have "\<exists>m \<ge> n. next_nonce chain b d' = Some m" if "next_nonce chain b d = Some n" for chain b n
  proof (cases "(chain, b) = (uint chain_id, a)")
    case True
    then show ?thesis using eff(1) eff(2)[of n] that by auto
  next
    case False
    then show ?thesis using eff(3)[OF False] that by auto
  qed
  moreover have "repo_ok d'" "grows d d'" "sweep_ok d'" "sweeps_move d d'"
    using reserve_tx.run_repo[OF run] reserve_tx.run_grows[OF run] reserve_nonce_sweep[OF run] assms
    by (simp_all add: system_ok_def)
  ultimately show ?thesis by (simp add: run state_after_def system_ok_def evolvesI)
qed (use assms in \<open>simp add: state_after_def\<close>)

lemma execute_step:
  assumes "system_ok d"
  shows "system_ok (execute c d) \<and> evolves d (execute c d)"
  using assms
  by (cases c)
    (simp_all only: execute.simps claim_signed_collect_tx_for_broadcast_def claim_broadcast_collect_tx_for_receipt_def
      ledger_allocate.ledger_step ledger_create.ledger_step ledger_accept.ledger_step ledger_recompute.ledger_step
      ledger_expired.ledger_step ledger_claim.ledger_step ledger_commit.ledger_step ledger_confirm.ledger_step
      ledger_reorg.ledger_step ledger_verified.ledger_step ledger_audit.ledger_step create_collection_tx.sweep_step claim_job_tx.sweep_step
      attach_tx.sweep_step reserve_step insert_tx.sweep_step insert_collect.sweep_step replace_tx.sweep_step
      claim_outbound_tx.sweep_step broadcast_tx.sweep_step confirmed_tx.sweep_step failed_tx.sweep_step)

lemma tick_step:
  assumes "system_ok d"
  shows "system_ok (d\<lparr>db_now := t\<rparr>) \<and> evolves d (d\<lparr>db_now := t\<rparr>)"
proof -
  let ?d = "d\<lparr>db_now := t\<rparr>"
  have "base_tables ?d = (base_tables d)\<lparr>db_now := t\<rparr>" by (simp add: base_tables_def)
  have "order_settled ?d = order_settled d" by (rule totals_frame(3)) simp_all
  then have "repo_ok ?d"
    using assms by (simp add: system_ok_def repo_ok_def schema_ok_def keys_ok_def payments_ok_def ledger_ok_def windows_ok_def)
  moreover have "grows d ?d" by (rule identity_kept_grows) (simp add: identity_kept_def)
  ultimately show ?thesis
    using assms sweep_tables_ok[of ?d d] by (simp add: system_ok_def evolvesI)
qed

lemma reachable_evolves:
  assumes "system_step\<^sup>*\<^sup>* d d'" "system_ok d"
  shows "system_ok d' \<and> evolves d d'"
  using assms
proof (induction rule: rtranclp_induct)
  case (step e f)
  then have e: "system_ok e" "evolves d e" by blast+
  have "system_ok f \<and> evolves e f"
    using step.hyps(2) by (cases rule: system_stepE) (use execute_step tick_step e(1) in blast)+
  with e(2) evolves_trans show ?case by blast
qed simp

end
