(* ===== verification/Log_Store.thy ===== *)
theory Log_Store
  imports Payment_Matching
begin

text \<open>
  \<open>src/src/transfer_log_store\<close>: the store of transfer logs that the scanner fills from the
  chain, block range by block range, and that readers page through.  The chain is a record of
  its answers, fixed while one operation runs; the clock is an argument.  A \<open>BTreeMap\<close> is an
  association list in key order.
\<close>

section \<open>Ordered maps\<close>

fun btree_insert :: "'k::linorder \<Rightarrow> 'v \<Rightarrow> ('k \<times> 'v) list \<Rightarrow> ('k \<times> 'v) list" where
  "btree_insert k v [] = [(k, v)]"
| "btree_insert k v ((k', v') # m) =
     (if k < k' then (k, v) # (k', v') # m
      else if k = k' then (k, v) # m
      else (k', v') # btree_insert k v m)"

definition btree :: "('k::linorder \<times> 'v) list \<Rightarrow> bool" where
  "btree m \<longleftrightarrow> sorted_wrt (<) (map fst m)"

lemma map_of_btree_insert [simp]: "map_of (btree_insert k v m) = (map_of m)(k \<mapsto> v)"
  by (induction k v m rule: btree_insert.induct) auto

lemma keys_btree_insert [simp]: "fst ` set (btree_insert k v m) = insert k (fst ` set m)"
  by (induction k v m rule: btree_insert.induct) auto

lemma btree_insert_sorted [simp]: "btree m \<Longrightarrow> btree (btree_insert k v m)"
  unfolding btree_def
proof (induction k v m rule: btree_insert.induct)
  case (2 k v k' v' m)
  then show ?case by (auto dest: order.strict_trans simp flip: set_map) (force simp: image_iff)+
qed simp

lemma btree_filter [simp]: "btree m \<Longrightarrow> btree (filter p m)"
  by (simp add: btree_def sorted_wrt_map sorted_wrt_filter)

lemma btree_Nil [simp]: "btree []"
  by (simp add: btree_def)

lemma btree_distinct: "btree m \<Longrightarrow> distinct (map fst m)"
  by (simp add: btree_def strict_sorted_iff)

definition btree_of :: "('k::linorder \<times> 'v) list \<Rightarrow> ('k \<times> 'v) list" where
  "btree_of kvs = fold (\<lambda>(k, v). btree_insert k v) kvs []"

lemma btree_fold: "btree m \<Longrightarrow> btree (fold (\<lambda>(k, v). btree_insert k v) kvs m)"
  by (induction kvs arbitrary: m) auto

lemma btree_btree_of [simp]: "btree (btree_of kvs)"
  by (simp add: btree_of_def btree_fold)

lemma map_of_fold: "map_of (fold (\<lambda>(k, v). btree_insert k v) kvs m) = map_of m ++ map_of (rev kvs)"
proof (induction kvs arbitrary: m)
  case (Cons kv kvs)
  then show ?case by (cases kv) (simp add: map_add_def fun_eq_iff split: option.split)
qed simp

lemma map_of_btree_of [simp]: "map_of (btree_of kvs) = map_of (rev kvs)"
  by (simp add: btree_of_def map_of_fold)


section \<open>Types\<close>

text \<open>Page tokens are ordered by block, then by log index.\<close>

instantiation LogPageToken_ext :: (linorder) linorder
begin

definition less_eq_LogPageToken_ext :: "'a LogPageToken_scheme \<Rightarrow> 'a LogPageToken_scheme \<Rightarrow> bool" where
  "less_eq_LogPageToken_ext s t \<longleftrightarrow>
     (pt_block_number s, pt_log_index s, LogPageToken.more s) \<le> (pt_block_number t, pt_log_index t, LogPageToken.more t)"

definition less_LogPageToken_ext :: "'a LogPageToken_scheme \<Rightarrow> 'a LogPageToken_scheme \<Rightarrow> bool" where
  "less_LogPageToken_ext s t \<longleftrightarrow>
     (pt_block_number s, pt_log_index s, LogPageToken.more s) < (pt_block_number t, pt_log_index t, LogPageToken.more t)"

instance
proof
  fix s t u :: "'a LogPageToken_scheme"
  show "(s < t) = (s \<le> t \<and> \<not> t \<le> s)" unfolding less_LogPageToken_ext_def less_eq_LogPageToken_ext_def by (rule less_le_not_le)
  show "s \<le> s" unfolding less_eq_LogPageToken_ext_def by (rule order_refl)
  show "s \<le> u" if "s \<le> t" "t \<le> u" using that unfolding less_eq_LogPageToken_ext_def by (rule order_trans)
  show "s = t" if "s \<le> t" "t \<le> s"
    using order.antisym[OF that[unfolded less_eq_LogPageToken_ext_def]] by (simp add: LogPageToken.equality)
  show "s \<le> t \<or> t \<le> s" unfolding less_eq_LogPageToken_ext_def by (rule linear)
qed

end

datatype ScanTargetMode = SafeTag | FinalizedTag | LatestMinusConfirmations u64

datatype LogSourceKind = RpcRange | Indexer

record TransferLogStreamConfig =
  sc_chain_id :: u64
  sc_token_address :: EvmAddress
  sc_start_block :: u64
  sc_poll_interval_ms :: u64
  sc_batch_size_blocks :: u64
  sc_max_batch_size_blocks :: u64
  sc_max_logs_per_page :: nat
  sc_max_unique_to_addresses_per_batch :: nat
  sc_max_db_fallback_addresses :: nat
  sc_capacity_probe_blocks :: u64
  sc_reorg_lookback_blocks :: u64
  sc_target_mode :: ScanTargetMode
  sc_rpc_max_retries :: u32
  sc_log_source :: LogSourceKind
  sc_sparse_headers :: bool

record TransferLogCursor =
  tc_stream :: StreamId
  tc_start_block :: u64
  tc_next_block :: u64
  tc_last_completed_block :: "u64 option"
  tc_last_completed_hash :: "BlockHash option"
  tc_target_mode :: ScanTargetMode
  tc_reorg_epoch :: u64
  tc_last_reorg_from :: "u64 option"
  tc_last_reorg_at :: "timestamp option"
  tc_writer_epoch :: u64
  tc_updated_at :: timestamp

record StoredBlockHeader =
  sh_chain_id :: u64
  sh_token_address :: EvmAddress
  sh_block_number :: u64
  sh_block_hash :: BlockHash
  sh_parent_hash :: BlockHash
  sh_timestamp :: timestamp
  sh_scanned_at :: timestamp

record LogsPage =
  lp_stream :: StreamId
  lp_logs :: "StoredTransferLog list"
  lp_next_token :: "LogPageToken option"
  lp_complete_to_block :: "u64 option"

record StreamState =
  ss_stream :: StreamId
  ss_config :: TransferLogStreamConfig
  ss_cursor :: TransferLogCursor
  ss_created_at :: timestamp
  ss_updated_at :: timestamp

record RangeManifest =
  rm_from_block :: u64
  rm_to_block :: u64
  rm_log_count :: nat
  rm_writer_epoch :: u64
  rm_completed_at :: timestamp

record StreamData =
  sd_config :: TransferLogStreamConfig
  sd_state :: StreamState
  sd_cursor :: TransferLogCursor
  sd_headers :: "(u64 \<times> StoredBlockHeader) list"
  sd_logs :: "(LogPageToken \<times> StoredTransferLog) list"
  sd_range_manifests :: "RangeManifest list"

type_synonym StoreState = "(StreamId \<times> StreamData) list"

datatype TransferLogStoreError =
    StreamNotFound StreamId
  | StreamConfigConflict StreamId u64 u64
  | InvalidLimit string
  | NotReady string
  | DeepReorgDetected StreamId u64
  | StorageError string
  | StoreChain ChainError
  | StoreTypeZeroLimit string

datatype PollOutcome =
    PollIdle TransferLogCursor
  | PollAdvanced StreamId u64 u64 nat TransferLogCursor
  | PollRewound StreamId u64 TransferLogCursor

text \<open>The answers of \<open>ChainHeaderReader\<close> and \<open>TransferLogSource\<close>.\<close>

record chain_source =
  src_latest_head :: "ChainError + ChainBlockRef"
  src_safe_head :: "ChainError + ChainBlockRef"
  src_finalized_head :: "ChainError + ChainBlockRef"
  src_block_by_number :: "u64 \<Rightarrow> ChainError + ChainBlock"
  src_transfer_logs :: "TransferLogRange \<Rightarrow> ChainError + TransferLog list"

definition config_stream_id :: "TransferLogStreamConfig \<Rightarrow> StreamId" where
  "config_stream_id c = \<lparr>sid_chain_id = sc_chain_id c, sid_token_address = sc_token_address c\<rparr>"

text \<open>The existing and the requested start block when they differ.\<close>

definition identity_conflict :: "TransferLogStreamConfig \<Rightarrow> TransferLogStreamConfig \<Rightarrow> (StreamId \<times> u64 \<times> u64) option" where
  "identity_conflict c existing =
     (if config_stream_id c = config_stream_id existing \<and> sc_start_block c \<noteq> sc_start_block existing
      then Some (config_stream_id c, sc_start_block existing, sc_start_block c) else None)"

definition ensure_nonzero_log_limit :: "string \<Rightarrow> nat \<Rightarrow> TransferLogStoreError + unit" where
  "ensure_nonzero_log_limit field limit = (if limit = 0 then Err (StoreTypeZeroLimit field) else Ok ())"

definition validate_page_limits :: "TransferLogStreamConfig \<Rightarrow> TransferLogStoreError + unit" where
  "validate_page_limits c =
     bindE (ensure_nonzero_log_limit ''max_logs_per_page'' (sc_max_logs_per_page c)) (\<lambda>_.
     bindE (ensure_nonzero_log_limit ''max_unique_to_addresses_per_batch'' (sc_max_unique_to_addresses_per_batch c)) (\<lambda>_.
     bindE (ensure_nonzero_log_limit ''max_db_fallback_addresses'' (sc_max_db_fallback_addresses c)) (\<lambda>_.
     Ok ())))"

definition cursor_initial :: "TransferLogStreamConfig \<Rightarrow> u64 \<Rightarrow> timestamp \<Rightarrow> TransferLogCursor" where
  "cursor_initial c writer_epoch now =
     \<lparr>tc_stream = config_stream_id c, tc_start_block = sc_start_block c, tc_next_block = sc_start_block c,
      tc_last_completed_block = None, tc_last_completed_hash = None, tc_target_mode = sc_target_mode c,
      tc_reorg_epoch = 0, tc_last_reorg_from = None, tc_last_reorg_at = None, tc_writer_epoch = writer_epoch,
      tc_updated_at = now\<rparr>"

definition record_rewind :: "u64 \<Rightarrow> u64 \<Rightarrow> timestamp \<Rightarrow> TransferLogCursor \<Rightarrow> TransferLogCursor" where
  "record_rewind rewind_to_block writer_epoch now c =
     c\<lparr>tc_reorg_epoch := saturating_add (tc_reorg_epoch c) 1, tc_last_reorg_from := Some rewind_to_block,
       tc_last_reorg_at := Some now, tc_next_block := rewind_to_block,
       tc_last_completed_block := checked_sub rewind_to_block 1, tc_last_completed_hash := None,
       tc_writer_epoch := writer_epoch, tc_updated_at := now\<rparr>"

definition page_token :: "StoredTransferLog \<Rightarrow> LogPageToken" where
  "page_token l = \<lparr>pt_block_number = sl_block_number l, pt_log_index = sl_log_index l\<rparr>"

definition is_after_token :: "StoredTransferLog \<Rightarrow> LogPageToken \<Rightarrow> bool" where
  "is_after_token l t \<longleftrightarrow> t < page_token l"


section \<open>Reading from the chain\<close>

definition effective_batch_size :: "TransferLogStreamConfig \<Rightarrow> u64" where
  "effective_batch_size c =
     (let requested = max (sc_batch_size_blocks c) 1 in
      if sc_max_batch_size_blocks c = 0 then requested else min requested (sc_max_batch_size_blocks c))"

definition transfer_log_capacity_limits :: "TransferLogStreamConfig \<Rightarrow> TransferLogCapacityLimits" where
  "transfer_log_capacity_limits c =
     \<lparr>cl_max_logs = sc_max_logs_per_page c, cl_max_logs_per_block = sc_max_logs_per_page c\<rparr>"

definition transfer_log_capacity_report ::
  "TransferLogRange \<Rightarrow> TransferLogCapacityLimits \<Rightarrow> TransferLog list \<Rightarrow> TransferLogCapacityReport" where
  "transfer_log_capacity_report r limits logs =
     \<lparr>cr_range = r, cr_log_count = length logs, cr_max_logs_in_single_block = max_logs_in_single_block logs,
      cr_limits = limits\<rparr>"

definition ascii_lower :: "char \<Rightarrow> char" where
  "ascii_lower c = (let n = (of_char c :: nat) in if 65 \<le> n \<and> n \<le> 90 then char_of (n + 32) else c)"

primrec str_contains :: "string \<Rightarrow> string \<Rightarrow> bool" where
  "str_contains needle [] \<longleftrightarrow> needle = []"
| "str_contains needle (c # cs) \<longleftrightarrow> take (length needle) (c # cs) = needle \<or> str_contains needle cs"

definition message_indicates_range_or_result_limit :: "string \<Rightarrow> bool" where
  "message_indicates_range_or_result_limit message =
     (let m = map ascii_lower message in
      list_ex (\<lambda>needle. str_contains needle m)
        [''block range'', ''range exceeds'', ''range too large'', ''too many results'',
         ''query returned more than'', ''response size'', ''payload too large'', ''result limit'',
         ''limit exceeded'', ''exceeds fake limit''])"

definition should_reduce_batch_on_error :: "ChainError \<Rightarrow> bool" where
  "should_reduce_batch_on_error e =
     (case e of
        CapacityExceeded _ _ \<Rightarrow> True
      | RpcUnavailable m \<Rightarrow> message_indicates_range_or_result_limit m
      | MalformedRpcResponse m \<Rightarrow> message_indicates_range_or_result_limit m
      | _ \<Rightarrow> False)"

definition chainE :: "ChainError + 'a \<Rightarrow> TransferLogStoreError + 'a" where
  "chainE m = map_errE StoreChain m"

text \<open>The end of the range after halving its block count.\<close>

definition block_count :: "u64 \<Rightarrow> u64 \<Rightarrow> u64" where
  "block_count from_block to_block = saturating_add (saturating_sub to_block from_block) 1"

definition halved_end :: "u64 \<Rightarrow> u64 \<Rightarrow> u64" where
  "halved_end from_block n = saturating_add from_block (saturating_sub (max (n div 2) 1) 1)"

lemma unat_block_count: "unat (block_count f t) = min (unat t - unat f + 1) (2 ^ 64 - 1)"
  by (simp add: block_count_def unat_saturating_add unat_saturating_sub)

lemma halved_end_smaller:
  assumes "1 < block_count f t"
  shows "unat (halved_end f (block_count f t)) - unat f < unat t - unat f"
proof -
  let ?n = "unat (block_count f t)"
  have "unat (block_count f t div 2) = ?n div 2" by (simp add: unat_div)
  moreover have n: "1 < ?n" using assms by (simp add: word_less_nat_alt)
  moreover have "1 \<le> ?n div 2" using n by presburger
  ultimately have "unat (max (block_count f t div 2) 1) = ?n div 2" by (simp add: max_def word_le_nat_alt)
  then have "unat (halved_end f (block_count f t)) \<le> unat f + (?n div 2 - 1)"
    by (simp add: halved_end_def unat_saturating_add unat_saturating_sub)
  with n show ?thesis by (simp add: unat_block_count)
qed

function fetch_loop ::
  "chain_source \<Rightarrow> TransferLogStreamConfig \<Rightarrow> u64 \<Rightarrow> u64 \<Rightarrow> TransferLogStoreError + (u64 \<times> TransferLog list)" where
  "fetch_loop src c from_block to_block =
     (let range = range_new (sc_chain_id c) (sc_token_address c) from_block to_block;
          blocks = block_count from_block to_block in
      case src_transfer_logs src range of
        Inl e \<Rightarrow>
          if should_reduce_batch_on_error e \<and> 1 < blocks
          then fetch_loop src c from_block (halved_end from_block blocks)
          else Err (StoreChain e)
      | Inr logs \<Rightarrow>
          let report = transfer_log_capacity_report range (transfer_log_capacity_limits c) logs in
          if is_within_limits report then Ok (to_block, logs)
          else if blocks \<le> 1
          then Err (NotReady (''transfer log capacity exceeded for block '' @ show_nat (unat from_block) @ '': ''
                 @ show_nat (cr_log_count report) @ '' logs, max '' @ show_nat (cl_max_logs (cr_limits report))))
          else fetch_loop src c from_block (halved_end from_block blocks))"
  by pat_completeness auto
termination
  by (relation "measure (\<lambda>(_, _, f, t). unat t - unat f)") (auto simp: not_le intro: halved_end_smaller)

declare fetch_loop.simps [simp del]

definition fetch_logs_with_adaptive_range ::
  "chain_source \<Rightarrow> TransferLogStreamConfig \<Rightarrow> u64 \<Rightarrow> u64 \<Rightarrow> TransferLogStoreError + (u64 \<times> TransferLog list)" where
  "fetch_logs_with_adaptive_range src c from_block target =
     fetch_loop src c from_block
       (min (saturating_add from_block (saturating_sub (effective_batch_size c) 1)) target)"

text \<open>The block numbers \<open>from..=to\<close>.\<close>

definition block_range :: "u64 \<Rightarrow> u64 \<Rightarrow> u64 list" where
  "block_range from_block to_block = map of_nat [unat from_block ..< Suc (unat to_block)]"

definition add_header ::
  "chain_source \<Rightarrow> (u64 \<times> ChainBlock) list \<Rightarrow> u64 \<Rightarrow> TransferLogStoreError + (u64 \<times> ChainBlock) list" where
  "add_header src m n =
     (if map_of m n \<noteq> None then Ok m
      else bindE (chainE (src_block_by_number src n)) (\<lambda>b. Ok (btree_insert n b m)))"

definition headers_for_batch ::
  "chain_source \<Rightarrow> TransferLogStreamConfig \<Rightarrow> TransferLog list \<Rightarrow> u64 \<Rightarrow> u64 \<Rightarrow> TransferLogStoreError + ChainBlock list" where
  "headers_for_batch src c logs from_block to_block =
     (let of_logs = btree_of (map (\<lambda>l. (blk_number (tl_block l), tl_block l)) logs);
          wanted = (if sc_sparse_headers c
             then map fst (btree_insert to_block () (btree_of (map (\<lambda>l. (blk_number (tl_block l), ())) logs)))
             else block_range from_block to_block) in
      mapE (map snd) (foldE (add_header src) of_logs wanted))"

definition resolve_target :: "chain_source \<Rightarrow> TransferLogStreamConfig \<Rightarrow> TransferLogStoreError + u64" where
  "resolve_target src c =
     (case sc_target_mode c of
        SafeTag \<Rightarrow> mapE cb_number (chainE (src_safe_head src))
      | FinalizedTag \<Rightarrow> mapE cb_number (chainE (src_finalized_head src))
      | LatestMinusConfirmations confirmations \<Rightarrow>
          bindE (chainE (src_latest_head src)) (\<lambda>latest.
          if cb_number latest < confirmations then Ok 0 else Ok (cb_number latest - confirmations)))"


section \<open>Writing the store\<close>

definition stored_header :: "u64 \<Rightarrow> EvmAddress \<Rightarrow> ChainBlock \<Rightarrow> timestamp \<Rightarrow> StoredBlockHeader" where
  "stored_header chain_id token b scanned_at =
     \<lparr>sh_chain_id = chain_id, sh_token_address = token, sh_block_number = blk_number b, sh_block_hash = blk_hash b,
      sh_parent_hash = blk_parent_hash b, sh_timestamp = blk_timestamp b, sh_scanned_at = scanned_at\<rparr>"

definition stored_log :: "TransferLog \<Rightarrow> timestamp \<Rightarrow> timestamp \<Rightarrow> StoredTransferLog" where
  "stored_log l block_timestamp observed_at =
     \<lparr>sl_chain_id = tl_chain_id l, sl_token_address = tl_token_address l, sl_block_number = blk_number (tl_block l),
      sl_block_hash = blk_hash (tl_block l), sl_block_timestamp = block_timestamp, sl_tx_hash = tl_tx_hash l,
      sl_tx_index = None, sl_log_index = tl_log_index l, sl_from_address = tl_from_address l,
      sl_to_address = tl_to_address l, sl_amount_raw = tl_amount_raw l, sl_removed = False,
      sl_observed_at = observed_at\<rparr>"

definition set_cursor :: "TransferLogCursor \<Rightarrow> timestamp \<Rightarrow> StreamData \<Rightarrow> StreamData" where
  "set_cursor cur now d =
     d\<lparr>sd_cursor := cur, sd_state := (sd_state d)\<lparr>ss_cursor := cur, ss_updated_at := now\<rparr>\<rparr>"

definition apply_rewind :: "u64 \<Rightarrow> timestamp \<Rightarrow> StreamData \<Rightarrow> StreamData" where
  "apply_rewind from_block now d =
     set_cursor (record_rewind from_block (tc_writer_epoch (sd_cursor d)) now (sd_cursor d)) now
       (d\<lparr>sd_headers := filter (\<lambda>(b, _). b < from_block) (sd_headers d),
          sd_logs := filter (\<lambda>(_, l). sl_block_number l < from_block) (sd_logs d),
          sd_range_manifests := filter (\<lambda>r. rm_to_block r < from_block) (sd_range_manifests d)\<rparr>)"

definition apply_retention_cleanup :: "u64 \<Rightarrow> timestamp \<Rightarrow> StreamData \<Rightarrow> StreamData" where
  "apply_retention_cleanup floor_block now d =
     set_cursor (sd_cursor d) now
       (d\<lparr>sd_headers := filter (\<lambda>(b, _). floor_block \<le> b) (sd_headers d),
          sd_logs := filter (\<lambda>(_, l). floor_block \<le> sl_block_number l) (sd_logs d),
          sd_range_manifests := filter (\<lambda>r. floor_block \<le> rm_to_block r) (sd_range_manifests d)\<rparr>)"

definition find_stream :: "StreamId \<Rightarrow> StoreState \<Rightarrow> TransferLogStoreError + StreamData" where
  "find_stream stream s = ok_or (map_of s stream) (StreamNotFound stream)"

definition prune_before_block :: "timestamp \<Rightarrow> StreamId \<Rightarrow> u64 \<Rightarrow> StoreState \<Rightarrow> StoreState" where
  "prune_before_block now stream floor_block s =
     (case map_of s stream of None \<Rightarrow> s
      | Some d \<Rightarrow> map_insert stream (apply_retention_cleanup floor_block now d) s)"

definition rewind_to ::
  "timestamp \<Rightarrow> StreamId \<Rightarrow> u64 \<Rightarrow> StoreState \<Rightarrow> TransferLogStoreError + StoreState" where
  "rewind_to now stream block s =
     bindE (find_stream stream s) (\<lambda>d.
     Ok (map_insert stream (apply_rewind (max block (sc_start_block (sd_config d))) now d) s))"

definition ensure_stream ::
  "timestamp \<Rightarrow> TransferLogStreamConfig \<Rightarrow> StoreState \<Rightarrow> TransferLogStoreError + (StreamState \<times> StoreState)" where
  "ensure_stream now c s =
     bindE (validate_page_limits c) (\<lambda>_.
     let stream = config_stream_id c in
     case map_of s stream of
       Some existing \<Rightarrow>
         (case identity_conflict c (sd_config existing) of
            Some (st, e, r) \<Rightarrow> Err (StreamConfigConflict st e r)
          | None \<Rightarrow>
              let d = existing\<lparr>sd_config := c, sd_state := (sd_state existing)\<lparr>ss_updated_at := now\<rparr>\<rparr> in
              Ok (sd_state d, map_insert stream d s))
     | None \<Rightarrow>
         let cur = cursor_initial c 1 now;
             st = \<lparr>ss_stream = stream, ss_config = c, ss_cursor = cur, ss_created_at = now, ss_updated_at = now\<rparr> in
         Ok (st, map_insert stream
               \<lparr>sd_config = c, sd_state = st, sd_cursor = cur, sd_headers = [], sd_logs = [], sd_range_manifests = []\<rparr> s))"

text \<open>\<open>detect_reorg\<close>: the first block of the lookback whose stored hash is not the chain's, if the tip moved.\<close>

fun first_diverged :: "chain_source \<Rightarrow> StreamData \<Rightarrow> u64 \<Rightarrow> u64 list \<Rightarrow> TransferLogStoreError + u64" where
  "first_diverged src d tip [] = Ok tip"
| "first_diverged src d tip (n # ns) =
     bindE (chainE (src_block_by_number src n)) (\<lambda>b.
     if map_option sh_block_hash (map_of (sd_headers d) n) \<noteq> Some (blk_hash b) then Ok n
     else first_diverged src d tip ns)"

definition reorg_floor :: "TransferLogStreamConfig \<Rightarrow> u64 \<Rightarrow> u64" where
  "reorg_floor c tip =
     max (saturating_sub tip (saturating_sub (sc_reorg_lookback_blocks c) 1)) (sc_start_block c)"

definition detect_reorg :: "chain_source \<Rightarrow> StreamData \<Rightarrow> TransferLogStoreError + u64 option" where
  "detect_reorg src d =
     (case (tc_last_completed_block (sd_cursor d), tc_last_completed_hash (sd_cursor d)) of
        (Some tip, Some hash) \<Rightarrow>
          bindE (chainE (src_block_by_number src tip)) (\<lambda>current.
          if blk_hash current = hash then Ok None
          else mapE Some (first_diverged src d tip (block_range (reorg_floor (sd_config d) tip) tip)))
      | _ \<Rightarrow> Ok None)"

text \<open>The writes of a poll: headers, then the logs whose block hash is the header's.\<close>

definition canonical_log :: "(u64 \<times> ChainBlock) list \<Rightarrow> TransferLog \<Rightarrow> bool" where
  "canonical_log headers l \<longleftrightarrow> map_option blk_hash (map_of headers (blk_number (tl_block l))) = Some (blk_hash (tl_block l))"

definition stored_of :: "(u64 \<times> ChainBlock) list \<Rightarrow> timestamp \<Rightarrow> TransferLog \<Rightarrow> StoredTransferLog" where
  "stored_of headers now l = stored_log l (blk_timestamp (the (map_of headers (blk_number (tl_block l))))) now"

definition advance_stream ::
  "timestamp \<Rightarrow> u64 \<Rightarrow> u64 \<Rightarrow> ChainBlock list \<Rightarrow> TransferLog list \<Rightarrow> StreamData \<Rightarrow> StreamData \<times> nat" where
  "advance_stream now from_block to_block headers logs d =
     (let by_number = btree_of (map (\<lambda>b. (blk_number b, b)) headers);
          kept = filter (canonical_log by_number) logs;
          hash = (case map_of by_number to_block of None \<Rightarrow> 0 | Some b \<Rightarrow> blk_hash b);
          cur = (sd_cursor d)\<lparr>tc_next_block := saturating_add to_block 1, tc_last_completed_block := Some to_block,
                   tc_last_completed_hash := Some hash, tc_updated_at := now\<rparr> in
      (set_cursor cur now
         (d\<lparr>sd_headers := fold (\<lambda>b. btree_insert (blk_number b)
                (stored_header (sc_chain_id (sd_config d)) (sc_token_address (sd_config d)) b now)) headers (sd_headers d),
            sd_logs := fold (\<lambda>l. btree_insert (page_token (stored_of by_number now l)) (stored_of by_number now l)) kept (sd_logs d),
            sd_range_manifests := sd_range_manifests d @
              [\<lparr>rm_from_block = from_block, rm_to_block = to_block, rm_log_count = length kept,
                rm_writer_epoch = tc_writer_epoch (sd_cursor d), rm_completed_at = now\<rparr>]\<rparr>),
       length kept))"

definition poll_once ::
  "chain_source \<Rightarrow> timestamp \<Rightarrow> StreamId \<Rightarrow> StoreState \<Rightarrow> TransferLogStoreError + (PollOutcome \<times> StoreState)" where
  "poll_once src now stream s =
     bindE (find_stream stream s) (\<lambda>d.
     bindE (detect_reorg src d) (\<lambda>reorg.
     case reorg of
       Some block \<Rightarrow>
         let d1 = apply_rewind block now d in
         Ok (PollRewound stream block (sd_cursor d1), map_insert stream d1 s)
     | None \<Rightarrow>
         let c = sd_config d; from_block = tc_next_block (sd_cursor d) in
         bindE (resolve_target src c) (\<lambda>target.
         if target < from_block then Ok (PollIdle (sd_cursor d), s)
         else
           bindE (fetch_logs_with_adaptive_range src c from_block target) (\<lambda>(to_block, logs).
           bindE (headers_for_batch src c logs from_block to_block) (\<lambda>headers.
           let (d1, n) = advance_stream now from_block to_block headers logs d in
           Ok (PollAdvanced stream from_block to_block n (sd_cursor d1), map_insert stream d1 s))))))"


section \<open>Reading the store\<close>

definition cursor_scan_lag :: "TransferLogCursor \<Rightarrow> u64 \<Rightarrow> u64" where
  "cursor_scan_lag cur target =
     saturating_sub target
       (case tc_last_completed_block cur of None \<Rightarrow> saturating_sub (tc_start_block cur) 1 | Some b \<Rightarrow> b)"

definition lag_blocks :: "chain_source \<Rightarrow> StreamId \<Rightarrow> StoreState \<Rightarrow> TransferLogStoreError + u64" where
  "lag_blocks src stream s =
     bindE (find_stream stream s) (\<lambda>d.
     mapE (cursor_scan_lag (sd_cursor d)) (resolve_target src (sd_config d)))"

definition stream_cursor :: "StreamId \<Rightarrow> StoreState \<Rightarrow> TransferLogStoreError + TransferLogCursor" where
  "stream_cursor stream s = mapE sd_cursor (find_stream stream s)"

definition block_header :: "StreamId \<Rightarrow> u64 \<Rightarrow> StoreState \<Rightarrow> TransferLogStoreError + StoredBlockHeader option" where
  "block_header stream block s = mapE (\<lambda>d. map_of (sd_headers d) block) (find_stream stream s)"

definition logs_in_range ::
  "StreamId \<Rightarrow> u64 \<Rightarrow> u64 \<Rightarrow> nat \<Rightarrow> StoreState \<Rightarrow> TransferLogStoreError + StoredTransferLog list" where
  "logs_in_range stream from_block to_block max_logs s =
     (if max_logs = 0 then Err (InvalidLimit ''max_logs'')
      else mapE (\<lambda>d. take max_logs
             (filter (\<lambda>l. from_block \<le> sl_block_number l \<and> sl_block_number l \<le> to_block) (map snd (sd_logs d))))
           (find_stream stream s))"

text \<open>The loop of \<open>logs_page\<close>: skip what is not after the token, stop at the limit.\<close>

fun page_loop ::
  "LogPageToken option \<Rightarrow> nat \<Rightarrow> (LogPageToken \<times> StoredTransferLog) list \<Rightarrow> StoredTransferLog list \<Rightarrow> StoredTransferLog list" where
  "page_loop after limit [] acc = acc"
| "page_loop after limit ((t, l) # m) acc =
     (if (case after of None \<Rightarrow> False | Some a \<Rightarrow> t \<le> a) then page_loop after limit m acc
      else if length acc = limit then acc
      else page_loop after limit m (acc @ [l]))"

definition last_opt :: "'a list \<Rightarrow> 'a option" where
  "last_opt xs = (if xs = [] then None else Some (last xs))"

definition complete_to_block :: "StoredTransferLog list \<Rightarrow> StreamData \<Rightarrow> bool \<Rightarrow> u64 option" where
  "complete_to_block logs d has_more =
     (case last_opt logs of
        None \<Rightarrow> None
      | Some l \<Rightarrow>
          if \<not> has_more then Some (sl_block_number l)
          else (case filter (\<lambda>(t, _). page_token l < t) (sd_logs d) of
                  (_, next_log) # _ \<Rightarrow>
                    if sl_block_number next_log = sl_block_number l then checked_sub (sl_block_number l) 1
                    else Some (sl_block_number l)
                | [] \<Rightarrow> Some (sl_block_number l)))"

definition logs_page ::
  "StreamId \<Rightarrow> LogPageToken option \<Rightarrow> nat \<Rightarrow> StoreState \<Rightarrow> TransferLogStoreError + LogsPage" where
  "logs_page stream after limit s =
     (if limit = 0 then Err (InvalidLimit ''limit'')
      else
        bindE (find_stream stream s) (\<lambda>d.
        let logs = page_loop after limit (sd_logs d) [];
            next_token = map_option page_token (last_opt logs);
            has_more = (case next_token of None \<Rightarrow> False | Some t \<Rightarrow> list_ex (\<lambda>(k, _). t < k) (sd_logs d)) in
        Ok \<lparr>lp_stream = stream, lp_logs = logs, lp_next_token = next_token,
            lp_complete_to_block = complete_to_block logs d has_more\<rparr>))"

end
