(* ===== verification/Log_Store_Props.thy ===== *)
theory Log_Store_Props
  imports Log_Store
begin

text \<open>
  What readers of the transfer log store rely on: the adaptive range query terminates and
  loses no block, a poll stores exactly the chain's logs, a rewind drops exactly the
  blocks that may have changed, and paging visits every stored log once.
\<close>

section \<open>The adaptive range query\<close>

lemma saturating_add_ge: "x \<le> saturating_add x y" for x y :: u64
proof -
  have "unat x < 2 ^ LENGTH(64)" by (rule unsigned_less)
  then show ?thesis by (simp add: word_le_nat_alt unat_saturating_add)
qed

lemma halved_end_ge: "f \<le> halved_end f n"
  unfolding halved_end_def by (rule saturating_add_ge)

lemma halved_end_le:
  assumes "f \<le> t" "1 < block_count f t"
  shows "halved_end f (block_count f t) \<le> t"
proof -
  have "unat (halved_end f (block_count f t)) - unat f < unat t - unat f"
    using assms(2) by (rule halved_end_smaller)
  then show ?thesis by (simp add: word_le_nat_alt)
qed

lemma fetch_loop_Ok:
  assumes "fetch_loop src c f t = Ok (t', logs)" "f \<le> t"
  shows "f \<le> t' \<and> t' \<le> t \<and> length logs \<le> sc_max_logs_per_page c \<and>
    src_transfer_logs src (range_new (sc_chain_id c) (sc_token_address c) f t') = Ok logs"
  using assms
proof (induction src c f t rule: fetch_loop.induct)
  case (1 src c f t)
  let ?range = "range_new (sc_chain_id c) (sc_token_address c) f t"
  have down: "1 < block_count f t \<Longrightarrow> halved_end f (block_count f t) \<le> t" using halved_end_le[OF "1.prems"(2)] .
  show ?case
  proof (cases "src_transfer_logs src ?range")
    case (Inl e)
    then have red: "should_reduce_batch_on_error e \<and> 1 < block_count f t"
      and run: "fetch_loop src c f (halved_end f (block_count f t)) = Ok (t', logs)"
      using "1.prems"(1) by (simp_all add: fetch_loop.simps[of src c f t] Let_def split: if_split_asm)
    from "1.IH"(1)[OF refl refl Inl red run halved_end_ge] down red show ?thesis using order.trans by blast
  next
    case (Inr ls)
    let ?report = "transfer_log_capacity_report ?range (transfer_log_capacity_limits c) ls"
    show ?thesis
    proof (cases "is_within_limits ?report")
      case True
      then have "t' = t" "logs = ls" using "1.prems"(1) Inr by (simp_all add: fetch_loop.simps[of src c f t] Let_def)
      with True Inr "1.prems"(2) show ?thesis
        by (simp add: is_within_limits_def transfer_log_capacity_report_def transfer_log_capacity_limits_def)
    next
      case False
      then have red: "\<not> block_count f t \<le> 1"
        and run: "fetch_loop src c f (halved_end f (block_count f t)) = Ok (t', logs)"
        using "1.prems"(1) Inr by (simp_all add: fetch_loop.simps[of src c f t] Let_def split: if_split_asm)
      from "1.IH"(2)[OF refl refl Inr refl False red run halved_end_ge] down red show ?thesis
        using order.trans by (simp add: not_le) blast
    qed
  qed
qed

lemma effective_batch_positive: "0 < effective_batch_size c"
  by (auto simp: effective_batch_size_def Let_def max_def min_def word_gt_0 word_le_nat_alt)

lemma fetch_adaptive_Ok:
  assumes "fetch_logs_with_adaptive_range src c f target = Ok (t, logs)" "f \<le> target"
  shows "f \<le> t \<and> t \<le> target \<and> src_transfer_logs src (range_new (sc_chain_id c) (sc_token_address c) f t) = Ok logs"
proof -
  let ?e = "min (saturating_add f (saturating_sub (effective_batch_size c) 1)) target"
  have "f \<le> ?e" using assms(2) saturating_add_ge by simp
  from fetch_loop_Ok[OF assms(1)[unfolded fetch_logs_with_adaptive_range_def] this] show ?thesis by auto
qed


section \<open>An honest source\<close>

text \<open>
  The chain during a poll: its canonical logs, its blocks, and answers that agree with them.
  This is what the documentation of a JSON-RPC provider promises for one canonical view.
\<close>

definition honest_source :: "chain_source \<Rightarrow> TransferLog list \<Rightarrow> (u64 \<Rightarrow> ChainBlock) \<Rightarrow> bool" where
  "honest_source src canonical blocks \<longleftrightarrow>
     (\<forall>r ls. src_transfer_logs src r = Ok ls \<longrightarrow> ls = sort_logs (filter (range_selects r) canonical)) \<and>
     (\<forall>n b. src_block_by_number src n = Ok b \<longrightarrow> b = blocks n) \<and> (\<forall>n. blk_number (blocks n) = n) \<and>
     (\<forall>l \<in> set canonical. tl_block l = blocks (blk_number (tl_block l))) \<and>
     (\<forall>l \<in> set canonical. \<forall>l' \<in> set canonical.
        tl_chain_id l = tl_chain_id l' \<and> tl_token_address l = tl_token_address l' \<and> log_position l = log_position l' \<longrightarrow> l = l')"

lemma honest_block: "honest_source src canonical blocks \<Longrightarrow> l \<in> set canonical \<Longrightarrow> tl_block l = blocks (blk_number (tl_block l))"
  by (simp add: honest_source_def)

lemma honest_number: "honest_source src canonical blocks \<Longrightarrow> blk_number (blocks n) = n"
  by (simp add: honest_source_def)

lemma honest_logs:
  "honest_source src canonical blocks \<Longrightarrow> src_transfer_logs src r = Ok ls \<Longrightarrow>
    ls = sort_logs (filter (range_selects r) canonical)"
  by (simp add: honest_source_def)

text \<open>The in-memory client is such a source, when its blocks are filed under their numbers and its logs carry them.\<close>

definition fake_view :: "FakeChainState \<Rightarrow> chain_source" where
  "fake_view s =
     \<lparr>src_latest_head = fst (fake_latest_head s), src_safe_head = fst (fake_safe_head s),
      src_finalized_head = fst (fake_finalized_head s), src_block_by_number = (\<lambda>n. fst (fake_block_by_number n s)),
      src_transfer_logs = (\<lambda>r. fst (fake_transfer_logs r s))\<rparr>"

definition fake_block :: "FakeChainState \<Rightarrow> u64 \<Rightarrow> ChainBlock" where
  "fake_block s n = (case map_of (fc_blocks s) n of Some b \<Rightarrow> b
     | None \<Rightarrow> \<lparr>blk_number = n, blk_hash = 0, blk_parent_hash = 0, blk_timestamp = 0\<rparr>)"

lemma fake_view_honest:
  assumes "\<forall>(n, b) \<in> set (fc_blocks s). blk_number b = n"
    "\<forall>l \<in> set (fake_canonical s). map_of (fc_blocks s) (blk_number (tl_block l)) = Some (tl_block l)"
    "distinct (map log_position (fake_canonical s))"
  shows "honest_source (fake_view s) (fake_canonical s) (fake_block s)"
proof -
  have "blk_number (fake_block s n) = n" for n
    using assms(1) by (auto simp: fake_block_def split: option.split dest: map_of_SomeD)
  moreover have "b = fake_block s n" if "src_block_by_number (fake_view s) n = Ok b" for n b
    using that by (auto simp: fake_view_def fake_block_by_number_def fake_block_def fake_call_def Let_def elim!: bindE_OkE
        split: option.split_asm)
  moreover have "tl_block l = fake_block s (blk_number (tl_block l))" if "l \<in> set (fake_canonical s)" for l
    using assms(2) that by (simp add: fake_block_def)
  moreover have "ls = sort_logs (filter (range_selects r) (fake_canonical s))" if "src_transfer_logs (fake_view s) r = Ok ls" for r ls
    using that by (simp add: fake_view_def fake_transfer_logs_exact)
  ultimately show ?thesis
    using assms(3) unfolding honest_source_def distinct_map inj_on_def by blast
qed

definition of_stream :: "StreamId \<Rightarrow> TransferLog \<Rightarrow> bool" where
  "of_stream stream l \<longleftrightarrow> tl_chain_id l = sid_chain_id stream \<and> tl_token_address l = sid_token_address stream"

definition log_token :: "TransferLog \<Rightarrow> LogPageToken" where
  "log_token l = \<lparr>pt_block_number = blk_number (tl_block l), pt_log_index = tl_log_index l\<rparr>"

text \<open>A stored log without the time it was observed.\<close>

definition same_log :: "TransferLog \<Rightarrow> StoredTransferLog \<Rightarrow> bool" where
  "same_log l x \<longleftrightarrow> (\<exists>now. x = stored_log l (blk_timestamp (tl_block l)) now)"

definition scanned :: "StreamId \<Rightarrow> StreamData \<Rightarrow> TransferLog \<Rightarrow> bool" where
  "scanned stream d l \<longleftrightarrow>
     of_stream stream l \<and> sc_start_block (sd_config d) \<le> blk_number (tl_block l) \<and>
     blk_number (tl_block l) < tc_next_block (sd_cursor d)"

text \<open>The store holds the canonical logs of the scanned blocks, each under its position, and nothing else.\<close>

definition store_exact :: "StreamId \<Rightarrow> TransferLog list \<Rightarrow> StreamData \<Rightarrow> bool" where
  "store_exact stream canonical d \<longleftrightarrow>
     btree (sd_logs d) \<and> sc_start_block (sd_config d) \<le> tc_next_block (sd_cursor d) \<and>
     config_stream_id (sd_config d) = stream \<and>
     (\<forall>k x. map_of (sd_logs d) k = Some x \<longrightarrow> (\<exists>l \<in> set canonical. scanned stream d l \<and> log_token l = k \<and> same_log l x)) \<and>
     (\<forall>l \<in> set canonical. scanned stream d l \<longrightarrow> (\<exists>x. map_of (sd_logs d) (log_token l) = Some x \<and> same_log l x))"

lemma set_btree_insert: "set (btree_insert k v m) \<subseteq> insert (k, v) (set m)"
  by (induction k v m rule: btree_insert.induct) auto

lemma set_btree_of: "set (btree_of kvs) \<subseteq> set kvs"
proof -
  have "set (fold (\<lambda>(k, v). btree_insert k v) kvs m) \<subseteq> set kvs \<union> set m" for m
  proof (induction kvs arbitrary: m)
    case (Cons kv kvs)
    obtain k v where [simp]: "kv = (k, v)" by (cases kv)
    show ?case using Cons[of "btree_insert k v m"] set_btree_insert[of k v m] by auto
  qed simp
  from this[of "[]"] show ?thesis by (simp add: btree_of_def)
qed

lemma keys_btree_of: "fst ` set (btree_of kvs) = fst ` set kvs"
proof -
  have "fst ` set (fold (\<lambda>(k, v). btree_insert k v) kvs m) = fst ` set kvs \<union> fst ` set m" for m
  proof (induction kvs arbitrary: m)
    case (Cons kv kvs)
    then show ?case by (cases kv) (simp only: fold_simps prod.case keys_btree_insert comp_def list.set image_insert fst_conv Un_insert_left Un_insert_right)
  qed simp
  from this[of "[]"] show ?thesis by (simp add: btree_of_def)
qed

lemma map_of_fold_insert:
  "map_of (fold (\<lambda>x. btree_insert (k x) (v x)) xs m) = map_of m ++ map_of (rev (map (\<lambda>x. (k x, v x)) xs))"
  using map_of_fold[of "map (\<lambda>x. (k x, v x)) xs" m] by (simp add: fold_map comp_def)

lemma btree_fold_insert: "btree m \<Longrightarrow> btree (fold (\<lambda>x. btree_insert (k x) (v x)) xs m)"
  by (induction xs arbitrary: m) simp_all

lemma add_headers_Ok:
  assumes "foldE (add_header src) m ns = Ok m'" "honest_source src canonical blocks" "\<forall>(n, b) \<in> set m. b = blocks n"
  shows "(\<forall>(n, b) \<in> set m'. b = blocks n) \<and> fst ` set m \<union> set ns \<subseteq> fst ` set m'"
  using assms(1,3)
proof (induction ns arbitrary: m)
  case (Cons n ns)
  from Cons.prems(1) obtain m1 where m1: "add_header src m n = Ok m1" "foldE (add_header src) m1 ns = Ok m'"
    by (auto elim: bindE_OkE)
  have "(\<forall>(n, b) \<in> set m1. b = blocks n) \<and> insert n (fst ` set m) \<subseteq> fst ` set m1"
  proof (cases "map_of m n")
    case None
    then obtain b where b: "src_block_by_number src n = Ok b" "m1 = btree_insert n b m"
      using m1(1) by (auto simp: add_header_def chainE_def elim!: bindE_OkE)
    then have "b = blocks n" using assms(2) by (simp add: honest_source_def)
    then show ?thesis using Cons.prems(2) set_btree_insert[of n b m] unfolding b(2) by auto
  next
    case (Some b)
    then show ?thesis using m1(1) Cons.prems(2) by (auto simp: add_header_def dest!: map_of_SomeD intro: rev_image_eqI)
  qed
  with Cons.IH[OF m1(2)] show ?case by (simp add: subset_iff)
qed simp

lemma headers_for_batch_Ok:
  assumes "headers_for_batch src c logs f t = Ok headers" "honest_source src canonical blocks"
    "set logs \<subseteq> set canonical" "f \<le> t"
  shows "\<forall>n \<in> insert t ((blk_number \<circ> tl_block) ` set logs).
    map_of (btree_of (map (\<lambda>b. (blk_number b, b)) headers)) n = Some (blocks n)"
proof -
  let ?m0 = "btree_of (map (\<lambda>l. (blk_number (tl_block l), tl_block l)) logs)"
  let ?sparse = "map fst (btree_insert t () (btree_of (map (\<lambda>l. (blk_number (tl_block l), ())) logs)))"
  define ns where "ns = (if sc_sparse_headers c then ?sparse else block_range f t)"
  have "t \<in> set (block_range f t)"
    using assms(4) by (auto simp: block_range_def word_le_nat_alt intro!: image_eqI[of _ _ "unat t"])
  moreover have "t \<in> set ?sparse" by (simp only: set_map keys_btree_insert insertI1)
  ultimately have t: "t \<in> set ns" by (cases "sc_sparse_headers c") (simp_all only: ns_def if_True if_False)
  obtain m where m: "foldE (add_header src) ?m0 ns = Ok m" "headers = map snd m"
    using assms(1) by (auto simp: headers_for_batch_def Let_def mapE_eq_Ok ns_def)
  have "b = blocks n" if mem: "(n, b) \<in> set ?m0" for n b
  proof -
    from mem set_btree_of obtain l where l: "l \<in> set logs" "n = blk_number (tl_block l)" "b = tl_block l" by fastforce
    have "tl_block l = blocks (blk_number (tl_block l))" using l(1) assms(3) by (intro honest_block[OF assms(2)]) blast
    with l show ?thesis by simp
  qed
  then have "\<forall>(n, b) \<in> set ?m0. b = blocks n" by blast
  then have inv: "\<forall>(n, b) \<in> set m. b = blocks n" "fst ` set ?m0 \<union> set ns \<subseteq> fst ` set m"
    using add_headers_Ok[OF m(1) assms(2)] by blast+
  note num = honest_number[OF assms(2)]
  have entry: "b = blocks n \<and> blk_number b = n" if "(n, b) \<in> set m" for n b
    using inv(1) that num by auto
  have "map_of (btree_of (map (\<lambda>b. (blk_number b, b)) headers)) n = Some (blocks n)" if key: "n \<in> fst ` set m" for n
  proof -
    obtain b where b: "(n, b) \<in> set m" using key by auto
    let ?kvs = "rev (map (\<lambda>b. (blk_number b, b)) headers)"
    have "(n, b) \<in> set ?kvs" using b entry[OF b] by (force simp: m(2))
    then obtain b' where b': "map_of ?kvs n = Some b'" using weak_map_of_SomeI by fast
    from map_of_SomeD[OF b'] obtain n' where n': "(n', b') \<in> set m" "blk_number b' = n"
      by (auto simp: m(2))
    have "b' = blocks n" using entry[OF n'(1)] n'(2) by simp
    with b' show ?thesis by (simp only: map_of_btree_of)
  qed
  moreover have "insert t ((blk_number \<circ> tl_block) ` set logs) \<subseteq> fst ` set m"
    using inv(2) t unfolding keys_btree_of by (auto simp: image_image)
  ultimately show ?thesis by blast
qed


section \<open>A poll stores exactly the chain's logs\<close>

lemma log_token_position: "log_token l = log_token l' \<longleftrightarrow> log_position l = log_position l'"
  by (simp add: log_token_def log_position_def)

lemma token_of_stored: "page_token (stored_log l t now) = log_token l"
  by (simp add: page_token_def stored_log_def log_token_def)

lemma set_sort_logs [simp]: "set (sort_logs ls) = set ls"
  by (simp add: sort_logs_def)

text \<open>The logs of a poll, all of them kept, under their positions.\<close>

lemma advance_logs:
  assumes src: "honest_source src canonical blocks" and sub: "set logs \<subseteq> set canonical"
    and hdr: "\<forall>n \<in> (blk_number \<circ> tl_block) ` set logs. map_of by_number n = Some (blocks n)"
    and stream: "\<forall>l \<in> set logs. of_stream stream l"
  shows "filter (canonical_log by_number) logs = logs"
    and "l \<in> set logs \<Longrightarrow> stored_of by_number now l = stored_log l (blk_timestamp (tl_block l)) now"
    and "map_of (rev (map (\<lambda>l. (page_token (stored_of by_number now l), stored_of by_number now l)) logs)) k = Some x \<longleftrightarrow>
      (\<exists>l \<in> set logs. log_token l = k \<and> x = stored_log l (blk_timestamp (tl_block l)) now)"
proof -
  have blk: "map_of by_number (blk_number (tl_block l)) = Some (tl_block l)" if "l \<in> set logs" for l
  proof -
    have "tl_block l = blocks (blk_number (tl_block l))" using that sub by (intro honest_block[OF src]) blast
    moreover have "map_of by_number (blk_number (tl_block l)) = Some (blocks (blk_number (tl_block l)))" using hdr that by simp
    ultimately show ?thesis by simp
  qed
  show "filter (canonical_log by_number) logs = logs"
    by (rule filter_True) (simp add: canonical_log_def blk)
  show st: "stored_of by_number now l = stored_log l (blk_timestamp (tl_block l)) now" if "l \<in> set logs" for l
    using blk[OF that] by (simp add: stored_of_def)
  let ?kv = "\<lambda>l. (page_token (stored_of by_number now l), stored_of by_number now l)"
  have uniq: "l = l'" if "l \<in> set logs" "l' \<in> set logs" "log_token l = log_token l'" for l l'
    using src sub stream that unfolding honest_source_def log_token_position of_stream_def by (metis subsetD)
  have kv: "?kv l = (log_token l, stored_log l (blk_timestamp (tl_block l)) now)" if "l \<in> set logs" for l
    using st[OF that] by (simp add: token_of_stored)
  show "map_of (rev (map ?kv logs)) k = Some x \<longleftrightarrow>
      (\<exists>l \<in> set logs. log_token l = k \<and> x = stored_log l (blk_timestamp (tl_block l)) now)"
  proof
    assume "map_of (rev (map ?kv logs)) k = Some x"
    then show "\<exists>l \<in> set logs. log_token l = k \<and> x = stored_log l (blk_timestamp (tl_block l)) now"
      using kv by (auto dest!: map_of_SomeD simp: token_of_stored)
  next
    assume "\<exists>l \<in> set logs. log_token l = k \<and> x = stored_log l (blk_timestamp (tl_block l)) now"
    then obtain l where l: "l \<in> set logs" "log_token l = k" "x = stored_log l (blk_timestamp (tl_block l)) now" by blast
    have "k \<in> fst ` set (rev (map ?kv logs))" using l kv[OF l(1)] by (force simp: image_iff)
    then obtain y where y: "map_of (rev (map ?kv logs)) k = Some y" by (metis map_of_eq_None_iff option.exhaust)
    then obtain l' where "l' \<in> set logs" "log_token l' = k" "y = stored_log l' (blk_timestamp (tl_block l')) now"
      using kv by (auto dest!: map_of_SomeD simp: token_of_stored)
    with uniq[of l' l] l y show "map_of (rev (map ?kv logs)) k = Some x" by simp
  qed
qed

lemma poll_advanced_Ok:
  assumes "poll_once src now stream s = Ok (PollAdvanced st f t n cur, s')" "map_of s stream = Some d"
  obtains logs headers d' where "f = tc_next_block (sd_cursor d)" "f \<le> t"
    "src_transfer_logs src (range_new (sc_chain_id (sd_config d)) (sc_token_address (sd_config d)) f t) = Ok logs"
    "headers_for_batch src (sd_config d) logs f t = Ok headers"
    "advance_stream now f t headers logs d = (d', n)" "s' = map_insert stream d' s" "cur = sd_cursor d'" "st = stream"
proof -
  have d: "find_stream stream s = Ok d" using assms(2) by (simp add: find_stream_def)
  obtain reorg where reorg: "detect_reorg src d = Ok reorg"
    using assms(1) unfolding poll_once_def d bindE_Ok by (rule bindE_OkE)
  have none: "reorg = None" using assms(1) by (cases reorg) (auto simp: poll_once_def d reorg Let_def)
  let ?f = "tc_next_block (sd_cursor d)"
  obtain target where target: "resolve_target src (sd_config d) = Ok target"
    and rest: "(if target < ?f then Ok (PollIdle (sd_cursor d), s)
         else
           bindE (fetch_logs_with_adaptive_range src (sd_config d) ?f target) (\<lambda>(to_block, logs).
           bindE (headers_for_batch src (sd_config d) logs ?f to_block) (\<lambda>headers.
           let (d1, n) = advance_stream now ?f to_block headers logs d in
           Ok (PollAdvanced stream ?f to_block n (sd_cursor d1), map_insert stream d1 s))))
       = Ok (PollAdvanced st f t n cur, s')"
    using assms(1) unfolding poll_once_def d bindE_Ok reorg none Let_def option.case by (rule bindE_OkE)
  then have le: "?f \<le> target" by (auto split: if_split_asm)
  have "\<not> target < ?f" using le by simp
  from rest have "bindE (fetch_logs_with_adaptive_range src (sd_config d) ?f target) (\<lambda>(to_block, logs).
           bindE (headers_for_batch src (sd_config d) logs ?f to_block) (\<lambda>headers.
           let (d1, n) = advance_stream now ?f to_block headers logs d in
           Ok (PollAdvanced stream ?f to_block n (sd_cursor d1), map_insert stream d1 s))) = Ok (PollAdvanced st f t n cur, s')"
    unfolding if_not_P[OF \<open>\<not> target < ?f\<close>] .
  then obtain p where "fetch_logs_with_adaptive_range src (sd_config d) ?f target = Ok p"
    and after: "(\<lambda>(to_block, logs). bindE (headers_for_batch src (sd_config d) logs ?f to_block) (\<lambda>headers.
           let (d1, n) = advance_stream now ?f to_block headers logs d in
           Ok (PollAdvanced stream ?f to_block n (sd_cursor d1), map_insert stream d1 s))) p = Ok (PollAdvanced st f t n cur, s')"
    by (rule bindE_OkE)
  moreover obtain to_block logs where "p = (to_block, logs)" by (cases p)
  ultimately have fetch: "fetch_logs_with_adaptive_range src (sd_config d) ?f target = Ok (to_block, logs)"
    and after: "bindE (headers_for_batch src (sd_config d) logs ?f to_block) (\<lambda>headers.
           let (d1, n) = advance_stream now ?f to_block headers logs d in
           Ok (PollAdvanced stream ?f to_block n (sd_cursor d1), map_insert stream d1 s)) = Ok (PollAdvanced st f t n cur, s')"
    by simp_all
  from after obtain headers where hdr: "headers_for_batch src (sd_config d) logs ?f to_block = Ok headers"
    and fin: "(let (d1, n) = advance_stream now ?f to_block headers logs d in
           Ok (PollAdvanced stream ?f to_block n (sd_cursor d1), map_insert stream d1 s) :: TransferLogStoreError + _)
       = Ok (PollAdvanced st f t n cur, s')"
    by (rule bindE_OkE)
  obtain d' n' where adv: "advance_stream now ?f to_block headers logs d = (d', n')" by (cases "advance_stream now ?f to_block headers logs d")
  with fin have eq: "f = ?f" "t = to_block" "n = n'" "cur = sd_cursor d'" "s' = map_insert stream d' s" "st = stream" by auto
  from fetch_adaptive_Ok[OF fetch le] hdr adv eq show thesis by (intro that[of logs headers d']) simp_all
qed

lemma advance_stream_state:
  assumes "advance_stream now f t headers logs d = (d', n)"
  shows "sd_config d' = sd_config d" "tc_next_block (sd_cursor d') = saturating_add t 1"
    "tc_last_completed_block (sd_cursor d') = Some t"
    "tc_last_completed_hash (sd_cursor d') =
       Some (case map_of (btree_of (map (\<lambda>b. (blk_number b, b)) headers)) t of None \<Rightarrow> 0 | Some b \<Rightarrow> blk_hash b)"
    "sd_logs d' = fold (\<lambda>l. btree_insert (page_token (stored_of (btree_of (map (\<lambda>b. (blk_number b, b)) headers)) now l))
        (stored_of (btree_of (map (\<lambda>b. (blk_number b, b)) headers)) now l))
      (filter (canonical_log (btree_of (map (\<lambda>b. (blk_number b, b)) headers))) logs) (sd_logs d)"
    "n = length (filter (canonical_log (btree_of (map (\<lambda>b. (blk_number b, b)) headers))) logs)"
  using assms by (auto simp: advance_stream_def set_cursor_def Let_def)

text \<open>Logs of one more range, added to an exact store, keep it exact.\<close>

lemma store_exact_extend:
  fixes stream canonical d d' f t now
  defines "inr \<equiv> \<lambda>l. of_stream stream l \<and> f \<le> blk_number (tl_block l) \<and> blk_number (tl_block l) \<le> t"
  assumes exact: "store_exact stream canonical d" and d': "sd_config d' = sd_config d" "btree (sd_logs d')"
    and f: "f = tc_next_block (sd_cursor d)" "f \<le> t" and nxt: "\<And>b. b < tc_next_block (sd_cursor d') \<longleftrightarrow> b \<le> t"
    and mo: "map_of (sd_logs d') = map_of (sd_logs d) ++ new"
    and new: "\<And>k x. new k = Some x \<longleftrightarrow>
      (\<exists>l \<in> set canonical. inr l \<and> log_token l = k \<and> x = stored_log l (blk_timestamp (tl_block l)) now)"
  shows "store_exact stream canonical d'"
proof -
  have start: "sc_start_block (sd_config d) \<le> f" using exact f(1) by (simp add: store_exact_def)
  have scan: "scanned stream d' l \<longleftrightarrow> scanned stream d l \<or> inr l" for l
    using start f by (auto simp: scanned_def nxt d'(1) inr_def)
  have fwd: "\<exists>l \<in> set canonical. scanned stream d' l \<and> log_token l = k \<and> same_log l x"
    if x: "map_of (sd_logs d') k = Some x" for k x
  proof (cases "new k")
    case None
    then have "map_of (sd_logs d) k = Some x" using x by (simp add: mo map_add_def)
    then show ?thesis using exact scan unfolding store_exact_def by blast
  next
    case (Some y)
    then have "y = x" using x by (simp add: mo map_add_def)
    then show ?thesis using Some new scan unfolding same_log_def by blast
  qed
  have bwd: "\<exists>x. map_of (sd_logs d') (log_token l) = Some x \<and> same_log l x"
    if l: "l \<in> set canonical" "scanned stream d' l" for l
  proof (cases "inr l")
    case True
    then have "new (log_token l) = Some (stored_log l (blk_timestamp (tl_block l)) now)" using new l(1) by blast
    then show ?thesis unfolding same_log_def by (auto simp: mo map_add_def)
  next
    case False
    then have old: "scanned stream d l" using l(2) scan by blast
    have "new (log_token l) = None"
    proof (cases "new (log_token l)")
      case (Some y)
      then obtain l' where "inr l'" "log_token l' = log_token l" using new by blast
      then have "f \<le> blk_number (tl_block l)" by (auto simp: log_token_def inr_def)
      then show ?thesis using old f(1) by (simp add: scanned_def not_less[symmetric])
    qed
    then show ?thesis using exact l(1) old unfolding store_exact_def by (auto simp: mo map_add_def)
  qed
  have "sc_start_block (sd_config d) \<le> tc_next_block (sd_cursor d')"
    using start f(2) nxt[of f] order.strict_implies_order order.trans by blast
  with exact d' fwd bwd show ?thesis unfolding store_exact_def by simp
qed

text \<open>
  C36: a poll stores exactly what the chain says.  Over a source that answers for one canonical
  chain, if the store held exactly the canonical logs of the blocks it had scanned, then
  after a poll that advanced it holds exactly those of the blocks up to the new position:
  no log of the new range is lost, however often the range was halved, and none is
  invented; the new position is one past the last block, whose hash the cursor remembers.
\<close>
theorem poll_once_stores_exactly:
  assumes src: "honest_source src canonical blocks"
    and poll: "poll_once src now stream s = Ok (PollAdvanced st f t n cur, s')"
    and d: "map_of s stream = Some d" and exact: "store_exact stream canonical d" and top: "t < - 1"
  shows "\<exists>d'. map_of s' stream = Some d' \<and> store_exact stream canonical d' \<and> f = tc_next_block (sd_cursor d) \<and> f \<le> t \<and>
    tc_next_block (sd_cursor d') = t + 1 \<and> tc_last_completed_hash (sd_cursor d') = Some (blk_hash (blocks t)) \<and>
    n = length (filter (\<lambda>l. of_stream stream l \<and> f \<le> blk_number (tl_block l) \<and> blk_number (tl_block l) \<le> t) canonical)"
  using poll d
proof (rule poll_advanced_Ok)
  fix logs and headers :: "ChainBlock list" and d'
  let ?by = "btree_of (map (\<lambda>b. (blk_number b, b)) headers)"
  let ?in = "\<lambda>l. of_stream stream l \<and> f \<le> blk_number (tl_block l) \<and> blk_number (tl_block l) \<le> t"
  assume f: "f = tc_next_block (sd_cursor d)" "f \<le> t"
    and logs: "src_transfer_logs src (range_new (sc_chain_id (sd_config d)) (sc_token_address (sd_config d)) f t) = Ok logs"
    and hdr: "headers_for_batch src (sd_config d) logs f t = Ok headers"
    and adv: "advance_stream now f t headers logs d = (d', n)" and s': "s' = map_insert stream d' s"
  have id: "config_stream_id (sd_config d) = stream" using exact by (simp add: store_exact_def)
  have sel: "range_selects (range_new (sc_chain_id (sd_config d)) (sc_token_address (sd_config d)) f t) = ?in"
    using id by (auto simp: range_selects_def range_new_def of_stream_def config_stream_id_def)
  have ls: "logs = sort_logs (filter ?in canonical)" using honest_logs[OF src logs] unfolding sel .
  then have mem: "l \<in> set logs \<longleftrightarrow> l \<in> set canonical \<and> ?in l" for l by simp
  then have sub: "set logs \<subseteq> set canonical" "\<forall>l \<in> set logs. of_stream stream l" by auto
  note hs = headers_for_batch_Ok[OF hdr src sub(1) f(2)]
  then have hl: "\<forall>n \<in> (blk_number \<circ> tl_block) ` set logs. map_of ?by n = Some (blocks n)" by blast
  note lg = advance_logs[OF src sub(1) hl sub(2)]
  note st = advance_stream_state[OF adv]
  have t1: "unat t + 1 < 2 ^ 64" using top by (simp add: word_less_nat_alt unat_max_word)
  then have "unat (t + 1) = unat t + 1" using unat_plus_exact[of t 1] by simp
  then have lt: "b < t + 1 \<longleftrightarrow> b \<le> t" for b
    by (simp add: word_less_nat_alt word_le_nat_alt less_Suc_eq_le)
  have nxt: "tc_next_block (sd_cursor d') = t + 1" using st(2) t1 by (simp add: saturating_add_def)
  have "store_exact stream canonical d'"
  proof (rule store_exact_extend[OF exact st(1) _ f])
    show "btree (sd_logs d')" using exact by (simp add: st(5) btree_fold_insert store_exact_def)
    show "b < tc_next_block (sd_cursor d') \<longleftrightarrow> b \<le> t" for b by (simp only: nxt lt)
    show "map_of (sd_logs d') = map_of (sd_logs d) ++
        map_of (rev (map (\<lambda>l. (page_token (stored_of ?by now l), stored_of ?by now l)) logs))"
      unfolding st(5) lg(1) by (rule map_of_fold_insert)
    show "map_of (rev (map (\<lambda>l. (page_token (stored_of ?by now l), stored_of ?by now l)) logs)) k = Some x \<longleftrightarrow>
      (\<exists>l \<in> set canonical. ?in l \<and> log_token l = k \<and> x = stored_log l (blk_timestamp (tl_block l)) now)" for k x
      unfolding lg(3) using mem by blast
  qed
  moreover have "tc_last_completed_hash (sd_cursor d') = Some (blk_hash (blocks t))" using hs st(4) by simp
  moreover have "n = length (filter ?in canonical)"
  proof -
    have "n = length logs" using st(6) lg(1) by simp
    also have "\<dots> = length (filter ?in canonical)" unfolding ls sort_logs_def by (rule length_sort)
    finally show ?thesis .
  qed
  ultimately show ?thesis using nxt f s' by auto
qed

definition small_block :: "u64 \<Rightarrow> ChainBlock" where
  "small_block n = \<lparr>blk_number = n, blk_hash = of_nat (unat n) + 100, blk_parent_hash = of_nat (unat n) + 99, blk_timestamp = 5\<rparr>"

definition small_log :: TransferLog where
  "small_log = \<lparr>tl_chain_id = 1, tl_token_address = 17, tl_block = small_block 2, tl_tx_hash = 7, tl_log_index = 0,
     tl_from_address = 8, tl_to_address = 9, tl_amount_raw = 1000\<rparr>"

definition small_chain :: FakeChainState where
  "small_chain = \<lparr>fc_chain_id = 1, fc_blocks = [(2, small_block 2), (3, small_block 3)], fc_logs = [small_log],
     fc_head = Some \<lparr>cb_number = 3, cb_hash = 103\<rparr>, fc_safe_head = None, fc_finalized_head = None,
     fc_native_balances = [], fc_pending_nonces = [],
     fc_fee_estimate = \<lparr>fe_max_fee_per_gas = 0, fe_max_priority_fee_per_gas = 0\<rparr>, fc_balances = [], fc_receipts = [],
     fc_next_error = None, fc_max_range_blocks = Some 1, fc_broadcast_counter = 0, fc_calls = []\<rparr>"

definition small_config :: TransferLogStreamConfig where
  "small_config = \<lparr>sc_chain_id = 1, sc_token_address = 17, sc_start_block = 2, sc_poll_interval_ms = 1000,
     sc_batch_size_blocks = 10, sc_max_batch_size_blocks = 100, sc_max_logs_per_page = 100,
     sc_max_unique_to_addresses_per_batch = 100, sc_max_db_fallback_addresses = 100, sc_capacity_probe_blocks = 10,
     sc_reorg_lookback_blocks = 8, sc_target_mode = SafeTag, sc_rpc_max_retries = 3, sc_log_source = RpcRange,
     sc_sparse_headers = False\<rparr>"

definition small_data :: StreamData where
  "small_data = \<lparr>sd_config = small_config,
     sd_state = \<lparr>ss_stream = \<lparr>sid_chain_id = 1, sid_token_address = 17\<rparr>, ss_config = small_config,
        ss_cursor = cursor_initial small_config 1 0, ss_created_at = 0, ss_updated_at = 0\<rparr>,
     sd_cursor = cursor_initial small_config 1 0, sd_headers = [], sd_logs = [], sd_range_manifests = []\<rparr>"

lemmas small_defs = small_block_def small_log_def small_chain_def small_config_def small_data_def

lemma small_honest: "honest_source (fake_view small_chain) (fake_canonical small_chain) (fake_block small_chain)"
  by (rule fake_view_honest) (simp_all add: small_chain_def fake_canonical_def small_log_def small_block_def)

lemma small_exact: "store_exact \<lparr>sid_chain_id = 1, sid_token_address = 17\<rparr> (fake_canonical small_chain) small_data"
  by (auto simp: store_exact_def scanned_def small_defs cursor_initial_def config_stream_id_def)

lemmas store_eval = poll_once_def find_stream_def detect_reorg_def resolve_target_def chainE_def
  fetch_logs_with_adaptive_range_def effective_batch_size_def fetch_loop.simps[of _ _ "2 :: u64" "3 :: u64"]
  fetch_loop.simps[of _ _ "2 :: u64" "2 :: u64"] saturating_add_def saturating_sub_def block_count_def halved_end_def
  range_new_def transfer_log_capacity_report_def transfer_log_capacity_limits_def is_within_limits_def
  should_reduce_batch_on_error_def message_indicates_range_or_result_limit_def ascii_lower_def
  headers_for_batch_def block_range_def add_header_def btree_of_def advance_stream_def canonical_log_def
  fake_view_def fake_safe_head_def fake_transfer_logs_def fake_call_def option_or_def range_validate_def
  fake_log_selected_def sort_logs_def max_logs_in_single_block_def cursor_initial_def small_defs Let_def

lemma small_poll: "\<exists>n cur s'. poll_once (fake_view small_chain) 9 \<lparr>sid_chain_id = 1, sid_token_address = 17\<rparr>
    [(\<lparr>sid_chain_id = 1, sid_token_address = 17\<rparr>, small_data)] =
    Ok (PollAdvanced \<lparr>sid_chain_id = 1, sid_token_address = 17\<rparr> 2 2 n cur, s')"
  by (simp add: store_eval)

theorem poll_once_stores_exactly_witness:
  "\<exists>n cur s' d'. poll_once (fake_view small_chain) 9 \<lparr>sid_chain_id = 1, sid_token_address = 17\<rparr>
      [(\<lparr>sid_chain_id = 1, sid_token_address = 17\<rparr>, small_data)] =
      Ok (PollAdvanced \<lparr>sid_chain_id = 1, sid_token_address = 17\<rparr> 2 2 n cur, s') \<and>
    map_of s' \<lparr>sid_chain_id = 1, sid_token_address = 17\<rparr> = Some d' \<and>
    store_exact \<lparr>sid_chain_id = 1, sid_token_address = 17\<rparr> (fake_canonical small_chain) d' \<and> tc_next_block (sd_cursor d') = 3"
proof -
  let ?id = "\<lparr>sid_chain_id = 1, sid_token_address = 17\<rparr> :: StreamId"
  obtain n cur s' where run: "poll_once (fake_view small_chain) 9 ?id [(?id, small_data)] = Ok (PollAdvanced ?id 2 2 n cur, s')"
    using small_poll by blast
  have "map_of [(?id, small_data)] ?id = Some small_data" "(2 :: u64) < - 1" by simp_all
  from poll_once_stores_exactly[OF small_honest run this(1) small_exact this(2)] run show ?thesis by auto
qed


section \<open>Progress of the adaptive query\<close>

definition single_block_readable :: "chain_source \<Rightarrow> TransferLogStreamConfig \<Rightarrow> u64 \<Rightarrow> bool" where
  "single_block_readable src c f \<longleftrightarrow>
     (\<exists>ls. src_transfer_logs src (range_new (sc_chain_id c) (sc_token_address c) f f) = Ok ls \<and>
        length ls \<le> sc_max_logs_per_page c \<and> max_logs_in_single_block ls \<le> sc_max_logs_per_page c)"

definition refuses_only_size :: "chain_source \<Rightarrow> TransferLogStreamConfig \<Rightarrow> u64 \<Rightarrow> bool" where
  "refuses_only_size src c f \<longleftrightarrow>
     (\<forall>t e. f \<le> t \<longrightarrow> src_transfer_logs src (range_new (sc_chain_id c) (sc_token_address c) f t) = Err e \<longrightarrow>
        should_reduce_batch_on_error e)"

lemma block_count_single: "f \<le> t \<Longrightarrow> \<not> 1 < block_count f t \<Longrightarrow> t = f"
  using unat_block_count[of f t] by (auto simp: word_less_nat_alt word_le_nat_alt intro: unat_eqI)

lemma fetch_loop_progress:
  "f \<le> t \<Longrightarrow> single_block_readable src c f \<Longrightarrow> refuses_only_size src c f \<Longrightarrow> \<exists>r. fetch_loop src c f t = Ok r"
proof (induction src c f t rule: fetch_loop.induct)
  case (1 src c f t)
  let ?range = "range_new (sc_chain_id c) (sc_token_address c) f t"
  note unfold = fetch_loop.simps[of src c f t]
  show ?case
  proof (cases "1 < block_count f t")
    case True
    show ?thesis
    proof (cases "src_transfer_logs src ?range")
      case (Inl e)
      then have red: "should_reduce_batch_on_error e \<and> 1 < block_count f t"
        using "1.prems"(1,3) True unfolding refuses_only_size_def by blast
      show ?thesis
        using "1.IH"(1)[OF refl refl Inl red halved_end_ge "1.prems"(2,3)] Inl red by (simp add: unfold Let_def)
    next
      case (Inr logs)
      let ?report = "transfer_log_capacity_report ?range (transfer_log_capacity_limits c) logs"
      show ?thesis
      proof (cases "is_within_limits ?report")
        case False
        have "\<not> block_count f t \<le> 1" using True by simp
        then show ?thesis
          using "1.IH"(2)[OF refl refl Inr refl False _ halved_end_ge "1.prems"(2,3)] Inr False
          by (simp add: unfold Let_def)
      qed (simp add: unfold Let_def Inr)
    qed
  next
    case False
    then have "t = f" using "1.prems"(1) by (rule block_count_single[rotated])
    with "1.prems"(2) show ?thesis
      by (auto simp: single_block_readable_def fetch_loop.simps[of src c f f] Let_def is_within_limits_def transfer_log_capacity_report_def
          transfer_log_capacity_limits_def)
  qed
qed

text \<open>
  C38: halving always gets somewhere.  If the source answers the first block of the range within
  the page limit, and refuses larger ranges only with an error that asks for a smaller one,
  then the adaptive query returns, with a range that starts at the first block, ends no
  later than the target, and fits the limit: a poll cannot be stuck on a block that can be read.
\<close>
theorem adaptive_query_progress:
  assumes "f \<le> target" "single_block_readable src c f" "refuses_only_size src c f"
  shows "\<exists>t logs. fetch_logs_with_adaptive_range src c f target = Ok (t, logs) \<and> f \<le> t \<and> t \<le> target \<and>
    src_transfer_logs src (range_new (sc_chain_id c) (sc_token_address c) f t) = Ok logs \<and>
    length logs \<le> sc_max_logs_per_page c"
proof -
  let ?e = "min (saturating_add f (saturating_sub (effective_batch_size c) 1)) target"
  have le: "f \<le> ?e" using assms(1) saturating_add_ge by simp
  obtain t logs where run: "fetch_loop src c f ?e = Ok (t, logs)"
    using fetch_loop_progress[OF le assms(2,3)] by auto
  from fetch_loop_Ok[OF run le] run show ?thesis by (auto simp: fetch_logs_with_adaptive_range_def)
qed

theorem adaptive_query_progress_witness:
  "\<exists>t logs. fetch_logs_with_adaptive_range (fake_view small_chain) small_config 2 3 = Ok (t, logs) \<and> 2 \<le> t \<and> t \<le> 3"
proof -
  have "single_block_readable (fake_view small_chain) small_config 2"
    by (simp add: single_block_readable_def store_eval)
  moreover have "refuses_only_size (fake_view small_chain) small_config 2"
    by (auto simp: refuses_only_size_def fake_view_def fake_transfer_logs_def fake_call_def range_new_def range_validate_def
        small_chain_def small_config_def should_reduce_batch_on_error_def message_indicates_range_or_result_limit_def
        ascii_lower_def Let_def split: if_split_asm)
  ultimately show ?thesis using adaptive_query_progress[of 2 3 "fake_view small_chain" small_config] by auto
qed


section \<open>Paging\<close>

text \<open>Reading pages until one comes back empty.\<close>

fun read_pages ::
  "nat \<Rightarrow> StreamId \<Rightarrow> LogPageToken option \<Rightarrow> nat \<Rightarrow> StoreState \<Rightarrow> TransferLogStoreError + StoredTransferLog list" where
  "read_pages 0 stream after limit s = Ok []"
| "read_pages (Suc n) stream after limit s =
     bindE (logs_page stream after limit s) (\<lambda>p.
     if lp_logs p = [] then Ok []
     else mapE (\<lambda>rest. lp_logs p @ rest) (read_pages n stream (lp_next_token p) limit s))"

definition after_token :: "LogPageToken option \<Rightarrow> LogPageToken \<Rightarrow> bool" where
  "after_token after t \<longleftrightarrow> (case after of None \<Rightarrow> True | Some a \<Rightarrow> a < t)"

lemma page_loop_take:
  "length acc \<le> limit \<Longrightarrow>
    page_loop after limit m acc = acc @ take (limit - length acc) (map snd (filter (\<lambda>(t, _). after_token after t) m))"
proof (induction after limit m acc rule: page_loop.induct)
  case (2 after limit t l m acc)
  have skip: "(case after of None \<Rightarrow> False | Some a \<Rightarrow> t \<le> a) \<longleftrightarrow> \<not> after_token after t"
    by (simp add: after_token_def not_less split: option.split)
  show ?case
  proof (cases "after_token after t")
    case True
    show ?thesis
    proof (cases "length acc = limit")
      case False
      then have "limit - length acc = Suc (limit - Suc (length acc))" using "2.prems" by arith
      then show ?thesis using 2(2) skip True False "2.prems" by simp
    qed (use True skip in simp)
  next
    case False
    then show ?thesis using 2 skip by simp
  qed
qed simp

text \<open>The part of an ordered map after a token splits into a page and the part after the page.\<close>

lemma filter_after_split:
  assumes "btree m" "filter (\<lambda>(t, _). after_token after t) m = xs @ (t, l) # ys"
  shows "filter (\<lambda>(t', _). after_token (Some t) t') m = ys"
proof -
  let ?f = "filter (\<lambda>(t, _). after_token after t) m"
  have "btree ?f" using assms(1) by simp
  then have sorted: "sorted_wrt (<) (map fst (xs @ (t, l) # ys))" unfolding assms(2) btree_def .
  then have below: "\<forall>x \<in> set xs. fst x < t" and above: "\<forall>y \<in> set ys. t < fst y"
    by (auto simp: sorted_wrt_append)
  have "(t, l) \<in> set ?f" unfolding assms(2) by simp
  then have "after_token after t" by simp
  then have imp: "after_token (Some t) t' \<Longrightarrow> after_token after t'" for t'
    by (auto simp: after_token_def split: option.splits)
  have "filter (\<lambda>(t', _). after_token (Some t) t') m = filter (\<lambda>(t', _). after_token (Some t) t') ?f"
    using imp by (auto simp: filter_filter intro!: filter_cong)
  also have "\<dots> = filter (\<lambda>(t', _). after_token (Some t) t') (xs @ (t, l) # ys)" by (simp only: assms(2))
  also have "\<dots> = ys"
  proof -
    have "filter (\<lambda>(t', _). t < t') xs = []" using below by (force simp: filter_empty_conv)
    moreover have "filter (\<lambda>(t', _). t < t') ys = ys" using above by (intro filter_True) auto
    ultimately show ?thesis by (simp add: after_token_def)
  qed
  finally show ?thesis .
qed

definition keyed :: "StreamData \<Rightarrow> bool" where
  "keyed d \<longleftrightarrow> btree (sd_logs d) \<and> (\<forall>(k, l) \<in> set (sd_logs d). k = page_token l)"

lemma logs_page_Ok:
  assumes "map_of s stream = Some d" "0 < limit"
  shows "\<exists>p. logs_page stream after limit s = Ok p \<and>
    lp_logs p = take limit (map snd (filter (\<lambda>(t, _). after_token after t) (sd_logs d))) \<and>
    lp_next_token p = map_option page_token (last_opt (lp_logs p)) \<and>
    lp_complete_to_block p = complete_to_block (lp_logs p) d
      (case lp_next_token p of None \<Rightarrow> False | Some t \<Rightarrow> list_ex (\<lambda>(k, _). t < k) (sd_logs d))"
  using assms by (simp add: logs_page_def find_stream_def page_loop_take Let_def)

lemma read_pages_after:
  assumes "map_of s stream = Some d" "0 < limit" "keyed d"
    "length (filter (\<lambda>(t, _). after_token after t) (sd_logs d)) < n"
  shows "read_pages n stream after limit s = Ok (map snd (filter (\<lambda>(t, _). after_token after t) (sd_logs d)))"
  using assms(4)
proof (induction n arbitrary: after)
  case (Suc n)
  let ?f = "filter (\<lambda>(t, _). after_token after t) (sd_logs d)"
  obtain p where p: "logs_page stream after limit s = Ok p" "lp_logs p = take limit (map snd ?f)"
    "lp_next_token p = map_option page_token (last_opt (lp_logs p))"
    using logs_page_Ok[OF assms(1,2)] by blast
  show ?case
  proof (cases "?f = []")
    case True
    then show ?thesis using p by simp
  next
    case False
    then have ne: "take limit ?f \<noteq> []" using assms(2) by simp
    obtain xs t l where page: "take limit ?f = xs @ [(t, l)]" by (metis ne rev_exhaust surj_pair)
    have split: "?f = xs @ (t, l) # drop limit ?f" using append_take_drop_id[of limit ?f] page by simp
    have "(t, l) \<in> set (take limit ?f)" unfolding page by simp
    then have "(t, l) \<in> set ?f" by (rule in_set_takeD)
    then have "t = page_token l" using assms(3) by (auto simp: keyed_def)
    then have nt: "lp_next_token p = Some t" and logs: "lp_logs p = map snd xs @ [l]"
      using p(2,3) page by (simp_all add: take_map last_opt_def)
    have rest: "filter (\<lambda>(t', _). after_token (Some t) t') (sd_logs d) = drop limit ?f"
      using assms(3) by (intro filter_after_split[OF _ split]) (simp add: keyed_def)
    have "length (drop limit ?f) < n" using Suc.prems False assms(2) by (simp add: length_greater_0_conv[symmetric] del: length_greater_0_conv)
    then have "read_pages n stream (Some t) limit s = Ok (map snd (drop limit ?f))" using Suc.IH[of "Some t"] rest by simp
    then have "read_pages (Suc n) stream after limit s = Ok ((map snd xs @ [l]) @ map snd (drop limit ?f))"
      by (simp add: p(1) nt logs)
    also have "(map snd xs @ [l]) @ map snd (drop limit ?f) = map snd (xs @ (t, l) # drop limit ?f)" by simp
    also have "\<dots> = map snd ?f" by (simp only: split[symmetric])
    finally show ?thesis .
  qed
qed simp

lemma token_le_block: "page_token l \<le> page_token l' \<Longrightarrow> sl_block_number l \<le> sl_block_number l'"
  by (auto simp: less_eq_LogPageToken_ext_def page_token_def)

lemma token_less_block: "page_token l < page_token l' \<Longrightarrow> sl_block_number l \<le> sl_block_number l'"
  by (rule token_le_block) simp

lemma checked_sub_less: "checked_sub x 1 = Some b \<Longrightarrow> b < x" for x b :: u64
  by (simp add: checked_sub_Some word_less_nat_alt)

text \<open>No log after the page lies in a block the page declares complete.\<close>

lemma complete_to_block_sound:
  assumes "keyed d" "lst \<in> snd ` set (sd_logs d)" "last_opt logs = Some lst"
    "complete_to_block logs d (list_ex (\<lambda>(k, _). page_token lst < k) (sd_logs d)) = Some b"
    "(k, l) \<in> set (sd_logs d)" "page_token lst < k"
  shows "b < sl_block_number l"
proof -
  let ?rest = "filter (\<lambda>(t, _). page_token lst < t) (sd_logs d)"
  have key: "k' = page_token l'" if "(k', l') \<in> set (sd_logs d)" for k' l' using assms(1) that by (auto simp: keyed_def)
  have mem: "(k, l) \<in> set ?rest" using assms(5,6) by simp
  then obtain k1 l1 rs where rest: "?rest = (k1, l1) # rs" by (cases ?rest) auto
  have more: "list_ex (\<lambda>(k, _). page_token lst < k) (sd_logs d)" using assms(5,6) by (auto simp: list_ex_iff)
  have "(k1, l1) \<in> set ?rest" unfolding rest by simp
  then have k1: "k1 = page_token l1" "page_token lst < k1" using key by auto
  have "btree ?rest" using assms(1) by (simp add: keyed_def)
  then have "k1 \<le> k" using mem unfolding rest by (auto simp: btree_def intro: order.strict_implies_order)
  then have l1: "sl_block_number l1 \<le> sl_block_number l" using key[OF assms(5)] k1(1) by (intro token_le_block) simp
  have low: "sl_block_number lst \<le> sl_block_number l1" using k1 by (intro token_less_block) simp
  show ?thesis
  proof (cases "sl_block_number l1 = sl_block_number lst")
    case True
    then have "checked_sub (sl_block_number lst) 1 = Some b" using assms(3,4) more rest by (simp add: complete_to_block_def)
    then show ?thesis using checked_sub_less l1 True by fastforce
  next
    case False
    then have "sl_block_number lst = b" using assms(3,4) more rest by (simp add: complete_to_block_def)
    then show ?thesis using False low l1 by auto
  qed
qed

text \<open>
  C39: paging visits every stored log exactly once.  Reading page after page, each from the token
  of the one before, ends after at most one page per log and an empty one, and returns the stored
  logs in position order, none twice; and a page that declares itself complete up to a block
  holds every log after its start in the blocks up to it.
\<close>
theorem paging_reads_everything:
  assumes "map_of s stream = Some d" "0 < limit" "keyed d"
  shows "read_pages (Suc (length (sd_logs d))) stream None limit s = Ok (map snd (sd_logs d)) \<and>
    distinct (map page_token (map snd (sd_logs d))) \<and>
    (\<forall>after p b k l. logs_page stream after limit s = Ok p \<longrightarrow> lp_complete_to_block p = Some b \<longrightarrow>
       (k, l) \<in> set (sd_logs d) \<longrightarrow> after_token after k \<longrightarrow> sl_block_number l \<le> b \<longrightarrow> l \<in> set (lp_logs p))"
proof (intro conjI allI impI)
  have "filter (\<lambda>(t, _). after_token None t) (sd_logs d) = sd_logs d" by (simp add: after_token_def)
  then show "read_pages (Suc (length (sd_logs d))) stream None limit s = Ok (map snd (sd_logs d))"
    using read_pages_after[OF assms, of None] by (simp del: read_pages.simps)
  have "map page_token (map snd (sd_logs d)) = map fst (sd_logs d)" using assms(3) by (auto simp: keyed_def)
  moreover have "distinct (map fst (sd_logs d))" using btree_distinct assms(3) by (auto simp: keyed_def)
  ultimately show "distinct (map page_token (map snd (sd_logs d)))" by (simp only:)
next
  fix after p b k l
  let ?f = "filter (\<lambda>(t, _). after_token after t) (sd_logs d)"
  assume run: "logs_page stream after limit s = Ok p" and b: "lp_complete_to_block p = Some b"
    and l: "(k, l) \<in> set (sd_logs d)" "after_token after k" "sl_block_number l \<le> b"
  have p: "lp_logs p = take limit (map snd ?f)" "lp_next_token p = map_option page_token (last_opt (lp_logs p))"
    "lp_complete_to_block p = complete_to_block (lp_logs p) d
      (case lp_next_token p of None \<Rightarrow> False | Some t \<Rightarrow> list_ex (\<lambda>(k, _). t < k) (sd_logs d))"
    using logs_page_Ok[OF assms(1,2), of after] run by auto
  show "l \<in> set (lp_logs p)"
  proof (rule ccontr)
    assume out: "l \<notin> set (lp_logs p)"
    have mem: "(k, l) \<in> set ?f" using l by simp
    then have ne: "take limit ?f \<noteq> []" using assms(2) by (cases ?f) auto
    obtain xs t lst where page: "take limit ?f = xs @ [(t, lst)]" by (metis ne rev_exhaust surj_pair)
    have "(t, lst) \<in> set (take limit ?f)" unfolding page by simp
    then have tl: "(t, lst) \<in> set (sd_logs d)" by (auto dest: in_set_takeD)
    have logs: "lp_logs p = map snd xs @ [lst]" using p(1) page by (simp add: take_map)
    then have lo: "last_opt (lp_logs p) = Some lst" by (simp add: last_opt_def)
    have "(k, l) \<notin> set (take limit ?f)" using out p(1) by (force simp: take_map)
    then have "(k, l) \<in> set (drop limit ?f)" using mem append_take_drop_id[of limit ?f] by (metis Un_iff set_append)
    moreover have "sorted_wrt (<) (map fst (take limit ?f @ drop limit ?f))"
      unfolding append_take_drop_id using assms(3) by (simp add: keyed_def btree_def sorted_wrt_map sorted_wrt_filter)
    ultimately have "t < k" unfolding page by (auto simp: sorted_wrt_append)
    moreover have "t = page_token lst" using tl assms(3) by (auto simp: keyed_def)
    moreover have "complete_to_block (lp_logs p) d (list_ex (\<lambda>(k, _). page_token lst < k) (sd_logs d)) = Some b"
      using p(2,3) b lo by simp
    ultimately have "b < sl_block_number l"
      using tl l(1) lo by (intro complete_to_block_sound[OF assms(3) _ lo]) (auto intro: rev_image_eqI)
    with l(3) show False by simp
  qed
qed

definition paged_data :: StreamData where
  "paged_data = small_data\<lparr>sd_logs :=
     [(page_token (stored_log small_log 5 9), stored_log small_log 5 9),
      (page_token (stored_log (small_log\<lparr>tl_log_index := 4\<rparr>) 5 9), stored_log (small_log\<lparr>tl_log_index := 4\<rparr>) 5 9)]\<rparr>"

theorem paging_reads_everything_witness:
  "\<exists>l1 l2. read_pages 3 \<lparr>sid_chain_id = 1, sid_token_address = 17\<rparr> None 1
      [(\<lparr>sid_chain_id = 1, sid_token_address = 17\<rparr>, paged_data)] = Ok [l1, l2] \<and> page_token l1 \<noteq> page_token l2"
proof -
  let ?id = "\<lparr>sid_chain_id = 1, sid_token_address = 17\<rparr> :: StreamId"
  let ?l1 = "stored_log small_log 5 9" and ?l2 = "stored_log (small_log\<lparr>tl_log_index := 4\<rparr>) 5 9"
  have m: "map_of [(?id, paged_data)] ?id = Some paged_data" by simp
  have k: "keyed paged_data"
    by (simp add: keyed_def btree_def paged_data_def page_token_def stored_log_def small_log_def less_LogPageToken_ext_def)
  have n: "Suc (length (sd_logs paged_data)) = 3" "map snd (sd_logs paged_data) = [?l1, ?l2]"
    by (simp_all add: paged_data_def)
  note all = paging_reads_everything[OF m zero_less_one k, unfolded n]
  have "page_token ?l1 \<noteq> page_token ?l2" using all[THEN conjunct2, THEN conjunct1] by simp
  with all[THEN conjunct1] show ?thesis by blast
qed


section \<open>Reorganisations\<close>

lemma unat_of_nat_below: "k \<le> unat t \<Longrightarrow> unat (of_nat k :: u64) = k" for t :: u64
  using unsigned_less[of t, where 'a = nat] by (simp add: unsigned_of_nat take_bit_nat_eq_self)

lemma block_range_mem: "n \<in> set (block_range f t) \<longleftrightarrow> f \<le> n \<and> n \<le> t"
proof
  assume "n \<in> set (block_range f t)"
  then obtain k where "n = of_nat k" "unat f \<le> k" "k \<le> unat t" by (auto simp: block_range_def)
  then show "f \<le> n \<and> n \<le> t" by (simp add: word_le_nat_alt unat_of_nat_below)
next
  assume "f \<le> n \<and> n \<le> t"
  then have "unat n \<in> set [unat f ..< Suc (unat t)]" by (auto simp: word_le_nat_alt)
  then have "(of_nat (unat n) :: u64) \<in> set (block_range f t)" unfolding block_range_def set_map by (rule imageI)
  then show "n \<in> set (block_range f t)" by simp
qed

lemma block_range_sorted: "sorted_wrt (<) (block_range f t)"
proof -
  have "(of_nat i :: u64) < of_nat j" if "i < j" "j \<le> unat t" for i j
    using that unat_of_nat_below[of i t] unat_of_nat_below[of j t] by (simp add: word_less_nat_alt)
  then have "sorted_wrt (\<lambda>i j. (of_nat i :: u64) < of_nat j) [unat f ..< Suc (unat t)]"
    by (intro sorted_wrt_mono_rel[OF _ sorted_wrt_upt]) (auto simp: less_Suc_eq_le)
  then show ?thesis by (simp only: block_range_def sorted_wrt_map)
qed

text \<open>The search stops at the first block whose stored hash is not the chain's; every block before agrees.\<close>

lemma first_diverged_Ok:
  assumes "first_diverged src d tip ns = Ok b" "sorted_wrt (<) ns" "\<forall>n \<in> set ns. n \<le> tip"
  shows "b \<in> insert tip (set ns) \<and>
    (\<forall>n \<in> set ns. n < b \<longrightarrow> (\<exists>blk. src_block_by_number src n = Ok blk \<and>
       map_option sh_block_hash (map_of (sd_headers d) n) = Some (blk_hash blk)))"
  using assms
proof (induction ns)
  case Nil
  then show ?case by simp
next
  case (Cons n ns)
  from Cons.prems(1) obtain blk where blk: "src_block_by_number src n = Ok blk"
    by (auto simp: chainE_def elim!: bindE_OkE)
  show ?case
  proof (cases "map_option sh_block_hash (map_of (sd_headers d) n) = Some (blk_hash blk)")
    case True
    then have "first_diverged src d tip ns = Ok b" using Cons.prems(1) blk by (auto simp: chainE_def)
    from Cons.IH[OF this] Cons.prems(2,3) blk True show ?thesis by auto
  next
    case False
    then have "b = n" using Cons.prems(1) blk by (auto simp: chainE_def split: if_splits)
    with Cons.prems(2) show ?thesis by auto
  qed
qed

text \<open>
  C37: when a poll answers that the stream was rewound to a block, that block is in the reorganisation
  window (from the lookback floor to the last completed block), the stored hash of every block of the
  window below it is the chain's, the stream keeps exactly the headers and logs below the block, and
  the cursor restarts from it with one more reorganisation epoch.
\<close>
theorem poll_rewinds_to_divergence:
  assumes "map_of s stream = Some d" "poll_once src now stream s = Ok (PollRewound st b cur, s')"
  shows "\<exists>tip d'. tc_last_completed_block (sd_cursor d) = Some tip \<and> b \<le> tip \<and>
    (b = tip \<or> reorg_floor (sd_config d) tip \<le> b) \<and>
    (\<forall>n. reorg_floor (sd_config d) tip \<le> n \<longrightarrow> n < b \<longrightarrow>
      (\<exists>blk. src_block_by_number src n = Ok blk \<and>
        map_option sh_block_hash (map_of (sd_headers d) n) = Some (blk_hash blk))) \<and>
    st = stream \<and> map_of s' stream = Some d' \<and> sd_cursor d' = cur \<and>
    sd_headers d' = filter (\<lambda>(n, _). n < b) (sd_headers d) \<and>
    sd_logs d' = filter (\<lambda>(_, l). sl_block_number l < b) (sd_logs d) \<and>
    tc_next_block cur = b \<and> tc_last_completed_block cur = checked_sub b 1 \<and>
    tc_reorg_epoch cur = saturating_add (tc_reorg_epoch (sd_cursor d)) 1"
proof -
  have re: "detect_reorg src d = Ok (Some b)" and st: "st = stream" "cur = sd_cursor (apply_rewind b now d)"
    "s' = map_insert stream (apply_rewind b now d) s"
    using assms by (auto simp: poll_once_def find_stream_def result_unfold Let_def split: option.splits if_splits prod.splits)
  from re obtain tip hash where cur: "tc_last_completed_block (sd_cursor d) = Some tip"
    and fd: "first_diverged src d tip (block_range (reorg_floor (sd_config d) tip) tip) = Ok b"
    by (auto simp: detect_reorg_def result_unfold split: option.splits if_splits)
  have in_range: "b \<in> insert tip (set (block_range (reorg_floor (sd_config d) tip) tip)) \<and>
    (\<forall>n \<in> set (block_range (reorg_floor (sd_config d) tip) tip). n < b \<longrightarrow> (\<exists>blk. src_block_by_number src n = Ok blk \<and>
       map_option sh_block_hash (map_of (sd_headers d) n) = Some (blk_hash blk)))"
    using fd by (rule first_diverged_Ok) (auto simp: block_range_sorted block_range_mem)
  then have b: "b \<le> tip" "b = tip \<or> reorg_floor (sd_config d) tip \<le> b" by (auto simp: block_range_mem)
  have agree: "\<exists>blk. src_block_by_number src n = Ok blk \<and>
        map_option sh_block_hash (map_of (sd_headers d) n) = Some (blk_hash blk)"
    if "reorg_floor (sd_config d) tip \<le> n" "n < b" for n
    using in_range that b(1) order.strict_implies_order[OF that(2)]
    by (auto simp: block_range_mem intro: order.trans)
  show ?thesis
  proof (intro exI[of _ tip] exI[of _ "apply_rewind b now d"] conjI allI impI)
    fix n assume "reorg_floor (sd_config d) tip \<le> n" "n < b"
    then show "\<exists>blk. src_block_by_number src n = Ok blk \<and>
        map_option sh_block_hash (map_of (sd_headers d) n) = Some (blk_hash blk)" by (rule agree)
  qed (use cur b st in \<open>simp_all add: apply_rewind_def set_cursor_def record_rewind_def\<close>)
qed

text \<open>A stream that stored block 2 with a hash the chain has since replaced.\<close>

definition forked_data :: StreamData where
  "forked_data = small_data\<lparr>sd_cursor := (sd_cursor small_data)\<lparr>tc_next_block := 3, tc_last_completed_block := Some 2,
       tc_last_completed_hash := Some 99\<rparr>,
     sd_headers := [(2, \<lparr>sh_chain_id = 1, sh_token_address = 17, sh_block_number = 2, sh_block_hash = 99,
       sh_parent_hash = 0, sh_timestamp = 5, sh_scanned_at = 9\<rparr>)]\<rparr>"

lemma forked_poll: "\<exists>cur s'. poll_once (fake_view small_chain) 9 \<lparr>sid_chain_id = 1, sid_token_address = 17\<rparr>
    [(\<lparr>sid_chain_id = 1, sid_token_address = 17\<rparr>, forked_data)] =
    Ok (PollRewound \<lparr>sid_chain_id = 1, sid_token_address = 17\<rparr> 2 cur, s')"
proof -
  have blk: "src_block_by_number (fake_view small_chain) 2 = Ok (small_block 2)"
    by (simp add: fake_view_def fake_block_by_number_def fake_call_def small_chain_def)
  have "detect_reorg (fake_view small_chain) forked_data = Ok (Some 2)"
    by (simp add: detect_reorg_def blk chainE_def forked_data_def small_data_def small_config_def small_block_def
        reorg_floor_def saturating_sub_def block_range_def cursor_initial_def)
  then show ?thesis by (simp add: poll_once_def find_stream_def Let_def)
qed

theorem poll_rewinds_to_divergence_witness:
  "\<exists>cur s' d'. poll_once (fake_view small_chain) 9 \<lparr>sid_chain_id = 1, sid_token_address = 17\<rparr>
      [(\<lparr>sid_chain_id = 1, sid_token_address = 17\<rparr>, forked_data)] =
      Ok (PollRewound \<lparr>sid_chain_id = 1, sid_token_address = 17\<rparr> 2 cur, s') \<and>
    map_of s' \<lparr>sid_chain_id = 1, sid_token_address = 17\<rparr> = Some d' \<and> sd_headers d' = [] \<and> tc_next_block cur = 2"
proof -
  let ?id = "\<lparr>sid_chain_id = 1, sid_token_address = 17\<rparr> :: StreamId"
  obtain cur s' where run: "poll_once (fake_view small_chain) 9 ?id [(?id, forked_data)] = Ok (PollRewound ?id 2 cur, s')"
    using forked_poll by blast
  have "map_of [(?id, forked_data)] ?id = Some forked_data" by simp
  from poll_rewinds_to_divergence[OF this run] obtain d' where d': "map_of s' ?id = Some d'"
    "sd_headers d' = filter (\<lambda>(n, _). n < 2) (sd_headers forked_data)" "tc_next_block cur = 2"
    by (elim exE conjE) (rule that)
  have "sd_headers d' = []" using d'(2) by (simp add: forked_data_def)
  with run d' show ?thesis by blast
qed

end
