(* ===== verification/Worker_Steps.thy ===== *)
theory Worker_Steps
  imports Repository_System
begin

text \<open>
  Programs of the workers and services: sequences of repository transactions with reads of the
  chain between them.  A program that fails keeps the transactions that committed before, so a
  step returns its result or error together with the state it leaves.
\<close>

section \<open>Steps\<close>

type_synonym ('e, 'a) worker = "db \<Rightarrow> ('e + 'a) \<times> db"

definition answer :: "'e + 'a \<Rightarrow> ('e, 'a) worker" where
  "answer r d = (r, d)"

definition andThen :: "('e, 'a) worker \<Rightarrow> ('a \<Rightarrow> ('e, 'b) worker) \<Rightarrow> ('e, 'b) worker" where
  "andThen m f d = (case m d of (Inl e, d') \<Rightarrow> (Inl e, d') | (Inr a, d') \<Rightarrow> f a d')"

text \<open>A call of a repository transaction, its error wrapped; a read of the repository.\<close>

definition transact :: "(RepositoryError \<Rightarrow> 'e) \<Rightarrow> (db \<Rightarrow> 'a tx) \<Rightarrow> ('e, 'a) worker" where
  "transact wrap run d = (case run d of Inl e \<Rightarrow> (Inl (wrap e), d) | Inr (a, d') \<Rightarrow> (Inr a, d'))"

text \<open>A call that commits before it decodes what it returns.\<close>

definition transact_committed ::
  "(RepositoryError \<Rightarrow> 'e) \<Rightarrow> (db \<Rightarrow> RepositoryError + ((RepositoryError + 'a) \<times> db)) \<Rightarrow> ('e, 'a) worker" where
  "transact_committed wrap run d =
     (case run d of Inl e \<Rightarrow> (Inl (wrap e), d) | Inr (r, d') \<Rightarrow> (map_errE wrap r, d'))"

definition query :: "(RepositoryError \<Rightarrow> 'e) \<Rightarrow> (db \<Rightarrow> RepositoryError + 'a) \<Rightarrow> ('e, 'a) worker" where
  "query wrap read d = (map_errE wrap (read d), d)"

text \<open>\<open>OffsetDateTime\<close> ends with the year 9999, here in the microseconds of \<open>timestamptz\<close>.\<close>

definition MIN_DATETIME :: timestamp where "MIN_DATETIME = - 377705116800000000"
definition MAX_DATETIME :: timestamp where "MAX_DATETIME = 253402300799999999"

definition datetime_checked_add :: "timestamp \<Rightarrow> timestamp \<Rightarrow> timestamp option" where
  "datetime_checked_add t dur = (if MIN_DATETIME \<le> t + dur \<and> t + dur \<le> MAX_DATETIME then Some (t + dur) else None)"

lemma answer_simps [simp]: "answer r d = (r, d)"
  by (simp add: answer_def)

lemma andThen_Ok:
  "andThen m f d = (Ok b, d') \<longleftrightarrow> (\<exists>a d1. m d = (Ok a, d1) \<and> f a d1 = (Ok b, d'))"
  by (auto simp: andThen_def split: prod.split sum.split)

lemma andThen_Err:
  "andThen m f d = (Err e, d') \<longleftrightarrow> m d = (Err e, d') \<or> (\<exists>a d1. m d = (Ok a, d1) \<and> f a d1 = (Err e, d'))"
  by (auto simp: andThen_def split: prod.split sum.split)

lemma transact_Ok [simp]: "transact wrap run d = (Ok a, d') \<longleftrightarrow> run d = Ok (a, d')"
  by (auto simp: transact_def split: sum.split)

lemma transact_Err: "transact wrap run d = (Err e, d') \<longleftrightarrow> (\<exists>x. run d = Err x \<and> e = wrap x) \<and> d' = d"
  by (auto simp: transact_def split: sum.split)

lemma transact_committed_Ok [simp]: "transact_committed wrap run d = (Ok a, d') \<longleftrightarrow> run d = Ok (Ok a, d')"
  by (auto simp: transact_committed_def map_errE_def split: sum.split)

lemma query_Ok [simp]: "query wrap read d = (Ok a, d') \<longleftrightarrow> read d = Ok a \<and> d' = d"
  by (auto simp: query_def)

lemma query_Err: "query wrap read d = (Err e, d') \<longleftrightarrow> (\<exists>x. read d = Err x \<and> e = wrap x) \<and> d' = d"
  by (auto simp: query_def map_errE_def split: sum.split)

lemma andThen_cong_fst:
  assumes "m d = (r, d1)"
  shows "andThen m f d = (case r of Inl e \<Rightarrow> (Inl e, d1) | Inr a \<Rightarrow> f a d1)"
  using assms by (simp add: andThen_def)

lemmas worker_unfold = andThen_Ok andThen_Err transact_Err query_Err


section \<open>What a program does to the database is a run of commands\<close>

definition runs_commands :: "('e, 'a) worker \<Rightarrow> bool" where
  "runs_commands m \<longleftrightarrow> (\<forall>d. system_step\<^sup>*\<^sup>* d (snd (m d)))"

named_theorems worker_intro

lemma runs_answer [worker_intro]: "runs_commands (answer r)"
  by (simp add: runs_commands_def)

lemma runs_query [worker_intro]: "runs_commands (query wrap read)"
  by (simp add: runs_commands_def query_def)

lemma runs_andThen [worker_intro]:
  assumes "runs_commands m" "\<And>a. runs_commands (f a)"
  shows "runs_commands (andThen m f)"
  unfolding runs_commands_def
proof
  fix d
  obtain r d1 where m: "m d = (r, d1)" by (cases "m d")
  have "system_step\<^sup>*\<^sup>* d d1" using assms(1) m unfolding runs_commands_def by (metis snd_conv)
  moreover have "system_step\<^sup>*\<^sup>* d1 (snd (f a d1))" for a using assms(2) unfolding runs_commands_def by blast
  ultimately show "system_step\<^sup>*\<^sup>* d (snd (andThen m f d))"
    unfolding andThen_cong_fst[of m d r d1 f, OF m] by (cases r) (auto intro: rtranclp_trans)
qed

lemma runs_transact:
  assumes "\<And>d. state_after (run d) d = execute c d"
  shows "runs_commands (transact wrap run)"
proof -
  have "snd (transact wrap run d) = execute c d" for d
    using assms[of d] by (simp add: transact_def state_after_def split: sum.splits prod.splits)
  then show ?thesis by (simp add: runs_commands_def system_step.command r_into_rtranclp)
qed

lemma runs_transact_committed:
  assumes "\<And>d. state_after (run d) d = execute c d"
  shows "runs_commands (transact_committed wrap run)"
proof -
  have "snd (transact_committed wrap run d) = execute c d" for d
    using assms[of d] by (simp add: transact_committed_def state_after_def split: sum.splits prod.splits)
  then show ?thesis by (simp add: runs_commands_def system_step.command r_into_rtranclp)
qed

lemma runs_if [worker_intro]: "runs_commands m \<Longrightarrow> runs_commands m' \<Longrightarrow> runs_commands (if b then m else m')"
  by simp

lemma runs_option [worker_intro]:
  "runs_commands m \<Longrightarrow> (\<And>x. runs_commands (f x)) \<Longrightarrow> runs_commands (case opt of None \<Rightarrow> m | Some x \<Rightarrow> f x)"
  by (cases opt) simp_all

lemma runs_ledger_calls [worker_intro]:
  "runs_commands (transact wrap (claim_scan_range now w chain_id token t))"
  "runs_commands (transact wrap (commit_scanned_batch now b))"
  "runs_commands (transact wrap (confirm_observed_payments now cb))"
  "runs_commands (transact wrap (handle_kv_reorg_epoch now chain_id token epoch fromb))"
  "runs_commands (transact wrap (record_verified_payments now i ps))"
  "runs_commands (transact wrap (recompute_orders now ids))"
  "runs_commands (transact wrap (allocate_derivation_segment cid))"
  "runs_commands (transact wrap (create_order_idempotent oc))"
  by (rule runs_transact[of _ "ClaimScanRange now w chain_id token t"] runs_transact[of _ "CommitBatch now b"]
      runs_transact[of _ "ConfirmObserved now cb"] runs_transact[of _ "HandleReorg now chain_id token epoch fromb"]
      runs_transact[of _ "RecordVerified now i ps"] runs_transact[of _ "RecomputeOrders now ids"]
      runs_transact[of _ "AllocateSegment cid"] runs_transact[of _ "CreateOrder oc"]; simp)+

lemma runs_sweep_calls [worker_intro]:
  "runs_commands (transact wrap (create_collection_idempotent cc))"
  "runs_commands (transact wrap (claim_collection_job lease w chain_id token))"
  "runs_commands (transact_committed wrap (reserve_nonce chain_id a pending))"
  "runs_commands (transact wrap (insert_signed_collect_tx cid t amount))"
  "runs_commands (transact wrap (replace_signed_tx i t))"
  "runs_commands (transact_committed wrap (claim_signed_collect_tx_for_broadcast lease w chain_id token))"
  "runs_commands (transact_committed wrap (claim_broadcast_collect_tx_for_receipt lease w chain_id token))"
  "runs_commands (transact wrap (mark_broadcast i))"
  "runs_commands (transact wrap (mark_confirmed i receipt))"
  "runs_commands (transact wrap (mark_failed i err))"
  "runs_commands (transact wrap (append_audit_event event))"
  by (rule runs_transact[of _ "CreateCollection cc"] runs_transact[of _ "ClaimCollectionJob lease w chain_id token"]
      runs_transact_committed[of _ "ReserveNonce chain_id a pending"] runs_transact[of _ "InsertSignedCollectTx cid t amount"]
      runs_transact[of _ "ReplaceSignedTx i t"] runs_transact_committed[of _ "ClaimSignedForBroadcast lease w chain_id token"]
      runs_transact_committed[of _ "ClaimBroadcastForReceipt lease w chain_id token"] runs_transact[of _ "MarkBroadcast i"]
      runs_transact[of _ "MarkConfirmed i receipt"] runs_transact[of _ "MarkFailed i err"]
      runs_transact[of _ "AppendAudit event"]; simp)+

text \<open>The contract of such a program, and what every program under it keeps.\<close>

locale worker_program =
  fixes prog :: "('e, 'a) worker"
  assumes commands: "runs_commands prog"
begin

lemma prog_steps: "prog d = (r, d') \<Longrightarrow> system_step\<^sup>*\<^sup>* d d'"
  using commands unfolding runs_commands_def by (metis snd_conv)

lemma prog_system:
  assumes "prog d = (r, d')" "system_ok d"
  shows "system_ok d' \<and> evolves d d'"
  using reachable_evolves[OF prog_steps[OF assms(1)] assms(2)] .

end

end
