(* ===== verification/Scanner.thy ===== *)
theory Scanner
  imports Worker_Steps Payment_Flow Log_Store
begin

text \<open>
  The payment scanner of \<open>src/src/workers/scanner.rs\<close>: one tick claims the scan range, sweeps
  confirmations, and otherwise matches and commits the next batch of blocks; one iteration of the
  loop also heals a reorganisation the sweep has found.  The head reader and the matcher are
  arguments: \<open>src\<close> is the chain as the tick reads it first, \<open>src'\<close> as the sweep reads it, and the
  matcher reads the repository in the state of its call.
\<close>

section \<open>Configuration, outcomes and errors\<close>

record PaymentScannerConfig =
  psc_worker_id :: string
  psc_stream :: StreamId
  psc_lease_duration :: timestamp
  psc_batch_size_blocks :: u64
  psc_max_batch_size_blocks :: u64
  psc_confirmation_sweep_limit :: nat

definition scanner_config_new :: "string \<Rightarrow> StreamId \<Rightarrow> timestamp \<Rightarrow> PaymentScannerConfig" where
  "scanner_config_new worker_id stream lease =
     \<lparr>psc_worker_id = worker_id, psc_stream = stream, psc_lease_duration = lease, psc_batch_size_blocks = 100,
      psc_max_batch_size_blocks = 500, psc_confirmation_sweep_limit = 1000\<rparr>"

datatype PaymentScannerTickOutcome =
    ScanLeaseHeld StreamId string
  | KvReorgHandled StreamId u64 u64
  | ScanIdle StreamId u64 u64
  | ScanCommitted StreamId u64 nat "uuid list" "PaymentRecord list"
  | ConfirmationsSwept StreamId ChainBlockRef nat "uuid list" "PaymentRecord list"

datatype PaymentScannerError =
    ScannerInvalidConfig string string
  | LeaseTimestampOverflow
  | CanonicalBlockHashMismatch u64 BlockHash BlockHash
  | ScannerRepository RepositoryError
  | ScannerPaymentMatching PaymentMatchingError
  | ScannerChain ChainError
  | ScannerTransferLogStore TransferLogStoreError

definition scanner_validate :: "PaymentScannerConfig \<Rightarrow> PaymentMatchingConfig \<Rightarrow> PaymentScannerError + unit" where
  "scanner_validate c matcher_config =
     (if trim (psc_worker_id c) = [] then Err (ScannerInvalidConfig ''worker_id'' ''must not be empty'')
      else if \<not> 0 < psc_lease_duration c then Err (ScannerInvalidConfig ''lease_duration'' ''must be positive'')
      else if psc_confirmation_sweep_limit c = 0
      then Err (ScannerInvalidConfig ''confirmation_sweep_limit'' ''must be greater than zero'')
      else if psc_batch_size_blocks c = 0
      then Err (ScannerInvalidConfig ''batch_size_blocks'' ''must be greater than zero'')
      else if psc_stream c \<noteq> pmc_stream matcher_config
      then Err (ScannerInvalidConfig ''stream'' ''scanner stream must match matcher stream'')
      else Ok ())"

text \<open>The instants at which one iteration reads a clock: its own, and the repository's in each call.\<close>

record scan_times =
  at_lease :: timestamp
  at_claim :: timestamp
  at_confirm :: timestamp
  at_commit :: timestamp
  at_reorg :: timestamp


section \<open>Confirmations\<close>

definition max_confirmable_block :: "ChainBlockRef \<Rightarrow> u64 \<Rightarrow> u64 option" where
  "max_confirmable_block canonical_head min_confirmations =
     (if min_confirmations = 0 then Some (cb_number canonical_head)
      else checked_sub (cb_number canonical_head) (min_confirmations - 1))"

text \<open>The canonical block of a candidate, from the cache of this sweep or from the chain.\<close>

definition cached_block ::
  "chain_source \<Rightarrow> (u64 \<times> ChainBlockRef) list \<Rightarrow> u64 \<Rightarrow> PaymentScannerError + (ChainBlockRef \<times> (u64 \<times> ChainBlockRef) list)"
  where
  "cached_block src cache n =
     (case map_of cache n of
        Some b \<Rightarrow> Ok (b, cache)
      | None \<Rightarrow> bindE (map_errE ScannerChain (src_block_by_number src n)) (\<lambda>b.
          Ok (block_ref b, map_insert n (block_ref b) cache)))"

primrec canonical_confirmable_payment_ids ::
  "chain_source \<Rightarrow> ChainBlockRef \<Rightarrow> u64 \<Rightarrow> PaymentConfirmationCandidate list \<Rightarrow> (u64 \<times> ChainBlockRef) list
   \<Rightarrow> PaymentScannerError + uuid list" where
  "canonical_confirmable_payment_ids src head minc [] cache = Ok []"
| "canonical_confirmable_payment_ids src head minc (c # cs) cache =
     bindE (cached_block src cache (cb_number (pcc_block c))) (\<lambda>(b, cache').
     if cb_hash b \<noteq> cb_hash (pcc_block c)
     then Err (CanonicalBlockHashMismatch (cb_number (pcc_block c)) (cb_hash (pcc_block c)) (cb_hash b))
     else bindE (canonical_confirmable_payment_ids src head minc cs cache') (\<lambda>ids.
       Ok (if has_confirmations (pcc_block c) head minc then pcc_payment_id c # ids else ids)))"

definition sweep_confirmations ::
  "chain_source \<Rightarrow> scan_times \<Rightarrow> PaymentScannerConfig \<Rightarrow> PaymentMatchingConfig
   \<Rightarrow> (PaymentScannerError, PaymentScannerTickOutcome option) worker" where
  "sweep_confirmations src t cfg mcfg =
     (let stream = psc_stream cfg in
      andThen (answer (map_errE ScannerChain (src_latest_head src))) (\<lambda>head.
      case max_confirmable_block head (pmc_min_confirmations mcfg) of
        None \<Rightarrow> answer (Ok None)
      | Some max_block \<Rightarrow>
          andThen (query ScannerRepository (observed_payment_confirmation_candidates (sid_chain_id stream)
            (sid_token_address stream) max_block (psc_confirmation_sweep_limit cfg))) (\<lambda>candidates.
          if candidates = [] then answer (Ok None)
          else
            andThen (answer (canonical_confirmable_payment_ids src head (pmc_min_confirmations mcfg) candidates []))
              (\<lambda>payment_ids.
            if payment_ids = [] then answer (Ok None)
            else
              andThen (transact ScannerRepository (confirm_observed_payments (at_confirm t)
                \<lparr>cop_chain_id = sid_chain_id stream, cop_token_address = sid_token_address stream,
                 cop_payment_ids = payment_ids, cop_canonical_head = head\<rparr>)) (\<lambda>records.
              if records = [] then answer (Ok None)
              else answer (Ok (Some (ConfirmationsSwept stream head (length records)
                (id_set (map mp_order_id records)) records))))))))"


section \<open>One tick\<close>

definition scan_end :: "PaymentScannerConfig \<Rightarrow> u64 \<Rightarrow> u64 \<Rightarrow> u64" where
  "scan_end cfg from_block target =
     min (saturating_sub (saturating_add from_block (max (min (psc_batch_size_blocks cfg) (psc_max_batch_size_blocks cfg)) 1)) 1)
       target"

type_synonym range_matcher = "db \<Rightarrow> u64 \<Rightarrow> u64 \<Rightarrow> PaymentMatchingError + MatchedPaymentInput list"

definition scan_batch ::
  "range_matcher \<Rightarrow> scan_times \<Rightarrow> PaymentScannerConfig \<Rightarrow> ScanCursorLease \<Rightarrow> u64
   \<Rightarrow> (PaymentScannerError, PaymentScannerTickOutcome) worker" where
  "scan_batch matcher t cfg lease target d =
     (let stream = psc_stream cfg; from_block = scl_last_scanned_block lease + 1;
          to_block = scan_end cfg from_block target in
      andThen (answer (map_errE ScannerPaymentMatching (matcher d from_block to_block))) (\<lambda>matched.
      andThen (transact ScannerRepository (commit_scanned_batch (at_commit t)
        \<lparr>csb_chain_id = sid_chain_id stream, csb_token_address = sid_token_address stream,
         csb_worker_id = psc_worker_id cfg, csb_expected_last_scanned_block = scl_last_scanned_block lease,
         csb_complete_to_block = to_block, csb_expected_seen_kv_reorg_epoch = scl_seen_kv_reorg_epoch lease,
         csb_seen_kv_reorg_epoch = scl_seen_kv_reorg_epoch lease, csb_matched_payments = matched,
         csb_recompute_order_ids = id_set (map mp_order_id matched)\<rparr>)) (\<lambda>records.
      answer (Ok (ScanCommitted stream to_block (length matched) (id_set (map mp_order_id matched)) records)))) d)"

definition scanner_tick ::
  "chain_source \<Rightarrow> chain_source \<Rightarrow> range_matcher \<Rightarrow> scan_times \<Rightarrow> PaymentScannerConfig \<Rightarrow> PaymentMatchingConfig
   \<Rightarrow> (PaymentScannerError, PaymentScannerTickOutcome) worker" where
  "scanner_tick src src' matcher t cfg mcfg =
     andThen (answer (scanner_validate cfg mcfg)) (\<lambda>_.
     andThen (answer (ok_or (datetime_checked_add (at_lease t) (psc_lease_duration cfg)) LeaseTimestampOverflow))
       (\<lambda>lease_until.
     let stream = psc_stream cfg in
     andThen (transact ScannerRepository (claim_scan_range (at_claim t) (psc_worker_id cfg) (sid_chain_id stream)
       (sid_token_address stream) lease_until)) (\<lambda>claim.
     case claim of
       None \<Rightarrow> answer (Ok (ScanLeaseHeld stream (psc_worker_id cfg)))
     | Some lease \<Rightarrow>
         andThen (answer (map_errE ScannerChain (src_latest_head src))) (\<lambda>head.
         andThen (sweep_confirmations src' t cfg mcfg) (\<lambda>swept.
         case swept of
           Some outcome \<Rightarrow> answer (Ok outcome)
         | None \<Rightarrow>
             if cb_number head \<le> scl_last_scanned_block lease
             then answer (Ok (ScanIdle stream (scl_last_scanned_block lease) (cb_number head)))
             else scan_batch matcher t cfg lease (cb_number head))))))"


section \<open>The loop\<close>

definition handle_reorg ::
  "scan_times \<Rightarrow> PaymentScannerConfig \<Rightarrow> u64 \<Rightarrow> u64 \<Rightarrow> (PaymentScannerError, PaymentScannerTickOutcome) worker" where
  "handle_reorg t cfg epoch last_reorg_from =
     (let stream = psc_stream cfg in
      andThen (transact ScannerRepository (handle_kv_reorg_epoch (at_reorg t) (sid_chain_id stream)
        (sid_token_address stream) epoch last_reorg_from)) (\<lambda>_.
      answer (Ok (KvReorgHandled stream epoch last_reorg_from))))"

definition next_reorg_epoch :: "PaymentScannerConfig \<Rightarrow> db \<Rightarrow> u64" where
  "next_reorg_epoch cfg d =
     (case scan_cursor_state (sid_chain_id (psc_stream cfg)) (sid_token_address (psc_stream cfg)) d of
        Inr (Some st) \<Rightarrow> scs_seen_kv_reorg_epoch st + 1
      | _ \<Rightarrow> 1)"

text \<open>The body of \<open>run_forever\<close>, less its logging and metrics.\<close>

definition scanner_iteration ::
  "chain_source \<Rightarrow> chain_source \<Rightarrow> range_matcher \<Rightarrow> scan_times \<Rightarrow> PaymentScannerConfig \<Rightarrow> PaymentMatchingConfig
   \<Rightarrow> (PaymentScannerError, PaymentScannerTickOutcome) worker" where
  "scanner_iteration src src' matcher t cfg mcfg d =
     (case scanner_tick src src' matcher t cfg mcfg d of
        (Inl (CanonicalBlockHashMismatch n stored canonical), d') \<Rightarrow>
          handle_reorg t cfg (next_reorg_epoch cfg d') n d'
      | res \<Rightarrow> res)"

definition scanner_lookback_blocks :: "u64 \<Rightarrow> u64" where
  "scanner_lookback_blocks min_confirmations = max (saturating_mul min_confirmations 2) 12"

text \<open>
  The matcher \<open>payment_scanner_worker_for_token\<close> of \<open>runtime.rs\<close> builds: the log source, an empty
  watch set over the repository's windows, and the limits of the runtime.
\<close>

definition TRANSFER_LOG_MAX_LOGS_PER_PAGE :: nat where "TRANSFER_LOG_MAX_LOGS_PER_PAGE = 1000"
definition TRANSFER_LOG_MAX_UNIQUE_TO_ADDRESSES_PER_BATCH :: nat where
  "TRANSFER_LOG_MAX_UNIQUE_TO_ADDRESSES_PER_BATCH = 1000"
definition TRANSFER_LOG_MAX_DB_FALLBACK_ADDRESSES :: nat where "TRANSFER_LOG_MAX_DB_FALLBACK_ADDRESSES = 1000"

definition runtime_matching_config :: "StreamId \<Rightarrow> u64 \<Rightarrow> PaymentMatchingConfig" where
  "runtime_matching_config stream min_confirmations =
     \<lparr>pmc_stream = stream, pmc_min_confirmations = min_confirmations, pmc_page_limit = TRANSFER_LOG_MAX_LOGS_PER_PAGE,
      pmc_max_unique_to_addresses_per_batch = TRANSFER_LOG_MAX_UNIQUE_TO_ADDRESSES_PER_BATCH\<rparr>"

text \<open>The worker's name carries the chain, the token and the process.\<close>

definition runtime_scanner_config :: "string \<Rightarrow> StreamId \<Rightarrow> u64 \<Rightarrow> u64 \<Rightarrow> PaymentScannerConfig" where
  "runtime_scanner_config pid stream batch_size_blocks max_batch_size_blocks =
     (scanner_config_new (''payment-scanner-'' @ show_nat (unat (sid_chain_id stream)) @ ''-''
        @ address_to_lower_hex (sid_token_address stream) @ ''-'' @ pid) stream (30 * one_second))
       \<lparr>psc_batch_size_blocks := batch_size_blocks, psc_max_batch_size_blocks := max_batch_size_blocks\<rparr>"

definition runtime_matcher ::
  "chain_source \<Rightarrow> (nat \<Rightarrow> uuid) \<Rightarrow> PaymentMatchingConfig \<Rightarrow> range_matcher" where
  "runtime_matcher src ids mcfg d =
     match_range (src_transfer_logs src) (src_latest_head src)
       (watch_set_lookup_batch Map.empty
          (repository_lookup_batch (lookup_payment_window_candidates d) TRANSFER_LOG_MAX_DB_FALLBACK_ADDRESSES))
       ids mcfg"

end
