(* ===== verification/Scanner_Props.thy ===== *)
theory Scanner_Props
  imports Scanner Log_Store_Props
begin

text \<open>
  What the scanner promises: its ticks are runs of repository commands, a committed batch records
  every transfer to an order in its blocks, and a sweep confirms only payments whose block is
  the chain's.
\<close>

section \<open>Ticks are runs of commands\<close>

lemma runs_sweep [worker_intro]: "runs_commands (sweep_confirmations src t cfg mcfg)"
  unfolding sweep_confirmations_def Let_def by (intro worker_intro)

lemma runs_scan_batch [worker_intro]: "runs_commands (scan_batch matcher t cfg lease target)"
  unfolding runs_commands_def
proof
  fix d
  show "system_step\<^sup>*\<^sup>* d (snd (scan_batch matcher t cfg lease target d))"
    unfolding scan_batch_def Let_def by (rule runs_commands_def[THEN iffD1, rule_format]) (intro worker_intro)
qed

lemma runs_tick [worker_intro]: "runs_commands (scanner_tick src src' matcher t cfg mcfg)"
  unfolding scanner_tick_def Let_def by (intro worker_intro)

lemma runs_handle_reorg [worker_intro]: "runs_commands (handle_reorg t cfg epoch n)"
  unfolding handle_reorg_def Let_def by (intro worker_intro)

interpretation tick_prog: worker_program "scanner_tick src src' matcher t cfg mcfg"
  for src src' matcher t cfg mcfg
  by unfold_locales (rule runs_tick)

lemma runs_iteration: "runs_commands (scanner_iteration src src' matcher t cfg mcfg)"
  unfolding runs_commands_def
proof
  fix d
  obtain r d1 where tick: "scanner_tick src src' matcher t cfg mcfg d = (r, d1)"
    by (cases "scanner_tick src src' matcher t cfg mcfg d")
  have steps: "system_step\<^sup>*\<^sup>* d d1" using tick by (rule tick_prog.prog_steps)
  have "system_step\<^sup>*\<^sup>* d1 (snd (handle_reorg t cfg e n d1))" for e n
    using runs_handle_reorg unfolding runs_commands_def by blast
  with steps show "system_step\<^sup>*\<^sup>* d (snd (scanner_iteration src src' matcher t cfg mcfg d))"
    unfolding scanner_iteration_def tick
    by (auto split: sum.split PaymentScannerError.split intro: rtranclp_trans)
qed

interpretation iteration_prog: worker_program "scanner_iteration src src' matcher t cfg mcfg"
  for src src' matcher t cfg mcfg
  by unfold_locales (rule runs_iteration)


section \<open>The steps of a tick\<close>

lemma claim_scan_range_Some:
  assumes "claim_scan_range now w chain_id token t d = Ok (Some lease, d')" "schema_ok d"
  obtains c where "find_cursor (uint chain_id) token d = Some c"
    "uint (scl_last_scanned_block lease) = cur_last_scanned_block c"
    "uint (scl_seen_kv_reorg_epoch lease) = cur_seen_kv_reorg_epoch c"
    "find_cursor (uint chain_id) token d' = Some (c\<lparr>cur_lease_owner := Some w, cur_lease_until := Some t\<rparr>)"
    "d' = d\<lparr>chain_cursors := chain_cursors d'\<rparr>"
proof -
  from assms(1) obtain c where c: "find_cursor (uint chain_id) token d = Some c"
    and l: "i64_to_u64 (cur_last_scanned_block c) ''last_scanned_block'' = Ok (scl_last_scanned_block lease)"
      "i64_to_u64 (cur_seen_kv_reorg_epoch c) ''seen_kv_reorg_epoch'' = Ok (scl_seen_kv_reorg_epoch lease)"
    and d': "d' = d\<lparr>chain_cursors := update_where (\<lambda>c. cursor_key c = (uint chain_id, token))
      (\<lambda>c. c\<lparr>cur_lease_owner := Some w, cur_lease_until := Some t\<rparr>) (chain_cursors d)\<rparr>"
    by (auto simp: claim_scan_range_def bindE_eq_Ok u64_to_i64_Ok split: option.splits if_splits)
  have "find_cursor (uint chain_id) token d' = Some (c\<lparr>cur_lease_owner := Some w, cur_lease_until := Some t\<rparr>)"
    using c find_cursor_key[OF c] unfolding d' by (subst find_cursor_update) (simp_all add: cursor_key_def)
  moreover have "uint (scl_last_scanned_block lease) = cur_last_scanned_block c"
    "uint (scl_seen_kv_reorg_epoch lease) = cur_seen_kv_reorg_epoch c"
    using l find_cursor_ok[OF assms(2) c]
    by (simp_all add: i64_to_u64_Ok cursor_ok_def unsigned_of_int take_bit_int_eq_self)
  ultimately show thesis using that[OF c] d' by simp
qed

lemma traverseE_Nil_iff: "traverseE f xs = Ok [] \<longleftrightarrow> xs = []"
  by (cases xs) (auto simp: bindE_eq_Ok)

lemma order_by_position_simps [simp]:
  "set (order_by_position rs) = set rs" "length (order_by_position rs) = length rs"
  by (simp_all add: order_by_position_def)

lemma order_by_position_Nil [simp]: "order_by_position rs = [] \<longleftrightarrow> rs = []"
  using order_by_position_simps(2)[of rs] by (simp only: length_0_conv[symmetric])

lemma confirm_nothing:
  assumes "confirm_observed_payments now b d = Ok ([], d')"
  shows "d' = d"
  using assms
proof (cases rule: confirm_observed_payments_Ok)
  case (some sel head)
  then have "filter sel (payments d) = []" by (simp add: traverseE_Nil_iff)
  then have "update_where sel f (payments d) = payments d" for f
    by (intro update_where_none) (simp add: filter_empty_conv)
  with some(4) show ?thesis by (simp add: id_set_def recompute_orders_in_tx_def)
qed

lemma sweep_None: "sweep_confirmations src t cfg mcfg d = (Ok None, d') \<Longrightarrow> d' = d"
  by (auto simp: sweep_confirmations_def Let_def andThen_Ok dest: confirm_nothing
      split: option.splits if_splits)

abbreviation sweep_batch :: "PaymentScannerConfig \<Rightarrow> uuid list \<Rightarrow> ChainBlockRef \<Rightarrow> ConfirmObservedPaymentsBatch" where
  "sweep_batch cfg ids head \<equiv> \<lparr>cop_chain_id = sid_chain_id (psc_stream cfg),
     cop_token_address = sid_token_address (psc_stream cfg), cop_payment_ids = ids, cop_canonical_head = head\<rparr>"

lemma sweep_Some:
  assumes "sweep_confirmations src t cfg mcfg d = (Ok (Some out), d')"
  obtains head mx cands ids recs where "src_latest_head src = Ok head"
    "max_confirmable_block head (pmc_min_confirmations mcfg) = Some mx"
    "observed_payment_confirmation_candidates (sid_chain_id (psc_stream cfg)) (sid_token_address (psc_stream cfg)) mx
       (psc_confirmation_sweep_limit cfg) d = Ok cands"
    "canonical_confirmable_payment_ids src head (pmc_min_confirmations mcfg) cands [] = Ok ids"
    "confirm_observed_payments (at_confirm t) (sweep_batch cfg ids head) d = Ok (recs, d')" "recs \<noteq> []"
    "out = ConfirmationsSwept (psc_stream cfg) head (length recs) (id_set (map mp_order_id recs)) recs"
  using assms
  by (auto simp: sweep_confirmations_def Let_def andThen_Ok intro: that split: option.splits if_splits)

lemma sweep_mismatch:
  assumes "sweep_confirmations src t cfg mcfg d = (Err (CanonicalBlockHashMismatch n stored canonical), d')"
  obtains head mx cands where "src_latest_head src = Ok head"
    "max_confirmable_block head (pmc_min_confirmations mcfg) = Some mx"
    "observed_payment_confirmation_candidates (sid_chain_id (psc_stream cfg)) (sid_token_address (psc_stream cfg)) mx
       (psc_confirmation_sweep_limit cfg) d = Ok cands"
    "canonical_confirmable_payment_ids src head (pmc_min_confirmations mcfg) cands []
       = Err (CanonicalBlockHashMismatch n stored canonical)" "d' = d"
proof -
  let ?p = "\<lambda>head. max_confirmable_block head (pmc_min_confirmations mcfg)"
  let ?c = "\<lambda>mx. observed_payment_confirmation_candidates (sid_chain_id (psc_stream cfg)) (sid_token_address (psc_stream cfg)) mx
       (psc_confirmation_sweep_limit cfg) d"
  note run = assms[unfolded sweep_confirmations_def Let_def]
  obtain head where head: "src_latest_head src = Ok head"
    using run by (cases "src_latest_head src") (auto simp: andThen_def)
  obtain mx where mx: "?p head = Some mx"
    using run head by (cases "?p head") (auto simp: andThen_def)
  obtain cands where cands: "?c mx = Ok cands"
    using run head mx by (cases "?c mx") (auto simp: andThen_def query_def)
  show thesis
  proof (cases "canonical_confirmable_payment_ids src head (pmc_min_confirmations mcfg) cands []")
    case (Inl e)
    then have "e = CanonicalBlockHashMismatch n stored canonical \<and> d' = d"
      using run head mx cands by (cases "cands = []") (auto simp: andThen_def query_def)
    with Inl head mx cands show thesis by (intro that) simp_all
  next
    case (Inr ids)
    then have False
      using run head mx cands by (cases "cands = []"; cases "ids = []") (auto simp: andThen_def query_def transact_def split: sum.splits if_splits)
    then show thesis ..
  qed
qed

text \<open>What a tick that found work has done before it.\<close>

abbreviation tick_claim :: "scan_times \<Rightarrow> PaymentScannerConfig \<Rightarrow> timestamp \<Rightarrow> db \<Rightarrow> ScanCursorLease option tx" where
  "tick_claim t cfg lease_until \<equiv> claim_scan_range (at_claim t) (psc_worker_id cfg) (sid_chain_id (psc_stream cfg))
     (sid_token_address (psc_stream cfg)) lease_until"

lemma scanner_tick_cases:
  assumes "scanner_tick src src' matcher t cfg mcfg d = (Ok out, d')"
  obtains (held) lease_until where "tick_claim t cfg lease_until d = Ok (None, d')"
      "out = ScanLeaseHeld (psc_stream cfg) (psc_worker_id cfg)"
  | (swept) lease_until lease d1 where "tick_claim t cfg lease_until d = Ok (Some lease, d1)"
      "sweep_confirmations src' t cfg mcfg d1 = (Ok (Some out), d')"
  | (idle) lease_until lease head where "tick_claim t cfg lease_until d = Ok (Some lease, d')"
      "src_latest_head src = Ok head" "cb_number head \<le> scl_last_scanned_block lease"
      "out = ScanIdle (psc_stream cfg) (scl_last_scanned_block lease) (cb_number head)"
  | (batch) lease_until lease d1 head where "tick_claim t cfg lease_until d = Ok (Some lease, d1)"
      "src_latest_head src = Ok head" "scl_last_scanned_block lease < cb_number head"
      "scan_batch matcher t cfg lease (cb_number head) d1 = (Ok out, d')"
proof -
  from assms obtain lease_until claim d1 where claim: "tick_claim t cfg lease_until d = Ok (claim, d1)"
    and rest: "(case claim of
       None \<Rightarrow> answer (Ok (ScanLeaseHeld (psc_stream cfg) (psc_worker_id cfg)))
     | Some lease \<Rightarrow>
         andThen (answer (map_errE ScannerChain (src_latest_head src))) (\<lambda>head.
         andThen (sweep_confirmations src' t cfg mcfg) (\<lambda>swept.
         case swept of
           Some outcome \<Rightarrow> answer (Ok outcome)
         | None \<Rightarrow>
             if cb_number head \<le> scl_last_scanned_block lease
             then answer (Ok (ScanIdle (psc_stream cfg) (scl_last_scanned_block lease) (cb_number head)))
             else scan_batch matcher t cfg lease (cb_number head)))) d1 = (Ok out, d')"
    by (auto simp: scanner_tick_def Let_def andThen_Ok)
  show thesis
  proof (cases claim)
    case None
    with claim rest show thesis by (intro held) simp_all
  next
    case (Some lease)
    with rest obtain head sw d2 where head: "src_latest_head src = Ok head"
      and sweep: "sweep_confirmations src' t cfg mcfg d1 = (Ok sw, d2)"
      and final: "(case sw of
           Some outcome \<Rightarrow> answer (Ok outcome)
         | None \<Rightarrow>
             if cb_number head \<le> scl_last_scanned_block lease
             then answer (Ok (ScanIdle (psc_stream cfg) (scl_last_scanned_block lease) (cb_number head)))
             else scan_batch matcher t cfg lease (cb_number head)) d2 = (Ok out, d')"
      by (auto simp: andThen_Ok)
    show thesis
    proof (cases sw)
      case None
      note d2 = sweep_None[OF sweep[unfolded None]]
      show thesis
      proof (cases "cb_number head \<le> scl_last_scanned_block lease")
        case True
        with None Some claim head final d2 show thesis by (intro idle) auto
      next
        case False
        with None Some claim head final d2 show thesis by (intro batch) simp_all
      qed
    next
      case (Some out')
      with \<open>claim = Some lease\<close> claim sweep final show thesis by (intro swept) simp_all
    qed
  qed
qed

lemma scanner_tick_mismatch:
  assumes "scanner_tick src src' matcher t cfg mcfg d = (Err (CanonicalBlockHashMismatch n stored canonical), d')"
  obtains lease_until lease d1 where "tick_claim t cfg lease_until d = Ok (Some lease, d1)"
    "sweep_confirmations src' t cfg mcfg d1 = (Err (CanonicalBlockHashMismatch n stored canonical), d')"
proof -
  note run = assms[unfolded scanner_tick_def Let_def]
  have valid: "scanner_validate cfg mcfg = Ok ()"
    using run by (auto simp: scanner_validate_def andThen_def split: if_splits)
  obtain lease_until where lu: "datetime_checked_add (at_lease t) (psc_lease_duration cfg) = Some lease_until"
    using run valid by (cases "datetime_checked_add (at_lease t) (psc_lease_duration cfg)") (auto simp: andThen_def ok_or_def)
  obtain lease d1 where claim: "tick_claim t cfg lease_until d = Ok (Some lease, d1)"
    using run valid lu by (auto simp: andThen_def ok_or_def transact_def split: sum.splits prod.splits option.splits)
  obtain head where head: "src_latest_head src = Ok head"
    using run valid lu claim by (cases "src_latest_head src") (auto simp: andThen_def ok_or_def transact_def)
  obtain r d2 where sweep: "sweep_confirmations src' t cfg mcfg d1 = (r, d2)"
    by (cases "sweep_confirmations src' t cfg mcfg d1")
  show thesis
  proof (cases r)
    case (Inl e)
    then have "e = CanonicalBlockHashMismatch n stored canonical \<and> d2 = d'"
      using run valid lu claim head sweep by (auto simp: andThen_def ok_or_def transact_def)
    with Inl claim sweep show thesis by (intro that) simp_all
  next
    case (Inr sw)
    have "fst (scan_batch matcher t cfg lease (cb_number head) d2) \<noteq> Err (CanonicalBlockHashMismatch n stored canonical)"
      by (auto simp: scan_batch_def Let_def andThen_def map_errE_def transact_def split: sum.splits)
    then have False
      using run valid lu claim head sweep Inr
      by (cases sw) (auto simp: andThen_def ok_or_def transact_def split: if_splits)
    then show thesis ..
  qed
qed

abbreviation scan_commit ::
  "PaymentScannerConfig \<Rightarrow> ScanCursorLease \<Rightarrow> u64 \<Rightarrow> MatchedPaymentInput list \<Rightarrow> CommitScannedBatch" where
  "scan_commit cfg lease to_block matched \<equiv>
     \<lparr>csb_chain_id = sid_chain_id (psc_stream cfg), csb_token_address = sid_token_address (psc_stream cfg),
      csb_worker_id = psc_worker_id cfg, csb_expected_last_scanned_block = scl_last_scanned_block lease,
      csb_complete_to_block = to_block, csb_expected_seen_kv_reorg_epoch = scl_seen_kv_reorg_epoch lease,
      csb_seen_kv_reorg_epoch = scl_seen_kv_reorg_epoch lease, csb_matched_payments = matched,
      csb_recompute_order_ids = id_set (map mp_order_id matched)\<rparr>"

lemma scan_batch_Ok:
  assumes "scan_batch matcher t cfg lease target d = (Ok out, d')"
  obtains matched recs where
    "matcher d (scl_last_scanned_block lease + 1) (scan_end cfg (scl_last_scanned_block lease + 1) target) = Ok matched"
    "commit_scanned_batch (at_commit t)
       (scan_commit cfg lease (scan_end cfg (scl_last_scanned_block lease + 1) target) matched) d = Ok (recs, d')"
    "out = ScanCommitted (psc_stream cfg) (scan_end cfg (scl_last_scanned_block lease + 1) target) (length matched)
       (id_set (map mp_order_id matched)) recs"
  using assms by (auto simp: scan_batch_def Let_def andThen_Ok intro: that)

lemma scan_end_bounds:
  assumes "done_to < target" "uint done_to < 2 ^ 63"
  shows "done_to < scan_end cfg (done_to + 1) target" "scan_end cfg (done_to + 1) target \<le> target"
proof -
  let ?n = "max (min (psc_batch_size_blocks cfg) (psc_max_batch_size_blocks cfg)) 1 :: u64"
  have "int (unat done_to) < int (2 ^ 63)" using assms(2) by simp
  then have low: "unat done_to < 2 ^ 63" by (simp only: of_nat_less_iff)
  have "unat (done_to + 1) = unat done_to + 1" using low by (subst unat_plus_if') simp
  moreover have "0 < unat ?n" by (simp add: max_def word_le_nat_alt)
  ultimately have "unat done_to < unat (saturating_sub (saturating_add (done_to + 1) ?n) 1)"
    using low unfolding unat_saturating_sub unat_saturating_add by (simp add: min_def)
  then show "done_to < scan_end cfg (done_to + 1) target" using assms by (simp add: scan_end_def word_less_nat_alt)
  show "scan_end cfg (done_to + 1) target \<le> target" by (simp add: scan_end_def)
qed


section \<open>A committed batch records its transfers\<close>

text \<open>The columns of a row that come from the transfer.\<close>

definition row_of_match :: "int \<Rightarrow> MatchedPaymentInput \<Rightarrow> payment_row \<Rightarrow> bool" where
  "row_of_match chain m p \<longleftrightarrow>
     payment_key p = (chain, mp_tx_hash m, uint (mp_log_index m)) \<and> p_order_id p = mp_order_id m \<and>
     p_amount_raw p = uint (mp_amount_raw m) \<and> p_block_hash p = mp_block_hash m"

definition same_transfer :: "MatchedPaymentInput \<Rightarrow> MatchedPaymentInput \<Rightarrow> bool" where
  "same_transfer m m' \<longleftrightarrow>
     mp_order_id m' = mp_order_id m \<and> mp_amount_raw m' = mp_amount_raw m \<and> mp_block_hash m' = mp_block_hash m"

lemma row_of_same_transfer:
  "row_of_match chain m' p \<Longrightarrow> same_transfer m m' \<Longrightarrow> mp_tx_hash m' = mp_tx_hash m \<Longrightarrow> mp_log_index m' = mp_log_index m
   \<Longrightarrow> row_of_match chain m p"
  by (simp add: row_of_match_def same_transfer_def)

lemma upsert_tx_row:
  assumes "upsert_matched_payment_tx chain_id token m d = Ok (rec, d')"
  shows "\<exists>p \<in> set (payments d'). row_of_match (uint chain_id) m p"
    "p \<in> set (payments d) \<Longrightarrow> payment_key p \<noteq> (uint chain_id, mp_tx_hash m, uint (mp_log_index m)) \<Longrightarrow> p \<in> set (payments d')"
proof -
  obtain ord w r where sel: "select_payment_target (mp_order_id m) (uint chain_id) token (mp_to_address m) d = Some (ord, w)"
    and up: "upsert_row (inserted_payment ord w m (uint (mp_log_index m)) (uint (mp_block_number m))
       (uint (mp_confirmations m)) (db_now d)) d = Ok (Some r, d')"
    using assms by (rule upsert_matched_payment_tx_Ok)
  note tgt = select_payment_target_Some[OF sel]
  let ?new = "inserted_payment ord w m (uint (mp_log_index m)) (uint (mp_block_number m)) (uint (mp_confirmations m)) (db_now d)"
  have new: "row_of_match (uint chain_id) m ?new"
    using tgt by (simp add: row_of_match_def) (simp add: inserted_payment_def)
  have "row_of_match (uint chain_id) m r \<and> r \<in> set (payments d') \<and>
    (\<forall>p \<in> set (payments d). payment_key p \<noteq> payment_key ?new \<longrightarrow> p \<in> set (payments d'))"
    using up
  proof (cases rule: upsert_row_cases)
    case insert
    with new show ?thesis by simp
  next
    case (overwrite old)
    have "row_of_match (uint chain_id) m r"
      using new overwrite(2) unfolding overwrite(4) row_of_match_def payment_key_overwrite
      by (simp add: overwrite_payment_def)
    moreover have "r \<in> set (payments d')" using overwrite(1,2,5) by (force simp: set_update_where)
    ultimately show ?thesis using overwrite(5) by (force simp: set_update_where)
  qed
  moreover have "payment_key ?new = (uint chain_id, mp_tx_hash m, uint (mp_log_index m))" using tgt by simp
  ultimately show "\<exists>p \<in> set (payments d'). row_of_match (uint chain_id) m p"
    "p \<in> set (payments d) \<Longrightarrow> payment_key p \<noteq> (uint chain_id, mp_tx_hash m, uint (mp_log_index m)) \<Longrightarrow> p \<in> set (payments d')"
    by auto
qed

definition transfers_agree :: "MatchedPaymentInput \<Rightarrow> MatchedPaymentInput list \<Rightarrow> bool" where
  "transfers_agree m ps \<longleftrightarrow>
     (\<forall>m' \<in> set ps. mp_tx_hash m' = mp_tx_hash m \<longrightarrow> mp_log_index m' = mp_log_index m \<longrightarrow> same_transfer m m')"

lemma upsert_all_keeps_row:
  assumes "upsert_all chain_id token ps d = Ok (recs, d')" "transfers_agree m ps"
    "\<exists>p \<in> set (payments d). row_of_match (uint chain_id) m p"
  shows "\<exists>p \<in> set (payments d'). row_of_match (uint chain_id) m p"
  using assms
proof (induction ps arbitrary: d recs)
  case (Cons q ps)
  then obtain r rs d1 where 1: "upsert_matched_payment_tx chain_id token q d = Ok (r, d1)"
    "upsert_all chain_id token ps d1 = Ok (rs, d')"
    by (auto simp: bindE_eq_Ok)
  note row = upsert_tx_row[OF 1(1)]
  have "\<exists>p \<in> set (payments d1). row_of_match (uint chain_id) m p"
  proof (cases "mp_tx_hash q = mp_tx_hash m \<and> mp_log_index q = mp_log_index m")
    case True
    then have "same_transfer m q" using Cons.prems(2) by (simp add: transfers_agree_def)
    with True row(1) row_of_same_transfer show ?thesis by blast
  next
    case False
    obtain p where p: "p \<in> set (payments d)" "row_of_match (uint chain_id) m p" using Cons.prems(3) by blast
    then have "payment_key p \<noteq> (uint chain_id, mp_tx_hash q, uint (mp_log_index q))"
      using False by (auto simp: row_of_match_def word_uint_eq_iff)
    with p row(2) show ?thesis by blast
  qed
  moreover have "transfers_agree m ps" using Cons.prems(2) by (simp add: transfers_agree_def)
  ultimately show ?case using Cons.IH[OF 1(2)] by blast
qed simp

lemma upsert_all_records:
  assumes "upsert_all chain_id token ps d = Ok (recs, d')" "m \<in> set ps" "transfers_agree m ps"
  shows "\<exists>p \<in> set (payments d'). row_of_match (uint chain_id) m p"
  using assms
proof (induction ps arbitrary: d recs)
  case (Cons q ps)
  then obtain r rs d1 where 1: "upsert_matched_payment_tx chain_id token q d = Ok (r, d1)"
    "upsert_all chain_id token ps d1 = Ok (rs, d')"
    by (auto simp: bindE_eq_Ok)
  have agree: "transfers_agree m ps" using Cons.prems(3) by (simp add: transfers_agree_def)
  show ?case
  proof (cases "m \<in> set ps")
    case True
    with 1(2) agree show ?thesis by (intro Cons.IH) simp_all
  next
    case False
    then have "m = q" using Cons.prems(2) by simp
    with upsert_all_keeps_row[OF 1(2) agree] upsert_tx_row(1)[OF 1(1)] show ?thesis by blast
  qed
qed simp

text \<open>The empty watch set asks the repository for every address and keeps the stream's windows.\<close>

lemma empty_watch_set_scan: "watch_set_scan Map.empty chain_id token as = ([], as)"
  by (induction as) simp_all

lemma empty_watch_set_lookup:
  assumes "watch_set_lookup_batch Map.empty fallback chain_id token as = Ok cs" "as \<noteq> []"
  obtains found where "fallback chain_id token (deduplicate_addresses as) = Ok found"
    "cs = filter (\<lambda>c. candidate_is_for_lookup c chain_id token) found"
proof -
  have "deduplicate_addresses as \<noteq> []" using assms(2) set_deduplicate[of as] by (metis set_empty)
  then show thesis
    using assms(1) that by (auto simp: watch_set_lookup_batch_def Let_def empty_watch_set_scan bindE_eq_Ok)
qed

lemma runtime_matcher_Ok:
  assumes "runtime_matcher src ids mcfg d from_block to_block = Ok ms"
  obtains logs head cs where
    "src_transfer_logs src (range_new (sid_chain_id (pmc_stream mcfg)) (sid_token_address (pmc_stream mcfg)) from_block to_block) = Ok logs"
    "ms = match_transfer_logs ids (pmc_stream mcfg) (pmc_min_confirmations mcfg) logs cs head"
    "logs \<noteq> [] \<Longrightarrow> watch_set_lookup_batch Map.empty
       (repository_lookup_batch (lookup_payment_window_candidates d) TRANSFER_LOG_MAX_DB_FALLBACK_ADDRESSES)
       (sid_chain_id (pmc_stream mcfg)) (sid_token_address (pmc_stream mcfg))
       (unique_to_addresses_from_transfer_logs logs) = Ok cs"
proof -
  have ne: "unique_to_addresses_from_transfer_logs logs = [] \<longleftrightarrow> logs = []" for logs
    unfolding unique_to_addresses_from_transfer_logs_def by (metis Nil_is_map_conv remdups_eq_nil_iff set_empty set_sort)
  show thesis
    using assms that by (auto simp: runtime_matcher_def match_range_def Let_def result_unfold ne split: if_splits)
qed

lemma runtime_matcher_finds:
  assumes "runtime_matcher src ids mcfg d from_block to_block = Ok ms" "log_source (src_transfer_logs src) canonical"
    and ok: "repo_ok d" and row: "(w, r) \<in> set (window_order_join d)" and log: "log_for_order l r"
    and stream: "pmc_stream mcfg = \<lparr>sid_chain_id = tl_chain_id l, sid_token_address = tl_token_address l\<rparr>"
    and l: "l \<in> set canonical" "from_block \<le> blk_number (tl_block l)" "blk_number (tl_block l) \<le> to_block"
  shows "\<exists>i c head. matched_payment_input_from_transfer_log i l c head (pmc_min_confirmations mcfg) \<in> set ms \<and>
    pwc_order_id c = o_id r"
proof -
  obtain logs head cs where src: "src_transfer_logs src (range_new (tl_chain_id l) (tl_token_address l) from_block to_block) = Ok logs"
    and ms: "ms = match_transfer_logs ids (pmc_stream mcfg) (pmc_min_confirmations mcfg) logs cs head"
    and lk: "logs \<noteq> [] \<Longrightarrow> watch_set_lookup_batch Map.empty
       (repository_lookup_batch (lookup_payment_window_candidates d) TRANSFER_LOG_MAX_DB_FALLBACK_ADDRESSES)
       (tl_chain_id l) (tl_token_address l) (unique_to_addresses_from_transfer_logs logs) = Ok cs"
    using assms(1) by (rule runtime_matcher_Ok) (simp add: stream)
  have mem: "l \<in> set logs"
    using log_source.logs_complete[OF assms(2) src l(1)] l(2,3) by (simp add: range_selects_def range_new_def)
  let ?as = "unique_to_addresses_from_transfer_logs logs"
  have addr: "tl_to_address l \<in> set ?as" using mem by (simp add: unique_to_addresses_from_transfer_logs_def)
  then have "?as \<noteq> []" and "logs \<noteq> []" using mem by auto
  obtain found where f: "repository_lookup_batch (lookup_payment_window_candidates d) TRANSFER_LOG_MAX_DB_FALLBACK_ADDRESSES
      (tl_chain_id l) (tl_token_address l) (deduplicate_addresses ?as) = Ok found"
    and cs: "cs = filter (\<lambda>c. candidate_is_for_lookup c (tl_chain_id l) (tl_token_address l)) found"
    using lk[OF \<open>logs \<noteq> []\<close>] \<open>?as \<noteq> []\<close> by (rule empty_watch_set_lookup)
  note log' = log[unfolded log_for_order_def]
  obtain c where c: "row_to_payment_window_candidate (w, r) = Ok c"
    and only: "filter (\<lambda>c. key_from_candidate c = (tl_chain_id l, tl_token_address l, o_receive_address r)) found = [c]"
    using lookup_window_of_order[OF ok batch_lookup[OF f] row] log' addr by auto
  have "filter (\<lambda>c. key_from_candidate c = (tl_chain_id l, tl_token_address l, tl_to_address l)) cs = [c]"
    unfolding cs filter_filter only[symmetric] using log'
    by (intro filter_cong) (auto simp: key_from_candidate_def candidate_is_for_lookup_def)
  then have "payable_window (pmc_stream mcfg) cs l = [c]" by (rule payable_window_only) (simp_all add: stream)
  then have "\<exists>i. matched_payment_input_from_transfer_log (ids i) l c head (pmc_min_confirmations mcfg) \<in> set ms"
    unfolding ms using mem by (intro matched_member) simp_all
  then show ?thesis using candidate_fields[OF c] by blast
qed

text \<open>The matched payments are transfers of the canonical chain, so those with one key agree.\<close>

lemma matches_agree:
  assumes "set logs \<subseteq> set canonical" "inj_on (\<lambda>l. (tl_tx_hash l, tl_log_index l)) (set canonical)"
    "m \<in> set (match_transfer_logs ids stream minc logs cs head)"
  shows "transfers_agree m (match_transfer_logs ids stream minc logs cs head)"
  unfolding transfers_agree_def
proof (intro ballI impI)
  let ?ms = "match_transfer_logs ids stream minc logs cs head"
  have origin: "\<exists>i l c. l \<in> set canonical \<and> payable_window stream cs l = [c] \<and>
      m = matched_payment_input_from_transfer_log i l c head minc" if mem: "m \<in> set ?ms" for m
  proof -
    obtain i l c where l: "l \<in> set logs" "c \<in> set (payable_window stream cs l)"
      "m = matched_payment_input_from_transfer_log (ids i) l c head minc"
      using mem by (rule member_matched)
    moreover have "payable_window stream cs l = [c]" using l(2) payable_window_single[of stream cs l] by auto
    ultimately show ?thesis using assms(1) by blast
  qed
  fix m'
  assume m': "m' \<in> set ?ms" "mp_tx_hash m' = mp_tx_hash m" "mp_log_index m' = mp_log_index m"
  obtain i l c where l: "l \<in> set canonical" "payable_window stream cs l = [c]"
    "m = matched_payment_input_from_transfer_log i l c head minc"
    using origin[OF assms(3)] by blast
  obtain i' l' c' where l': "l' \<in> set canonical" "payable_window stream cs l' = [c']"
    "m' = matched_payment_input_from_transfer_log i' l' c' head minc"
    using origin[OF m'(1)] by blast
  have "l' = l" using inj_onD[OF assms(2) _ l'(1) l(1)] m'(2,3) l(3) l'(3) by (simp add: matched_input_fields)
  with l l' show "same_transfer m m'"
    by (simp add: same_transfer_def matched_payment_input_from_transfer_log_def case_prod_beta)
qed

lemma runtime_matches_agree:
  assumes "runtime_matcher src ids mcfg d from_block to_block = Ok ms" "log_source (src_transfer_logs src) canonical"
    "inj_on (\<lambda>l. (tl_tx_hash l, tl_log_index l)) (set canonical)" "m \<in> set ms"
  shows "transfers_agree m ms"
proof -
  obtain logs head cs where src: "src_transfer_logs src (range_new (sid_chain_id (pmc_stream mcfg)) (sid_token_address (pmc_stream mcfg)) from_block to_block) = Ok logs"
    and ms: "ms = match_transfer_logs ids (pmc_stream mcfg) (pmc_min_confirmations mcfg) logs cs head"
    using assms(1) by (rule runtime_matcher_Ok)
  have "set logs \<subseteq> set canonical" using log_source.logs_in_range[OF assms(2) src] by blast
  from matches_agree[OF this assms(3)] assms(4) show ?thesis unfolding ms by blast
qed

lemma tick_streams: "scanner_tick src src' matcher t cfg mcfg d = (Ok out, d') \<Longrightarrow> psc_stream cfg = pmc_stream mcfg"
  by (auto simp: scanner_tick_def andThen_Ok scanner_validate_def split: if_splits)

lemma sweep_not_committed: "sweep_confirmations src t cfg mcfg d \<noteq> (Ok (Some (ScanCommitted st b n oids recs)), d')"
  by (auto elim: sweep_Some)

lemma tick_committed:
  assumes "scanner_tick src src' matcher t cfg mcfg d = (Ok (ScanCommitted st to_block n oids recs), d')" "system_ok d"
  obtains c lease d1 ms recs' head where
    "find_cursor (uint (sid_chain_id (psc_stream cfg))) (sid_token_address (psc_stream cfg)) d = Some c"
    "uint (scl_last_scanned_block lease) = cur_last_scanned_block c" "scl_last_scanned_block lease < to_block"
    "src_latest_head src = Ok head" "to_block \<le> cb_number head"
    "system_ok d1" "window_order_join d1 = window_order_join d"
    "matcher d1 (scl_last_scanned_block lease + 1) to_block = Ok ms"
    "commit_scanned_batch (at_commit t) (scan_commit cfg lease to_block ms) d1 = Ok (recs', d')"
proof -
  obtain lease_until lease d1 head where claim: "tick_claim t cfg lease_until d = Ok (Some lease, d1)"
    and head: "src_latest_head src = Ok head" "scl_last_scanned_block lease < cb_number head"
    and batch: "scan_batch matcher t cfg lease (cb_number head) d1 = (Ok (ScanCommitted st to_block n oids recs), d')"
    using assms(1) by (cases rule: scanner_tick_cases) (auto simp: sweep_not_committed)
  have sch: "schema_ok d" using assms(2) by (simp add: system_ok_def repo_ok_def)
  obtain c where c: "find_cursor (uint (sid_chain_id (psc_stream cfg))) (sid_token_address (psc_stream cfg)) d = Some c"
    "uint (scl_last_scanned_block lease) = cur_last_scanned_block c" "d1 = d\<lparr>chain_cursors := chain_cursors d1\<rparr>"
    using claim sch by (rule claim_scan_range_Some)
  have low: "uint (scl_last_scanned_block lease) < 2 ^ 63"
    using find_cursor_ok[OF sch c(1)] c(2) by (simp add: cursor_ok_def)
  have "d1 = execute (ClaimScanRange (at_claim t) (psc_worker_id cfg) (sid_chain_id (psc_stream cfg))
      (sid_token_address (psc_stream cfg)) lease_until) d" by (simp add: claim state_after_def)
  then have ok1: "system_ok d1" using execute_step[OF assms(2)] by metis
  have join: "window_order_join d1 = window_order_join d" by (subst c(3)) (simp add: window_order_join_def)
  obtain ms recs' where ms: "matcher d1 (scl_last_scanned_block lease + 1)
      (scan_end cfg (scl_last_scanned_block lease + 1) (cb_number head)) = Ok ms"
    and commit: "commit_scanned_batch (at_commit t)
       (scan_commit cfg lease (scan_end cfg (scl_last_scanned_block lease + 1) (cb_number head)) ms) d1 = Ok (recs', d')"
    and out: "to_block = scan_end cfg (scl_last_scanned_block lease + 1) (cb_number head)"
    using batch by (rule scan_batch_Ok) simp
  show thesis
    using scan_end_bounds[OF head(2) low, of cfg]
    by (intro that[OF c(1,2) _ head(1) _ ok1 join]) (use ms commit in \<open>simp_all only: out\<close>)
qed

text \<open>
  C3: a committed tick misses nothing.  The cursor moves forward to the tick's last block, never
  past the head the tick read, and every transfer of the stream's token on the canonical chain
  in the blocks the cursor moved over to the address of an order the database knows is a
  payment of that order afterwards, with its full amount and its block.
\<close>
theorem scanner_records_every_transfer:
  assumes "scanner_tick src src' (runtime_matcher msrc ids mcfg) t cfg mcfg d =
      (Ok (ScanCommitted st to_block n oids recs), d')"
    "system_ok d" "log_source (src_transfer_logs msrc) canonical"
    "inj_on (\<lambda>l. (tl_tx_hash l, tl_log_index l)) (set canonical)"
  shows "\<exists>c c' head. find_cursor (uint (sid_chain_id (psc_stream cfg))) (sid_token_address (psc_stream cfg)) d = Some c \<and>
    find_cursor (uint (sid_chain_id (psc_stream cfg))) (sid_token_address (psc_stream cfg)) d' = Some c' \<and>
    cur_last_scanned_block c < cur_last_scanned_block c' \<and> cur_last_scanned_block c' = uint to_block \<and>
    src_latest_head src = Ok head \<and> to_block \<le> cb_number head \<and>
    (\<forall>l w r. l \<in> set canonical \<longrightarrow> tl_chain_id l = sid_chain_id (psc_stream cfg) \<longrightarrow>
       tl_token_address l = sid_token_address (psc_stream cfg) \<longrightarrow>
       cur_last_scanned_block c < uint (blk_number (tl_block l)) \<longrightarrow> blk_number (tl_block l) \<le> to_block \<longrightarrow>
       (w, r) \<in> set (window_order_join d) \<longrightarrow> log_for_order l r \<longrightarrow>
       (\<exists>p \<in> set (payments d'). p_order_id p = o_id r \<and> p_tx_hash p = tl_tx_hash l \<and>
          p_log_index p = uint (tl_log_index l) \<and> p_amount_raw p = uint (tl_amount_raw l) \<and>
          p_block_hash p = blk_hash (tl_block l)))"
proof -
  let ?chain = "uint (sid_chain_id (psc_stream cfg))" and ?token = "sid_token_address (psc_stream cfg)"
  obtain c lease d1 ms recs' head where c: "find_cursor ?chain ?token d = Some c"
    "uint (scl_last_scanned_block lease) = cur_last_scanned_block c" "scl_last_scanned_block lease < to_block"
    and head: "src_latest_head src = Ok head" "to_block \<le> cb_number head"
    and d1: "system_ok d1" "window_order_join d1 = window_order_join d"
    and ms: "runtime_matcher msrc ids mcfg d1 (scl_last_scanned_block lease + 1) to_block = Ok ms"
    and commit: "commit_scanned_batch (at_commit t) (scan_commit cfg lease to_block ms) d1 = Ok (recs', d')"
    using assms(1,2) by (rule tick_committed)
  have sch: "schema_ok d1" and repo: "repo_ok d1" using d1(1) by (simp_all add: system_ok_def repo_ok_def)
  obtain c1 where c': "find_cursor ?chain ?token d' = Some (advance_cursor (scan_commit cfg lease to_block ms) c1)"
    using commit_cursor[OF commit sch] by auto
  obtain e1 e2 where up: "upsert_all (sid_chain_id (psc_stream cfg)) ?token ms d1 = Ok (recs', e1)"
    and rc: "recompute_orders_in_tx (at_commit t) (id_set (map mp_order_id recs')) e1 = Ok e2"
    and d': "payments d' = payments e2"
    using commit by (rule commit_scanned_batch_Ok) simp
  have pay: "payments d' = payments e1"
    using recompute_frame(1)[OF rc] schema_distinct_orders[OF upsert_all_keeps(1)[OF up sch]] d' by simp
  have stream: "pmc_stream mcfg = psc_stream cfg" using tick_streams[OF assms(1)] by simp
  have "\<exists>p \<in> set (payments d'). p_order_id p = o_id r \<and> p_tx_hash p = tl_tx_hash l \<and>
      p_log_index p = uint (tl_log_index l) \<and> p_amount_raw p = uint (tl_amount_raw l) \<and> p_block_hash p = blk_hash (tl_block l)"
    if l: "l \<in> set canonical" "tl_chain_id l = sid_chain_id (psc_stream cfg)" "tl_token_address l = ?token"
      "cur_last_scanned_block c < uint (blk_number (tl_block l))" "blk_number (tl_block l) \<le> to_block"
      and r: "(w, r) \<in> set (window_order_join d)" "log_for_order l r" for l w r
  proof -
    have from_block: "scl_last_scanned_block lease + 1 \<le> blk_number (tl_block l)"
      using l(4) by (intro inc_le) (simp add: word_less_def c(2))
    obtain i cand hd where m: "matched_payment_input_from_transfer_log i l cand hd (pmc_min_confirmations mcfg) \<in> set ms"
      "pwc_order_id cand = o_id r"
      using runtime_matcher_finds[OF ms assms(3) repo _ r(2) _ l(1) from_block l(5), of w] r(1) l(2,3) stream
      by (auto simp: d1(2))
    from upsert_all_records[OF up m(1) runtime_matches_agree[OF ms assms(3,4) m(1)]] m(2)
    show ?thesis
      by (auto simp: pay row_of_match_def payment_key_def matched_input_fields)
        (auto simp: matched_payment_input_from_transfer_log_def case_prod_beta)
  qed
  with c c' head show ?thesis
    by (intro exI[of _ c] exI[of _ "advance_cursor (scan_commit cfg lease to_block ms) c1"] exI[of _ head])
      (simp add: advance_cursor_def word_less_def)
qed

text \<open>A chain with one transfer to the sample order, and a scanner that has not seen it.\<close>

definition scan_chain :: FakeChainState where
  "scan_chain = \<lparr>fc_chain_id = 137, fc_blocks = [(12, tl_block sample_log), (15, \<lparr>blk_number = 15, blk_hash = 15,
       blk_parent_hash = 0, blk_timestamp = 40\<rparr>)], fc_logs = [sample_log],
     fc_head = Some \<lparr>cb_number = 15, cb_hash = 15\<rparr>, fc_safe_head = None, fc_finalized_head = None,
     fc_native_balances = [], fc_pending_nonces = [],
     fc_fee_estimate = \<lparr>fe_max_fee_per_gas = 0, fe_max_priority_fee_per_gas = 0\<rparr>, fc_balances = [], fc_receipts = [],
     fc_next_error = None, fc_max_range_blocks = None, fc_broadcast_counter = 0, fc_calls = []\<rparr>"

definition sample_scanner :: PaymentScannerConfig where
  "sample_scanner = scanner_config_new ''w1'' sample_stream 30"

definition sample_times :: scan_times where
  "sample_times = \<lparr>at_lease = 40, at_claim = 40, at_confirm = 40, at_commit = 40, at_reorg = 40\<rparr>"

lemmas scan_defs = scan_chain_def sample_scanner_def scanner_config_new_def sample_times_def sample_stream_def

lemma scan_sample_simps:
  "psc_worker_id sample_scanner = ''w1''" "psc_stream sample_scanner = sample_stream" "psc_lease_duration sample_scanner = 30"
  "sid_chain_id sample_stream = 137" "sid_token_address sample_stream = 0xA" "at_lease sample_times = 40"
  "at_claim sample_times = 40" "at_commit sample_times = 40" "at_reorg sample_times = 40"
  by (simp_all add: scan_defs)

lemma scan_chain_source: "log_source (src_transfer_logs (fake_view scan_chain)) (fake_canonical scan_chain)"
  using fake_source.log_source_axioms[of scan_chain] by (simp add: fake_view_def)

lemma scan_chain_head: "src_latest_head (fake_view scan_chain) = Ok \<lparr>cb_number = 15, cb_hash = 15\<rparr>"
  by (simp add: fake_view_def fake_latest_head_def fake_call_def scan_chain_def ok_or_def)

lemma scan_chain_logs:
  "src_transfer_logs (fake_view scan_chain) (range_new 137 0xA 10 15) = Ok [sample_log]"
  by (simp add: fake_view_def fake_transfer_logs_def fake_call_def range_validate_def range_new_def scan_chain_def
      fake_log_selected_def sort_logs_def sample_log_def)

lemma sample_match: "runtime_matcher (fake_view scan_chain) (\<lambda>_. 9) (runtime_matching_config sample_stream 6)
    (sample_db\<lparr>chain_cursors := cs\<rparr>) 10 15 = Ok [(sample_payment 100)\<lparr>mp_id := 9, mp_confirmations := 4\<rparr>]"
  using big_decimal_numeral[of 100] big_decimal_numeral[of 0]
  by (simp add: runtime_matcher_def match_range_def runtime_matching_config_def scan_chain_head scan_chain_logs
      sample_stream_def unique_to_addresses_from_transfer_logs_def deduplicate_addresses_def
      TRANSFER_LOG_MAX_UNIQUE_TO_ADDRESSES_PER_BATCH_def TRANSFER_LOG_MAX_DB_FALLBACK_ADDRESSES_def
      watch_set_lookup_batch_def repository_lookup_batch_def lookup_payment_window_candidates_def
      candidate_is_for_lookup_def window_order_join_def row_to_payment_window_candidate_def order_eval sample_defs
      sample_log_def match_transfer_logs_def selected_payable payable_window_def windows_of_log_def
      key_from_candidate_def window_covers_def matched_payment_input_from_transfer_log_def match_status_transfer_def
      chain_status_of_def confirmations_against_def Let_def)

text \<open>The sample scanner holds the cursor of every state below; the tick is then decided by the sweep.\<close>

definition sample_lease :: ScanCursorLease where
  "sample_lease = \<lparr>scl_chain_id = 137, scl_token_address = 0xA, scl_lease_owner = ''w1'', scl_lease_until = 70,
     scl_last_scanned_block = 9, scl_seen_kv_reorg_epoch = 0\<rparr>"

definition claimed :: "db \<Rightarrow> db" where
  "claimed d = d\<lparr>chain_cursors := [sample_cursor\<lparr>cur_lease_until := Some 70\<rparr>]\<rparr>"

lemma sample_claimed_tick:
  assumes "chain_cursors d = [sample_cursor] \<or> chain_cursors d = [sample_cursor\<lparr>cur_lease_until := Some 70\<rparr>]"
    "src_latest_head src = Ok head"
    "sweep_confirmations src' sample_times sample_scanner (runtime_matching_config sample_stream 6) (claimed d) = (r, d2)"
  shows "scanner_tick src src' matcher sample_times sample_scanner (runtime_matching_config sample_stream 6) d =
    (case r of Inl e \<Rightarrow> (Err e, d2)
     | Inr (Some out) \<Rightarrow> (Ok out, d2)
     | Inr None \<Rightarrow> if cb_number head \<le> 9 then (Ok (ScanIdle sample_stream 9 (cb_number head)), d2)
         else scan_batch matcher sample_times sample_scanner sample_lease (cb_number head) d2)"
proof -
  have claim: "claim_scan_range 40 ''w1'' 137 0xA 70 d = Ok (Some sample_lease, claimed d)"
    using assms(1) by (auto simp: claim_scan_range_def held_by_other_live_worker_def payment_eval sample_cursor_def
        sample_lease_def claimed_def)
  have "scanner_validate sample_scanner (runtime_matching_config sample_stream 6) = Ok ()"
    using trim_visible_ends[of "''w1''"]
    by (simp add: scanner_validate_def sample_scanner_def scanner_config_new_def runtime_matching_config_def visible_def)
  moreover have "datetime_checked_add 40 30 = Some 70"
    by (simp add: datetime_checked_add_def MIN_DATETIME_def MAX_DATETIME_def)
  moreover have "scl_last_scanned_block sample_lease = 9" by (simp add: sample_lease_def)
  ultimately show ?thesis
    using assms(2,3)
    by (simp add: scanner_tick_def andThen_def ok_or_def transact_def Let_def scan_sample_simps claim
        split: sum.split option.split)
qed

lemma sample_tick: "\<exists>n oids recs d'. scanner_tick (fake_view scan_chain) (fake_view scan_chain)
    (runtime_matcher (fake_view scan_chain) (\<lambda>_. 9) (runtime_matching_config sample_stream 6)) sample_times
    sample_scanner (runtime_matching_config sample_stream 6) sample_db = (Ok (ScanCommitted sample_stream 15 n oids recs), d')"
proof -
  have sweep: "sweep_confirmations (fake_view scan_chain) sample_times sample_scanner (runtime_matching_config sample_stream 6)
      (claimed sample_db) = (Ok None, claimed sample_db)"
    by (simp add: sweep_confirmations_def andThen_def scan_chain_head max_confirmable_block_def runtime_matching_config_def
        checked_sub_def query_def observed_payment_confirmation_candidates_def u64_to_i64_def order_by_position_def
        sample_scanner_def scanner_config_new_def sample_stream_def sample_db_def claimed_def Let_def)
  let ?batch = "\<lparr>csb_chain_id = 137, csb_token_address = 0xA, csb_worker_id = ''w1'',
      csb_expected_last_scanned_block = 9, csb_complete_to_block = 15, csb_expected_seen_kv_reorg_epoch = 0,
      csb_seen_kv_reorg_epoch = 0, csb_matched_payments = [(sample_payment 100)\<lparr>mp_id := 9, mp_confirmations := 4\<rparr>],
      csb_recompute_order_ids = [1]\<rparr>"
  have "\<exists>recs d'. commit_scanned_batch 40 ?batch (claimed sample_db) = Ok (recs, d')"
    by (simp add: payment_eval sample_defs claimed_def)
  then obtain recs d' where commit: "commit_scanned_batch 40 ?batch (claimed sample_db) = Ok (recs, d')" by blast
  have oid: "mp_order_id (sample_payment a) = 1" for a by (simp add: sample_payment_def)
  have bound: "scan_end sample_scanner 10 15 = 15"
    by (simp add: scan_end_def sample_scanner_def scanner_config_new_def saturating_add_def saturating_sub_def)
  have "scan_batch (runtime_matcher (fake_view scan_chain) (\<lambda>_. 9) (runtime_matching_config sample_stream 6))
      sample_times sample_scanner sample_lease 15 (claimed sample_db)
      = (Ok (ScanCommitted sample_stream 15 1 [1] recs), d')"
    using commit sample_match[of "[sample_cursor\<lparr>cur_lease_until := Some 70\<rparr>]"]
    by (simp add: scan_batch_def bound andThen_def transact_def id_set_def oid scan_sample_simps sample_lease_def
        claimed_def[symmetric])
  then show ?thesis
    using sample_claimed_tick[OF _ scan_chain_head sweep] by (simp add: sample_db_def[THEN arg_cong[of _ _ chain_cursors]])
qed

lemma sample_system: "system_ok sample_db"
  using sample_repo
  by (simp add: system_ok_def sweep_ok_def one_active_per_nonce_def one_active_per_child_def treasury_only_def sample_db_def)

theorem scanner_records_every_transfer_witness:
  "\<exists>n oids recs d'. scanner_tick (fake_view scan_chain) (fake_view scan_chain)
     (runtime_matcher (fake_view scan_chain) (\<lambda>_. 9) (runtime_matching_config sample_stream 6)) sample_times
     sample_scanner (runtime_matching_config sample_stream 6) sample_db
       = (Ok (ScanCommitted sample_stream 15 n oids recs), d') \<and>
     (\<exists>p \<in> set (payments d'). p_order_id p = 1 \<and> p_amount_raw p = 100)"
proof -
  obtain n oids recs d' where run: "scanner_tick (fake_view scan_chain) (fake_view scan_chain)
     (runtime_matcher (fake_view scan_chain) (\<lambda>_. 9) (runtime_matching_config sample_stream 6)) sample_times
     sample_scanner (runtime_matching_config sample_stream 6) sample_db
       = (Ok (ScanCommitted sample_stream 15 n oids recs), d')"
    using sample_tick by blast
  have canon: "fake_canonical scan_chain = [sample_log]" by (simp add: fake_canonical_def scan_chain_def sample_log_def)
  have inj: "inj_on (\<lambda>l. (tl_tx_hash l, tl_log_index l)) (set (fake_canonical scan_chain))" by (simp add: canon)
  have join: "(sample_window, sample_order) \<in> set (window_order_join sample_db)"
    by (simp add: window_order_join_def sample_defs)
  have log: "log_for_order sample_log sample_order" by (simp add: log_for_order_def sample_log_def sample_order_def)
  have cur: "find_cursor 137 0xA sample_db = Some sample_cursor"
    by (simp add: find_cursor_def find_row_def cursor_key_def sample_defs)
  from scanner_records_every_transfer[OF run sample_system scan_chain_source inj]
  have "\<exists>p \<in> set (payments d'). p_order_id p = o_id sample_order \<and> p_tx_hash p = tl_tx_hash sample_log \<and>
      p_log_index p = uint (tl_log_index sample_log) \<and> p_amount_raw p = uint (tl_amount_raw sample_log) \<and>
      p_block_hash p = blk_hash (tl_block sample_log)"
    using join log cur canon by (auto simp: scan_sample_simps sample_log_def sample_cursor_def)
  with run show ?thesis by (auto simp: sample_order_def sample_log_def)
qed


section \<open>Confirmations only on the canonical chain\<close>

definition chain_agrees :: "chain_source \<Rightarrow> ChainBlockRef \<Rightarrow> bool" where
  "chain_agrees src b \<longleftrightarrow> (\<exists>blk. src_block_by_number src (cb_number b) = Ok blk \<and> blk_hash blk = cb_hash b)"

definition cache_ok :: "chain_source \<Rightarrow> (u64 \<times> ChainBlockRef) list \<Rightarrow> bool" where
  "cache_ok src cache \<longleftrightarrow> (\<forall>n b. map_of cache n = Some b \<longrightarrow> (\<exists>blk. src_block_by_number src n = Ok blk \<and> b = block_ref blk))"

lemma cached_block_Ok:
  assumes "cached_block src cache n = Ok (b, cache')" "cache_ok src cache"
  shows "cache_ok src cache' \<and> (\<exists>blk. src_block_by_number src n = Ok blk \<and> b = block_ref blk)"
  using assms by (auto simp: cached_block_def cache_ok_def bindE_eq_Ok split: option.splits if_splits)

lemma confirmable_ids_Cons:
  assumes "cached_block src cache (cb_number (pcc_block c)) = Ok (b, cache')" "cache_ok src cache"
  shows "chain_agrees src (pcc_block c) \<longleftrightarrow> cb_hash b = cb_hash (pcc_block c)"
  using cached_block_Ok[OF assms] by (auto simp: chain_agrees_def block_ref_def)

lemma confirmable_ids_Ok:
  assumes "canonical_confirmable_payment_ids src head minc cs cache = Ok ids" "cache_ok src cache"
  shows "(\<forall>c \<in> set cs. chain_agrees src (pcc_block c)) \<and>
    ids = map pcc_payment_id (filter (\<lambda>c. has_confirmations (pcc_block c) head minc) cs)"
  using assms
proof (induction cs arbitrary: cache ids)
  case (Cons c cs)
  from Cons.prems(1) obtain b cache' ids' where b: "cached_block src cache (cb_number (pcc_block c)) = Ok (b, cache')"
    and eq: "cb_hash b = cb_hash (pcc_block c)" and rest: "canonical_confirmable_payment_ids src head minc cs cache' = Ok ids'"
    and ids: "ids = (if has_confirmations (pcc_block c) head minc then pcc_payment_id c # ids' else ids')"
    by (auto simp: bindE_eq_Ok split: if_splits)
  have "cache_ok src cache'" using cached_block_Ok[OF b Cons.prems(2)] by blast
  from Cons.IH[OF rest this] confirmable_ids_Cons[OF b Cons.prems(2)] eq ids show ?case by auto
qed simp

text \<open>A mismatch is reported for the first candidate, in their order, that the chain no longer has.\<close>

lemma confirmable_ids_mismatch:
  assumes "canonical_confirmable_payment_ids src head minc cs cache = Err (CanonicalBlockHashMismatch n stored canonical)"
    "cache_ok src cache"
  shows "\<exists>xs c ys. cs = xs @ c # ys \<and> cb_number (pcc_block c) = n \<and> \<not> chain_agrees src (pcc_block c) \<and>
    (\<forall>x \<in> set xs. chain_agrees src (pcc_block x))"
  using assms
proof (induction cs arbitrary: cache)
  case (Cons c cs)
  obtain b cache' where b: "cached_block src cache (cb_number (pcc_block c)) = Ok (b, cache')"
    using Cons.prems(1) by (cases "cached_block src cache (cb_number (pcc_block c))")
      (auto simp: cached_block_def bindE_def map_errE_def split: option.splits sum.splits)
  note agree = confirmable_ids_Cons[OF b Cons.prems(2)]
  show ?case
  proof (cases "cb_hash b = cb_hash (pcc_block c)")
    case True
    then have rest: "canonical_confirmable_payment_ids src head minc cs cache' = Err (CanonicalBlockHashMismatch n stored canonical)"
      using Cons.prems(1) b by (auto simp: bindE_eq_Err)
    have "cache_ok src cache'" using cached_block_Ok[OF b Cons.prems(2)] by blast
    from Cons.IH[OF rest this] obtain xs x ys where x: "cs = xs @ x # ys" "cb_number (pcc_block x) = n"
      "\<not> chain_agrees src (pcc_block x)" "\<forall>x \<in> set xs. chain_agrees src (pcc_block x)" by blast
    with agree True show ?thesis by (intro exI[of _ "c # xs"] exI[of _ x] exI[of _ ys]) simp
  next
    case False
    then have "cb_number (pcc_block c) = n" using Cons.prems(1) b by simp
    with agree False show ?thesis by (intro exI[of _ "[]"] exI[of _ c] exI[of _ cs]) simp
  qed
qed simp

lemma empty_cache [simp]: "cache_ok src []"
  by (simp add: cache_ok_def)

text \<open>The rows a candidate query selects, and the block a candidate carries.\<close>

definition observed_rows :: "u64 \<Rightarrow> EvmAddress \<Rightarrow> u64 \<Rightarrow> db \<Rightarrow> payment_row list" where
  "observed_rows chain_id token mx d =
     order_by_position (filter (\<lambda>r. p_chain_id r = uint chain_id \<and> p_token_address r = token
        \<and> p_chain_status r = Observed \<and> p_block_number r \<le> uint mx) (payments d))"

definition row_block :: "payment_row \<Rightarrow> ChainBlockRef" where
  "row_block p = \<lparr>cb_number = of_int (p_block_number p), cb_hash = p_block_hash p\<rparr>"

lemma candidates_rows:
  assumes "observed_payment_confirmation_candidates chain_id token mx limit d = Ok cs"
  shows "traverseE row_to_confirmation_candidate (take limit (observed_rows chain_id token mx d)) = Ok cs"
  using assms
  by (auto simp: observed_payment_confirmation_candidates_def observed_rows_def bindE_eq_Ok u64_to_i64_Ok split: if_splits)

lemma candidate_row:
  "row_to_confirmation_candidate r = Ok c \<Longrightarrow> pcc_payment_id c = p_id r \<and> pcc_block c = row_block r"
  by (auto simp: row_to_confirmation_candidate_def bindE_eq_Ok i64_to_u64_Ok row_block_def)

lemma traverse_candidates:
  "traverseE row_to_confirmation_candidate rs = Ok cs \<Longrightarrow>
    map pcc_payment_id cs = map p_id rs \<and> map pcc_block cs = map row_block rs"
  by (induction rs arbitrary: cs) (auto simp: bindE_eq_Ok dest: candidate_row)

lemma confirmed_depth:
  assumes "has_confirmations b head k" "uint (cb_number b) \<le> uint (cb_number head)"
  shows "uint (cb_number b) + uint k \<le> uint (cb_number head) + 1"
proof (cases "k = 0")
  case False
  have le: "cb_number b \<le> cb_number head" using assms(2) by (simp add: word_le_def)
  have "uint k \<le> uint (cb_number head - cb_number b + 1)"
    using assms(1) False by (simp add: has_confirmations_def confirmations_against_def word_le_def split: if_splits)
  also have "\<dots> \<le> uint (cb_number head - cb_number b) + 1" using uint_add_le[of "cb_number head - cb_number b" 1] by simp
  also have "uint (cb_number head - cb_number b) = uint (cb_number head) - uint (cb_number b)"
    using le by (simp add: uint_minus_simple_alt)
  finally show ?thesis by simp
qed (use assms in simp)

lemma claim_payments: "tick_claim t cfg lease_until d = Ok (claim, d1) \<Longrightarrow> payments d1 = payments d \<and> db_now d1 = db_now d"
  by (auto simp: claim_scan_range_def bindE_eq_Ok split: option.splits if_splits)

lemma sweep_row_confirmed:
  assumes cands: "observed_payment_confirmation_candidates chain_id token mx limit d = Ok cands"
    and ids: "canonical_confirmable_payment_ids src head minc cands [] = Ok ids"
    and p: "p \<in> set (payments d)" "p_id p \<in> set ids" "distinct (map p_id (payments d))"
  shows "chain_agrees src (row_block p) \<and> has_confirmations (row_block p) head minc \<and> p_chain_status p = Observed"
proof -
  let ?rows = "take limit (observed_rows chain_id token mx d)"
  note tr = traverse_candidates[OF candidates_rows[OF cands]]
  note ok = confirmable_ids_Ok[OF ids empty_cache]
  obtain c where c: "c \<in> set cands" "has_confirmations (pcc_block c) head minc" "pcc_payment_id c = p_id p"
    using p(2) ok by auto
  obtain i where i: "i < length cands" "cands ! i = c" using c(1) by (auto simp: in_set_conv_nth)
  have len: "length cands = length ?rows" using tr by (metis length_map)
  then have row: "?rows ! i \<in> set ?rows" "p_id (?rows ! i) = pcc_payment_id c" "row_block (?rows ! i) = pcc_block c"
    using i tr nth_map[of i cands pcc_payment_id] nth_map[of i ?rows p_id] nth_map[of i cands pcc_block]
      nth_map[of i ?rows row_block] by (simp_all del: nth_take)
  have mem: "?rows ! i \<in> set (payments d)" "p_chain_status (?rows ! i) = Observed"
    using in_set_takeD[OF row(1)] by (simp_all add: observed_rows_def)
  have "?rows ! i = p" using p(1,3) mem(1) row(2) c(3) by (metis distinct_map inj_onD)
  with c row mem ok show ?thesis by metis
qed

text \<open>
  C6: a sweep confirms a payment only when the chain still has the payment's block, at its
  number and with its hash, and the block is at least the required number of blocks deep
  below the head the sweep read; every other payment is untouched and none is lost.
\<close>
theorem scanner_confirms_only_canonical:
  assumes "scanner_tick src src' matcher t cfg mcfg d = (Ok (ConfirmationsSwept st head n oids recs), d')" "system_ok d"
  shows "src_latest_head src' = Ok head \<and> length (payments d') = length (payments d) \<and>
    (\<forall>i < length (payments d). let p = payments d ! i; p' = payments d' ! i in
       p' = p \<or> p_chain_status p = Observed \<and> p' = confirm_row (db_now d) (uint (cb_number head)) p \<and>
         (\<exists>blk. src_block_by_number src' (of_int (p_block_number p)) = Ok blk \<and> blk_hash blk = p_block_hash p) \<and>
         p_block_number p + uint (pmc_min_confirmations mcfg) \<le> uint (cb_number head) + 1)"
proof -
  have sch: "schema_ok d" using assms(2) by (simp add: system_ok_def repo_ok_def)
  obtain lease_until lease d1 where claim: "tick_claim t cfg lease_until d = Ok (Some lease, d1)"
    and sweep: "sweep_confirmations src' t cfg mcfg d1 = (Ok (Some (ConfirmationsSwept st head n oids recs)), d')"
    using assms(1) by (cases rule: scanner_tick_cases) (auto elim: scan_batch_Ok)
  note d1 = claim_payments[OF claim]
  obtain mx cands ids recs' where head: "src_latest_head src' = Ok head"
    and cands: "observed_payment_confirmation_candidates (sid_chain_id (psc_stream cfg)) (sid_token_address (psc_stream cfg)) mx
       (psc_confirmation_sweep_limit cfg) d1 = Ok cands"
    and ids: "canonical_confirmable_payment_ids src' head (pmc_min_confirmations mcfg) cands [] = Ok ids"
    and conf: "confirm_observed_payments (at_confirm t) (sweep_batch cfg ids head) d1 = Ok (recs', d')"
    using sweep by (rule sweep_Some) auto
  have sch1: "schema_ok d1" using claim_scan_range_keeps[OF claim sch] assms(2) by (auto simp: system_ok_def repo_ok_def)
  obtain sel where sel: "payments d' = update_where sel (confirm_row (db_now d) (uint (cb_number head))) (payments d)"
    "\<And>p. sel p \<Longrightarrow> p_id p \<in> set ids \<and> p_block_number p \<le> uint (cb_number head)"
    using conf
  proof (cases rule: confirm_observed_payments_Ok)
    case none
    then show thesis using d1 by (intro that[of "\<lambda>_. False"]) (simp_all add: update_where_none)
  next
    case (some sel h)
    then show thesis
      using recompute_frame(1)[OF some(4)] schema_distinct_orders[OF sch1] d1
      by (intro that[of sel]) (simp_all add: confirmable_def)
  qed
  have keys: "distinct (map p_id (payments d))" using sch by (simp add: schema_ok_def keys_ok_def)
  have "p_chain_status p = Observed \<and>
      (\<exists>blk. src_block_by_number src' (of_int (p_block_number p)) = Ok blk \<and> blk_hash blk = p_block_hash p) \<and>
      p_block_number p + uint (pmc_min_confirmations mcfg) \<le> uint (cb_number head) + 1"
    if p: "p \<in> set (payments d)" "sel p" for p
  proof -
    have row: "payment_row_ok p" using sch p(1) by (simp add: schema_ok_def payments_ok_def)
    have c: "chain_agrees src' (row_block p)" "has_confirmations (row_block p) head (pmc_min_confirmations mcfg)"
      "p_chain_status p = Observed"
      using sweep_row_confirmed[OF cands ids] p sel(2) d1 keys by auto
    have "uint (of_int (p_block_number p) :: u64) = p_block_number p"
      using row by (simp add: payment_row_ok_def unsigned_of_int take_bit_int_eq_self)
    then have "p_block_number p + uint (pmc_min_confirmations mcfg) \<le> uint (cb_number head) + 1"
      using confirmed_depth[OF c(2)] sel(2)[OF p(2)] by (simp add: row_block_def)
    with c show ?thesis by (simp add: chain_agrees_def row_block_def)
  qed
  then show ?thesis
    using head sel(1) by (auto simp: update_where_def Let_def)
qed

text \<open>An observed payment in block 12, on a chain that still has the block, or no longer.\<close>

definition observed_row :: payment_row where
  "observed_row = inserted_payment sample_order sample_window (sample_payment 100) 3 12 1 20"

definition observed_db :: db where
  "observed_db = sample_db\<lparr>payments := [observed_row], orders := [sample_order\<lparr>o_status := Confirming\<rparr>]\<rparr>"

definition chain_at :: "BlockHash \<Rightarrow> FakeChainState" where
  "chain_at h = scan_chain\<lparr>fc_blocks := [(12, \<lparr>blk_number = 12, blk_hash = h, blk_parent_hash = 0, blk_timestamp = 30\<rparr>)],
     fc_head := Some \<lparr>cb_number = 20, cb_hash = 20\<rparr>\<rparr>"

lemma chain_at_head: "src_latest_head (fake_view (chain_at h)) = Ok \<lparr>cb_number = 20, cb_hash = 20\<rparr>"
  by (simp add: fake_view_def fake_latest_head_def fake_call_def chain_at_def scan_chain_def ok_or_def)

lemma chain_at_block:
  "src_block_by_number (fake_view (chain_at h)) 12 = Ok \<lparr>blk_number = 12, blk_hash = h, blk_parent_hash = 0, blk_timestamp = 30\<rparr>"
  by (simp add: fake_view_def fake_block_by_number_def fake_call_def chain_at_def scan_chain_def ok_or_def)

lemma observed_system: "system_ok observed_db"
proof -
  have "schema_ok observed_db"
    by (simp add: schema_ok_def keys_ok_def payments_ok_def payment_row_ok_def payment_references_def cursor_ok_def
        observed_db_def observed_row_def inserted_payment_def raw_amount_to_numeric_def sample_defs)
  moreover have "ledger_ok observed_db"
    by (auto simp: ledger_ok_def order_settled_def confirmed_accepted_total_def non_orphaned_accepted_total_def
        confirmed_on_time_sum_def non_orphaned_on_time_sum_def accepted_problem_raw_def find_row_def
        recompute_status_from_totals_def observed_db_def observed_row_def inserted_payment_def window_match_status_def
        raw_amount_to_numeric_def sample_defs)
  moreover have "windows_ok observed_db" by (simp add: windows_ok_def observed_db_def sample_defs)
  ultimately show ?thesis
    by (simp add: system_ok_def repo_ok_def sweep_ok_def one_active_per_nonce_def one_active_per_child_def treasury_only_def
        observed_db_def sample_db_def)
qed

lemma observed_candidates:
  "observed_payment_confirmation_candidates 137 0xA 15 1000 (claimed observed_db) =
     Ok [\<lparr>pcc_payment_id = 77, pcc_order_id = 1, pcc_block = \<lparr>cb_number = 12, cb_hash = 0xBEEF\<rparr>, pcc_confirmations = 1\<rparr>]"
  by (simp add: observed_payment_confirmation_candidates_def u64_to_i64_def order_by_position_def claimed_def observed_db_def
      observed_row_def inserted_payment_def row_to_confirmation_candidate_def i64_to_u64_def sample_defs)

lemma observed_sweep:
  "\<exists>recs d'. sweep_confirmations (fake_view (chain_at 0xBEEF)) sample_times sample_scanner (runtime_matching_config sample_stream 6)
     (claimed observed_db) = (Ok (Some (ConfirmationsSwept sample_stream \<lparr>cb_number = 20, cb_hash = 20\<rparr> 1 [1] recs)), d')"
proof -
  have ids: "canonical_confirmable_payment_ids (fake_view (chain_at 0xBEEF)) \<lparr>cb_number = 20, cb_hash = 20\<rparr> 6
      [\<lparr>pcc_payment_id = 77, pcc_order_id = 1, pcc_block = \<lparr>cb_number = 12, cb_hash = 0xBEEF\<rparr>, pcc_confirmations = 1\<rparr>] [] = Ok [77]"
    by (simp add: cached_block_def chain_at_block block_ref_def has_confirmations_def confirmations_against_def)
  have "\<exists>r d'. confirm_observed_payments 40 \<lparr>cop_chain_id = 137, cop_token_address = 0xA, cop_payment_ids = [77],
      cop_canonical_head = \<lparr>cb_number = 20, cb_hash = 20\<rparr>\<rparr> (claimed observed_db) = Ok ([r], d') \<and> mp_order_id r = 1"
    by (simp add: confirm_observed_payments_def confirmable_def confirm_row_def order_by_position_def claimed_def observed_db_def
        observed_row_def payment_eval sample_defs)
  then obtain r d' where conf: "confirm_observed_payments 40 \<lparr>cop_chain_id = 137, cop_token_address = 0xA, cop_payment_ids = [77],
      cop_canonical_head = \<lparr>cb_number = 20, cb_hash = 20\<rparr>\<rparr> (claimed observed_db) = Ok ([r], d')" "mp_order_id r = 1" by blast
  have "pmc_min_confirmations (runtime_matching_config sample_stream 6) = 6" "psc_confirmation_sweep_limit sample_scanner = 1000"
    "at_confirm sample_times = 40"
    by (simp_all add: runtime_matching_config_def scan_defs)
  then show ?thesis
    by (simp add: sweep_confirmations_def andThen_def query_def transact_def chain_at_head max_confirmable_block_def checked_sub_def
        scan_sample_simps observed_candidates ids conf id_set_def Let_def del: canonical_confirmable_payment_ids.simps)
qed

theorem scanner_confirms_only_canonical_witness:
  "\<exists>recs d'. scanner_tick (fake_view (chain_at 0xBEEF)) (fake_view (chain_at 0xBEEF)) (\<lambda>_ _ _. Ok []) sample_times sample_scanner
     (runtime_matching_config sample_stream 6) observed_db =
       (Ok (ConfirmationsSwept sample_stream \<lparr>cb_number = 20, cb_hash = 20\<rparr> 1 [1] recs), d') \<and> length (payments d') = 1"
proof -
  obtain recs d' where sweep: "sweep_confirmations (fake_view (chain_at 0xBEEF)) sample_times sample_scanner
      (runtime_matching_config sample_stream 6) (claimed observed_db)
      = (Ok (Some (ConfirmationsSwept sample_stream \<lparr>cb_number = 20, cb_hash = 20\<rparr> 1 [1] recs)), d')"
    using observed_sweep by blast
  have "chain_cursors observed_db = [sample_cursor]" by (simp add: observed_db_def sample_db_def)
  from sample_claimed_tick[OF disjI1[OF this] chain_at_head sweep]
  have run: "scanner_tick (fake_view (chain_at 0xBEEF)) (fake_view (chain_at 0xBEEF)) (\<lambda>_ _ _. Ok []) sample_times sample_scanner
     (runtime_matching_config sample_stream 6) observed_db =
       (Ok (ConfirmationsSwept sample_stream \<lparr>cb_number = 20, cb_hash = 20\<rparr> 1 [1] recs), d')"
    by simp
  have "length (payments d') = length (payments observed_db)"
    using scanner_confirms_only_canonical[OF run observed_system] by blast
  with run show ?thesis by (simp add: observed_db_def)
qed


end
