(* ===== verification/Scanner_Liveness.thy ===== *)
theory Scanner_Liveness
  imports Scanner_Props
begin

text \<open>
  The scanner over time: a reorganisation found by the confirmation sweep is healed so that the
  next sweep over the same chain does not meet it again, and ticks that succeed reach the head.
\<close>

section \<open>A reorganisation the sweep finds is healed\<close>

lemma first_mismatch_prefix:
  assumes "observed_payment_confirmation_candidates chain_id token mx limit d = Ok cands"
    "canonical_confirmable_payment_ids src head minc cands [] = Err (CanonicalBlockHashMismatch n stored canonical)"
    "schema_ok d"
  shows "\<forall>r \<in> set (observed_rows chain_id token mx d). p_block_number r < uint n \<longrightarrow> chain_agrees src (row_block r)"
proof (intro ballI impI)
  let ?rows = "observed_rows chain_id token mx d"
  fix r
  assume r: "r \<in> set ?rows" "p_block_number r < uint n"
  obtain xs c ys where split: "cands = xs @ c # ys" "cb_number (pcc_block c) = n"
    "\<forall>x \<in> set xs. chain_agrees src (pcc_block x)"
    using confirmable_ids_mismatch[OF assms(2) empty_cache] by blast
  have "map row_block (take limit ?rows) = map pcc_block xs @ pcc_block c # map pcc_block ys"
    using traverse_candidates[OF candidates_rows[OF assms(1)]] split(1) by simp
  then obtain X r0 Y where X: "take limit ?rows = X @ r0 # Y" "map row_block X = map pcc_block xs" "row_block r0 = pcc_block c"
    by (auto simp: map_eq_append_conv map_eq_Cons_conv)
  then have rows: "?rows = X @ r0 # Y @ drop limit ?rows" by (metis append.assoc append_Cons append_take_drop_id)
  then have "r0 \<in> set ?rows" by (metis in_set_conv_decomp)
  then have "payment_row_ok r0" using assms(3) by (auto simp: observed_rows_def schema_ok_def payments_ok_def)
  then have "uint (of_int (p_block_number r0) :: u64) = p_block_number r0"
    by (simp add: payment_row_ok_def unsigned_of_int take_bit_int_eq_self)
  moreover have "cb_number (row_block r0) = n" using X(3) split(2) by simp
  ultimately have n: "p_block_number r0 = uint n" by (simp add: row_block_def)
  have "sorted (map p_block_number ?rows)" unfolding observed_rows_def order_by_position_def by (rule sorted_sort_key)
  then have "\<forall>y \<in> set (r0 # Y @ drop limit ?rows). p_block_number r0 \<le> p_block_number y"
    by (subst (asm) rows) (auto simp: sorted_append)
  then have "r \<in> set X" using r rows n by (metis Un_iff not_le set_append)
  then have "row_block r \<in> set (map pcc_block xs)" unfolding X(2)[symmetric] by simp
  with split(3) show "chain_agrees src (row_block r)" by auto
qed

lemma mismatch_row:
  assumes "observed_payment_confirmation_candidates chain_id token mx limit d = Ok cands"
    "canonical_confirmable_payment_ids src head minc cands [] = Err (CanonicalBlockHashMismatch n stored canonical)"
  shows "\<exists>r \<in> set (observed_rows chain_id token mx d). \<not> chain_agrees src (row_block r)"
proof -
  obtain xs c ys where "cands = xs @ c # ys" "\<not> chain_agrees src (pcc_block c)"
    using confirmable_ids_mismatch[OF assms(2) empty_cache] by blast
  moreover have "set (map pcc_block cands) \<subseteq> row_block ` set (observed_rows chain_id token mx d)"
    using traverse_candidates[OF candidates_rows[OF assms(1)]] by (auto dest: in_set_takeD)
  ultimately show ?thesis by auto
qed

lemma next_epoch:
  assumes "find_cursor (uint (sid_chain_id (psc_stream cfg))) (sid_token_address (psc_stream cfg)) d = Some c"
    "schema_ok d" "uint (sid_chain_id (psc_stream cfg)) < 2 ^ 63"
  shows "uint (next_reorg_epoch cfg d) = cur_seen_kv_reorg_epoch c + 1"
proof -
  have ok: "cursor_ok c" using find_cursor_ok[OF assms(2,1)] .
  then have "next_reorg_epoch cfg d = of_int (cur_seen_kv_reorg_epoch c + 1)"
    using assms(1,3) by (simp add: next_reorg_epoch_def scan_cursor_state_def u64_to_i64_def i64_to_u64_def cursor_ok_def)
  with ok show ?thesis by (simp only: unsigned_of_int) (simp add: cursor_ok_def take_bit_int_eq_self)
qed

text \<open>
  C5: when the sweep of a tick finds a payment whose block the chain no longer has, the loop
  heals the ledger: the stream's payments from that block on are orphaned and every other
  payment is as it was, the cursor is below the block, never further on than before, and the
  epoch has advanced; the next sweep over the same chain finds no such payment again.
\<close>
theorem scanner_heals_reorg:
  assumes "scanner_tick src src' matcher t cfg mcfg d = (Err (CanonicalBlockHashMismatch n stored canonical), d1)"
    "scanner_iteration src src' matcher t cfg mcfg d = (Ok out, d')" "system_ok d"
  shows "\<exists>c c'. find_cursor (uint (sid_chain_id (psc_stream cfg))) (sid_token_address (psc_stream cfg)) d = Some c \<and>
    find_cursor (uint (sid_chain_id (psc_stream cfg))) (sid_token_address (psc_stream cfg)) d' = Some c' \<and>
    cur_last_scanned_block c' = min (cur_last_scanned_block c) (uint (saturating_sub n 1)) \<and>
    cur_seen_kv_reorg_epoch c' = cur_seen_kv_reorg_epoch c + 1 \<and>
    length (payments d') = length (payments d) \<and>
    (\<forall>i < length (payments d). let p = payments d ! i; p' = payments d' ! i in
       if p_chain_id p = uint (sid_chain_id (psc_stream cfg)) \<and> p_token_address p = sid_token_address (psc_stream cfg)
          \<and> uint n \<le> p_block_number p
       then p_chain_status p' = Orphaned else p' = p) \<and>
    (\<forall>t2 m s k d2. sweep_confirmations src' t2 cfg mcfg d' \<noteq> (Err (CanonicalBlockHashMismatch m s k), d2))"
proof -
  let ?chain = "uint (sid_chain_id (psc_stream cfg))" and ?token = "sid_token_address (psc_stream cfg)"
  have sch: "schema_ok d" using assms(3) by (simp add: system_ok_def repo_ok_def)
  obtain lease_until lease e1 where claim: "tick_claim t cfg lease_until d = Ok (Some lease, e1)"
    and sweep: "sweep_confirmations src' t cfg mcfg e1 = (Err (CanonicalBlockHashMismatch n stored canonical), d1)"
    using assms(1) by (rule scanner_tick_mismatch)
  obtain head mx cands where head: "src_latest_head src' = Ok head" "max_confirmable_block head (pmc_min_confirmations mcfg) = Some mx"
    and cands: "observed_payment_confirmation_candidates (sid_chain_id (psc_stream cfg)) ?token mx (psc_confirmation_sweep_limit cfg) e1 = Ok cands"
    "canonical_confirmable_payment_ids src' head (pmc_min_confirmations mcfg) cands []
       = Err (CanonicalBlockHashMismatch n stored canonical)" and e1: "d1 = e1"
    using sweep by (rule sweep_mismatch)
  obtain c where c: "find_cursor ?chain ?token d = Some c"
    "find_cursor ?chain ?token d1 = Some (c\<lparr>cur_lease_owner := Some (psc_worker_id cfg), cur_lease_until := Some lease_until\<rparr>)"
    using claim_scan_range_Some[OF claim sch] unfolding e1 by blast
  have pay: "payments d1 = payments d" "db_now d1 = db_now d" using claim_payments[OF claim] e1 by simp_all
  have sch1: "schema_ok d1"
    using claim_scan_range_keeps[OF claim sch] assms(3) e1 by (auto simp: system_ok_def repo_ok_def)
  let ?e = "next_reorg_epoch cfg d1"
  have reorg: "handle_kv_reorg_epoch (at_reorg t) (sid_chain_id (psc_stream cfg)) ?token ?e n d1 = Ok ((), d')"
    using assms(2) by (simp add: scanner_iteration_def assms(1) handle_reorg_def andThen_Ok Let_def)
  have "?chain < 2 ^ 63" using reorg by (auto simp: handle_kv_reorg_epoch_def bindE_eq_Ok u64_to_i64_Ok)
  then have ep: "uint ?e = cur_seen_kv_reorg_epoch c + 1" using next_epoch[OF c(2) sch1] by simp
  note st = reorg_state[OF reorg sch1 c(2)]
  have pd: "payments d' = update_where (reorged ?chain ?token (uint n)) (orphan_row (db_now d)) (payments d)"
    using st(1) ep pay by simp
  have no_mismatch: "sweep_confirmations src' t2 cfg mcfg d' \<noteq> (Err (CanonicalBlockHashMismatch m s k), d2)" for t2 m s k d2
  proof
    assume "sweep_confirmations src' t2 cfg mcfg d' = (Err (CanonicalBlockHashMismatch m s k), d2)"
    then obtain cands' where cands': "observed_payment_confirmation_candidates (sid_chain_id (psc_stream cfg)) ?token mx
        (psc_confirmation_sweep_limit cfg) d' = Ok cands'"
      "canonical_confirmable_payment_ids src' head (pmc_min_confirmations mcfg) cands' [] = Err (CanonicalBlockHashMismatch m s k)"
      using head by (auto elim: sweep_mismatch)
    obtain r where r: "r \<in> set (observed_rows (sid_chain_id (psc_stream cfg)) ?token mx d')" "\<not> chain_agrees src' (row_block r)"
      using mismatch_row[OF cands'] by blast
    then have "r \<in> set (observed_rows (sid_chain_id (psc_stream cfg)) ?token mx d1)" "p_block_number r < uint n"
      by (auto simp: observed_rows_def pd pay(1) set_update_where orphan_row_def reorged_def split: if_splits)
    then have "chain_agrees src' (row_block r)" using first_mismatch_prefix[OF cands[folded e1] sch1] by blast
    with r(2) show False ..
  qed
  have cur': "find_cursor ?chain ?token d' = Some (rewind_cursor (uint (saturating_sub n 1)) (uint ?e)
      (c\<lparr>cur_lease_owner := Some (psc_worker_id cfg), cur_lease_until := Some lease_until\<rparr>))"
    using st(2) ep by simp
  show ?thesis
  proof (rule exI[of _ c], rule exI, intro conjI)
    show "find_cursor ?chain ?token d = Some c" by (fact c(1))
    show "find_cursor ?chain ?token d' = Some (rewind_cursor (uint (saturating_sub n 1)) (uint ?e)
      (c\<lparr>cur_lease_owner := Some (psc_worker_id cfg), cur_lease_until := Some lease_until\<rparr>))" by (fact cur')
  qed (use no_mismatch in \<open>auto simp: ep pd update_where_def reorged_def orphan_row_def rewind_cursor_def Let_def\<close>)
qed

lemma forked_sweep:
  "sweep_confirmations (fake_view (chain_at 7)) sample_times sample_scanner (runtime_matching_config sample_stream 6)
     (claimed observed_db) = (Err (CanonicalBlockHashMismatch 12 0xBEEF 7), claimed observed_db)"
proof -
  have ids: "canonical_confirmable_payment_ids (fake_view (chain_at 7)) \<lparr>cb_number = 20, cb_hash = 20\<rparr> 6
      [\<lparr>pcc_payment_id = 77, pcc_order_id = 1, pcc_block = \<lparr>cb_number = 12, cb_hash = 0xBEEF\<rparr>, pcc_confirmations = 1\<rparr>] []
      = Err (CanonicalBlockHashMismatch 12 0xBEEF 7)"
    by (simp add: cached_block_def chain_at_block block_ref_def)
  have "pmc_min_confirmations (runtime_matching_config sample_stream 6) = 6" "psc_confirmation_sweep_limit sample_scanner = 1000"
    by (simp_all add: runtime_matching_config_def scan_defs)
  then show ?thesis
    by (simp add: sweep_confirmations_def andThen_def query_def chain_at_head max_confirmable_block_def checked_sub_def
        scan_sample_simps observed_candidates ids Let_def del: canonical_confirmable_payment_ids.simps)
qed

theorem scanner_heals_reorg_witness:
  "\<exists>out d'. scanner_iteration (fake_view (chain_at 7)) (fake_view (chain_at 7)) (\<lambda>_ _ _. Ok []) sample_times sample_scanner
     (runtime_matching_config sample_stream 6) observed_db = (Ok out, d') \<and> map p_chain_status (payments d') = [Orphaned]"
proof -
  have cur: "chain_cursors observed_db = [sample_cursor]" by (simp add: observed_db_def sample_db_def)
  have tick: "scanner_tick (fake_view (chain_at 7)) (fake_view (chain_at 7)) (\<lambda>_ _ _. Ok []) sample_times sample_scanner
     (runtime_matching_config sample_stream 6) observed_db = (Err (CanonicalBlockHashMismatch 12 0xBEEF 7), claimed observed_db)"
    using sample_claimed_tick[OF disjI1[OF cur] chain_at_head forked_sweep] by simp
  have epoch: "next_reorg_epoch sample_scanner (claimed observed_db) = 1"
    by (simp add: next_reorg_epoch_def scan_cursor_state_def scan_sample_simps payment_eval claimed_def sample_cursor_def)
  have "\<exists>d'. handle_kv_reorg_epoch 40 137 0xA 1 12 (claimed observed_db) = Ok ((), d')"
    by (simp add: handle_kv_reorg_epoch_def saturating_sub_def reorged_def payment_eval claimed_def observed_db_def
        observed_row_def sample_defs)
  then obtain d' where "handle_kv_reorg_epoch 40 137 0xA 1 12 (claimed observed_db) = Ok ((), d')" by blast
  then have it: "scanner_iteration (fake_view (chain_at 7)) (fake_view (chain_at 7)) (\<lambda>_ _ _. Ok []) sample_times sample_scanner
     (runtime_matching_config sample_stream 6) observed_db = (Ok (KvReorgHandled sample_stream 1 12), d')"
    by (simp add: scanner_iteration_def tick handle_reorg_def andThen_def transact_def scan_sample_simps epoch)
  from scanner_heals_reorg[OF tick it observed_system]
  have "length (payments d') = 1" "p_chain_status (payments d' ! 0) = Orphaned"
    by (auto simp: observed_db_def observed_row_def inserted_payment_def sample_order_def scan_sample_simps Let_def)
  then have "map p_chain_status (payments d') = [Orphaned]" by (cases "payments d'") auto
  with it show ?thesis by (intro exI conjI)
qed


section \<open>Catching up with the head\<close>

definition scan_cursor :: "PaymentScannerConfig \<Rightarrow> db \<Rightarrow> cursor_row option" where
  "scan_cursor cfg d = find_cursor (uint (sid_chain_id (psc_stream cfg))) (sid_token_address (psc_stream cfg)) d"

definition lease_is_ours :: "PaymentScannerConfig \<Rightarrow> cursor_row \<Rightarrow> bool" where
  "lease_is_ours cfg c \<longleftrightarrow> cur_lease_owner c = None \<or> cur_lease_owner c = Some (psc_worker_id cfg)"

definition observed_count :: "db \<Rightarrow> nat" where
  "observed_count d = length (filter (\<lambda>p. p_chain_status p = Observed) (payments d))"

text \<open>The blocks still to scan, then the payments still to confirm.\<close>

definition work_left :: "PaymentScannerConfig \<Rightarrow> u64 \<Rightarrow> db \<Rightarrow> nat \<times> nat" where
  "work_left cfg head d =
     (case scan_cursor cfg d of None \<Rightarrow> 0 | Some c \<Rightarrow> nat (uint head - cur_last_scanned_block c), observed_count d)"

lemma filter_update_less:
  assumes "\<And>x. sel x \<Longrightarrow> P x \<and> \<not> P (f x)" "filter sel xs \<noteq> []"
  shows "length (filter P (update_where sel f xs)) < length (filter P xs)"
proof -
  have le: "length (filter P (update_where sel f ys)) \<le> length (filter P ys)" for ys
    by (induction ys) (use assms(1) in \<open>auto simp: update_where_def\<close>)
  obtain x where x: "x \<in> set xs" "sel x" using assms(2) by (auto simp: filter_empty_conv)
  then obtain ys zs where xs: "xs = ys @ x # zs" by (meson split_list)
  have "update_where sel f xs = update_where sel f ys @ f x # update_where sel f zs"
    using x(2) by (simp add: xs update_where_def)
  then show ?thesis using le[of ys] le[of zs] assms(1)[OF x(2)] by (simp add: xs)
qed

lemma confirm_progress:
  assumes "confirm_observed_payments now b d = Ok (recs, d')" "recs \<noteq> []" "schema_ok d"
  shows "observed_count d' < observed_count d" "chain_cursors d' = chain_cursors d"
proof -
  have "observed_count d' < observed_count d \<and> chain_cursors d' = chain_cursors d"
    using assms(1)
  proof (cases rule: confirm_observed_payments_Ok)
    case (some sel head)
    have "filter sel (payments d) \<noteq> []" using some(3) assms(2) by (auto simp: order_by_position_def)
    then have "length (filter (\<lambda>p. p_chain_status p = Observed) (update_where sel (confirm_row (db_now d) head) (payments d)))
        < length (filter (\<lambda>p. p_chain_status p = Observed) (payments d))"
      by (intro filter_update_less) (simp_all add: some(2) confirmable_def confirm_row_def)
    then show ?thesis
      using recompute_frame(1,2)[OF some(4)] schema_distinct_orders[OF assms(3)] by (simp add: observed_count_def)
  qed (use assms(2) in simp)
  then show "observed_count d' < observed_count d" "chain_cursors d' = chain_cursors d" by blast+
qed

lemma tick_progress:
  assumes tick: "scanner_tick src src' matcher t cfg mcfg d = (Ok out, d')" and ok: "system_ok d"
    and head: "src_latest_head src = Ok head" and cur: "scan_cursor cfg d = Some c" "lease_is_ours cfg c"
  shows "(\<exists>b. out = ScanIdle (psc_stream cfg) b (cb_number head) \<and> cb_number head \<le> b) \<or>
    (\<exists>c'. scan_cursor cfg d' = Some c' \<and> lease_is_ours cfg c') \<and>
    (work_left cfg (cb_number head) d', work_left cfg (cb_number head) d) \<in> less_than <*lex*> less_than"
  using tick
proof (cases rule: scanner_tick_cases)
  case (held lease_until)
  have "\<not> held_by_other_live_worker w now c" if "w = psc_worker_id cfg" for w now
    using cur(2) that by (auto simp: lease_is_ours_def held_by_other_live_worker_def split: option.splits)
  with held(1) cur(1) have False
    by (auto simp: scan_cursor_def claim_scan_range_def bindE_eq_Ok u64_to_i64_Ok)
  then show ?thesis ..
next
  case (swept lease_until lease d1)
  have sch: "schema_ok d" using ok by (simp add: system_ok_def repo_ok_def)
  have sch1: "schema_ok d1" using claim_scan_range_keeps[OF swept(1) sch] ok by (auto simp: system_ok_def repo_ok_def)
  have c1: "scan_cursor cfg d1 = Some (c\<lparr>cur_lease_owner := Some (psc_worker_id cfg), cur_lease_until := Some lease_until\<rparr>)"
    using claim_scan_range_Some[OF swept(1) sch] cur(1) unfolding scan_cursor_def by (metis option.inject)
  obtain hd ids recs where conf: "confirm_observed_payments (at_confirm t) (sweep_batch cfg ids hd) d1 = Ok (recs, d')" "recs \<noteq> []"
    using swept(2) by (rule sweep_Some)
  note p = confirm_progress[OF conf sch1]
  have c': "scan_cursor cfg d' = Some (c\<lparr>cur_lease_owner := Some (psc_worker_id cfg), cur_lease_until := Some lease_until\<rparr>)"
    using c1 find_cursor_cong[OF p(2)] by (simp add: scan_cursor_def)
  have "observed_count d1 = observed_count d" using claim_payments[OF swept(1)] by (simp add: observed_count_def)
  with p(1) c' cur(1) show ?thesis by (simp add: work_left_def lease_is_ours_def)
next
  case (idle lease_until lease hd)
  then show ?thesis using head by simp
next
  case (batch lease_until lease d1 hd)
  obtain ms :: "MatchedPaymentInput list" and recs where out: "out = ScanCommitted (psc_stream cfg) (scan_end cfg (scl_last_scanned_block lease + 1) (cb_number hd))
      (length ms) (id_set (map mp_order_id ms)) recs"
    using batch(4) by (rule scan_batch_Ok)
  obtain c0 lease' d1' ms' recs' hd' where c0: "scan_cursor cfg d = Some c0"
      "uint (scl_last_scanned_block lease') = cur_last_scanned_block c0"
      "scl_last_scanned_block lease' < scan_end cfg (scl_last_scanned_block lease + 1) (cb_number hd)"
    and hd': "src_latest_head src = Ok hd'" "scan_end cfg (scl_last_scanned_block lease + 1) (cb_number hd) \<le> cb_number hd'"
    and d1': "system_ok d1'"
    and commit: "commit_scanned_batch (at_commit t)
      (scan_commit cfg lease' (scan_end cfg (scl_last_scanned_block lease + 1) (cb_number hd)) ms') d1' = Ok (recs', d')"
    using tick[unfolded out] ok unfolding scan_cursor_def by (rule tick_committed)
  have "schema_ok d1'" using d1' by (simp add: system_ok_def repo_ok_def)
  from commit_cursor[OF commit this] obtain c1 where "scan_cursor cfg d' = Some (advance_cursor
      (scan_commit cfg lease' (scan_end cfg (scl_last_scanned_block lease + 1) (cb_number hd)) ms') c1)"
    by (auto simp: scan_cursor_def)
  moreover have "hd' = head" "c0 = c" using hd'(1) head c0(1) cur(1) by simp_all
  ultimately show ?thesis
    using c0 hd'(2) by (simp add: work_left_def lease_is_ours_def advance_cursor_def word_less_def word_le_def nat_less_eq_zless)
qed

text \<open>
  C7: the scanner catches up.  Over a chain whose head does not move, a worker to whom nobody
  else's lease stands in the way and whose ticks succeed cannot be busy for ever: some tick
  finds the cursor at or above the head and no payment left to confirm.
\<close>
theorem scanner_catches_up:
  assumes ticks: "\<And>i. \<exists>out. scanner_tick (srcs i) (srcs' i) (matchers i) (ts i) cfg mcfg (ds i) = (Ok out, ds (Suc i))"
    and heads: "\<And>i. src_latest_head (srcs i) = Ok head" and start: "system_ok (ds 0)" "scan_cursor cfg (ds 0) = Some c"
      "lease_is_ours cfg c"
  shows "\<exists>i b. scanner_tick (srcs i) (srcs' i) (matchers i) (ts i) cfg mcfg (ds i) =
    (Ok (ScanIdle (psc_stream cfg) b (cb_number head)), ds (Suc i)) \<and> cb_number head \<le> b"
proof (rule ccontr)
  assume busy: "\<not> ?thesis"
  let ?less = "less_than <*lex*> less_than"
  have step: "(\<exists>c'. scan_cursor cfg (ds (Suc i)) = Some c' \<and> lease_is_ours cfg c') \<and>
      (work_left cfg (cb_number head) (ds (Suc i)), work_left cfg (cb_number head) (ds i)) \<in> ?less"
    if "system_ok (ds i)" "scan_cursor cfg (ds i) = Some c" "lease_is_ours cfg c" for i c
  proof -
    obtain out where out: "scanner_tick (srcs i) (srcs' i) (matchers i) (ts i) cfg mcfg (ds i) = (Ok out, ds (Suc i))"
      using ticks by blast
    from tick_progress[OF this that(1) heads that(2,3)] busy out show ?thesis by blast
  qed
  have inv: "system_ok (ds i) \<and> (\<exists>c. scan_cursor cfg (ds i) = Some c \<and> lease_is_ours cfg c)" for i
  proof (induction i)
    case (Suc i)
    obtain out where "scanner_tick (srcs i) (srcs' i) (matchers i) (ts i) cfg mcfg (ds i) = (Ok out, ds (Suc i))"
      using ticks by blast
    then have "system_ok (ds (Suc i))" using tick_prog.prog_system Suc.IH by blast
    with Suc.IH step show ?case by blast
  qed (use start in blast)
  then have "(work_left cfg (cb_number head) (ds (Suc i)), work_left cfg (cb_number head) (ds i)) \<in> ?less" for i
    using step by blast
  then have "\<exists>f. \<forall>i. (f (Suc i), f i) \<in> ?less"
    by (intro exI[of _ "\<lambda>i. work_left cfg (cb_number head) (ds i)"]) simp
  moreover have "wf ?less" by (simp add: wf_lex_prod)
  ultimately show False by (simp add: wf_iff_no_infinite_down_chain)
qed

definition low_chain :: FakeChainState where
  "low_chain = scan_chain\<lparr>fc_head := Some \<lparr>cb_number = 9, cb_hash = 9\<rparr>\<rparr>"

theorem scanner_catches_up_witness:
  "\<exists>i b. scanner_tick (fake_view low_chain) (fake_view low_chain) (\<lambda>_ _ _. Ok []) sample_times sample_scanner
     (runtime_matching_config sample_stream 6) (if i = (0 :: nat) then sample_db else claimed sample_db) =
       (Ok (ScanIdle sample_stream b 9), claimed sample_db) \<and> 9 \<le> b"
proof -
  let ?ds = "\<lambda>i. if i = (0 :: nat) then sample_db else claimed sample_db"
  have head: "src_latest_head (fake_view low_chain) = Ok \<lparr>cb_number = 9, cb_hash = 9\<rparr>"
    by (simp add: fake_view_def fake_latest_head_def fake_call_def low_chain_def scan_chain_def ok_or_def)
  have twice: "claimed (?ds i) = claimed sample_db" for i by (simp add: claimed_def)
  have cur: "chain_cursors (?ds i) = [sample_cursor] \<or> chain_cursors (?ds i) = [sample_cursor\<lparr>cur_lease_until := Some 70\<rparr>]" for i
    by (simp add: claimed_def sample_db_def)
  have "sweep_confirmations (fake_view low_chain) sample_times sample_scanner (runtime_matching_config sample_stream 6)
      (claimed (?ds i)) = (Ok None, claimed sample_db)" for i
    unfolding twice
    by (simp add: sweep_confirmations_def andThen_def head max_confirmable_block_def runtime_matching_config_def
        checked_sub_def query_def observed_payment_confirmation_candidates_def u64_to_i64_def order_by_position_def
        sample_scanner_def scanner_config_new_def sample_stream_def sample_db_def claimed_def Let_def)
  from sample_claimed_tick[OF cur head this]
  have "\<exists>out. scanner_tick (fake_view low_chain) (fake_view low_chain) (\<lambda>_ _ _. Ok []) sample_times sample_scanner
     (runtime_matching_config sample_stream 6) (?ds i) = (Ok out, ?ds (Suc i))" for i
    by simp
  moreover have "system_ok (?ds 0)" by (simp add: sample_system)
  moreover have "scan_cursor sample_scanner (?ds 0) = Some sample_cursor" "lease_is_ours sample_scanner sample_cursor"
    by (simp_all add: scan_cursor_def lease_is_ours_def scan_sample_simps find_cursor_def find_row_def cursor_key_def
        sample_db_def sample_cursor_def)
  ultimately have "\<exists>i b. scanner_tick (fake_view low_chain) (fake_view low_chain) (\<lambda>_ _ _. Ok []) sample_times sample_scanner
     (runtime_matching_config sample_stream 6) (?ds i) =
       (Ok (ScanIdle (psc_stream sample_scanner) b (cb_number \<lparr>cb_number = 9, cb_hash = 9\<rparr>)), ?ds (Suc i)) \<and>
       cb_number \<lparr>cb_number = 9, cb_hash = 9\<rparr> \<le> b"
    using head by (intro scanner_catches_up[where ts = "\<lambda>_. sample_times"]) simp_all
  then show ?thesis by (simp add: scan_sample_simps)
qed

end
