(* ===== verification/Order_Service.thy ===== *)
theory Order_Service
  imports Worker_Steps Log_Store "HOL-Library.List_Lexorder" "HOL-Library.Char_ord"
begin

text \<open>
  The order service of \<open>src/src/services/orders.rs\<close>: normalisation of a request, its canonical
  hash, the allocation and derivation of a receive address, and the idempotent creation.  The
  chain head, the clock, the id generator, the address deriver, the JSON serialiser and Keccak-256
  are arguments.
\<close>

section \<open>Requests\<close>

record OrderServiceConfig =
  osc_chain_id :: u64
  osc_token_address :: EvmAddress
  osc_wallet_cursor_id :: string
  osc_late_payment_monitor_seconds :: u64

record CreateOrderInput =
  coi_external_id :: string
  coi_expected_amount_raw :: RawAmount
  coi_ttl_seconds :: u64
  coi_metadata :: json

datatype CreateOrderServiceOutcome = OrderCreated | OrderExisting

record CreateOrderResult =
  cor_outcome :: CreateOrderServiceOutcome
  cor_view :: OrderView

datatype OrderServiceError =
    OrderInvalidArgument string string
  | ChainHeadUnavailable string
  | OrderViewMissing uuid
  | TimeOverflow string
  | OrderIntegerOutOfRange string
  | OrderRepositoryError RepositoryError
  | OrderWallet WalletError
  | CanonicalRequestError string

definition order_config_validate :: "OrderServiceConfig \<Rightarrow> OrderServiceError + unit" where
  "order_config_validate c =
     (if trim (osc_wallet_cursor_id c) = [] then Err (OrderInvalidArgument ''wallet_cursor_id'' ''must not be empty'')
      else Ok ())"

text \<open>Objects are collected into a \<open>BTreeMap\<close>, at every depth.\<close>

fun sort_json_value :: "json \<Rightarrow> json" where
  "sort_json_value (JObject kvs) = JObject (btree_of (map (\<lambda>kv. (fst kv, sort_json_value (snd kv))) kvs))"
| "sort_json_value (JArray vs) = JArray (map sort_json_value vs)"
| "sort_json_value v = v"

definition canonical_metadata :: "json \<Rightarrow> OrderServiceError + json" where
  "canonical_metadata v =
     (case v of
        JNull \<Rightarrow> Ok (JObject [])
      | JObject _ \<Rightarrow> Ok (sort_json_value v)
      | _ \<Rightarrow> Err (OrderInvalidArgument ''metadata'' ''must be a JSON object when provided''))"

definition normalize_create_order_input :: "CreateOrderInput \<Rightarrow> OrderServiceError + CreateOrderInput" where
  "normalize_create_order_input inp =
     (let external_id = trim (coi_external_id inp) in
      if external_id = [] then Err (OrderInvalidArgument ''external_id'' ''must not be empty'')
      else if is_zero (coi_expected_amount_raw inp)
      then Err (OrderInvalidArgument ''expected_amount_raw'' ''must be greater than zero'')
      else if coi_ttl_seconds inp = 0
      then Err (OrderInvalidArgument ''ttl_seconds'' ''must be greater than zero'')
      else bindE (canonical_metadata (coi_metadata inp)) (\<lambda>metadata.
        Ok \<lparr>coi_external_id = external_id, coi_expected_amount_raw = coi_expected_amount_raw inp,
            coi_ttl_seconds = coi_ttl_seconds inp, coi_metadata = metadata\<rparr>))"

definition normalize_owner_sub :: "string \<Rightarrow> OrderServiceError + string" where
  "normalize_owner_sub owner =
     (if trim owner = [] then Err (OrderInvalidArgument ''owner_sub'' ''must not be empty'') else Ok (trim owner))"

text \<open>The fields that are serialised, in the order of the struct; the amount as a decimal string.\<close>

record CanonicalRequest =
  cq_external_id :: string
  cq_amount_raw :: string
  cq_ttl_seconds :: u64
  cq_metadata :: json

record order_env =
  oe_current_head :: "OrderServiceError + ChainBlockRef"
  oe_now :: timestamp
  oe_new_ids :: "uuid \<times> uuid \<times> uuid"
  oe_derive_address :: "string \<Rightarrow> string \<Rightarrow> WalletError + EvmAddress"
  oe_to_vec :: "CanonicalRequest \<Rightarrow> string + bytes"
  oe_keccak256 :: "bytes \<Rightarrow> u256"

definition canonical_request :: "CreateOrderInput \<Rightarrow> CanonicalRequest" where
  "canonical_request inp =
     \<lparr>cq_external_id = coi_external_id inp, cq_amount_raw = show_nat (unat (coi_expected_amount_raw inp)),
      cq_ttl_seconds = coi_ttl_seconds inp, cq_metadata = coi_metadata inp\<rparr>"

definition canonical_order_request_hash :: "order_env \<Rightarrow> CreateOrderInput \<Rightarrow> OrderServiceError + string" where
  "canonical_order_request_hash env inp =
     mapE (\<lambda>bytes. hash_to_lower_hex (oe_keccak256 env bytes))
       (map_errE CanonicalRequestError (oe_to_vec env (canonical_request inp)))"


section \<open>Creation\<close>

definition duration_from_secs :: "u64 \<Rightarrow> string \<Rightarrow> OrderServiceError + timestamp" where
  "duration_from_secs seconds field =
     (if uint seconds < 2 ^ 63 then Ok (uint seconds * one_second) else Err (OrderIntegerOutOfRange field))"

definition order_checked_add :: "timestamp \<Rightarrow> timestamp \<Rightarrow> string \<Rightarrow> OrderServiceError + timestamp" where
  "order_checked_add t dur field = ok_or (datetime_checked_add t dur) (TimeOverflow field)"

definition order_derive_address :: "order_env \<Rightarrow> AllocatedDerivation \<Rightarrow> OrderServiceError + DerivedChildAddress" where
  "order_derive_address env allocated =
     bindE (map_errE OrderWallet (derive_address_request_new (ad_signer_key_ref allocated)
       (ad_derivation_version allocated) (ad_segment allocated))) (\<lambda>request.
     bindE (map_errE OrderWallet (derive_child_address (oe_derive_address env) request)) (\<lambda>derived.
     if dc_derivation_path derived \<noteq> ad_derivation_path allocated
     then Err (OrderInvalidArgument ''derivation_path'' (''allocated path '' @ ad_derivation_path allocated
       @ '' did not match wallet path '' @ dc_derivation_path derived))
     else Ok derived))"

definition expect_order_view :: "uuid \<Rightarrow> (OrderServiceError, OrderView) worker" where
  "expect_order_view order_id =
     andThen (query OrderRepositoryError (get_order_view order_id)) (\<lambda>view.
     answer (ok_or view (OrderViewMissing order_id)))"

text \<open>The windows of a new order: when it opens, expires and stops being monitored.\<close>

definition order_times :: "order_env \<Rightarrow> OrderServiceConfig \<Rightarrow> CreateOrderInput \<Rightarrow> OrderServiceError + (timestamp \<times> timestamp)" where
  "order_times env cfg inp =
     bindE (duration_from_secs (coi_ttl_seconds inp) ''ttl_seconds'') (\<lambda>ttl.
     bindE (duration_from_secs (osc_late_payment_monitor_seconds cfg) ''late_payment_monitor_seconds'') (\<lambda>late_monitor.
     bindE (order_checked_add (oe_now env) ttl ''expires_at'') (\<lambda>expires_at.
     bindE (order_checked_add expires_at late_monitor ''monitor_until'') (\<lambda>monitor_until.
     Ok (expires_at, monitor_until)))))"

definition order_command ::
  "order_env \<Rightarrow> OrderServiceConfig \<Rightarrow> string \<Rightarrow> CreateOrderInput \<Rightarrow> string \<Rightarrow> ChainBlockRef \<Rightarrow> DerivedChildAddress
   \<Rightarrow> timestamp \<times> timestamp \<Rightarrow> CreateOrderCommand" where
  "order_command env cfg owner inp hash head derived window =
     (let (order_id, child_account_id, window_id) = oe_new_ids env; (expires_at, monitor_until) = window in
      \<lparr>coc_order_id = order_id, coc_owner_sub = owner, coc_external_id = coi_external_id inp, coc_request_hash = hash,
       coc_child_account = \<lparr>nca_id = child_account_id, nca_signer_key_ref = dc_signer_key_ref derived,
         nca_derivation_version = dc_derivation_version derived, nca_derivation_segment = dc_segment derived,
         nca_derivation_path = dc_derivation_path derived, nca_address = dc_address derived\<rparr>,
       coc_chain_id = osc_chain_id cfg, coc_token_address = osc_token_address cfg,
       coc_expected_amount_raw = coi_expected_amount_raw inp,
       coc_payment_window = \<lparr>npw_id = window_id, npw_order_id = order_id, npw_child_account_id = child_account_id,
         npw_receive_address = dc_address derived, npw_window_from = oe_now env, npw_window_from_block = head,
         npw_expires_at = expires_at, npw_monitor_until = monitor_until\<rparr>\<rparr>)"

definition create_new_order ::
  "order_env \<Rightarrow> OrderServiceConfig \<Rightarrow> string \<Rightarrow> CreateOrderInput \<Rightarrow> string \<Rightarrow> (OrderServiceError, CreateOrderResult) worker" where
  "create_new_order env cfg owner inp hash =
     andThen (answer (oe_current_head env)) (\<lambda>head.
     andThen (transact OrderRepositoryError (allocate_derivation_segment (trim (osc_wallet_cursor_id cfg)))) (\<lambda>allocated.
     andThen (answer (order_derive_address env allocated)) (\<lambda>derived.
     andThen (answer (order_times env cfg inp)) (\<lambda>window.
     andThen (transact OrderRepositoryError (create_order_idempotent (order_command env cfg owner inp hash head derived window)))
       (\<lambda>outcome.
     let (kind, order_id) = (case outcome of Created rec \<Rightarrow> (OrderCreated, or_id rec) | Existing rec \<Rightarrow> (OrderExisting, or_id rec)) in
     andThen (expect_order_view order_id) (\<lambda>view.
     answer (Ok \<lparr>cor_outcome = kind, cor_view = view\<rparr>)))))))"

definition create_order_for_owner ::
  "order_env \<Rightarrow> OrderServiceConfig \<Rightarrow> string \<Rightarrow> CreateOrderInput \<Rightarrow> (OrderServiceError, CreateOrderResult) worker" where
  "create_order_for_owner env cfg owner_sub input0 =
     andThen (answer (normalize_owner_sub owner_sub)) (\<lambda>owner.
     andThen (answer (normalize_create_order_input input0)) (\<lambda>inp.
     andThen (answer (canonical_order_request_hash env inp)) (\<lambda>hash.
     andThen (query OrderRepositoryError (get_order_by_external_id_for_owner (coi_external_id inp) owner)) (\<lambda>found.
     case found of
       Some existing \<Rightarrow>
         if or_request_hash existing \<noteq> hash
         then answer (Err (OrderRepositoryError (IdempotencyConflict ''orders'' (coi_external_id inp) (Some (or_id existing)))))
         else andThen (expect_order_view (or_id existing)) (\<lambda>view.
           answer (Ok \<lparr>cor_outcome = OrderExisting, cor_view = view\<rparr>))
     | None \<Rightarrow> create_new_order env cfg owner inp hash))))"

definition create_order :: "order_env \<Rightarrow> OrderServiceConfig \<Rightarrow> CreateOrderInput \<Rightarrow> (OrderServiceError, CreateOrderResult) worker" where
  "create_order env cfg input0 = create_order_for_owner env cfg ''system'' input0"


section \<open>Reads and manual acceptance\<close>

definition service_get_order :: "uuid \<Rightarrow> (OrderServiceError, OrderView option) worker" where
  "service_get_order oid = query OrderRepositoryError (get_order_view oid)"

definition service_get_order_for_owner :: "uuid \<Rightarrow> string \<Rightarrow> (OrderServiceError, OrderView option) worker" where
  "service_get_order_for_owner oid owner_sub =
     andThen (answer (normalize_owner_sub owner_sub)) (\<lambda>owner.
     query OrderRepositoryError (get_order_view_for_owner oid owner))"

definition service_get_order_by_external_id_for_owner :: "string \<Rightarrow> string \<Rightarrow> (OrderServiceError, OrderView option) worker" where
  "service_get_order_by_external_id_for_owner external_id owner_sub =
     andThen (answer (normalize_owner_sub owner_sub)) (\<lambda>owner.
     andThen (query OrderRepositoryError (get_order_by_external_id_for_owner external_id owner)) (\<lambda>found.
     case found of
       None \<Rightarrow> answer (Ok None)
     | Some ord \<Rightarrow>
         andThen (query OrderRepositoryError (get_order_view_for_owner (or_id ord) owner)) (\<lambda>view.
         answer (mapE Some (ok_or view (OrderViewMissing (or_id ord)))))))"

definition service_get_order_payment_diagnostics_for_owner ::
  "uuid \<Rightarrow> string \<Rightarrow> EvmAddress \<Rightarrow> (OrderServiceError, OrderPaymentDiagnostics option) worker" where
  "service_get_order_payment_diagnostics_for_owner oid owner_sub problem_funds_address =
     query OrderRepositoryError (get_order_payment_diagnostics_for_owner oid owner_sub problem_funds_address)"

definition service_accept_problem_payment_for_owner ::
  "timestamp \<Rightarrow> uuid \<Rightarrow> string \<Rightarrow> string \<Rightarrow> string option \<Rightarrow> (OrderServiceError, OrderView option) worker" where
  "service_accept_problem_payment_for_owner now oid owner_sub accepted_by reason =
     andThen (answer (normalize_owner_sub owner_sub)) (\<lambda>owner.
     transact OrderRepositoryError (accept_problem_payment_for_owner now oid owner accepted_by reason))"

end
