(* ===== verification/Order_Service_Props.thy ===== *)
theory Order_Service_Props
  imports Order_Service
begin

text \<open>
  What the order service promises: a request is served exactly once, whatever happens between a
  call and its repetition, and a new order carries what was asked for at an address of its own.
\<close>

section \<open>Canonical metadata\<close>

lemma btree_eqI:
  assumes "btree xs" "btree ys" "set xs = set ys"
  shows "xs = ys"
proof -
  have keys: "inj_on fst (set xs)" using btree_distinct[OF assms(1)] by (simp add: distinct_map)
  have "map fst xs = map fst ys"
    using assms by (intro strict_sorted_equal) (simp_all add: btree_def)
  moreover have "length xs = length ys" using calculation by (metis length_map)
  ultimately show ?thesis
    using keys assms(3) by (intro nth_equalityI) (metis inj_onD length_map nth_map nth_mem)+
qed

lemma set_btree_insert_fresh: "k \<notin> fst ` set m \<Longrightarrow> set (btree_insert k v m) = insert (k, v) (set m)"
  by (induction m) (auto split: if_splits)

lemma set_fold_btree:
  assumes "distinct (map fst kvs)" "fst ` set kvs \<inter> fst ` set m = {}"
  shows "set (fold (\<lambda>(k, v). btree_insert k v) kvs m) = set kvs \<union> set m"
  using assms
proof (induction kvs arbitrary: m)
  case (Cons kv kvs)
  obtain k v where kv: "kv = (k, v)" by (cases kv)
  have fresh: "k \<notin> fst ` set m" using Cons.prems(2) by (auto simp: kv)
  have "set (fold (\<lambda>(k, v). btree_insert k v) kvs (btree_insert k v m)) = set kvs \<union> set (btree_insert k v m)"
    using Cons.prems by (intro Cons.IH) (auto simp: kv set_btree_insert_fresh[OF fresh])
  with fresh show ?case by (auto simp: kv set_btree_insert_fresh)
qed simp

lemma set_btree_of_distinct: "distinct (map fst kvs) \<Longrightarrow> set (btree_of kvs) = set kvs"
  using set_fold_btree[of kvs "[]"] by (simp add: btree_of_def)

text \<open>The order in which a client writes the keys of an object does not reach the hash.\<close>

lemma sort_json_key_order:
  assumes "mset kvs = mset kvs'" "distinct (map fst kvs)"
  shows "sort_json_value (JObject kvs) = sort_json_value (JObject kvs')"
proof -
  let ?f = "\<lambda>kv. (fst kv, sort_json_value (snd kv))"
  have dist: "distinct (map fst kvs')" using assms by (metis mset_eq_imp_distinct_iff mset_map)
  have keys: "map fst (map ?f xs) = map fst xs" for xs :: "(string \<times> json) list" by simp
  have "set (btree_of (map ?f kvs)) = set (btree_of (map ?f kvs'))"
    using assms dist by (simp add: set_btree_of_distinct keys comp_def mset_eq_setD[OF assms(1)])
  then have "btree_of (map ?f kvs) = btree_of (map ?f kvs')" by (intro btree_eqI btree_btree_of)
  then show ?thesis by simp
qed


section \<open>The calls are runs of commands\<close>

lemma runs_expect_view [worker_intro]: "runs_commands (expect_order_view oid)"
  unfolding expect_order_view_def by (intro worker_intro)

lemma runs_create_new [worker_intro]: "runs_commands (create_new_order env cfg owner inp hash)"
  unfolding create_new_order_def Let_def case_prod_beta by (intro worker_intro)

lemma runs_create [worker_intro]: "runs_commands (create_order_for_owner env cfg owner inp)"
  unfolding create_order_for_owner_def by (intro worker_intro)

interpretation create_prog: worker_program "create_order_for_owner env cfg owner inp" for env cfg owner inp
  by unfold_locales (rule runs_create)

lemma runs_accept: "runs_commands (service_accept_problem_payment_for_owner now oid owner by_whom reason)"
  unfolding service_accept_problem_payment_for_owner_def
  by (intro worker_intro runs_transact[of _ "AcceptProblemPayment now oid _ by_whom reason"]) simp

interpretation accept_prog: worker_program "service_accept_problem_payment_for_owner now oid owner by_whom reason"
  for now oid owner by_whom reason
  by unfold_locales (rule runs_accept)


section \<open>The record a call returns\<close>

definition request_hash :: "order_env \<Rightarrow> CreateOrderInput \<Rightarrow> OrderServiceError + string" where
  "request_hash env inp = bindE (normalize_create_order_input inp) (canonical_order_request_hash env)"

lemma normalized_external_id:
  "normalize_create_order_input inp = Ok n \<Longrightarrow>
    coi_external_id n = trim (coi_external_id inp) \<and> coi_expected_amount_raw n = coi_expected_amount_raw inp \<and>
    coi_ttl_seconds n = coi_ttl_seconds inp"
  by (auto simp: normalize_create_order_input_def Let_def bindE_eq_Ok split: if_splits)

lemma fetched_row:
  assumes "fetch_order q d = Ok (Some rec)"
  obtains r where "find_row q (orders d) = Some r" "row_to_order_record r = Ok rec"
  using assms by (auto simp: fetch_order_def mapE_eq_Ok split: option.splits)

lemma record_identity:
  "row_to_order_record r = Ok rec \<Longrightarrow> or_id rec = o_id r \<and> or_owner_sub rec = o_owner_sub r \<and>
    or_external_id rec = o_external_id r \<and> or_request_hash rec = o_request_hash r"
  by (auto simp: row_to_order_record_def bindE_eq_Ok)

lemma view_of_record:
  assumes "get_order_by_external_id_for_owner ext owner d = Ok (Some rec)" "get_order_view (or_id rec) d = Ok (Some view)"
    "schema_ok d"
  shows "ov_order view = rec"
proof -
  obtain r where r: "find_row (\<lambda>r. o_external_id r = ext \<and> o_owner_sub r = owner) (orders d) = Some r" "row_to_order_record r = Ok rec"
    using assms(1) unfolding get_order_by_external_id_for_owner_def by (rule fetched_row)
  have "find_row (\<lambda>x. o_id x = or_id rec) (orders d) = Some r"
    using find_row_Some[OF r(1)] record_identity[OF r(2)] schema_distinct_orders[OF assms(3)] by (intro find_row_unique) simp_all
  with assms(2) r(2) show ?thesis
    by (auto simp: get_order_view_def fetch_order_view_def row_to_order_view_def result_unfold split: option.splits)
qed

lemma expect_view_Ok: "expect_order_view oid d = (Ok view, d') \<longleftrightarrow> get_order_view oid d = Ok (Some view) \<and> d' = d"
  by (auto simp: expect_order_view_def andThen_Ok ok_or_def split: option.splits)

lemma create_new_order_Ok:
  assumes "create_new_order env cfg owner inp hash d = (Ok res, d')"
  obtains head a d1 derived window rec where "oe_current_head env = Ok head"
    "allocate_derivation_segment (trim (osc_wallet_cursor_id cfg)) d = Ok (a, d1)"
    "order_derive_address env a = Ok derived" "order_times env cfg inp = Ok window"
    "create_order_idempotent (order_command env cfg owner inp hash head derived window) d1
       = Ok (if cor_outcome res = OrderCreated then Created rec else Existing rec, d')"
    "get_order_view (or_id rec) d' = Ok (Some (cor_view res))"
proof -
  from assms obtain head a d1 derived window outcome d2 where steps: "oe_current_head env = Ok head"
      "allocate_derivation_segment (trim (osc_wallet_cursor_id cfg)) d = Ok (a, d1)"
      "order_derive_address env a = Ok derived" "order_times env cfg inp = Ok window"
    and run: "create_order_idempotent (order_command env cfg owner inp hash head derived window) d1 = Ok (outcome, d2)"
    and view: "(let (kind, order_id) = (case outcome of Created rec \<Rightarrow> (OrderCreated, or_id rec) | Existing rec \<Rightarrow> (OrderExisting, or_id rec))
      in andThen (expect_order_view order_id) (\<lambda>view. answer (Ok \<lparr>cor_outcome = kind, cor_view = view\<rparr>))) d2 = (Ok res, d')"
    unfolding create_new_order_def andThen_Ok answer_simps transact_Ok prod.inject by (elim exE conjE) simp
  show thesis
  proof (cases outcome)
    case (Created rec)
    with view have "cor_outcome res = OrderCreated" "get_order_view (or_id rec) d' = Ok (Some (cor_view res))" "d2 = d'"
      by (auto simp: andThen_Ok expect_view_Ok)
    with run Created show thesis by (intro that[OF steps]) simp_all
  next
    case (Existing rec)
    with view have "cor_outcome res = OrderExisting" "get_order_view (or_id rec) d' = Ok (Some (cor_view res))" "d2 = d'"
      by (auto simp: andThen_Ok expect_view_Ok)
    with run Existing show thesis by (intro that[OF steps]) simp_all
  qed
qed

text \<open>A successful call leaves its order in the database, under the owner and the external id.\<close>

lemma create_order_Ok:
  assumes "create_order_for_owner env cfg owner inp d = (Ok res, d')" "system_ok d"
  obtains rec hash where "get_order_by_external_id_for_owner (trim (coi_external_id inp)) (trim owner) d' = Ok (Some rec)"
    "ov_order (cor_view res) = rec" "request_hash env inp = Ok hash" "or_request_hash rec = hash"
proof -
  have sch: "schema_ok d'"
    using create_prog.prog_system[OF assms] by (simp add: system_ok_def repo_ok_def)
  from assms(1) obtain n hash found where n: "normalize_create_order_input inp = Ok n" "normalize_owner_sub owner = Ok (trim owner)"
    and hash: "canonical_order_request_hash env n = Ok hash"
    and found: "get_order_by_external_id_for_owner (coi_external_id n) (trim owner) d = Ok found"
    and rest: "(case found of
       Some existing \<Rightarrow>
         if or_request_hash existing \<noteq> hash
         then answer (Err (OrderRepositoryError (IdempotencyConflict ''orders'' (coi_external_id n) (Some (or_id existing)))))
         else andThen (expect_order_view (or_id existing)) (\<lambda>view.
           answer (Ok \<lparr>cor_outcome = OrderExisting, cor_view = view\<rparr>))
     | None \<Rightarrow> create_new_order env cfg (trim owner) n hash) d = (Ok res, d')"
    by (auto simp: create_order_for_owner_def andThen_Ok normalize_owner_sub_def split: if_splits)
  note ext = normalized_external_id[OF n(1)]
  have rh: "request_hash env inp = Ok hash" by (simp add: request_hash_def n(1) hash)
  have "\<exists>rec. get_order_by_external_id_for_owner (coi_external_id n) (trim owner) d' = Ok (Some rec) \<and>
      get_order_view (or_id rec) d' = Ok (Some (cor_view res)) \<and> or_request_hash rec = hash"
  proof (cases found)
    case (Some rec)
    with rest found show ?thesis by (auto simp: andThen_Ok expect_view_Ok split: if_splits)
  next
    case None
    with rest have "create_new_order env cfg (trim owner) n hash d = (Ok res, d')" by simp
    then obtain head a d1 derived window rec where
      run: "create_order_idempotent (order_command env cfg (trim owner) n hash head derived window) d1
         = Ok (if cor_outcome res = OrderCreated then Created rec else Existing rec, d')"
      and view: "get_order_view (or_id rec) d' = Ok (Some (cor_view res))"
      by (rule create_new_order_Ok)
    have key: "coc_external_id (order_command env cfg (trim owner) n hash head derived window) = coi_external_id n"
      "coc_owner_sub (order_command env cfg (trim owner) n hash head derived window) = trim owner"
      "coc_request_hash (order_command env cfg (trim owner) n hash head derived window) = hash"
      by (simp_all add: order_command_def case_prod_beta)
    from run show ?thesis
    proof (cases rule: create_order_cases)
      case (existing r)
      then have "r = rec" by (simp split: if_splits)
      with existing view key show ?thesis by auto
    next
      case (created r)
      then have "r = rec" by (simp split: if_splits)
      with created_row_found[OF created(2,3)] view key show ?thesis by auto
    qed
  qed
  then obtain rec where rec: "get_order_by_external_id_for_owner (coi_external_id n) (trim owner) d' = Ok (Some rec)"
    "get_order_view (or_id rec) d' = Ok (Some (cor_view res))" "or_request_hash rec = hash" by blast
  show thesis using that[OF _ view_of_record[OF rec(1,2) sch] rh rec(3)] rec(1) ext by simp
qed


section \<open>Exactly once\<close>

lemma find_row_prefix:
  assumes "prefix (map f xs) (map f ys)" "find_row (\<lambda>x. P (f x)) xs = Some x"
  shows "\<exists>y. find_row (\<lambda>x. P (f x)) ys = Some y \<and> f y = f x"
  using assms
proof (induction xs arbitrary: ys)
  case (Cons a xs)
  then obtain b zs where ys: "ys = b # zs" "f b = f a" "prefix (map f xs) (map f zs)"
    by (cases ys) auto
  with Cons show ?case by (auto split: if_splits)
qed simp

definition same_order :: "OrderRecord \<Rightarrow> OrderRecord \<Rightarrow> bool" where
  "same_order a b \<longleftrightarrow>
     or_id a = or_id b \<and> or_owner_sub a = or_owner_sub b \<and> or_external_id a = or_external_id b \<and>
     or_request_hash a = or_request_hash b \<and> or_child_account_id a = or_child_account_id b \<and>
     or_receive_address a = or_receive_address b \<and> or_chain_id a = or_chain_id b \<and>
     or_token_address a = or_token_address b \<and> or_expected_amount_raw a = or_expected_amount_raw b \<and>
     or_expires_at a = or_expires_at b \<and> or_monitor_until a = or_monitor_until b"

lemma record_same_order:
  assumes "order_identity r' = order_identity r" "row_to_order_record r = Ok a" "row_to_order_record r' = Ok b"
  shows "same_order a b"
  using assms by (auto simp: same_order_def order_identity_def row_to_order_record_def result_unfold)

lemma order_found_later:
  assumes "get_order_by_external_id_for_owner ext owner d = Ok (Some rec)" "evolves d d'"
    "get_order_by_external_id_for_owner ext owner d' = Ok found"
  obtains rec' where "found = Some rec'" "same_order rec rec'"
proof -
  let ?P = "\<lambda>i. fst (snd (snd (fst i))) = ext \<and> fst (snd (fst i)) = owner"
  have q: "(\<lambda>r. o_external_id r = ext \<and> o_owner_sub r = owner) = (\<lambda>r. ?P (order_identity r))"
    by (simp add: order_identity_def)
  obtain r where r: "find_row (\<lambda>r. ?P (order_identity r)) (orders d) = Some r" "row_to_order_record r = Ok rec"
    using assms(1) unfolding get_order_by_external_id_for_owner_def q by (rule fetched_row)
  have "prefix (map order_identity (orders d)) (map order_identity (orders d'))"
    using assms(2) by (simp add: evolves_def grows_def)
  then obtain r' where r': "find_row (\<lambda>r. ?P (order_identity r)) (orders d') = Some r'" "order_identity r' = order_identity r"
    using find_row_prefix[of order_identity "orders d" "orders d'" ?P r] r(1) by blast
  obtain rec' where "found = Some rec'" "row_to_order_record r' = Ok rec'"
    using assms(3) r'(1) unfolding get_order_by_external_id_for_owner_def q by (auto simp: fetch_order_def mapE_eq_Ok)
  with record_same_order[OF r'(2) r(2)] that show thesis by blast
qed

text \<open>
  C4: a request is served exactly once.  After a call of the service has succeeded, and whatever
  the rest of the system has done since, a call with the same owner and external id changes
  nothing in the database, not even the wallet's cursor, and if it succeeds its request hashes
  as the first one's and it returns the first one's order, with the same id, address, amount
  and deadlines.
\<close>
theorem order_service_exactly_once:
  assumes "create_order_for_owner env cfg owner inp d = (Ok res, d1)" "system_ok d" "system_step\<^sup>*\<^sup>* d1 d2"
    "trim owner' = trim owner" "trim (coi_external_id inp') = trim (coi_external_id inp)"
    "create_order_for_owner env' cfg' owner' inp' d2 = (r, d3)"
  shows "d3 = d2 \<and> (\<forall>res'. r = Ok res' \<longrightarrow> cor_outcome res' = OrderExisting \<and>
    same_order (ov_order (cor_view res)) (ov_order (cor_view res')) \<and> request_hash env' inp' = request_hash env inp)"
proof -
  obtain rec hash where rec: "get_order_by_external_id_for_owner (trim (coi_external_id inp)) (trim owner) d1 = Ok (Some rec)"
    "ov_order (cor_view res) = rec" "request_hash env inp = Ok hash" "or_request_hash rec = hash"
    using assms(1,2) by (rule create_order_Ok)
  have ok1: "system_ok d1" using create_prog.prog_system[OF assms(1,2)] by blast
  note ev = reachable_evolves[OF assms(3) ok1]
  have sch: "schema_ok d2" using ev by (simp add: system_ok_def repo_ok_def)
  note run = assms(6)[unfolded create_order_for_owner_def]
  show ?thesis
  proof (cases "normalize_owner_sub owner'")
    case (Inl e)
    then show ?thesis using run by (auto simp: andThen_def)
  next
    case (Inr ow)
    then have ow: "ow = trim owner" using assms(4) by (simp add: normalize_owner_sub_def split: if_splits)
    show ?thesis
    proof (cases "normalize_create_order_input inp'")
      case (Inl e)
      then show ?thesis using run Inr by (auto simp: andThen_def)
    next
      case n: (Inr n)
      note ext = normalized_external_id[OF n]
      show ?thesis
      proof (cases "canonical_order_request_hash env' n")
        case (Inl e)
        then show ?thesis using run Inr n by (auto simp: andThen_def)
      next
        case h: (Inr h)
        have rh: "request_hash env' inp' = Ok h" by (simp add: request_hash_def n h)
        show ?thesis
        proof (cases "get_order_by_external_id_for_owner (coi_external_id n) (trim owner) d2")
          case (Inl e)
          then show ?thesis using run Inr n h ow by (auto simp: andThen_def query_def)
        next
          case f: (Inr found)
          have "get_order_by_external_id_for_owner (trim (coi_external_id inp)) (trim owner) d2 = Ok found"
            using f ext assms(5) by simp
          then obtain rec' where rec': "found = Some rec'" "same_order rec rec'"
            using order_found_later[OF rec(1)] ev by blast
          note found = f[unfolded rec'(1)]
          have eq: "r = Ok res' \<Longrightarrow> ov_order (cor_view res') = rec' \<and> cor_outcome res' = OrderExisting \<and> or_request_hash rec' = h" for res'
            using run Inr n h ow found view_of_record[OF found _ sch]
            by (auto simp: andThen_Ok query_def expect_view_Ok split: if_splits)
          have "d3 = d2"
            using run Inr n h ow found
            by (auto simp: andThen_def query_def expect_order_view_def split: if_splits sum.splits option.splits prod.splits)
          moreover have "or_request_hash rec' = hash" using rec'(2) rec(4) by (simp add: same_order_def)
          ultimately show ?thesis using eq rec rec'(2) rh by auto
        qed
      qed
    qed
  qed
qed


section \<open>A new order\<close>

lemma order_derive_Ok:
  assumes "order_derive_address env a = Ok derived"
  shows "oe_derive_address env (trim (ad_signer_key_ref a)) (derivation_path (ad_segment a)) = Ok (dc_address derived)"
    "dc_segment derived = ad_segment a"
  using assms
  by (auto simp: order_derive_address_def derive_address_request_new_def normalize_signer_key_ref_def derive_child_address_def
      Let_def result_unfold split: if_splits)

lemma order_times_Ok:
  assumes "order_times env cfg inp = Ok (expires_at, monitor_until)"
  shows "expires_at = oe_now env + uint (coi_ttl_seconds inp) * one_second"
    "monitor_until = expires_at + uint (osc_late_payment_monitor_seconds cfg) * one_second"
  using assms
  by (auto simp: order_times_def duration_from_secs_def order_checked_add_def datetime_checked_add_def ok_or_def result_unfold
      split: if_splits)

lemma service_created:
  assumes "create_order_for_owner env cfg owner inp d = (Ok res, d')" "cor_outcome res = OrderCreated" "system_ok d"
  obtains n hash head a d1 derived window rec where "normalize_create_order_input inp = Ok n"
    "allocate_derivation_segment (trim (osc_wallet_cursor_id cfg)) d = Ok (a, d1)"
    "order_derive_address env a = Ok derived" "order_times env cfg n = Ok window"
    "insert_order_tx (order_command env cfg (trim owner) n hash head derived window) d1 = Ok (rec, d')"
    "ov_order (cor_view res) = rec"
proof -
  from assms(1,2) obtain n hash where n: "normalize_create_order_input inp = Ok n"
    and run: "create_new_order env cfg (trim owner) n hash d = (Ok res, d')"
    by (auto simp: create_order_for_owner_def andThen_Ok normalize_owner_sub_def split: if_splits option.splits)
  obtain head a d1 derived window rec where steps:
      "allocate_derivation_segment (trim (osc_wallet_cursor_id cfg)) d = Ok (a, d1)"
      "order_derive_address env a = Ok derived" "order_times env cfg n = Ok window"
    and create: "create_order_idempotent (order_command env cfg (trim owner) n hash head derived window) d1 = Ok (Created rec, d')"
    and view: "get_order_view (or_id rec) d' = Ok (Some (cor_view res))"
    using run by (rule create_new_order_Ok) (simp add: assms(2))
  from create have ins: "insert_order_tx (order_command env cfg (trim owner) n hash head derived window) d1 = Ok (rec, d')"
    "get_order_by_external_id_for_owner (coc_external_id (order_command env cfg (trim owner) n hash head derived window))
       (coc_owner_sub (order_command env cfg (trim owner) n hash head derived window)) d1 = Ok None"
    by (cases rule: create_order_cases; simp)+
  have "schema_ok d'" using create_prog.prog_system[OF assms(1,3)] by (simp add: system_ok_def repo_ok_def)
  then have "ov_order (cor_view res) = rec" using view_of_record created_row_found[OF ins] view by blast
  with n steps ins show thesis by (intro that)
qed

text \<open>
  C13: a new order is what was asked for.  It belongs to the caller, is pending with nothing paid,
  expects the requested amount of the configured token on the configured chain, expires after
  the requested time and is monitored for the configured time after that; its address is the
  signer's for the wallet's current path, no earlier order has it, and the wallet's cursor
  has moved past that path.
\<close>
theorem order_service_creates:
  assumes "create_order_for_owner env cfg owner inp d = (Ok res, d')" "cor_outcome res = OrderCreated" "system_ok d"
  shows "let ord = ov_order (cor_view res) in
    or_owner_sub ord = trim owner \<and> or_external_id ord = trim (coi_external_id inp) \<and> or_status ord = Pending \<and>
    or_paid_amount_raw ord = 0 \<and> or_expected_amount_raw ord = coi_expected_amount_raw inp \<and>
    0 < or_expected_amount_raw ord \<and> or_chain_id ord = osc_chain_id cfg \<and> or_token_address ord = osc_token_address cfg \<and>
    or_expires_at ord = oe_now env + uint (coi_ttl_seconds inp) * one_second \<and>
    or_monitor_until ord = or_expires_at ord + uint (osc_late_payment_monitor_seconds cfg) * one_second \<and>
    or_receive_address ord \<notin> o_receive_address ` set (orders d) \<and>
    (\<exists>a d1. allocate_derivation_segment (trim (osc_wallet_cursor_id cfg)) d = Ok (a, d1) \<and>
       oe_derive_address env (trim (ad_signer_key_ref a)) (derivation_path (ad_segment a)) = Ok (or_receive_address ord) \<and>
       cursor_position (trim (osc_wallet_cursor_id cfg)) d' = Some (int (segment_position (ad_segment a)) + 1))"
proof -
  obtain n hash head a d1 derived window rec where n: "normalize_create_order_input inp = Ok n"
    and a: "allocate_derivation_segment (trim (osc_wallet_cursor_id cfg)) d = Ok (a, d1)"
    and derived: "order_derive_address env a = Ok derived" and window: "order_times env cfg n = Ok window"
    and ins: "insert_order_tx (order_command env cfg (trim owner) n hash head derived window) d1 = Ok (rec, d')"
    and ord: "ov_order (cor_view res) = rec"
    using assms by (rule service_created)
  obtain e m where w: "window = (e, m)" by (cases window)
  note t = order_times_Ok[OF window[unfolded w]]
  note input = normalized_external_id[OF n]
  let ?c = "order_command env cfg (trim owner) n hash head derived window"
  have row: "row_to_order_record (new_order_row ?c (db_now d1)) = Ok rec" by (rule created_record[OF ins])
  then have fields: "or_owner_sub rec = trim owner" "or_external_id rec = coi_external_id n" "or_status rec = Pending"
    "or_paid_amount_raw rec = 0" "or_expected_amount_raw rec = coi_expected_amount_raw n" "or_chain_id rec = osc_chain_id cfg"
    "or_token_address rec = osc_token_address cfg" "or_expires_at rec = e" "or_monitor_until rec = m"
    "or_receive_address rec = dc_address derived"
    using big_decimal_roundtrip[of 0]
    by (auto simp: row_to_order_record_def new_order_row_def order_command_def w case_prod_beta Let_def result_unfold)
  have pos: "0 < coi_expected_amount_raw n"
    using n by (auto simp: normalize_create_order_input_def is_zero_def Let_def bindE_eq_Ok word_gt_0 split: if_splits)
  obtain ca where d': "d' = d1\<lparr>child_accounts := child_accounts d1 @ [ca], orders := orders d1 @ [new_order_row ?c (db_now d1)],
            payment_windows := payment_windows d1 @ [new_window_row ?c (db_now d1)]\<rparr>"
    using ins by (rule insert_order_tx_Ok)
  have "nca_address (coc_child_account ?c) \<notin> o_receive_address ` set (orders d1)"
    using ins by (rule insert_order_tx_addresses)
  moreover have "orders d1 = orders d" using a by (rule allocate_derivation_segment_Ok) simp
  ultimately have fresh: "dc_address derived \<notin> o_receive_address ` set (orders d)"
    by (simp add: order_command_def case_prod_beta)
  have "cursor_position (trim (osc_wallet_cursor_id cfg)) d' = cursor_position (trim (osc_wallet_cursor_id cfg)) d1"
    by (rule cursor_position_cong) (simp add: d')
  then have "cursor_position (trim (osc_wallet_cursor_id cfg)) d' = Some (int (segment_position (ad_segment a)) + 1)"
    using allocate_advances[OF a] by simp
  then show ?thesis
    using fields input pos fresh t a order_derive_Ok[OF derived] by (simp add: ord Let_def)
qed


section \<open>A shop\<close>

definition shop_env :: order_env where
  "shop_env = \<lparr>oe_current_head = Ok \<lparr>cb_number = 12, cb_hash = 1\<rparr>, oe_now = 20, oe_new_ids = (21, 22, 23),
     oe_derive_address = (\<lambda>_ _. Ok 0xC0FFEE), oe_to_vec = (\<lambda>q. Ok (map char_byte (cq_external_id q))),
     oe_keccak256 = (\<lambda>bs. of_nat (length bs))\<rparr>"

definition shop_config :: OrderServiceConfig where
  "shop_config = \<lparr>osc_chain_id = 137, osc_token_address = 0xA, osc_wallet_cursor_id = ''default'',
     osc_late_payment_monitor_seconds = 60\<rparr>"

definition shop_input :: CreateOrderInput where
  "shop_input = \<lparr>coi_external_id = ''ext-2'', coi_expected_amount_raw = 50, coi_ttl_seconds = 30, coi_metadata = JNull\<rparr>"

definition shop_wallet :: wallet_cursor_row where
  "shop_wallet = \<lparr>wc_id = ''default'', wc_signer_key_ref = ''root'', wc_derivation_version = 1, wc_account_index = 0,
     wc_change_index = 0, wc_next_address_index = 7\<rparr>"

definition shop_db :: db where
  "shop_db = sample_db\<lparr>wallet_cursors := [shop_wallet]\<rparr>"

lemma shop_system: "system_ok shop_db"
proof -
  have "schema_ok shop_db"
    by (simp add: schema_ok_def keys_ok_def payments_ok_def cursor_ok_def shop_db_def sample_defs)
  moreover have "ledger_ok shop_db"
    by (auto simp: ledger_ok_def order_settled_def confirmed_accepted_total_def non_orphaned_accepted_total_def
        confirmed_on_time_sum_def non_orphaned_on_time_sum_def accepted_problem_raw_def find_row_def
        recompute_status_from_totals_def shop_db_def sample_defs intro!: exI[of _ False])
  moreover have "windows_ok shop_db" by (simp add: windows_ok_def shop_db_def sample_defs)
  ultimately show ?thesis
    by (simp add: system_ok_def repo_ok_def sweep_ok_def one_active_per_nonce_def one_active_per_child_def treasury_only_def
        shop_db_def sample_db_def)
qed

lemma shop_trim: "trim ''alice'' = ''alice''" "trim ''ext-2'' = ''ext-2''" "trim ''default'' = ''default''" "trim ''root'' = ''root''"
  using trim_visible_ends[of "''alice''"] trim_visible_ends[of "''ext-2''"] trim_visible_ends[of "''default''"]
    trim_visible_ends[of "''root''"] by (simp_all add: visible_def)

definition shop_normal :: CreateOrderInput where
  "shop_normal = shop_input\<lparr>coi_metadata := JObject []\<rparr>"

definition shop_derived :: DerivedChildAddress where
  "shop_derived = \<lparr>dc_signer_key_ref = ''root'', dc_derivation_version = 1, dc_segment = sample_segment,
     dc_derivation_path = derivation_path sample_segment, dc_address = 0xC0FFEE\<rparr>"

lemma shop_steps:
  "normalize_owner_sub ''alice'' = Ok ''alice''" "normalize_create_order_input shop_input = Ok shop_normal"
  "canonical_order_request_hash shop_env shop_normal = Ok (hash_to_lower_hex 5)"
  "get_order_by_external_id_for_owner ''ext-2'' ''alice'' shop_db = Ok None"
  "allocate_derivation_segment ''default'' shop_db = Ok (\<lparr>ad_signer_key_ref = ''root'', ad_derivation_version = 1,
     ad_segment = sample_segment, ad_derivation_path = derivation_path sample_segment\<rparr>,
     shop_db\<lparr>wallet_cursors := [shop_wallet\<lparr>wc_next_address_index := 8\<rparr>]\<rparr>)"
  "order_derive_address shop_env \<lparr>ad_signer_key_ref = ''root'', ad_derivation_version = 1,
     ad_segment = sample_segment, ad_derivation_path = derivation_path sample_segment\<rparr> = Ok shop_derived"
  "order_times shop_env shop_config shop_normal = Ok (30000020, 90000020)"
  by (simp_all add: normalize_owner_sub_def shop_trim)
    (simp_all add: normalize_create_order_input_def canonical_metadata_def shop_normal_def shop_input_def shop_trim is_zero_def
      canonical_order_request_hash_def canonical_request_def shop_env_def order_times_def duration_from_secs_def
      order_checked_add_def datetime_checked_add_def MIN_DATETIME_def MAX_DATETIME_def ok_or_def one_second_def shop_config_def
      order_derive_address_def derive_address_request_new_def normalize_signer_key_ref_def derive_child_address_def
      shop_derived_def order_eval shop_db_def shop_wallet_def sample_defs allocate_derivation_segment_def sample_segment_def
      segment_new_def segment_next_def validate_index_def MAX_DERIVATION_INDEX_def take_current_and_advance_def update_where_def)

lemma hash_text_not_empty: "hash_to_lower_hex h \<noteq> []"
  by (simp add: hash_to_lower_hex_def encode_lower_prefixed_def)

lemma shop_creation:
  "\<exists>rec view d'. create_order_idempotent (order_command shop_env shop_config ''alice'' shop_normal (hash_to_lower_hex 5)
      \<lparr>cb_number = 12, cb_hash = 1\<rparr> shop_derived (30000020, 90000020))
      (shop_db\<lparr>wallet_cursors := [shop_wallet\<lparr>wc_next_address_index := 8\<rparr>]\<rparr>) = Ok (Created rec, d') \<and>
     or_id rec = 21 \<and> get_order_view 21 d' = Ok (Some view)"
proof -
  let ?c = "order_command shop_env shop_config ''alice'' shop_normal (hash_to_lower_hex 5)
      \<lparr>cb_number = 12, cb_hash = 1\<rparr> shop_derived (30000020, 90000020)"
  have valid: "validate_create_order_command ?c = Ok ()"
    by (simp add: validate_create_order_command_def order_command_def shop_env_def shop_derived_def shop_trim Let_def)
  have amounts: "big_decimal_to_raw_amount 50 = Ok 50" "big_decimal_to_raw_amount 0 = Ok 0"
    using big_decimal_numeral[of 50] big_decimal_numeral[of 0] by simp_all
  show ?thesis
    unfolding create_order_idempotent_def insert_order_tx_def valid bindE_Ok
    by (simp add: order_command_def shop_env_def shop_config_def shop_normal_def shop_input_def shop_derived_def order_eval
        shop_db_def sample_defs insert_child_account_def insert_order_def insert_window_def row_to_order_record_def
        sample_segment_def raw_amount_to_numeric_def child_derivation_key_def hash_text_not_empty amounts
        get_order_view_def fetch_order_view_def row_to_order_view_def row_to_child_account_def
        segment_new_def validate_index_def MAX_DERIVATION_INDEX_def)
qed

lemma shop_create: "\<exists>view d'. create_order_for_owner shop_env shop_config ''alice'' shop_input shop_db =
    (Ok \<lparr>cor_outcome = OrderCreated, cor_view = view\<rparr>, d')"
proof -
  obtain rec view d' where run: "create_order_idempotent (order_command shop_env shop_config ''alice'' shop_normal (hash_to_lower_hex 5)
      \<lparr>cb_number = 12, cb_hash = 1\<rparr> shop_derived (30000020, 90000020))
      (shop_db\<lparr>wallet_cursors := [shop_wallet\<lparr>wc_next_address_index := 8\<rparr>]\<rparr>) = Ok (Created rec, d')" "or_id rec = 21"
    and view: "get_order_view 21 d' = Ok (Some view)"
    using shop_creation by blast
  have ext: "coi_external_id shop_normal = ''ext-2''" "osc_wallet_cursor_id shop_config = ''default''"
    "oe_current_head shop_env = Ok \<lparr>cb_number = 12, cb_hash = 1\<rparr>"
    by (simp_all add: shop_normal_def shop_input_def shop_config_def shop_env_def)
  have "create_new_order shop_env shop_config ''alice'' shop_normal (hash_to_lower_hex 5) shop_db =
      (Ok \<lparr>cor_outcome = OrderCreated, cor_view = view\<rparr>, d')"
    by (simp add: create_new_order_def andThen_def transact_def query_def expect_order_view_def ext shop_trim shop_steps run view ok_or_def)
  then show ?thesis
    by (simp add: create_order_for_owner_def andThen_def query_def shop_steps ext)
qed

theorem order_service_creates_witness:
  "\<exists>res d'. create_order_for_owner shop_env shop_config ''alice'' shop_input shop_db = (Ok res, d') \<and>
     or_receive_address (ov_order (cor_view res)) = 0xC0FFEE \<and> or_expires_at (ov_order (cor_view res)) = 30000020"
proof -
  obtain view d' where run: "create_order_for_owner shop_env shop_config ''alice'' shop_input shop_db =
    (Ok \<lparr>cor_outcome = OrderCreated, cor_view = view\<rparr>, d')" using shop_create by blast
  have "cor_outcome \<lparr>cor_outcome = OrderCreated, cor_view = view\<rparr> = OrderCreated" by simp
  from order_service_creates[OF run this shop_system]
  have "or_receive_address (ov_order (cor_view \<lparr>cor_outcome = OrderCreated, cor_view = view\<rparr>)) = 0xC0FFEE \<and>
    or_expires_at (ov_order (cor_view \<lparr>cor_outcome = OrderCreated, cor_view = view\<rparr>)) = 30000020"
    by (auto simp: Let_def shop_env_def shop_input_def one_second_def)
  with run show ?thesis by (intro exI conjI) (assumption, (elim conjE, assumption)+)
qed

theorem order_service_exactly_once_witness:
  "\<exists>res d1. create_order_for_owner shop_env shop_config ''alice'' shop_input shop_db = (Ok res, d1) \<and>
     snd (create_order_for_owner shop_env shop_config ''alice'' (shop_input\<lparr>coi_expected_amount_raw := 51\<rparr>) d1) = d1"
proof -
  obtain view d1 where run: "create_order_for_owner shop_env shop_config ''alice'' shop_input shop_db =
    (Ok \<lparr>cor_outcome = OrderCreated, cor_view = view\<rparr>, d1)" using shop_create by blast
  let ?again = "create_order_for_owner shop_env shop_config ''alice'' (shop_input\<lparr>coi_expected_amount_raw := 51\<rparr>) d1"
  have "?again = (fst ?again, snd ?again)" "trim (coi_external_id (shop_input\<lparr>coi_expected_amount_raw := 51\<rparr>)) = trim (coi_external_id shop_input)"
    by simp_all
  with order_service_exactly_once[OF run shop_system rtranclp.rtrancl_refl refl] have "snd ?again = d1" by blast
  with run show ?thesis by (intro exI conjI)
qed

end
