(* ===== verification/Manual_Verify.thy ===== *)
theory Manual_Verify
  imports Worker_Steps Payment_Matching Log_Store
begin

text \<open>
  Manual verification of an order, \<open>src/src/services/verify\<close>: the transfers to the order's address
  are read from the chain, matched against the order's own window, checked against the canonical
  blocks, recorded, and a decision is computed from the recorded payments.  The service reads the
  chain three times; each read may see another chain, so each has its own source.
\<close>

section \<open>Configuration, results and errors\<close>

record ManualVerifyConfig =
  mvc_max_logs_per_order :: nat
  mvc_min_confirmations :: u64

datatype ManualVerifyStatus = VerifyConfirmed | VerifyConfirming | VerifyNoCoverage

record ManualVerifyResult =
  mvr_order_id :: uuid
  mvr_status :: ManualVerifyStatus
  mvr_matched_payments :: u64
  mvr_paid_amount_raw :: RawAmount
  mvr_confirmations :: u64
  mvr_complete_to_block :: "u64 option"

datatype ManualVerifyError =
    VerifyInvalidConfig string
  | VerifyOrderNotFound uuid
  | CoverageInsufficient uuid
  | LogLimitExceeded uuid nat
  | CanonicalBlockMismatch u64 BlockHash BlockHash
  | VerifyRepository RepositoryError
  | VerifyTransferLogStore TransferLogStoreError
  | VerifyChain ChainError
  | VerifyPaymentMatching PaymentMatchingError
  | VerifyOrderStatus OrderStatusError

definition verify_config_validate :: "ManualVerifyConfig \<Rightarrow> ManualVerifyError + unit" where
  "verify_config_validate c =
     (if mvc_max_logs_per_order c = 0 then Err (VerifyInvalidConfig ''max_logs_per_order'') else Ok ())"


section \<open>The order as a candidate, the decision as a report\<close>

definition candidate_from_order_view :: "OrderView \<Rightarrow> PaymentWindowCandidate" where
  "candidate_from_order_view view =
     (let ord = ov_order view; w = ov_payment_window view in
      \<lparr>pwc_order_id = or_id ord, pwc_child_account_id = or_child_account_id ord,
       pwc_receive_address = or_receive_address ord, pwc_chain_id = or_chain_id ord,
       pwc_token_address = or_token_address ord, pwc_expected_amount_raw = or_expected_amount_raw ord,
       pwc_paid_amount_raw = or_paid_amount_raw ord, pwc_order_status = or_status ord,
       pwc_window_from = pwr_window_from w, pwc_window_from_block = pwr_window_from_block w,
       pwc_expires_at = pwr_expires_at w, pwc_monitor_until = pwr_monitor_until w\<rparr>)"

fun manual_status_from_order_status :: "OrderStatus \<Rightarrow> ManualVerifyStatus" where
  "manual_status_from_order_status Paid = VerifyConfirmed"
| "manual_status_from_order_status Pending = VerifyConfirming"
| "manual_status_from_order_status Partial = VerifyConfirming"
| "manual_status_from_order_status Confirming = VerifyConfirming"
| "manual_status_from_order_status Expired = VerifyConfirming"

definition payment_facts :: "PaymentRecord list \<Rightarrow> PaymentFact list" where
  "payment_facts records =
     map (\<lambda>p. \<lparr>pf_amount = mp_amount_raw p, pf_match_status = mp_match_status p, pf_chain_status = mp_chain_status p\<rparr>)
       records"

text \<open>The loop over the matched payments: the first whose block the chain does not have is an error.\<close>

primrec check_canonical_blocks :: "chain_source \<Rightarrow> MatchedPaymentInput list \<Rightarrow> ManualVerifyError + unit" where
  "check_canonical_blocks src [] = Ok ()"
| "check_canonical_blocks src (p # ps) =
     bindE (map_errE VerifyChain (src_block_by_number src (mp_block_number p))) (\<lambda>canonical_block.
     if blk_hash canonical_block \<noteq> mp_block_hash p
     then Err (CanonicalBlockMismatch (mp_block_number p) (mp_block_hash p) (blk_hash canonical_block))
     else check_canonical_blocks src ps)"


section \<open>Verification\<close>

record verify_env =
  ve_head_source :: chain_source
  ve_log_source :: chain_source
  ve_block_source :: chain_source
  ve_new_ids :: "nat \<Rightarrow> uuid"
  ve_recorded_at :: timestamp
  ve_now :: timestamp

definition verify_result :: "verify_env \<Rightarrow> uuid \<Rightarrow> OrderView \<Rightarrow> u64 \<Rightarrow> nat \<Rightarrow> PaymentRecord list \<Rightarrow> ManualVerifyError + ManualVerifyResult" where
  "verify_result env order_id view complete_to matched_count records =
     bindE (map_errE VerifyOrderStatus (recompute_order_status (or_expected_amount_raw (ov_order view))
       (payment_facts records) (or_expires_at (ov_order view) \<le> ve_now env))) (\<lambda>decision.
     Ok \<lparr>mvr_order_id = order_id, mvr_status = manual_status_from_order_status (od_status decision),
         mvr_matched_payments = of_nat matched_count, mvr_paid_amount_raw = od_confirmed_on_time_total decision,
         mvr_confirmations = fold max (map mp_confirmations records) 0, mvr_complete_to_block = Some complete_to\<rparr>)"

definition verify_order_internal ::
  "verify_env \<Rightarrow> ManualVerifyConfig \<Rightarrow> uuid \<Rightarrow> string option \<Rightarrow> (ManualVerifyError, ManualVerifyResult) worker" where
  "verify_order_internal env cfg order_id owner =
     andThen (answer (verify_config_validate cfg)) (\<lambda>_.
     andThen (query VerifyRepository (case owner of Some sub \<Rightarrow> get_order_view_for_owner order_id sub
       | None \<Rightarrow> get_order_view order_id)) (\<lambda>found.
     andThen (answer (ok_or found (VerifyOrderNotFound order_id))) (\<lambda>view.
     let stream = \<lparr>sid_chain_id = or_chain_id (ov_order view), sid_token_address = or_token_address (ov_order view)\<rparr>;
         from_block = cb_number (pwr_window_from_block (ov_payment_window view)) in
     andThen (answer (map_errE VerifyChain (src_latest_head (ve_head_source env)))) (\<lambda>head.
     if cb_number head < from_block then answer (Err (CoverageInsufficient order_id))
     else
       andThen (answer (map_errE VerifyChain (src_transfer_logs (ve_log_source env)
         (range_with_recipient (range_new (sid_chain_id stream) (sid_token_address stream) from_block (cb_number head))
           (or_receive_address (ov_order view)))))) (\<lambda>logs.
       if mvc_max_logs_per_order cfg < length logs
       then answer (Err (LogLimitExceeded order_id (mvc_max_logs_per_order cfg)))
       else
         let matched = match_transfer_logs (ve_new_ids env) stream (mvc_min_confirmations cfg) logs
               [candidate_from_order_view view] head in
         andThen (answer (check_canonical_blocks (ve_block_source env) matched)) (\<lambda>_.
         andThen (transact VerifyRepository (record_verified_payments (ve_recorded_at env) order_id matched)) (\<lambda>records.
         answer (verify_result env order_id view (cb_number head) (length matched) records))))))))"

definition verify_order :: "verify_env \<Rightarrow> ManualVerifyConfig \<Rightarrow> uuid \<Rightarrow> (ManualVerifyError, ManualVerifyResult) worker" where
  "verify_order env cfg order_id = verify_order_internal env cfg order_id None"

definition verify_order_for_owner ::
  "verify_env \<Rightarrow> ManualVerifyConfig \<Rightarrow> uuid \<Rightarrow> string \<Rightarrow> (ManualVerifyError, ManualVerifyResult) worker" where
  "verify_order_for_owner env cfg order_id owner_sub = verify_order_internal env cfg order_id (Some owner_sub)"

end
