(* ===== verification/Manual_Verify_Props.thy ===== *)
theory Manual_Verify_Props
  imports Manual_Verify Scanner_Props
begin

text \<open>
  What a successful manual verification has done: the transfers to the order are recorded, the
  database stays consistent, and the report is computed from the rows of the order.
\<close>

section \<open>A verification is a run of commands\<close>

lemma runs_verify: "runs_commands (verify_order_internal env cfg order_id owner)"
  unfolding verify_order_internal_def Let_def by (intro worker_intro)

interpretation verify_prog: worker_program "verify_order_internal env cfg order_id owner"
  for env cfg order_id owner
  by unfold_locales (rule runs_verify)


section \<open>Recording\<close>

lemma upsert_verified_all:
  assumes "\<forall>p \<in> set ps. mp_chain_id p = chain_id \<and> mp_token_address p = token"
  shows "upsert_verified ps d = Ok d' \<longleftrightarrow> (\<exists>recs. upsert_all chain_id token ps d = Ok (recs, d'))"
  using assms by (induction ps arbitrary: d) (auto simp: bindE_eq_Ok)

lemma record_verified_Ok:
  assumes "record_verified_payments now oid ps d = Ok (recs, d')" "schema_ok d"
  obtains d1 where "upsert_verified ps d = Ok d1" "recompute_orders_in_tx now [oid] d1 = Ok d'"
    "payment_records_for_order_tx oid d' = Ok recs" "payments d' = payments d1" "schema_ok d1"
    "orders d1 = orders d" "order_payment_overrides d1 = order_payment_overrides d"
proof -
  obtain d1 where 1: "upsert_verified ps d = Ok d1" "recompute_orders_in_tx now [oid] d1 = Ok d'"
    "payment_records_for_order_tx oid d' = Ok recs"
    and own: "\<forall>p \<in> set ps. mp_order_id p = oid"
    using assms(1) by (auto simp: record_verified_payments_def bindE_eq_Ok split: if_splits)
  have k: "schema_ok d1" "d1 = d\<lparr>payments := payments d1\<rparr>"
    using upsert_verified_keeps[OF 1(1) assms(2) own] by blast+
  have "payments d' = payments d1" using recompute_frame(1)[OF 1(2) schema_distinct_orders[OF k(1)]] by simp
  moreover have "orders d1 = orders d" "order_payment_overrides d1 = order_payment_overrides d"
    by (subst k(2), simp)+
  ultimately show thesis using that 1 k(1) by blast
qed


section \<open>The decision and the ledger\<close>

lemma confirmed_record_sum:
  assumes "traverseE payment_record_from_row rs = Ok recs"
  shows "int (confirmed_total (payment_facts recs)) =
    sum_list (map p_amount_raw (filter (\<lambda>p. p_match_status p = OnTime \<and> p_chain_status p = Confirmed) rs))"
  using assms
proof (induction rs arbitrary: recs)
  case (Cons r rs)
  then obtain x xs where x: "payment_record_from_row r = Ok x" "traverseE payment_record_from_row rs = Ok xs" "recs = x # xs"
    by (auto simp: bindE_eq_Ok)
  have IH: "int (confirmed_total (payment_facts xs)) =
    sum_list (map p_amount_raw (filter (\<lambda>p. p_match_status p = OnTime \<and> p_chain_status p = Confirmed) rs))"
    by (rule Cons.IH[OF x(2)])
  from payment_record_from_row_Ok[OF x(1)] IH show ?case
    by (simp add: x(3) payment_facts_def is_confirmed_on_time_def)
qed (simp add: payment_facts_def)

lemma sum_list_sorted: "sum_list (map (f :: 'a \<Rightarrow> int) (filter P (sort_key k xs))) = sum_list (map f (filter P xs))"
  by (metis mset_filter mset_map mset_sort sum_mset_sum_list)

lemma confirmed_facts_sum:
  assumes "payment_records_for_order_tx oid d = Ok recs"
  shows "int (confirmed_total (payment_facts recs)) = confirmed_on_time_sum (payments d) oid"
  using confirmed_record_sum[OF assms[unfolded payment_records_for_order_tx_def]]
  by (simp add: sum_list_sorted confirmed_on_time_sum_def conj_ac)

lemma verify_result_Ok:
  assumes "verify_result env oid view upto_block n recs = Ok res"
  shows "mvr_complete_to_block res = Some upto_block"
    "unat (mvr_paid_amount_raw res) = confirmed_total (payment_facts recs)"
    "mvr_status res = VerifyConfirmed \<longleftrightarrow> unat (or_expected_amount_raw (ov_order view)) \<le> unat (mvr_paid_amount_raw res)"
proof -
  let ?fs = "payment_facts recs"
  have no: "\<not> u256_overflow (non_orphaned_total ?fs)"
    and res: "mvr_complete_to_block res = Some upto_block" "mvr_paid_amount_raw res = of_nat (confirmed_total ?fs)"
      "mvr_status res = manual_status_from_order_status (status_spec (unat (or_expected_amount_raw (ov_order view)))
         (confirmed_total ?fs) (non_orphaned_total ?fs) (or_expires_at (ov_order view) \<le> ve_now env))"
    using assms by (auto simp: verify_result_def bindE_eq_Ok recompute_order_status_eq split: if_splits)
  show "mvr_complete_to_block res = Some upto_block" by (rule res(1))
  have "\<not> u256_overflow (confirmed_total ?fs)"
    using no confirmed_le_non_orphaned[of ?fs] u256_overflow_mono by blast
  then show paid: "unat (mvr_paid_amount_raw res) = confirmed_total ?fs"
    unfolding res(2) u256_overflow_def not_le by (rule u256_of_nat)
  show "mvr_status res = VerifyConfirmed \<longleftrightarrow> unat (or_expected_amount_raw (ov_order view)) \<le> unat (mvr_paid_amount_raw res)"
    unfolding res(3) paid by (simp add: status_spec_def)
qed


section \<open>The steps of a verification\<close>

abbreviation verify_stream :: "OrderView \<Rightarrow> StreamId" where
  "verify_stream view \<equiv> \<lparr>sid_chain_id = or_chain_id (ov_order view), sid_token_address = or_token_address (ov_order view)\<rparr>"

abbreviation verify_range :: "OrderView \<Rightarrow> u64 \<Rightarrow> TransferLogRange" where
  "verify_range view upto_block \<equiv> range_with_recipient (range_new (or_chain_id (ov_order view)) (or_token_address (ov_order view))
     (cb_number (pwr_window_from_block (ov_payment_window view))) upto_block) (or_receive_address (ov_order view))"

abbreviation verify_matches ::
  "verify_env \<Rightarrow> ManualVerifyConfig \<Rightarrow> OrderView \<Rightarrow> TransferLog list \<Rightarrow> ChainBlockRef \<Rightarrow> MatchedPaymentInput list" where
  "verify_matches env cfg view logs head \<equiv> match_transfer_logs (ve_new_ids env) (verify_stream view)
     (mvc_min_confirmations cfg) logs [candidate_from_order_view view] head"

lemma verify_Ok:
  assumes "verify_order_internal env cfg oid owner d = (Ok res, d')"
  obtains q view head logs recs where "fetch_order_view q d = Ok (Some view)" "\<forall>r. q r \<longrightarrow> o_id r = oid"
    "src_latest_head (ve_head_source env) = Ok head"
    "src_transfer_logs (ve_log_source env) (verify_range view (cb_number head)) = Ok logs"
    "check_canonical_blocks (ve_block_source env) (verify_matches env cfg view logs head) = Ok ()"
    "record_verified_payments (ve_recorded_at env) oid (verify_matches env cfg view logs head) d = Ok (recs, d')"
    "verify_result env oid view (cb_number head) (length (verify_matches env cfg view logs head)) recs = Ok res"
proof -
  let ?read = "(case owner of Some sub \<Rightarrow> get_order_view_for_owner oid sub | None \<Rightarrow> get_order_view oid) d"
  from assms obtain view head logs recs where *: "?read = Ok (Some view)"
    "src_latest_head (ve_head_source env) = Ok head"
    "src_transfer_logs (ve_log_source env) (verify_range view (cb_number head)) = Ok logs"
    "check_canonical_blocks (ve_block_source env) (verify_matches env cfg view logs head) = Ok ()"
    "record_verified_payments (ve_recorded_at env) oid (verify_matches env cfg view logs head) d = Ok (recs, d')"
    "verify_result env oid view (cb_number head) (length (verify_matches env cfg view logs head)) recs = Ok res"
    by (auto simp: verify_order_internal_def Let_def andThen_Ok ok_or_def split: if_splits option.splits)
  show thesis
  proof (cases owner)
    case None
    with * show thesis by (intro that[of "\<lambda>r. o_id r = oid"]) (simp_all add: get_order_view_def)
  next
    case (Some sub)
    with * show thesis
      by (intro that[of "\<lambda>r. o_id r = oid \<and> o_owner_sub r = sub"]) (simp_all add: get_order_view_for_owner_def)
  qed
qed

text \<open>The rows behind a view.\<close>

lemma fetched_view_rows:
  assumes "fetch_order_view q d = Ok (Some view)"
  obtains w r where "q r" "(w, r) \<in> set (window_order_join d)" "or_id (ov_order view) = o_id r"
    "or_chain_id (ov_order view) = of_int (o_chain_id r)" "or_token_address (ov_order view) = o_token_address r"
    "or_receive_address (ov_order view) = o_receive_address r"
    "uint (or_expected_amount_raw (ov_order view)) = o_expected_amount_raw r"
    "cb_number (pwr_window_from_block (ov_payment_window view)) = of_int (w_window_from_block w)"
    "0 \<le> w_window_from_block w"
proof -
  obtain r c w where rows: "find_row q (orders d) = Some r" "find_row (\<lambda>w. w_order_id w = o_id r) (payment_windows d) = Some w"
    "row_to_order_view r c w = Ok view"
    using assms by (auto simp: fetch_order_view_def mapE_eq_Ok split: option.splits)
  have "(w, r) \<in> set (window_order_join d)" "q r"
    using find_row_Some[OF rows(1)] find_row_Some[OF rows(2)] by (simp_all add: join_member)
  moreover have "or_id (ov_order view) = o_id r" "or_chain_id (ov_order view) = of_int (o_chain_id r)"
    "or_token_address (ov_order view) = o_token_address r" "or_receive_address (ov_order view) = o_receive_address r"
    "cb_number (pwr_window_from_block (ov_payment_window view)) = of_int (w_window_from_block w)"
    "0 \<le> w_window_from_block w"
    using rows(3)
    by (auto simp: row_to_order_view_def row_to_order_record_def bindE_eq_Ok ord_i64_to_u64_def split: if_splits)
  moreover have "uint (or_expected_amount_raw (ov_order view)) = o_expected_amount_raw r"
    using rows(3) by (auto simp: row_to_order_view_def row_to_order_record_def bindE_eq_Ok dest: big_decimal_Ok)
  ultimately show thesis using that by blast
qed

lemma verify_matches_stream:
  assumes "m \<in> set (match_transfer_logs ids stream minc logs cs head)"
  shows "mp_chain_id m = sid_chain_id stream \<and> mp_token_address m = sid_token_address stream"
proof -
  obtain i l c where l: "c \<in> set (payable_window stream cs l)"
    and m: "m = matched_payment_input_from_transfer_log (ids i) l c head minc"
    using assms by (rule member_matched)
  show ?thesis using payable_window_member[OF l] by (simp add: m matched_input_fields)
qed

lemma canonical_blocks_checked:
  assumes "check_canonical_blocks src ps = Ok ()" "p \<in> set ps"
  shows "\<exists>b. src_block_by_number src (mp_block_number p) = Ok b \<and> blk_hash b = mp_block_hash p"
  using assms by (induction ps) (auto simp: bindE_eq_Ok split: if_splits)

text \<open>A transfer to the order from its opening block on is among the matches.\<close>

lemma verify_match_of_log:
  assumes "l \<in> set logs" "tl_chain_id l = or_chain_id (ov_order view)" "tl_token_address l = or_token_address (ov_order view)"
    "tl_to_address l = or_receive_address (ov_order view)"
  shows "\<exists>i. matched_payment_input_from_transfer_log i l (candidate_from_order_view view) head (mvc_min_confirmations cfg)
    \<in> set (verify_matches env cfg view logs head)"
proof -
  have "payable_window (verify_stream view) [candidate_from_order_view view] l = [candidate_from_order_view view]"
    using assms(2-4)
    by (intro payable_window_only) (simp_all add: key_from_candidate_def candidate_from_order_view_def Let_def)
  from matched_member[OF _ assms(1), of "candidate_from_order_view view" "verify_stream view" "[candidate_from_order_view view]"
      "ve_new_ids env" head "mvc_min_confirmations cfg"] this
  show ?thesis by auto
qed

definition view_of_rows :: "OrderView \<Rightarrow> window_row \<Rightarrow> order_row \<Rightarrow> bool" where
  "view_of_rows view w r \<longleftrightarrow>
     or_id (ov_order view) = o_id r \<and> or_chain_id (ov_order view) = of_int (o_chain_id r) \<and>
     or_token_address (ov_order view) = o_token_address r \<and> or_receive_address (ov_order view) = o_receive_address r \<and>
     uint (or_expected_amount_raw (ov_order view)) = o_expected_amount_raw r \<and>
     cb_number (pwr_window_from_block (ov_payment_window view)) = of_int (w_window_from_block w) \<and> 0 \<le> w_window_from_block w"

lemma verify_reads_log:
  assumes "view_of_rows view w r" "log_source transfer_logs canonical" "transfer_logs (verify_range view upto_block) = Ok logs"
    "l \<in> set canonical" "log_for_order l r" "w_window_from_block w \<le> uint (blk_number (tl_block l))"
    "blk_number (tl_block l) \<le> upto_block"
  shows "l \<in> set logs" "tl_chain_id l = or_chain_id (ov_order view)" "tl_token_address l = or_token_address (ov_order view)"
    "tl_to_address l = or_receive_address (ov_order view)"
proof -
  have "or_chain_id (ov_order view) = of_int (uint (tl_chain_id l))"
    using assms(1,5) by (simp add: view_of_rows_def log_for_order_def)
  then show own: "tl_chain_id l = or_chain_id (ov_order view)" "tl_token_address l = or_token_address (ov_order view)"
    "tl_to_address l = or_receive_address (ov_order view)"
    using assms(1,5) by (simp_all add: view_of_rows_def log_for_order_def)
  have opens: "0 \<le> w_window_from_block w" using assms(1) by (simp add: view_of_rows_def)
  have "w_window_from_block w < 2 ^ 64" using assms(6) uint_lt2p[of "blk_number (tl_block l)"] by simp
  with opens have "uint (of_int (w_window_from_block w) :: u64) = w_window_from_block w"
    by (simp add: unsigned_of_int take_bit_int_eq_self)
  then have "(of_int (w_window_from_block w) :: u64) \<le> blk_number (tl_block l)" using assms(6) by (simp add: word_le_def)
  then show "l \<in> set logs"
    using log_source.logs_complete[OF assms(2,3,4)] own assms(1,7)
    by (simp add: view_of_rows_def range_selects_def range_with_recipient_def range_new_def)
qed

text \<open>The payments that a successful recording of the matches leaves.\<close>

lemma verify_records_log:
  assumes "upsert_verified (verify_matches env cfg view logs head) d = Ok d1" "set logs \<subseteq> set canonical"
    "inj_on (\<lambda>l. (tl_tx_hash l, tl_log_index l)) (set canonical)" "l \<in> set logs"
    "tl_chain_id l = or_chain_id (ov_order view)" "tl_token_address l = or_token_address (ov_order view)"
    "tl_to_address l = or_receive_address (ov_order view)"
  shows "\<exists>p \<in> set (payments d1). p_order_id p = or_id (ov_order view) \<and> p_tx_hash p = tl_tx_hash l \<and>
      p_log_index p = uint (tl_log_index l) \<and> p_amount_raw p = uint (tl_amount_raw l) \<and> p_block_hash p = blk_hash (tl_block l)"
proof -
  let ?ms = "verify_matches env cfg view logs head"
  have "\<forall>p \<in> set ?ms. mp_chain_id p = or_chain_id (ov_order view) \<and> mp_token_address p = or_token_address (ov_order view)"
    using verify_matches_stream[of _ "ve_new_ids env" "verify_stream view"] by auto
  then obtain recs where all: "upsert_all (or_chain_id (ov_order view)) (or_token_address (ov_order view)) ?ms d = Ok (recs, d1)"
    using assms(1) upsert_verified_all by blast
  obtain i where
    m: "matched_payment_input_from_transfer_log i l (candidate_from_order_view view) head (mvc_min_confirmations cfg) \<in> set ?ms"
    using verify_match_of_log[OF assms(4-7)] by blast
  obtain p where p: "p \<in> set (payments d1)" "row_of_match (uint (or_chain_id (ov_order view)))
      (matched_payment_input_from_transfer_log i l (candidate_from_order_view view) head (mvc_min_confirmations cfg)) p"
    using upsert_all_records[OF all m matches_agree[OF assms(2,3) m]] by blast
  have hash: "mp_block_hash (matched_payment_input_from_transfer_log i l c head k) = blk_hash (tl_block l)" for c k
    by (simp add: matched_payment_input_from_transfer_log_def case_prod_beta)
  show ?thesis
    using p by (intro bexI[of _ p]) (simp_all add: row_of_match_def payment_key_def matched_input_fields hash
        candidate_from_order_view_def Let_def)
qed

lemma verify_checks_log:
  assumes "check_canonical_blocks src (verify_matches env cfg view logs head) = Ok ()" "l \<in> set logs"
    "tl_chain_id l = or_chain_id (ov_order view)" "tl_token_address l = or_token_address (ov_order view)"
    "tl_to_address l = or_receive_address (ov_order view)"
  shows "\<exists>b. src_block_by_number src (blk_number (tl_block l)) = Ok b \<and> blk_hash b = blk_hash (tl_block l)"
proof -
  obtain i where m: "matched_payment_input_from_transfer_log i l (candidate_from_order_view view) head (mvc_min_confirmations cfg)
      \<in> set (verify_matches env cfg view logs head)"
    using verify_match_of_log[OF assms(2-5)] by blast
  from canonical_blocks_checked[OF assms(1) m] show ?thesis
    by (simp add: matched_payment_input_from_transfer_log_def case_prod_beta)
qed

text \<open>
  C8: a successful manual verification records every transfer to the order and reports what the
  database has.  Every canonical transfer to the order's address from the block its window opens
  at to the block the report names is a payment of the order afterwards, with its amount and
  block, and that block is the chain's; the database stays consistent; the reported amount is the order's stored
  paid amount less what was accepted by hand, so that the report says confirmed exactly when the
  confirmed payments alone cover the order, while the stored order is paid exactly when its
  stored amount does.
\<close>
theorem manual_verify_reports_ledger:
  assumes "verify_order_internal env cfg oid owner d = (Ok res, d')" "system_ok d"
    "log_source (src_transfer_logs (ve_log_source env)) canonical"
    "inj_on (\<lambda>l. (tl_tx_hash l, tl_log_index l)) (set canonical)"
  shows "\<exists>w r r' upto_block. (w, r) \<in> set (window_order_join d) \<and> o_id r = oid \<and> r' \<in> set (orders d') \<and> o_id r' = oid \<and>
    system_ok d' \<and> mvr_complete_to_block res = Some upto_block \<and>
    (\<forall>l \<in> set canonical. log_for_order l r \<longrightarrow> w_window_from_block w \<le> uint (blk_number (tl_block l)) \<longrightarrow>
       blk_number (tl_block l) \<le> upto_block \<longrightarrow>
       (\<exists>p \<in> set (payments d'). p_order_id p = oid \<and> p_tx_hash p = tl_tx_hash l \<and> p_log_index p = uint (tl_log_index l) \<and>
          p_amount_raw p = uint (tl_amount_raw l) \<and> p_block_hash p = blk_hash (tl_block l)) \<and>
       (\<exists>b. src_block_by_number (ve_block_source env) (blk_number (tl_block l)) = Ok b \<and> blk_hash b = blk_hash (tl_block l))) \<and>
    o_paid_amount_raw r' = uint (mvr_paid_amount_raw res) + accepted_problem_raw (order_payment_overrides d) oid \<and>
    (mvr_status res = VerifyConfirmed \<longleftrightarrow> o_expected_amount_raw r \<le> uint (mvr_paid_amount_raw res)) \<and>
    (o_status r' = Paid \<longleftrightarrow> o_expected_amount_raw r \<le> o_paid_amount_raw r')"
proof -
  obtain q view head logs recs where view: "fetch_order_view q d = Ok (Some view)" "\<forall>r. q r \<longrightarrow> o_id r = oid"
    and head: "src_latest_head (ve_head_source env) = Ok head"
    and logs: "src_transfer_logs (ve_log_source env) (verify_range view (cb_number head)) = Ok logs"
    and canon: "check_canonical_blocks (ve_block_source env) (verify_matches env cfg view logs head) = Ok ()"
    and rec: "record_verified_payments (ve_recorded_at env) oid (verify_matches env cfg view logs head) d = Ok (recs, d')"
    and res: "verify_result env oid view (cb_number head) (length (verify_matches env cfg view logs head)) recs = Ok res"
    using assms(1) by (rule verify_Ok)
  obtain w r where r: "q r" "(w, r) \<in> set (window_order_join d)" "view_of_rows view w r"
    using view(1) by (rule fetched_view_rows) (simp add: view_of_rows_def)
  have oid: "o_id r = oid" "or_id (ov_order view) = oid" using view(2) r(1,3) by (auto simp: view_of_rows_def)
  have sch: "schema_ok d" using assms(2) by (simp add: system_ok_def repo_ok_def)
  obtain d1 where up: "upsert_verified (verify_matches env cfg view logs head) d = Ok d1"
    and rc: "recompute_orders_in_tx (ve_recorded_at env) [oid] d1 = Ok d'"
    and records: "payment_records_for_order_tx oid d' = Ok recs"
    and frame: "payments d' = payments d1" "schema_ok d1" "orders d1 = orders d"
      "order_payment_overrides d1 = order_payment_overrides d"
    using rec sch by (rule record_verified_Ok)
  let ?r' = "settle (ve_recorded_at env) d1 r"
  have "r \<in> set (orders d1)" using r(2) by (simp add: join_member frame)
  then have r': "?r' \<in> set (orders d')"
    using recompute_orders_in_tx_Ok[OF rc schema_distinct_orders[OF frame(2)]] oid by force
  note result = verify_result_Ok[OF res]
  have paid: "o_paid_amount_raw ?r' = uint (mvr_paid_amount_raw res) + accepted_problem_raw (order_payment_overrides d) oid"
    using confirmed_facts_sum[OF records] arg_cong[OF result(2), of int]
    by (simp add: settle_def confirmed_accepted_total_def oid frame)
  have confirmed: "mvr_status res = VerifyConfirmed \<longleftrightarrow> o_expected_amount_raw r \<le> uint (mvr_paid_amount_raw res)"
    unfolding result(3) using r(3) by (simp add: word_le_nat_alt[symmetric] word_le_def view_of_rows_def)
  have status: "o_status ?r' = Paid \<longleftrightarrow> o_expected_amount_raw r \<le> o_paid_amount_raw ?r'"
    by (simp add: settle_def recompute_status_from_totals_def)
  have sub: "set logs \<subseteq> set canonical" using log_source.logs_in_range[OF assms(3) logs] by blast
  have found: "\<exists>p \<in> set (payments d'). p_order_id p = oid \<and> p_tx_hash p = tl_tx_hash l \<and> p_log_index p = uint (tl_log_index l) \<and>
      p_amount_raw p = uint (tl_amount_raw l) \<and> p_block_hash p = blk_hash (tl_block l)"
    "\<exists>b. src_block_by_number (ve_block_source env) (blk_number (tl_block l)) = Ok b \<and> blk_hash b = blk_hash (tl_block l)"
    if l: "l \<in> set canonical" "log_for_order l r" "w_window_from_block w \<le> uint (blk_number (tl_block l))"
      "blk_number (tl_block l) \<le> cb_number head" for l
    using verify_records_log[OF up sub assms(4) verify_reads_log[OF r(3) assms(3) logs l]]
      verify_checks_log[OF canon verify_reads_log[OF r(3) assms(3) logs l]] by (simp_all add: frame oid)
  have ok': "system_ok d'" using verify_prog.prog_system[OF assms(1,2)] by blast
  show ?thesis
    by (rule exI[of _ w], rule exI[of _ r], rule exI[of _ ?r'], rule exI[of _ "cb_number head"])
      (use r(2) oid r' ok' result(1) found paid confirmed status in simp)
qed


section \<open>Witness\<close>

definition verify_db :: db where
  "verify_db = sample_db\<lparr>child_accounts := [sample_child]\<rparr>"

definition sample_verify_env :: verify_env where
  "sample_verify_env = \<lparr>ve_head_source = fake_view scan_chain, ve_log_source = fake_view scan_chain,
     ve_block_source = fake_view scan_chain, ve_new_ids = (\<lambda>_. 9), ve_recorded_at = 40, ve_now = 40\<rparr>"

definition sample_verify :: ManualVerifyConfig where
  "sample_verify = \<lparr>mvc_max_logs_per_order = 10, mvc_min_confirmations = 4\<rparr>"

lemma verify_db_system: "system_ok verify_db"
proof -
  have "schema_ok verify_db"
    by (simp add: schema_ok_def keys_ok_def payments_ok_def cursor_ok_def verify_db_def sample_child_def sample_defs)
  moreover have "ledger_ok verify_db"
    by (auto simp: ledger_ok_def order_settled_def confirmed_accepted_total_def non_orphaned_accepted_total_def
        confirmed_on_time_sum_def non_orphaned_on_time_sum_def accepted_problem_raw_def find_row_def
        recompute_status_from_totals_def verify_db_def sample_defs intro!: exI[of _ False])
  moreover have "windows_ok verify_db" by (simp add: windows_ok_def verify_db_def sample_child_def sample_defs)
  ultimately show ?thesis
    by (simp add: system_ok_def repo_ok_def sweep_ok_def one_active_per_nonce_def one_active_per_child_def treasury_only_def
        verify_db_def sample_db_def)
qed

lemma verify_db_view:
  "\<exists>view. get_order_view 1 verify_db = Ok (Some view) \<and> verify_stream view = sample_stream \<and>
     verify_range view 15 = range_with_recipient (range_new 137 0xA 10 15) 0xB0B \<and>
     or_expected_amount_raw (ov_order view) = 100 \<and>
     verify_matches sample_verify_env sample_verify view [sample_log] \<lparr>cb_number = 15, cb_hash = 15\<rparr> =
       [(sample_payment 100)\<lparr>mp_id := 9, mp_confirmations := 4, mp_chain_status := Confirmed\<rparr>]"
  using big_decimal_numeral[of 100] big_decimal_numeral[of 0]
  by (simp add: get_order_view_def fetch_order_view_def row_to_order_view_def row_to_order_record_def row_to_child_account_def
      order_eval segment_new_def validate_index_def MAX_DERIVATION_INDEX_def verify_db_def sample_child_def sample_defs
      sample_stream_def sample_verify_env_def sample_verify_def candidate_from_order_view_def sample_log_def
      match_transfer_logs_def selected_payable payable_window_def windows_of_log_def key_from_candidate_def window_covers_def
      matched_payment_input_from_transfer_log_def match_status_transfer_def chain_status_of_def confirmations_against_def Let_def)

abbreviation sample_verified :: MatchedPaymentInput where
  "sample_verified \<equiv> (sample_payment 100)\<lparr>mp_id := 9, mp_confirmations := 4, mp_chain_status := Confirmed\<rparr>"

lemma verify_db_record: "\<exists>recs d'. record_verified_payments 40 1 [sample_verified] verify_db = Ok (recs, d') \<and>
    map mp_amount_raw recs = [100] \<and> map mp_match_status recs = [OnTime] \<and> map mp_chain_status recs = [Confirmed]"
  by (simp add: record_verified_payments_def payment_records_for_order_tx_def payment_eval verify_db_def sample_defs)

lemma verify_chain_reads:
  "src_transfer_logs (fake_view scan_chain) (range_with_recipient (range_new 137 0xA 10 15) 0xB0B) = Ok [sample_log]"
  "check_canonical_blocks (fake_view scan_chain) [sample_verified] = Ok ()"
  by (simp_all add: fake_view_def fake_transfer_logs_def fake_block_by_number_def fake_call_def range_validate_def range_new_def
      range_with_recipient_def scan_chain_def fake_log_selected_def sort_logs_def sample_log_def sample_payment_def ok_or_def)

lemma verify_run: "\<exists>res d'. verify_order_internal sample_verify_env sample_verify 1 None verify_db = (Ok res, d') \<and>
    mvr_complete_to_block res = Some 15"
proof -
  obtain view where view: "get_order_view 1 verify_db = Ok (Some view)" "verify_stream view = sample_stream"
    "verify_range view 15 = range_with_recipient (range_new 137 0xA 10 15) 0xB0B" "or_expected_amount_raw (ov_order view) = 100"
    and matches: "verify_matches sample_verify_env sample_verify view [sample_log] \<lparr>cb_number = 15, cb_hash = 15\<rparr> = [sample_verified]"
    using verify_db_view by blast
  obtain recs d' where rec: "record_verified_payments 40 1 [sample_verified] verify_db = Ok (recs, d')"
    and fields: "map mp_amount_raw recs = [100]" "map mp_match_status recs = [OnTime]" "map mp_chain_status recs = [Confirmed]"
    using verify_db_record by (elim exE conjE)
  obtain p where recs: "recs = [p]" "mp_amount_raw p = 100" "mp_match_status p = OnTime" "mp_chain_status p = Confirmed"
    using fields by (cases recs) auto
  obtain res where res: "verify_result sample_verify_env 1 view 15 1 recs = Ok res" "mvr_complete_to_block res = Some 15"
    by (auto simp: verify_result_def recompute_order_status_def payment_facts_def recs foldE_def add_payment_def
        is_confirmed_on_time_def is_non_orphaned_on_time_def checked_add_def view(4))
  have from_block: "cb_number (pwr_window_from_block (ov_payment_window view)) = 10"
    using arg_cong[OF view(3), of rg_from_block] by (simp add: range_with_recipient_def range_new_def)
  have stream: "or_chain_id (ov_order view) = 137" "or_token_address (ov_order view) = 0xA" "or_receive_address (ov_order view) = 0xB0B"
    using arg_cong[OF view(3), of rg_chain_id] arg_cong[OF view(3), of rg_token_address] arg_cong[OF view(3), of rg_recipient]
    by (simp_all add: range_with_recipient_def range_new_def)
  have env: "ve_head_source sample_verify_env = fake_view scan_chain" "ve_log_source sample_verify_env = fake_view scan_chain"
    "ve_block_source sample_verify_env = fake_view scan_chain" "ve_recorded_at sample_verify_env = 40"
    "mvc_max_logs_per_order sample_verify = 10"
    by (simp_all add: sample_verify_env_def sample_verify_def)
  show ?thesis
    using view(1) rec res matches verify_chain_reads
    by (simp add: verify_order_internal_def verify_config_validate_def andThen_def query_def transact_def ok_or_def Let_def
        env scan_chain_head stream from_block)
qed

theorem manual_verify_reports_ledger_witness:
  "\<exists>res d'. verify_order_internal sample_verify_env sample_verify 1 None verify_db = (Ok res, d') \<and>
     (\<exists>p \<in> set (payments d'). p_order_id p = 1 \<and> p_amount_raw p = 100)"
proof -
  obtain res d' where run: "verify_order_internal sample_verify_env sample_verify 1 None verify_db = (Ok res, d')"
    "mvr_complete_to_block res = Some 15"
    using verify_run by blast
  have canon: "fake_canonical scan_chain = [sample_log]" by (simp add: fake_canonical_def scan_chain_def sample_log_def)
  have src: "log_source (src_transfer_logs (ve_log_source sample_verify_env)) [sample_log]"
    using scan_chain_source by (simp add: sample_verify_env_def canon)
  have "window_order_join verify_db = [(sample_window, sample_order)]"
    by (simp add: window_order_join_def verify_db_def sample_defs)
  moreover have "log_for_order sample_log sample_order" by (simp add: log_for_order_def sample_log_def sample_order_def)
  ultimately have "\<exists>p \<in> set (payments d'). p_order_id p = 1 \<and> p_amount_raw p = uint (tl_amount_raw sample_log)"
    using manual_verify_reports_ledger[OF run(1) verify_db_system src] run(2)
    by (auto simp: sample_window_def sample_log_def)
  with run show ?thesis by (auto simp: sample_log_def)
qed

end
