(* ===== verification/Permit.thy ===== *)
theory Permit
  imports Hex_Types
begin

text \<open>
  \<open>src/src/domain/permit.rs\<close>: the collection methods and their resolution from presets, symbols
  and probes of the token contract, EIP-712 digests, and the calldata of the gasless transfers.
  Keccak-256 and the contract call client are arguments; a \<open>[u8; 32]\<close> is a 256-bit word.
\<close>

section \<open>Collection methods\<close>

datatype CollectionMethod = Auto | Standard | Eip3009 | PolygonMetaTx | Eip2612

definition is_gasless :: "CollectionMethod \<Rightarrow> bool" where
  "is_gasless m \<longleftrightarrow> m = Eip3009 \<or> m = PolygonMetaTx \<or> m = Eip2612"

fun method_as_str :: "CollectionMethod \<Rightarrow> string" where
  "method_as_str Auto = ''auto''"
| "method_as_str Standard = ''standard''"
| "method_as_str Eip3009 = ''eip3009''"
| "method_as_str PolygonMetaTx = ''polygon_meta_tx''"
| "method_as_str Eip2612 = ''eip2612''"

definition method_parse :: "string \<Rightarrow> string + CollectionMethod" where
  "method_parse value =
     (let s = map (\<lambda>c. if c = CHR ''-'' then CHR ''_'' else c) (map to_ascii_lower (trim value)) in
      if s \<in> {''auto'', ''default'', ''optimal''} then Ok Auto
      else if s \<in> {''standard'', ''direct'', ''erc20''} then Ok Standard
      else if s \<in> {''eip3009'', ''eip_3009'', ''usdc''} then Ok Eip3009
      else if s \<in> {''polygon_meta_tx'', ''polygon'', ''meta_tx'', ''pos_meta_tx''} then Ok PolygonMetaTx
      else if s \<in> {''eip2612'', ''eip_2612'', ''permit''} then Ok Eip2612
      else Err (''expected one of auto, standard, eip3009, polygon_meta_tx, eip2612; got '' @ [CHR 0x27] @ value @ [CHR 0x27]))"

record PresetTokenInfo =
  pti_method :: CollectionMethod
  pti_token_name :: string
  pti_token_version :: string
  pti_reason :: string

definition preset_info :: "CollectionMethod \<Rightarrow> string \<Rightarrow> string \<Rightarrow> string \<Rightarrow> PresetTokenInfo" where
  "preset_info m name version reason =
     \<lparr>pti_method = m, pti_token_name = name, pti_token_version = version, pti_reason = reason\<rparr>"

text \<open>The arms of the match, by chain id and lower-case address.\<close>

definition preset_table :: "((u64 \<times> string) \<times> PresetTokenInfo) list" where
  "preset_table =
     [((1, ''0xa0b86991c6218b36c1d19d4a2e9eb0ce3606eb48''), preset_info Eip3009 ''USD Coin'' ''2''
         ''Ethereum Mainnet Native USDC supports EIP-3009 transferWithAuthorization''),
      ((1, ''0xdac17f958d2ee523a2206206994597c13d831ec7''), preset_info Standard ''Tether USD'' ''1''
         ''Ethereum Mainnet legacy USDT lacks permit/meta-tx support, falling back to standard transfer''),
      ((1, ''0x6b175474e89094c44da98b954eedeac495271d0f''), preset_info Standard ''Dai Stablecoin'' ''1''
         ''Ethereum Mainnet DAI EIP-2612 permit lacks forwarder transfer capability, safely falling back to standard transfer''),
      ((137, ''0xc2132d05d31c914a87c6611c10748aeb04b58e8f''), preset_info PolygonMetaTx ''(PoS) Tether USD'' ''1''
         ''Polygon PoS Native USDT supports executeMetaTransaction''),
      ((137, ''0x3c499c542cef5e3811e1192ce70d8cc03d5c3359''), preset_info Eip3009 ''USD Coin'' ''2''
         ''Polygon PoS Native USDC supports EIP-3009 transferWithAuthorization''),
      ((137, ''0x2791bca1f2de4661ed88a30c99a7a9449aa84174''), preset_info Eip3009 ''USD Coin (PoS)'' ''1''
         ''Polygon PoS Bridged USDC.e supports EIP-3009 transferWithAuthorization''),
      ((137, ''0x8f3cf7ad23cd3cadbd9735aff958023239c6a063''), preset_info Standard ''(PoS) Dai Stablecoin'' ''1''
         ''Polygon PoS DAI EIP-2612 permit lacks forwarder transfer capability, safely falling back to standard transfer''),
      ((42161, ''0xaf88d065e77c8cc2239327c5edb3a432268e5831''), preset_info Eip3009 ''USD Coin'' ''2''
         ''Arbitrum One Native USDC supports EIP-3009 transferWithAuthorization''),
      ((42161, ''0xfd086bc7cd5c481dcc9c85ebe478a1c0b69fcbb9''), preset_info Standard ''Tether USD'' ''1''
         ''Arbitrum One USDT EIP-2612 permit lacks forwarder transfer capability, safely falling back to standard transfer''),
      ((42161, ''0xff970a61a04b1ca14834a43f5de4533ebddb5cc8''), preset_info Standard ''Bridged USDC'' ''1''
         ''Arbitrum One legacy USDC.e lacks permit support, falling back to standard transfer''),
      ((10, ''0x0b2c639c533813f4aa9d7837caf62653d097ff85''), preset_info Eip3009 ''USD Coin'' ''2''
         ''Optimism Native USDC supports EIP-3009 transferWithAuthorization''),
      ((10, ''0x94b008aa00579c1307b0ef2c499ad98a8ce58e58''), preset_info Standard ''Tether USD'' ''1''
         ''Optimism USDT EIP-2612 permit lacks forwarder transfer capability, safely falling back to standard transfer''),
      ((8453, ''0x833589fcd6edb6e08f4c7c32d4f71b54bda02913''), preset_info Eip3009 ''USD Coin'' ''2''
         ''Base Native USDC supports EIP-3009 transferWithAuthorization''),
      ((43114, ''0xb97ef9ef8734c71904d8002f8b6bc66dd9c48a6e''), preset_info Eip3009 ''USD Coin'' ''2''
         ''Avalanche Native USDC supports EIP-3009 transferWithAuthorization''),
      ((43114, ''0x9702230a8ea53601f5cd2dc00fdbc13d4df4a8c7''), preset_info Standard ''Tether USDt'' ''1''
         ''Avalanche USDT EIP-2612 permit lacks forwarder transfer capability, safely falling back to standard transfer''),
      ((56, ''0x55d398326f99059ff775485246999027b3197955''), preset_info Standard ''Tether USD'' ''1''
         ''BNB Smart Chain BEP-20 USDT lacks native permit, falling back to standard transfer''),
      ((56, ''0x8ac76a51cc950d9822d68b83fe1ad97b32cd580d''), preset_info Standard ''Binance-Peg USD Coin'' ''1''
         ''BNB Smart Chain BEP-20 USDC lacks native permit, falling back to standard transfer'')]"

definition lookup_preset :: "u64 \<Rightarrow> EvmAddress \<Rightarrow> PresetTokenInfo option" where
  "lookup_preset chain_id token_address = map_of preset_table (chain_id, address_to_lower_hex token_address)"

definition eq_ignore_ascii_case :: "string \<Rightarrow> string \<Rightarrow> bool" where
  "eq_ignore_ascii_case s t \<longleftrightarrow> map to_ascii_lower s = map to_ascii_lower t"

definition lookup_heuristic :: "u64 \<Rightarrow> string \<Rightarrow> PresetTokenInfo" where
  "lookup_heuristic chain_id token_symbol =
     (let sym = trim token_symbol in
      if eq_ignore_ascii_case sym ''USDC'' \<or> eq_ignore_ascii_case sym ''USDC.e''
      then (if chain_id = 56 then preset_info Standard ''Binance-Peg USD Coin'' ''1''
        ''BNB Smart Chain USDC lacks native permit, falling back to standard transfer''
        else preset_info Eip3009 ''USD Coin'' ''2''
        ''Symbol matches Circle Native USDC standard, auto-selecting EIP-3009'')
      else if eq_ignore_ascii_case sym ''USDT''
      then (if chain_id = 137 then preset_info PolygonMetaTx ''(PoS) Tether USD'' ''1''
        ''Polygon PoS USDT matches NativeMetaTransaction, auto-selecting PolygonMetaTx''
        else if chain_id = 42161 \<or> chain_id = 10 \<or> chain_id = 43114 then preset_info Standard ''Tether USD'' ''1''
        ''L2/Alt-L1 USDT permit lacks forwarder transfer capability, safely falling back to standard transfer''
        else preset_info Standard ''Tether USD'' ''1''
        ''Token lacks confirmed permit standard on this chain, falling back to standard transfer'')
      else preset_info Standard ''ERC20'' ''1''
        ''Unrecognized token without permit configuration, safely falling back to standard transfer'')"

definition lookup_preset_or_heuristic :: "u64 \<Rightarrow> EvmAddress \<Rightarrow> string \<Rightarrow> PresetTokenInfo" where
  "lookup_preset_or_heuristic chain_id token_address token_symbol =
     (case lookup_preset chain_id token_address of
        Some info \<Rightarrow> info | None \<Rightarrow> lookup_heuristic chain_id token_symbol)"


section \<open>Probing the token contract\<close>

type_synonym contract_call = "EvmAddress \<Rightarrow> bytes \<Rightarrow> string + bytes"

definition ERC20_NAME_SELECTOR :: bytes where "ERC20_NAME_SELECTOR = [0x06, 0xfd, 0xde, 0x03]"
definition ERC20_VERSION_SELECTOR :: bytes where "ERC20_VERSION_SELECTOR = [0x54, 0xfd, 0x4d, 0x50]"
definition EIP3009_AUTHORIZATION_STATE_SELECTOR :: bytes where
  "EIP3009_AUTHORIZATION_STATE_SELECTOR = [0xe9, 0x4a, 0x01, 0x02]"
definition POLYGON_GET_NONCE_SELECTOR :: bytes where "POLYGON_GET_NONCE_SELECTOR = [0x2d, 0x03, 0x35, 0xab]"
definition EIP2612_DOMAIN_SEPARATOR_SELECTOR :: bytes where
  "EIP2612_DOMAIN_SEPARATOR_SELECTOR = [0x36, 0x44, 0xe5, 0x15]"
definition EIP2612_NONCES_SELECTOR :: bytes where "EIP2612_NONCES_SELECTOR = [0x7e, 0xce, 0xbe, 0x00]"

definition eip3009_probe_calldata :: bytes where
  "eip3009_probe_calldata = EIP3009_AUTHORIZATION_STATE_SELECTOR @ replicate 64 0"
definition polygon_meta_tx_probe_calldata :: bytes where
  "polygon_meta_tx_probe_calldata = POLYGON_GET_NONCE_SELECTOR @ replicate 32 0"
definition domain_separator_probe_calldata :: bytes where
  "domain_separator_probe_calldata = EIP2612_DOMAIN_SEPARATOR_SELECTOR"
definition nonces_probe_calldata :: bytes where
  "nonces_probe_calldata = EIP2612_NONCES_SELECTOR @ replicate 32 0"

text \<open>\<open>str::from_utf8\<close>: the well-formed byte sequences of the Unicode standard.\<close>

definition utf8_range :: "nat \<Rightarrow> nat \<Rightarrow> u8 \<Rightarrow> bool" where
  "utf8_range lo hi b \<longleftrightarrow> lo \<le> unat b \<and> unat b \<le> hi"

abbreviation utf8_cont :: "u8 \<Rightarrow> bool" where "utf8_cont \<equiv> utf8_range 0x80 0xBF"

fun utf8_valid :: "bytes \<Rightarrow> bool" where
  "utf8_valid [] = True"
| "utf8_valid (a # bs) =
     (if unat a < 0x80 then utf8_valid bs
      else case bs of
        [] \<Rightarrow> False
      | b # cs \<Rightarrow>
          if utf8_range 0xC2 0xDF a then utf8_cont b \<and> utf8_valid cs
          else (case cs of
            [] \<Rightarrow> False
          | c # ds \<Rightarrow>
              if utf8_range 0xE0 0xEF a
              then utf8_range (if unat a = 0xE0 then 0xA0 else 0x80) (if unat a = 0xED then 0x9F else 0xBF) b \<and> utf8_cont c
                \<and> utf8_valid ds
              else (case ds of
                [] \<Rightarrow> False
              | e # es \<Rightarrow>
                  utf8_range 0xF0 0xF4 a
                  \<and> utf8_range (if unat a = 0xF0 then 0x90 else 0x80) (if unat a = 0xF4 then 0x8F else 0xBF) b
                  \<and> utf8_cont c \<and> utf8_cont e \<and> utf8_valid es)))"

definition from_utf8 :: "bytes \<Rightarrow> string option" where
  "from_utf8 bs = (if utf8_valid bs then Some (map (\<lambda>b. char_of (unat b)) bs) else None)"

definition trimmed_utf8 :: "bytes \<Rightarrow> string option" where
  "trimmed_utf8 bs =
     (case from_utf8 bs of None \<Rightarrow> None | Some s \<Rightarrow> if trim s = [] then None else Some (trim s))"

text \<open>A dynamic string first (when it decodes), else a zero-terminated \<open>bytes32\<close>; \<open>usize\<close> has 64 bits.\<close>

definition decode_abi_string :: "bytes \<Rightarrow> string option" where
  "decode_abi_string data =
     (let len = be_nat (take 32 (drop 32 data));
          dynamic = (if 64 \<le> length data \<and> len < 2 ^ 64 \<and> 64 + len < 2 ^ 64 \<and> 64 + len \<le> length data
            then trimmed_utf8 (take len (drop 64 data)) else None)
      in case dynamic of
           Some s \<Rightarrow> Some s
         | None \<Rightarrow>
             if length data = 32
             then (let bs = takeWhile (\<lambda>b. b \<noteq> 0) data in if bs = [] then None else trimmed_utf8 bs)
             else None)"

record OnChainTokenCapabilities =
  otc_method :: CollectionMethod
  otc_token_name :: "string option"
  otc_token_version :: "string option"
  otc_reason :: string

definition or_default :: "'a option \<Rightarrow> 'a \<Rightarrow> 'a" where
  "or_default x v = (case x of None \<Rightarrow> v | Some y \<Rightarrow> y)"

definition answers_word :: "string + bytes \<Rightarrow> bool" where
  "answers_word r = (case r of Inl _ \<Rightarrow> False | Inr res \<Rightarrow> length res = 32)"

definition probe_on_chain_token_capabilities :: "contract_call \<Rightarrow> EvmAddress \<Rightarrow> OnChainTokenCapabilities" where
  "probe_on_chain_token_capabilities call token =
     (let text_of = (\<lambda>selector. case call token selector of Inl _ \<Rightarrow> None | Inr data \<Rightarrow> decode_abi_string data);
          name = text_of ERC20_NAME_SELECTOR; version = text_of ERC20_VERSION_SELECTOR;
          domain = call token domain_separator_probe_calldata
      in
      if answers_word (call token eip3009_probe_calldata)
      then \<lparr>otc_method = Eip3009, otc_token_name = name, otc_token_version = Some (or_default version ''2''),
            otc_reason = ''On-chain contract probe confirmed EIP-3009 authorizationState support''\<rparr>
      else if answers_word (call token polygon_meta_tx_probe_calldata)
      then \<lparr>otc_method = PolygonMetaTx, otc_token_name = name, otc_token_version = Some (or_default version ''1''),
            otc_reason = ''On-chain contract probe confirmed Polygon NativeMetaTransaction (getNonce) support''\<rparr>
      else if answers_word domain \<and> (\<exists>b \<in> set (case domain of Inl _ \<Rightarrow> [] | Inr res \<Rightarrow> res). b \<noteq> 0)
        \<and> answers_word (call token nonces_probe_calldata)
      then \<lparr>otc_method = Eip2612, otc_token_name = name, otc_token_version = Some (or_default version ''1''),
            otc_reason = ''On-chain contract probe confirmed EIP-2612 permit (DOMAIN_SEPARATOR & nonces) support''\<rparr>
      else \<lparr>otc_method = Standard, otc_token_name = name, otc_token_version = version,
            otc_reason = ''On-chain contract probe did not detect EIP-3009, MetaTx, or EIP-2612 interfaces, safely using standard transfer''\<rparr>)"


section \<open>Resolution\<close>

record OptimalStrategyResolution =
  osr_method :: CollectionMethod
  osr_token_name :: string
  osr_token_version :: string
  osr_reason :: string

definition explicit_reason :: "CollectionMethod \<Rightarrow> string" where
  "explicit_reason m =
     (case m of
        Auto \<Rightarrow> []
      | Standard \<Rightarrow> ''Explicitly configured to standard transfer''
      | Eip3009 \<Rightarrow> ''Explicitly configured to EIP-3009 transferWithAuthorization''
      | PolygonMetaTx \<Rightarrow> ''Explicitly configured to Polygon executeMetaTransaction''
      | Eip2612 \<Rightarrow> ''Explicitly configured to EIP-2612 permit'')"

definition resolve_optimal_collection_strategy ::
  "u64 \<Rightarrow> EvmAddress \<Rightarrow> string \<Rightarrow> bool \<Rightarrow> CollectionMethod \<Rightarrow> string option \<Rightarrow> string option \<Rightarrow> OptimalStrategyResolution"
  where
  "resolve_optimal_collection_strategy chain_id token_address token_symbol has_relayer configured custom_name custom_version =
     (let preset = lookup_preset_or_heuristic chain_id token_address token_symbol;
          (method, reason) =
            (if configured = Auto
             then if \<not> has_relayer
               then (Standard, ''No relayer configured for gasless collection, using standard transfer'')
               else (pti_method preset, pti_reason preset)
             else (configured, explicit_reason configured))
      in \<lparr>osr_method = method, osr_token_name = or_default custom_name (pti_token_name preset),
          osr_token_version = or_default custom_version (pti_token_version preset), osr_reason = reason\<rparr>)"

definition or_else :: "'a option \<Rightarrow> 'a option \<Rightarrow> 'a option" where
  "or_else x y = (case x of None \<Rightarrow> y | Some v \<Rightarrow> Some v)"

definition resolve_optimal_collection_strategy_with_probe ::
  "u64 \<Rightarrow> EvmAddress \<Rightarrow> string \<Rightarrow> bool \<Rightarrow> CollectionMethod \<Rightarrow> string option \<Rightarrow> string option \<Rightarrow> contract_call option
   \<Rightarrow> OptimalStrategyResolution" where
  "resolve_optimal_collection_strategy_with_probe chain_id token_address token_symbol has_relayer configured
     custom_name custom_version client =
     (let fallback = resolve_optimal_collection_strategy chain_id token_address token_symbol has_relayer configured
        custom_name custom_version in
      if configured \<noteq> Auto then fallback
      else if \<not> has_relayer
      then \<lparr>osr_method = Standard, osr_token_name = or_default custom_name token_symbol,
            osr_token_version = or_default custom_version ''1'',
            osr_reason = ''No relayer configured for gasless collection, using standard transfer''\<rparr>
      else case lookup_preset chain_id token_address of
        Some preset \<Rightarrow>
          \<lparr>osr_method = pti_method preset, osr_token_name = or_default custom_name (pti_token_name preset),
           osr_token_version = or_default custom_version (pti_token_version preset), osr_reason = pti_reason preset\<rparr>
      | None \<Rightarrow>
          (case client of
             None \<Rightarrow> fallback
           | Some call \<Rightarrow>
               let probed = probe_on_chain_token_capabilities call token_address;
                   name = or_default (or_else custom_name (otc_token_name probed)) token_symbol;
                   version = or_default (or_else custom_version (otc_token_version probed)) ''1'' in
               if otc_method probed \<noteq> Standard
               then if otc_method probed = Eip2612
                 then \<lparr>osr_method = Standard, osr_token_name = name, osr_token_version = version,
                       osr_reason = ''On-chain contract supports EIP-2612 permit, but gasless sweep requires an on-chain forwarder for atomic transferFrom. Safely falling back to standard transfer''\<rparr>
                 else \<lparr>osr_method = otc_method probed, osr_token_name = name, osr_token_version = version,
                       osr_reason = otc_reason probed\<rparr>
               else fallback))"


section \<open>Typed-data digests\<close>

record TypedSignature =
  sig_v :: u8
  sig_r :: u256
  sig_s :: u256

type_synonym keccak = "bytes \<Rightarrow> u256"

definition str_bytes :: "string \<Rightarrow> bytes" where
  "str_bytes s = map char_byte s"

text \<open>An address in the low twenty bytes of a word, and a \<open>u64\<close> as a big-endian word.\<close>

definition address_slot :: "EvmAddress \<Rightarrow> bytes" where
  "address_slot a = replicate 12 0 @ word_bytes a"

definition u64_slot :: "u64 \<Rightarrow> bytes" where
  "u64_slot n = word_bytes (ucast n :: u256)"

definition eip712_domain_separator :: "keccak \<Rightarrow> string \<Rightarrow> string \<Rightarrow> u64 \<Rightarrow> EvmAddress \<Rightarrow> u256" where
  "eip712_domain_separator keccak256 name version chain_id verifying_contract =
     keccak256 (word_bytes (keccak256 (str_bytes
         ''EIP712Domain(string name,string version,uint256 chainId,address verifyingContract)''))
       @ word_bytes (keccak256 (str_bytes name)) @ word_bytes (keccak256 (str_bytes version))
       @ u64_slot chain_id @ address_slot verifying_contract)"

definition polygon_meta_tx_domain_separator :: "keccak \<Rightarrow> string \<Rightarrow> string \<Rightarrow> u64 \<Rightarrow> EvmAddress \<Rightarrow> u256" where
  "polygon_meta_tx_domain_separator keccak256 name version chain_id verifying_contract =
     keccak256 (word_bytes (keccak256 (str_bytes
         ''EIP712Domain(string name,string version,address verifyingContract,bytes32 salt)''))
       @ word_bytes (keccak256 (str_bytes name)) @ word_bytes (keccak256 (str_bytes version))
       @ address_slot verifying_contract @ u64_slot chain_id)"

definition eip712_digest :: "keccak \<Rightarrow> u256 \<Rightarrow> u256 \<Rightarrow> u256" where
  "eip712_digest keccak256 domain_separator struct_hash =
     keccak256 ([0x19, 0x01] @ word_bytes domain_separator @ word_bytes struct_hash)"

definition eip3009_struct_hash ::
  "keccak \<Rightarrow> EvmAddress \<Rightarrow> EvmAddress \<Rightarrow> u256 \<Rightarrow> u64 \<Rightarrow> u64 \<Rightarrow> u256 \<Rightarrow> u256" where
  "eip3009_struct_hash keccak256 from_address to_address value valid_after valid_before nonce =
     keccak256 (word_bytes (keccak256 (str_bytes
         ''TransferWithAuthorization(address from,address to,uint256 value,uint256 validAfter,uint256 validBefore,bytes32 nonce)''))
       @ address_slot from_address @ address_slot to_address @ word_bytes value @ u64_slot valid_after
       @ u64_slot valid_before @ word_bytes nonce)"

definition polygon_meta_tx_struct_hash :: "keccak \<Rightarrow> u64 \<Rightarrow> EvmAddress \<Rightarrow> bytes \<Rightarrow> u256" where
  "polygon_meta_tx_struct_hash keccak256 nonce from_address function_signature =
     keccak256 (word_bytes (keccak256 (str_bytes
         ''MetaTransaction(uint256 nonce,address from,bytes functionSignature)''))
       @ u64_slot nonce @ address_slot from_address @ word_bytes (keccak256 function_signature))"

definition eip2612_struct_hash ::
  "keccak \<Rightarrow> EvmAddress \<Rightarrow> EvmAddress \<Rightarrow> u256 \<Rightarrow> u64 \<Rightarrow> u64 \<Rightarrow> u256" where
  "eip2612_struct_hash keccak256 owner spender value nonce deadline =
     keccak256 (word_bytes (keccak256 (str_bytes
         ''Permit(address owner,address spender,uint256 value,uint256 nonce,uint256 deadline)''))
       @ address_slot owner @ address_slot spender @ word_bytes value @ u64_slot nonce @ u64_slot deadline)"


section \<open>Calldata\<close>

definition EIP3009_TRANSFER_WITH_AUTHORIZATION_SELECTOR :: bytes where
  "EIP3009_TRANSFER_WITH_AUTHORIZATION_SELECTOR = [0xe3, 0xee, 0x16, 0x0e]"
definition POLYGON_EXECUTE_META_TRANSACTION_SELECTOR :: bytes where
  "POLYGON_EXECUTE_META_TRANSACTION_SELECTOR = [0x0c, 0x53, 0xc5, 0x1c]"
definition EIP2612_PERMIT_SELECTOR :: bytes where "EIP2612_PERMIT_SELECTOR = [0xd5, 0x05, 0xac, 0xcf]"

definition v_slot :: "u8 \<Rightarrow> bytes" where
  "v_slot v = replicate 31 0 @ [v]"

definition encode_eip3009_transfer_with_authorization ::
  "EvmAddress \<Rightarrow> EvmAddress \<Rightarrow> u256 \<Rightarrow> u64 \<Rightarrow> u64 \<Rightarrow> u256 \<Rightarrow> TypedSignature \<Rightarrow> bytes" where
  "encode_eip3009_transfer_with_authorization from_address to_address value valid_after valid_before nonce sig =
     EIP3009_TRANSFER_WITH_AUTHORIZATION_SELECTOR @ address_slot from_address @ address_slot to_address
     @ word_bytes value @ u64_slot valid_after @ u64_slot valid_before @ word_bytes nonce
     @ v_slot (sig_v sig) @ word_bytes (sig_r sig) @ word_bytes (sig_s sig)"

definition encode_polygon_execute_meta_transaction :: "EvmAddress \<Rightarrow> bytes \<Rightarrow> TypedSignature \<Rightarrow> bytes" where
  "encode_polygon_execute_meta_transaction user_address function_signature sig =
     POLYGON_EXECUTE_META_TRANSACTION_SELECTOR @ address_slot user_address @ word_bytes (160 :: u256)
     @ word_bytes (sig_r sig) @ word_bytes (sig_s sig) @ v_slot (sig_v sig)
     @ word_bytes (of_nat (length function_signature) :: u256) @ function_signature
     @ (let remainder = length function_signature mod 32 in
        if remainder \<noteq> 0 then replicate (32 - remainder) 0 else [])"

definition encode_eip2612_permit :: "EvmAddress \<Rightarrow> EvmAddress \<Rightarrow> u256 \<Rightarrow> u64 \<Rightarrow> TypedSignature \<Rightarrow> bytes" where
  "encode_eip2612_permit owner spender value deadline sig =
     EIP2612_PERMIT_SELECTOR @ address_slot owner @ address_slot spender @ word_bytes value @ u64_slot deadline
     @ v_slot (sig_v sig) @ word_bytes (sig_r sig) @ word_bytes (sig_s sig)"

end
