(* ===== verification/Collection_Service.thy ===== *)
theory Collection_Service
  imports Worker_Steps Permit Log_Store "HOL-Library.List_Lexorder" "HOL-Library.Char_ord"
begin

text \<open>
  Sweeps of the order addresses: the plan and the replacement rule of \<open>src/src/domain/collection.rs\<close>
  and the service of \<open>src/src/services/collections.rs\<close> that creates a collection, signs its
  transaction and replaces a stuck one.  The chain client, the signer, the gas checker, the clock,
  the id generator, Keccak-256 and the JSON serialiser are arguments.
\<close>

section \<open>Plans and replacements\<close>

datatype CollectionPurpose = TreasurySweep

record CollectionFees =
  cf_gas_limit :: u64
  cf_max_fee_per_gas :: RawAmount
  cf_max_priority_fee_per_gas :: RawAmount

definition fees_new :: "u64 \<Rightarrow> RawAmount \<Rightarrow> RawAmount \<Rightarrow> CollectionFees" where
  "fees_new gas_limit max_fee priority_fee =
     \<lparr>cf_gas_limit = gas_limit, cf_max_fee_per_gas = max_fee, cf_max_priority_fee_per_gas = priority_fee\<rparr>"

record CollectionTxPlan =
  ctp_chain_id :: u64
  ctp_nonce :: u64
  ctp_from :: EvmAddress
  ctp_to :: EvmAddress
  ctp_amount :: RawAmount
  ctp_purpose :: CollectionPurpose
  ctp_fees :: CollectionFees

datatype CollectionReplacementError =
    ChainIdChanged u64 u64
  | NonceChanged u64 u64
  | FromChanged EvmAddress EvmAddress
  | ToChanged EvmAddress EvmAddress
  | AmountChanged RawAmount RawAmount
  | PurposeChanged CollectionPurpose CollectionPurpose
  | MaxFeeNotBumped RawAmount RawAmount
  | PriorityFeeNotBumped RawAmount RawAmount

definition assert_replacement_allowed ::
  "CollectionTxPlan \<Rightarrow> CollectionTxPlan \<Rightarrow> CollectionReplacementError + unit" where
  "assert_replacement_allowed p r =
     (if ctp_chain_id p \<noteq> ctp_chain_id r then Err (ChainIdChanged (ctp_chain_id p) (ctp_chain_id r))
      else if ctp_nonce p \<noteq> ctp_nonce r then Err (NonceChanged (ctp_nonce p) (ctp_nonce r))
      else if ctp_from p \<noteq> ctp_from r then Err (FromChanged (ctp_from p) (ctp_from r))
      else if ctp_to p \<noteq> ctp_to r then Err (ToChanged (ctp_to p) (ctp_to r))
      else if ctp_amount p \<noteq> ctp_amount r then Err (AmountChanged (ctp_amount p) (ctp_amount r))
      else if ctp_purpose p \<noteq> ctp_purpose r then Err (PurposeChanged (ctp_purpose p) (ctp_purpose r))
      else if cf_max_fee_per_gas (ctp_fees r) \<le> cf_max_fee_per_gas (ctp_fees p)
      then Err (MaxFeeNotBumped (cf_max_fee_per_gas (ctp_fees p)) (cf_max_fee_per_gas (ctp_fees r)))
      else if cf_max_priority_fee_per_gas (ctp_fees r) \<le> cf_max_priority_fee_per_gas (ctp_fees p)
      then Err (PriorityFeeNotBumped (cf_max_priority_fee_per_gas (ctp_fees p)) (cf_max_priority_fee_per_gas (ctp_fees r)))
      else Ok ())"

definition show_raw :: "RawAmount \<Rightarrow> string" where
  "show_raw a = show_nat (unat a)"

definition changed_text :: "string \<Rightarrow> string \<Rightarrow> string \<Rightarrow> string" where
  "changed_text what existing replacement = ''collection replacement '' @ what @ '' ('' @ existing @ '' -> '' @ replacement @ '')''"

definition replacement_error_text :: "CollectionReplacementError \<Rightarrow> string" where
  "replacement_error_text e = (case e of
      ChainIdChanged a b \<Rightarrow> changed_text ''cannot change chain id'' (show_nat (unat a)) (show_nat (unat b))
    | NonceChanged a b \<Rightarrow> changed_text ''must use the same nonce'' (show_nat (unat a)) (show_nat (unat b))
    | FromChanged a b \<Rightarrow> changed_text ''cannot change from address'' (address_to_lower_hex a) (address_to_lower_hex b)
    | ToChanged a b \<Rightarrow> changed_text ''cannot change to address'' (address_to_lower_hex a) (address_to_lower_hex b)
    | AmountChanged a b \<Rightarrow> changed_text ''cannot change amount'' (show_raw a) (show_raw b)
    | PurposeChanged a b \<Rightarrow> changed_text ''cannot change purpose'' ''TreasurySweep'' ''TreasurySweep''
    | MaxFeeNotBumped a b \<Rightarrow> changed_text ''max fee per gas must exceed previous fee'' (show_raw a) (show_raw b)
    | PriorityFeeNotBumped a b \<Rightarrow> changed_text ''max priority fee per gas must exceed previous fee'' (show_raw a) (show_raw b))"


section \<open>Configuration, requests and errors\<close>

record RelayerConfig =
  rel_key_ref :: string
  rel_derivation_path :: string
  rel_address :: EvmAddress

datatype CollectionStrategyConfig =
    StrategyStandard
  | StrategyEip3009 string string RelayerConfig
  | StrategyPolygonMetaTx string string RelayerConfig
  | StrategyEip2612 string string RelayerConfig

record CollectionServiceConfig =
  csc_chain_id :: u64
  csc_token_address :: EvmAddress
  csc_treasury_address :: EvmAddress
  csc_problem_funds_address :: EvmAddress
  csc_fees :: CollectionFees
  csc_strategy :: CollectionStrategyConfig

datatype CollectionAmount = MaxAmount | ExactAmount RawAmount

record AuditContext =
  ac_request_id :: "string option"
  ac_principal_sub :: "string option"
  ac_scopes :: "string list"

record CreateCollectionInput =
  cci_order_id :: uuid
  cci_amount :: CollectionAmount
  cci_idempotency_key :: string
  cci_audit :: AuditContext

datatype CreateCollectionOutcome = CollectionCreated | CollectionExisting

datatype CollectionRoute = RouteTreasury | RouteProblemFunds

record CreateCollectionResult =
  ccr_outcome :: CreateCollectionOutcome
  ccr_collection :: CollectionRecord

datatype PrepareCollectionJobOutcome = NoJob | Prepared CollectionRecord OutboundTxRecord SignedTx

record PrefundedGasCheck =
  pgc_chain_id :: u64
  pgc_from_address :: EvmAddress
  pgc_gas_limit :: u64
  pgc_max_fee_per_gas :: RawAmount
  pgc_max_priority_fee_per_gas :: RawAmount

datatype GasFundingError =
    GasUnavailable u64 EvmAddress string
  | GasInsufficient u64 EvmAddress

datatype CollectionServiceError =
    CollectionInvalidArgument string string
  | CollectionOrderNotFound uuid
  | OrderNotCollectable uuid OrderStatus
  | OrderStreamMismatch uuid
  | CollectionNotFound uuid
  | ZeroCollectionAmount uuid
  | InsufficientTokenBalance uuid RawAmount RawAmount
  | NonceOutOfRange RawAmount
  | CollectionIntegerOutOfRange string
  | SignedTxInvariant string
  | ReplacementNotEligible uuid CollectionRecordStatus
  | ReplacementAmountUnavailable uuid
  | CollectionRepositoryError RepositoryError
  | CollectionChain ChainError
  | CollectionSigner SignerError
  | CollectionGasFunding GasFundingError
  | CollectionSerialization string

definition must_not_be_empty :: "string \<Rightarrow> string \<Rightarrow> CollectionServiceError + unit" where
  "must_not_be_empty field value =
     (if trim value = [] then Err (CollectionInvalidArgument field ''must not be empty'') else Ok ())"

definition relayer_validate :: "RelayerConfig \<Rightarrow> CollectionServiceError + unit" where
  "relayer_validate r =
     bindE (must_not_be_empty ''relayer.key_ref'' (rel_key_ref r)) (\<lambda>_.
     bindE (must_not_be_empty ''relayer.derivation_path'' (rel_derivation_path r)) (\<lambda>_.
     if rel_address r = 0 then Err (CollectionInvalidArgument ''relayer.address'' ''must not be zero'') else Ok ()))"

fun strategy_relayer :: "CollectionStrategyConfig \<Rightarrow> RelayerConfig option" where
  "strategy_relayer StrategyStandard = None"
| "strategy_relayer (StrategyEip3009 _ _ relayer) = Some relayer"
| "strategy_relayer (StrategyPolygonMetaTx _ _ relayer) = Some relayer"
| "strategy_relayer (StrategyEip2612 _ _ relayer) = Some relayer"

definition gasless_validate :: "string \<Rightarrow> string \<Rightarrow> RelayerConfig \<Rightarrow> CollectionServiceError + unit" where
  "gasless_validate token_name token_version relayer =
     bindE (must_not_be_empty ''strategy.token_name'' token_name) (\<lambda>_.
     bindE (must_not_be_empty ''strategy.token_version'' token_version) (\<lambda>_.
     relayer_validate relayer))"

fun strategy_validate :: "CollectionStrategyConfig \<Rightarrow> CollectionServiceError + unit" where
  "strategy_validate StrategyStandard = Ok ()"
| "strategy_validate (StrategyEip3009 n v r) = gasless_validate n v r"
| "strategy_validate (StrategyPolygonMetaTx n v r) = gasless_validate n v r"
| "strategy_validate (StrategyEip2612 n v r) = gasless_validate n v r"

definition collection_config_validate :: "CollectionServiceConfig \<Rightarrow> CollectionServiceError + unit" where
  "collection_config_validate c =
     (if csc_chain_id c = 0 then Err (CollectionInvalidArgument ''chain_id'' ''must be greater than zero'')
      else if csc_token_address c = 0 then Err (CollectionInvalidArgument ''token_address'' ''must not be zero'')
      else if csc_treasury_address c = 0 then Err (CollectionInvalidArgument ''treasury_address'' ''must not be zero'')
      else if csc_problem_funds_address c = 0
      then Err (CollectionInvalidArgument ''problem_funds_address'' ''must not be zero'')
      else if csc_problem_funds_address c = csc_treasury_address c
      then Err (CollectionInvalidArgument ''problem_funds_address'' ''must differ from treasury_address'')
      else if cf_gas_limit (csc_fees c) = 0 then Err (CollectionInvalidArgument ''gas_limit'' ''must be greater than zero'')
      else strategy_validate (csc_strategy c))"

fun amount_validate :: "CollectionAmount \<Rightarrow> CollectionServiceError + unit" where
  "amount_validate MaxAmount = Ok ()"
| "amount_validate (ExactAmount a) =
     (if is_zero a then Err (CollectionInvalidArgument ''amount_raw'' ''must be greater than zero'') else Ok ())"

fun as_optional_raw :: "CollectionAmount \<Rightarrow> RawAmount option" where
  "as_optional_raw MaxAmount = None"
| "as_optional_raw (ExactAmount a) = Some a"

fun canonical_value :: "CollectionAmount \<Rightarrow> string" where
  "canonical_value MaxAmount = ''max''"
| "canonical_value (ExactAmount a) = show_raw a"

fun scopes_string :: "string list \<Rightarrow> string option" where
  "scopes_string [] = None"
| "scopes_string (s # ss) = Some (s @ concat (map (\<lambda>t. '' '' @ t) ss))"

definition route_to_address :: "CollectionRoute \<Rightarrow> CollectionServiceConfig \<Rightarrow> EvmAddress" where
  "route_to_address route c =
     (case route of RouteTreasury \<Rightarrow> csc_treasury_address c | RouteProblemFunds \<Rightarrow> csc_problem_funds_address c)"

definition route_order_requirement :: "CollectionRoute \<Rightarrow> CollectionOrderRequirement" where
  "route_order_requirement route =
     (case route of RouteTreasury \<Rightarrow> RequirePaid | RouteProblemFunds \<Rightarrow> RequireProblemFunds)"

definition audit_event_type :: "CollectionRoute \<Rightarrow> string" where
  "audit_event_type route =
     (case route of RouteTreasury \<Rightarrow> ''collection.create'' | RouteProblemFunds \<Rightarrow> ''collection.problem_funds.create'')"

definition canonical_destination :: "CollectionRoute \<Rightarrow> string" where
  "canonical_destination route = (case route of RouteTreasury \<Rightarrow> ''treasury'' | RouteProblemFunds \<Rightarrow> ''problem_funds'')"

text \<open>The fields that are hashed, in the order of the struct.\<close>

record CanonicalCollectionRequest =
  ccq_idempotency_key :: string
  ccq_order_id :: uuid
  ccq_amount :: string
  ccq_chain_id :: u64
  ccq_token_address :: EvmAddress
  ccq_destination :: string
  ccq_to_address :: EvmAddress

text \<open>What one operation reads from outside; the id generator is called twice, for the record and for the audit event.\<close>

record collection_env =
  ce_claim_lease_seconds :: u64
  ce_new_ids :: "uuid \<times> uuid"
  ce_token_balance :: "EvmAddress \<Rightarrow> EvmAddress \<Rightarrow> ChainError + RawAmount"
  ce_estimate_fees :: "ChainError + Eip1559FeeEstimate"
  ce_pending_nonce :: "u64 \<Rightarrow> EvmAddress \<Rightarrow> ChainError + RawAmount"
  ce_ensure_gas :: "PrefundedGasCheck \<Rightarrow> GasFundingError + unit"
  ce_health_check :: "SignerError + unit"
  ce_sign_transaction :: "string \<Rightarrow> string \<Rightarrow> UnsignedTx \<Rightarrow> SignerError + SignedTx"
  ce_sign_digest :: "string \<Rightarrow> string \<Rightarrow> u256 \<Rightarrow> SignerError + TypedSignature"
  ce_keccak256 :: keccak
  ce_to_vec :: "CanonicalCollectionRequest \<Rightarrow> string + bytes"
  ce_unix_now :: int
  ce_now :: timestamp


section \<open>Helpers\<close>

definition normalize_create_collection_input :: "CreateCollectionInput \<Rightarrow> CollectionServiceError + CreateCollectionInput" where
  "normalize_create_collection_input inp =
     bindE (amount_validate (cci_amount inp)) (\<lambda>_.
     bindE (must_not_be_empty ''idempotency_key'' (cci_idempotency_key inp)) (\<lambda>_.
     Ok (inp\<lparr>cci_idempotency_key := trim (cci_idempotency_key inp)\<rparr>)))"

definition validate_collectable_order ::
  "OrderView \<Rightarrow> CollectionServiceConfig \<Rightarrow> CollectionRoute \<Rightarrow> CollectionServiceError + unit" where
  "validate_collectable_order view cfg route =
     (let ord = ov_order view in
      if \<not> (case route of RouteTreasury \<Rightarrow> or_status ord = Paid
              | RouteProblemFunds \<Rightarrow> or_status ord = Expired \<or> or_status ord = Paid)
      then Err (OrderNotCollectable (or_id ord) (or_status ord))
      else if or_chain_id ord \<noteq> csc_chain_id cfg \<or> or_token_address ord \<noteq> csc_token_address cfg
      then Err (OrderStreamMismatch (or_id ord))
      else Ok ())"

definition canonical_collection_request_hash ::
  "collection_env \<Rightarrow> CreateCollectionInput \<Rightarrow> CollectionServiceConfig \<Rightarrow> CollectionRoute \<Rightarrow> CollectionServiceError + string" where
  "canonical_collection_request_hash env inp cfg route =
     mapE (\<lambda>bytes. hash_to_lower_hex (ce_keccak256 env bytes))
       (map_errE CollectionSerialization (ce_to_vec env
          \<lparr>ccq_idempotency_key = cci_idempotency_key inp, ccq_order_id = cci_order_id inp,
           ccq_amount = canonical_value (cci_amount inp), ccq_chain_id = csc_chain_id cfg,
           ccq_token_address = csc_token_address cfg, ccq_destination = canonical_destination route,
           ccq_to_address = route_to_address route cfg\<rparr>))"

text \<open>The decimal text of the nonce is parsed as a \<open>u64\<close>.\<close>

definition raw_amount_to_u64 :: "RawAmount \<Rightarrow> CollectionServiceError + u64" where
  "raw_amount_to_u64 nonce =
     (if unat nonce < 2 ^ 64 then Ok (of_nat (unat nonce)) else Err (NonceOutOfRange nonce))"

definition ERC20_TRANSFER_SELECTOR :: bytes where "ERC20_TRANSFER_SELECTOR = [0xa9, 0x05, 0x9c, 0xbb]"

definition erc20_transfer_data :: "EvmAddress \<Rightarrow> RawAmount \<Rightarrow> bytes" where
  "erc20_transfer_data to_address amount = ERC20_TRANSFER_SELECTOR @ replicate 12 0 @ word_bytes to_address @ word_bytes amount"

definition ensure_signed_tx_matches_job ::
  "CollectionJob \<Rightarrow> SignedTx \<Rightarrow> EvmAddress \<Rightarrow> u64 \<Rightarrow> CollectionServiceError + unit" where
  "ensure_signed_tx_matches_job job stx expected_from nonce =
     (let c = cj_collection job in
      if sx_chain_id stx \<noteq> cr_chain_id c
      then Err (SignedTxInvariant (''signed chain id '' @ show_nat (unat (sx_chain_id stx))
        @ '' did not match collection chain id '' @ show_nat (unat (cr_chain_id c))))
      else if sx_nonce stx \<noteq> nonce
      then Err (SignedTxInvariant (''signed nonce '' @ show_nat (unat (sx_nonce stx))
        @ '' did not match reserved nonce '' @ show_nat (unat nonce)))
      else if sx_from stx \<noteq> expected_from
      then Err (SignedTxInvariant (''signed from '' @ address_to_lower_hex (sx_from stx)
        @ '' did not match expected from '' @ address_to_lower_hex expected_from))
      else if sx_to stx \<noteq> cr_token_address c
      then Err (SignedTxInvariant (''signed to '' @ address_to_lower_hex (sx_to stx)
        @ '' did not match token contract '' @ address_to_lower_hex (cr_token_address c)))
      else Ok ())"

definition collection_fees_from_estimate :: "CollectionFees \<Rightarrow> Eip1559FeeEstimate \<Rightarrow> CollectionFees" where
  "collection_fees_from_estimate configured estimate =
     (let priority = max (cf_max_priority_fee_per_gas configured) (fe_max_priority_fee_per_gas estimate);
          max_fee = max (max (cf_max_fee_per_gas configured) (fe_max_fee_per_gas estimate)) priority
      in fees_new (cf_gas_limit configured) max_fee priority)"

definition bump_raw_amount :: "RawAmount \<Rightarrow> CollectionServiceError + RawAmount" where
  "bump_raw_amount amount =
     (let tenth = amount div 10; bump = (if tenth = 0 then 1 else tenth) in
      ok_or (checked_add amount bump)
        (SignedTxInvariant (''replacement fee bump overflowed for amount '' @ show_raw amount)))"

definition bump_collection_fees :: "CollectionFees \<Rightarrow> CollectionServiceError + CollectionFees" where
  "bump_collection_fees fees =
     bindE (bump_raw_amount (cf_max_fee_per_gas fees)) (\<lambda>max_fee.
     bindE (bump_raw_amount (cf_max_priority_fee_per_gas fees)) (\<lambda>priority.
     Ok (fees_new (cf_gas_limit fees) max_fee priority)))"

definition required_native_gas :: "PrefundedGasCheck \<Rightarrow> GasFundingError + RawAmount" where
  "required_native_gas chk =
     (if unat (pgc_max_fee_per_gas chk) * unat (pgc_gas_limit chk) < 2 ^ 256
      then Ok (pgc_max_fee_per_gas chk * ucast (pgc_gas_limit chk))
      else Err (GasUnavailable (pgc_chain_id chk) (pgc_from_address chk) ''required native gas overflows uint256''))"

definition chain_error_text :: "ChainError \<Rightarrow> string" where
  "chain_error_text e = (case e of
      RpcUnavailable m \<Rightarrow> ''chain RPC unavailable: '' @ m
    | MalformedRpcResponse m \<Rightarrow> ''malformed chain RPC response: '' @ m
    | ProviderHashMismatch ctx lp lh rp rh \<Rightarrow> ''RPC provider hash mismatch for '' @ ctx @ '': '' @ lp @ '' returned ''
        @ hash_to_lower_hex lh @ '', '' @ rp @ '' returned '' @ hash_to_lower_hex rh
    | InvalidBlockRange a b \<Rightarrow> ''invalid block range '' @ show_nat (unat a) @ ''..='' @ show_nat (unat b)
    | BlockNotFound n \<Rightarrow> ''block not found: '' @ show_nat (unat n)
    | TransactionNotFound h \<Rightarrow> ''transaction not found: '' @ hash_to_lower_hex h
    | ChainIdMismatch a b \<Rightarrow> ''configured chain id '' @ show_nat (unat a) @ '' does not match provider chain id ''
        @ show_nat (unat b)
    | CapacityExceeded n m \<Rightarrow> ''transfer log source capacity exceeded: '' @ show_nat n @ '' logs, max '' @ show_nat m)"

text \<open>The gas checker of the runtime: \<open>NativeBalanceGasChecker\<close> over the balance reader.\<close>

definition ensure_prefunded_gas ::
  "(u64 \<Rightarrow> EvmAddress \<Rightarrow> ChainError + RawAmount) \<Rightarrow> PrefundedGasCheck \<Rightarrow> GasFundingError + unit" where
  "ensure_prefunded_gas native_balance chk =
     bindE (required_native_gas chk) (\<lambda>required.
     bindE (map_errE (\<lambda>e. GasUnavailable (pgc_chain_id chk) (pgc_from_address chk) (chain_error_text e))
       (native_balance (pgc_chain_id chk) (pgc_from_address chk))) (\<lambda>balance.
     if balance < required then Err (GasInsufficient (pgc_chain_id chk) (pgc_from_address chk)) else Ok ()))"

definition resolve_collection_amount :: "collection_env \<Rightarrow> CollectionJob \<Rightarrow> CollectionServiceError + RawAmount" where
  "resolve_collection_amount env job =
     (let c = cj_collection job in
      bindE (map_errE CollectionChain (ce_token_balance env (cr_token_address c) (cr_from_address c))) (\<lambda>balance.
      bindE (case cr_amount_raw c of
          Some amount \<Rightarrow> if balance < amount then Err (InsufficientTokenBalance (cr_id c) balance amount) else Ok amount
        | None \<Rightarrow> Ok balance) (\<lambda>amount.
      if is_zero amount then Err (ZeroCollectionAmount (cr_id c)) else Ok amount)))"

definition current_collection_fees :: "collection_env \<Rightarrow> CollectionServiceConfig \<Rightarrow> CollectionServiceError + CollectionFees" where
  "current_collection_fees env cfg =
     mapE (collection_fees_from_estimate (csc_fees cfg)) (map_errE CollectionChain (ce_estimate_fees env))"

text \<open>Who pays for the transaction and signs it: the relayer, or the child account itself.\<close>

definition payer_of :: "CollectionServiceConfig \<Rightarrow> CollectionJob \<Rightarrow> EvmAddress \<times> string \<times> string" where
  "payer_of cfg job =
     (case strategy_relayer (csc_strategy cfg) of
        Some relayer \<Rightarrow> (rel_address relayer, rel_key_ref relayer, rel_derivation_path relayer)
      | None \<Rightarrow> (cr_from_address (cj_collection job), cj_signer_key_ref job, cj_derivation_path job))"

text \<open>The calldata of the token contract, with the signature of the child account where the strategy asks for one.\<close>

definition unix_seconds :: "collection_env \<Rightarrow> u64" where
  "unix_seconds env = of_int (max (ce_unix_now env) 0)"

definition child_signature :: "collection_env \<Rightarrow> CollectionJob \<Rightarrow> u256 \<Rightarrow> u256 \<Rightarrow> CollectionServiceError + TypedSignature" where
  "child_signature env job domain_sep struct_hash =
     map_errE CollectionSigner (ce_sign_digest env (cj_signer_key_ref job) (cj_derivation_path job)
       (eip712_digest (ce_keccak256 env) domain_sep struct_hash))"

definition build_collection_calldata ::
  "collection_env \<Rightarrow> CollectionServiceConfig \<Rightarrow> CollectionJob \<Rightarrow> RawAmount \<Rightarrow> CollectionServiceError + bytes" where
  "build_collection_calldata env cfg job amount =
     (let c = cj_collection job; keccak = ce_keccak256 env; now = unix_seconds env in
      case csc_strategy cfg of
        StrategyStandard \<Rightarrow> Ok (erc20_transfer_data (cr_to_address c) amount)
      | StrategyEip3009 name version _ \<Rightarrow>
          let domain_sep = eip712_domain_separator keccak name version (cr_chain_id c) (cr_token_address c);
              auth_nonce = keccak (str_bytes (''pay3:eip3009:'' @ show_uuid (cr_id c)));
              valid_after = saturating_sub now 60; valid_before = now + 86400 in
          bindE (child_signature env job domain_sep (eip3009_struct_hash keccak (cr_from_address c) (cr_to_address c)
            amount valid_after valid_before auth_nonce)) (\<lambda>sig.
          Ok (encode_eip3009_transfer_with_authorization (cr_from_address c) (cr_to_address c) amount valid_after
            valid_before auth_nonce sig))
      | StrategyPolygonMetaTx name version _ \<Rightarrow>
          let domain_sep = polygon_meta_tx_domain_separator keccak name version (cr_chain_id c) (cr_token_address c);
              fn_sig = erc20_transfer_data (cr_to_address c) amount in
          bindE (child_signature env job domain_sep (polygon_meta_tx_struct_hash keccak 0 (cr_from_address c) fn_sig)) (\<lambda>sig.
          Ok (encode_polygon_execute_meta_transaction (cr_from_address c) fn_sig sig))
      | StrategyEip2612 name version relayer \<Rightarrow>
          let domain_sep = eip712_domain_separator keccak name version (cr_chain_id c) (cr_token_address c);
              deadline = now + 86400 in
          bindE (child_signature env job domain_sep (eip2612_struct_hash keccak (cr_from_address c) (rel_address relayer)
            amount 0 deadline)) (\<lambda>sig.
          Ok (encode_eip2612_permit (cr_from_address c) (rel_address relayer) amount deadline sig)))"


section \<open>Audit\<close>

definition json_object :: "(string \<times> json) list \<Rightarrow> json" where
  "json_object kvs = JObject (btree_of kvs)"

definition json_address :: "EvmAddress \<Rightarrow> json" where
  "json_address a = JString (address_to_lower_hex a)"

definition no_audit_context :: AuditContext where
  "no_audit_context = \<lparr>ac_request_id = None, ac_principal_sub = None, ac_scopes = []\<rparr>"

definition append_collection_audit ::
  "uuid \<Rightarrow> string \<Rightarrow> AuditContext \<Rightarrow> uuid option \<Rightarrow> uuid option \<Rightarrow> TxHash option \<Rightarrow> json
   \<Rightarrow> (CollectionServiceError, unit) worker" where
  "append_collection_audit new_id event_type context order_id collection_id tx_hash payload =
     andThen (transact CollectionRepositoryError (append_audit_event
       \<lparr>aei_id = new_id, aei_event_type = event_type, aei_request_id = ac_request_id context,
        aei_principal_sub = ac_principal_sub context, aei_scopes = scopes_string (ac_scopes context),
        aei_order_id = order_id, aei_collection_id = collection_id, aei_tx_hash = tx_hash, aei_payload = payload\<rparr>))
     (\<lambda>_. answer (Ok ()))"


section \<open>Creation\<close>

definition collection_command ::
  "uuid \<Rightarrow> OrderView \<Rightarrow> CreateCollectionInput \<Rightarrow> string \<Rightarrow> CollectionServiceConfig \<Rightarrow> CollectionRoute \<Rightarrow> CreateCollectionCommand" where
  "collection_command collection_id view inp hash cfg route =
     \<lparr>ccc_collection_id = collection_id, ccc_owner_sub = or_owner_sub (ov_order view), ccc_order_id = or_id (ov_order view),
      ccc_idempotency_key = cci_idempotency_key inp, ccc_request_hash = hash,
      ccc_child_account_id = or_child_account_id (ov_order view), ccc_chain_id = csc_chain_id cfg,
      ccc_token_address = csc_token_address cfg, ccc_from_address = or_receive_address (ov_order view),
      ccc_to_address = route_to_address route cfg, ccc_amount_raw = as_optional_raw (cci_amount inp),
      ccc_order_requirement = route_order_requirement route\<rparr>"

definition create_collection_for_route ::
  "collection_env \<Rightarrow> CollectionServiceConfig \<Rightarrow> CreateCollectionInput \<Rightarrow> CollectionRoute
   \<Rightarrow> (CollectionServiceError, CreateCollectionResult) worker" where
  "create_collection_for_route env cfg input0 route =
     (let (collection_id, audit_id) = ce_new_ids env in
      andThen (answer (normalize_create_collection_input input0)) (\<lambda>inp.
      andThen (query CollectionRepositoryError (case ac_principal_sub (cci_audit inp) of
          Some owner_sub \<Rightarrow> get_order_view_for_owner (cci_order_id inp) owner_sub
        | None \<Rightarrow> get_order_view (cci_order_id inp))) (\<lambda>found.
      andThen (answer (ok_or found (CollectionOrderNotFound (cci_order_id inp)))) (\<lambda>view.
      andThen (answer (validate_collectable_order view cfg route)) (\<lambda>_.
      andThen (answer (canonical_collection_request_hash env inp cfg route)) (\<lambda>hash.
      andThen (transact CollectionRepositoryError (create_collection_idempotent
        (collection_command collection_id view inp hash cfg route))) (\<lambda>collection.
      let outcome = (if cr_id collection = collection_id then CollectionCreated else CollectionExisting) in
      andThen (append_collection_audit audit_id (audit_event_type route) (cci_audit inp) (Some (cr_order_id collection))
        (Some (cr_id collection)) None
        (json_object [(''outcome'', JString (if outcome = CollectionCreated then ''created'' else ''existing'')),
           (''destination'', JString (canonical_destination route)),
           (''from_address'', json_address (cr_from_address collection)),
           (''to_address'', json_address (cr_to_address collection)),
           (''amount_raw'', case cr_amount_raw collection of None \<Rightarrow> JNull | Some a \<Rightarrow> JString (show_raw a))])) (\<lambda>_.
      answer (Ok \<lparr>ccr_outcome = outcome, ccr_collection = collection\<rparr>)))))))))"

definition create_collection ::
  "collection_env \<Rightarrow> CollectionServiceConfig \<Rightarrow> CreateCollectionInput \<Rightarrow> (CollectionServiceError, CreateCollectionResult) worker" where
  "create_collection env cfg inp = create_collection_for_route env cfg inp RouteTreasury"

definition create_problem_funds_collection ::
  "collection_env \<Rightarrow> CollectionServiceConfig \<Rightarrow> CreateCollectionInput \<Rightarrow> (CollectionServiceError, CreateCollectionResult) worker" where
  "create_problem_funds_collection env cfg inp = create_collection_for_route env cfg inp RouteProblemFunds"

definition service_get_collection :: "uuid \<Rightarrow> (CollectionServiceError, CollectionRecord option) worker" where
  "service_get_collection cid = query CollectionRepositoryError (get_collection cid)"

definition service_get_collection_for_owner :: "uuid \<Rightarrow> string \<Rightarrow> (CollectionServiceError, CollectionRecord option) worker" where
  "service_get_collection_for_owner cid owner_sub =
     andThen (answer (must_not_be_empty ''owner_sub'' owner_sub)) (\<lambda>_.
     query CollectionRepositoryError (get_collection_for_owner cid (trim owner_sub)))"


section \<open>Preparation of the next job\<close>

definition gas_check :: "u64 \<Rightarrow> EvmAddress \<Rightarrow> CollectionFees \<Rightarrow> PrefundedGasCheck" where
  "gas_check chain_id payer fees =
     \<lparr>pgc_chain_id = chain_id, pgc_from_address = payer, pgc_gas_limit = cf_gas_limit fees,
      pgc_max_fee_per_gas = cf_max_fee_per_gas fees, pgc_max_priority_fee_per_gas = cf_max_priority_fee_per_gas fees\<rparr>"

text \<open>The calldata, the unsigned transaction to the token contract, its signature and the check of what came back.\<close>

definition sign_collection ::
  "collection_env \<Rightarrow> CollectionServiceConfig \<Rightarrow> CollectionJob \<Rightarrow> RawAmount \<Rightarrow> CollectionFees \<Rightarrow> u64 \<Rightarrow> string
   \<Rightarrow> CollectionServiceError + SignedTx" where
  "sign_collection env cfg job amount fees nonce request_id =
     (let c = cj_collection job; (payer, key_ref, path) = payer_of cfg job in
      bindE (build_collection_calldata env cfg job amount) (\<lambda>data.
      bindE (map_errE CollectionSigner (unsigned_tx_new request_id (cr_chain_id c) nonce (cr_token_address c) 0
        (cf_gas_limit fees) (cf_max_fee_per_gas fees) (cf_max_priority_fee_per_gas fees) data)) (\<lambda>unsigned_tx.
      bindE (map_errE CollectionSigner (ce_sign_transaction env key_ref path unsigned_tx)) (\<lambda>stx.
      bindE (ensure_signed_tx_matches_job job stx payer nonce) (\<lambda>_.
      Ok stx)))))"

definition new_collect_tx ::
  "uuid \<Rightarrow> CollectionRecord \<Rightarrow> EvmAddress \<Rightarrow> RawAmount \<Rightarrow> CollectionFees \<Rightarrow> SignedTx \<Rightarrow> uuid option \<Rightarrow> string option
   \<Rightarrow> NewSignedOutboundTx" where
  "new_collect_tx new_id c payer nonce fees stx replacement_of reason =
     \<lparr>nst_id = new_id, nst_chain_id = cr_chain_id c, nst_purpose = Collect, nst_from_address = payer,
      nst_to_address = cr_to_address c, nst_nonce = nonce, nst_gas_limit = cf_gas_limit fees,
      nst_max_fee_per_gas = cf_max_fee_per_gas fees, nst_max_priority_fee_per_gas = cf_max_priority_fee_per_gas fees,
      nst_tx_hash = sx_tx_hash stx, nst_signed_tx = sx_raw_tx stx, nst_replacement_of = replacement_of,
      nst_replacement_reason = reason\<rparr>"

definition outbound_audit_fields :: "string \<Rightarrow> OutboundTxRecord \<Rightarrow> RawAmount \<Rightarrow> (string \<times> json) list" where
  "outbound_audit_fields worker rec amount =
     [(''worker_id'', JString worker), (''outbound_tx_id'', JString (show_uuid (otr_id rec))),
      (''from_address'', json_address (otr_from_address rec)), (''to_address'', json_address (otr_to_address rec)),
      (''amount_raw'', JString (show_raw amount)), (''nonce'', JString (show_raw (otr_nonce rec))),
      (''tx_hash'', JString (hash_to_lower_hex (otr_tx_hash rec)))]"

definition prepare_next_collection_job ::
  "collection_env \<Rightarrow> CollectionServiceConfig \<Rightarrow> string \<Rightarrow> (CollectionServiceError, PrepareCollectionJobOutcome) worker" where
  "prepare_next_collection_job env cfg worker_id =
     (let worker = trim worker_id; (tx_id, audit_id) = ce_new_ids env in
      andThen (answer (must_not_be_empty ''worker_id'' worker_id)) (\<lambda>_.
      andThen (transact CollectionRepositoryError (claim_collection_job (ce_claim_lease_seconds env) worker
        (csc_chain_id cfg) (csc_token_address cfg))) (\<lambda>claimed.
      case claimed of
        None \<Rightarrow> answer (Ok NoJob)
      | Some job \<Rightarrow>
          let c = cj_collection job; payer = fst (payer_of cfg job) in
          andThen (answer (resolve_collection_amount env job)) (\<lambda>amount.
          andThen (answer (current_collection_fees env cfg)) (\<lambda>fees.
          andThen (answer (map_errE CollectionGasFunding (ce_ensure_gas env (gas_check (cr_chain_id c) payer fees)))) (\<lambda>_.
          andThen (answer (map_errE CollectionSigner (ce_health_check env))) (\<lambda>_.
          andThen (answer (map_errE CollectionChain (ce_pending_nonce env (cr_chain_id c) payer))) (\<lambda>pending.
          andThen (transact_committed CollectionRepositoryError (reserve_nonce (cr_chain_id c) payer pending)) (\<lambda>reserved.
          andThen (answer (raw_amount_to_u64 (rn_nonce reserved))) (\<lambda>nonce.
          andThen (answer (sign_collection env cfg job amount fees nonce
            (''collection-'' @ show_uuid (cr_id c) @ ''-nonce-'' @ show_nat (unat nonce)))) (\<lambda>stx.
          andThen (transact CollectionRepositoryError (insert_signed_collect_tx (cr_id c)
            (new_collect_tx tx_id c payer (rn_nonce reserved) fees stx None None) amount)) (\<lambda>(_, rec).
          andThen (append_collection_audit audit_id ''collection.signed'' no_audit_context (Some (cr_order_id c))
            (Some (cr_id c)) (Some (otr_tx_hash rec)) (json_object (outbound_audit_fields worker rec amount))) (\<lambda>_.
          answer (Ok (Prepared
            (c\<lparr>cr_outbound_tx_id := Some (otr_id rec), cr_amount_raw := Some amount, cr_status := ColTransferring,
               cr_locked_by := None, cr_locked_until := None, cr_error := None, cr_updated_at := ce_now env\<rparr>)
            rec stx)))))))))))))))"


section \<open>Replacement of a stuck transaction\<close>

definition collection_status_debug :: "OutboundTxStatus \<Rightarrow> string" where
  "collection_status_debug s = (case s of
      TxSigned \<Rightarrow> ''Signed'' | TxBroadcast \<Rightarrow> ''Broadcast'' | TxConfirmed \<Rightarrow> ''Confirmed'' | TxFailed \<Rightarrow> ''Failed''
    | TxDropped \<Rightarrow> ''Dropped'' | TxReplaced \<Rightarrow> ''Replaced'')"

text \<open>The guards on the collection and on the transaction the worker claimed.\<close>

definition ensure_replacement_candidate ::
  "CollectionRecord \<Rightarrow> OutboundTxRecord \<Rightarrow> CollectionServiceError + unit" where
  "ensure_replacement_candidate c old =
     (if cr_status c \<notin> {ColTransferring, ColConfirming} then Err (ReplacementNotEligible (cr_id c) (cr_status c))
      else if cr_outbound_tx_id c \<noteq> Some (otr_id old)
      then Err (SignedTxInvariant (''collection '' @ show_uuid (cr_id c) @ '' outbound ''
        @ (case cr_outbound_tx_id c of None \<Rightarrow> ''none'' | Some i \<Rightarrow> show_uuid i)
        @ '' did not match claimed replacement candidate '' @ show_uuid (otr_id old)))
      else if otr_status old \<noteq> TxBroadcast
      then Err (SignedTxInvariant (''outbound '' @ show_uuid (otr_id old) @ '' must be broadcast before replacement, got ''
        @ collection_status_debug (otr_status old)))
      else Ok ())"

text \<open>The fees of a replacement: the current ones, but at least the bumped previous ones.\<close>

definition replacement_fees_of :: "CollectionFees \<Rightarrow> OutboundTxRecord \<Rightarrow> CollectionServiceError + CollectionFees" where
  "replacement_fees_of current old =
     bindE (bump_collection_fees (fees_new (otr_gas_limit old) (otr_max_fee_per_gas old) (otr_max_priority_fee_per_gas old)))
       (\<lambda>bumped.
     Ok (fees_new (max (cf_gas_limit current) (cf_gas_limit bumped))
       (max (cf_max_fee_per_gas current) (cf_max_fee_per_gas bumped))
       (max (cf_max_priority_fee_per_gas current) (cf_max_priority_fee_per_gas bumped))))"

definition replacement_plan :: "CollectionRecord \<Rightarrow> u64 \<Rightarrow> EvmAddress \<Rightarrow> RawAmount \<Rightarrow> CollectionFees \<Rightarrow> CollectionTxPlan" where
  "replacement_plan c nonce payer amount fees =
     \<lparr>ctp_chain_id = cr_chain_id c, ctp_nonce = nonce, ctp_from = payer, ctp_to = cr_to_address c, ctp_amount = amount,
      ctp_purpose = TreasurySweep, ctp_fees = fees\<rparr>"

definition replace_collection_job ::
  "collection_env \<Rightarrow> CollectionServiceConfig \<Rightarrow> string \<Rightarrow> uuid \<Rightarrow> OutboundTxRecord \<Rightarrow> string
   \<Rightarrow> (CollectionServiceError, PrepareCollectionJobOutcome) worker" where
  "replace_collection_job env cfg worker_id collection_id old reason0 =
     (let worker = trim worker_id; reason = trim reason0; (tx_id, audit_id) = ce_new_ids env in
      andThen (answer (must_not_be_empty ''worker_id'' worker_id)) (\<lambda>_.
      andThen (answer (must_not_be_empty ''replacement_reason'' reason0)) (\<lambda>_.
      andThen (query CollectionRepositoryError (get_collection_job collection_id)) (\<lambda>found.
      andThen (answer (ok_or found (CollectionNotFound collection_id))) (\<lambda>job.
      let c = cj_collection job; payer = fst (payer_of cfg job);
          previous = fees_new (otr_gas_limit old) (otr_max_fee_per_gas old) (otr_max_priority_fee_per_gas old) in
      andThen (answer (ensure_replacement_candidate c old)) (\<lambda>_.
      andThen (answer (ok_or (cr_amount_raw c) (ReplacementAmountUnavailable (cr_id c)))) (\<lambda>amount.
      andThen (answer (raw_amount_to_u64 (otr_nonce old))) (\<lambda>nonce.
      andThen (answer (current_collection_fees env cfg)) (\<lambda>current.
      andThen (answer (replacement_fees_of current old)) (\<lambda>fees.
      if otr_from_address old \<noteq> payer
      then answer (Err (SignedTxInvariant (''outbound '' @ show_uuid (otr_id old) @ '' from_address ''
        @ address_to_lower_hex (otr_from_address old) @ '' did not match expected payer '' @ address_to_lower_hex payer)))
      else
        andThen (answer (map_errE (\<lambda>e. SignedTxInvariant (replacement_error_text e))
          (assert_replacement_allowed (replacement_plan c nonce payer amount previous)
            (replacement_plan c nonce payer amount fees)))) (\<lambda>_.
        andThen (answer (map_errE CollectionGasFunding (ce_ensure_gas env (gas_check (cr_chain_id c) payer fees)))) (\<lambda>_.
        andThen (answer (map_errE CollectionSigner (ce_health_check env))) (\<lambda>_.
        andThen (answer (sign_collection env cfg job amount fees nonce
          (''collection-'' @ show_uuid (cr_id c) @ ''-nonce-'' @ show_nat (unat nonce) @ ''-replacement-''
            @ show_uuid (otr_id old)))) (\<lambda>stx.
        andThen (transact CollectionRepositoryError (replace_signed_tx (otr_id old)
          (new_collect_tx tx_id c payer (otr_nonce old) fees stx (Some (otr_id old)) (Some reason)))) (\<lambda>rec.
        andThen (append_collection_audit audit_id ''collection.replaced'' no_audit_context (Some (cr_order_id c))
          (Some (cr_id c)) (Some (otr_tx_hash rec))
          (json_object ([(''replacement_of'', JString (show_uuid (otr_id old))), (''replacement_reason'', JString reason)]
             @ outbound_audit_fields worker rec amount))) (\<lambda>_.
        answer (Ok (Prepared
          (c\<lparr>cr_outbound_tx_id := Some (otr_id rec), cr_status := ColTransferring,
             cr_attempt_count := saturating_add (cr_attempt_count c) 1, cr_locked_by := None, cr_locked_until := None,
             cr_error := None, cr_updated_at := ce_now env\<rparr>)
          rec stx))))))))))))))))))"

end
