(* ===== verification/Collector.thy ===== *)
theory Collector
  imports Collection_Service
begin

text \<open>
  The collector worker of \<open>src/src/workers/collector.rs\<close>: one tick broadcasts a transaction that was
  signed but not sent, else reads the receipt of one that was sent and replaces it when it is stuck,
  else prepares the next collection and broadcasts it.  The collection service is the modelled one;
  the broadcaster and the clock are arguments.
\<close>

section \<open>Configuration, outcomes and errors\<close>

text \<open>The whole seconds of \<open>replacement_stuck_after\<close>: the sub-second part is never read.\<close>

record CollectionCollectorConfig =
  ccf_worker_id :: string
  ccf_chain_id :: u64
  ccf_token_address :: EvmAddress
  ccf_replacement_stuck_after :: u64
  ccf_min_confirmations :: u64

datatype CollectionCollectorTickOutcome =
    CollectorNoJob
  | CollectorBroadcast uuid OutboundTxRecord
  | CollectorReceiptPending uuid OutboundTxRecord
  | CollectorConfirmed uuid OutboundTxRecord
  | CollectorFailed uuid OutboundTxRecord

text \<open>The last constructor stands for the panic of a subtraction that leaves the range of \<open>OffsetDateTime\<close>.\<close>

datatype CollectionCollectorError =
    CollectorInvalidConfig string string
  | BroadcastHashMismatch uuid TxHash TxHash
  | ReceiptHashMismatch uuid TxHash TxHash
  | CollectorService CollectionServiceError
  | CollectorRepository RepositoryError
  | CollectorChain ChainError
  | CollectorPanic

definition collector_validate :: "CollectionCollectorConfig \<Rightarrow> CollectionCollectorError + unit" where
  "collector_validate cfg =
     (if trim (ccf_worker_id cfg) = [] then Err (CollectorInvalidConfig ''worker_id'' ''must not be empty'') else Ok ())"

record collector_env =
  cle_lease_seconds :: u64
  cle_service :: CollectionServiceConfig
  cle_prepare :: collection_env
  cle_replace :: collection_env
  cle_broadcast :: "bytes \<Rightarrow> ChainError + TxHash"
  cle_receipt :: "TxHash \<Rightarrow> ChainError + TxReceipt option"
  cle_source :: chain_source
  cle_now :: timestamp

text \<open>A call of the service: its error is wrapped, its writes stay.\<close>

definition call_service :: "(CollectionServiceError, 'a) worker \<Rightarrow> (CollectionCollectorError, 'a) worker" where
  "call_service m d = (map_errE CollectorService (fst (m d)), snd (m d))"


section \<open>Steps of a tick\<close>

definition broadcast_outbound ::
  "collector_env \<Rightarrow> uuid \<Rightarrow> OutboundTxRecord \<Rightarrow> (CollectionCollectorError, CollectionCollectorTickOutcome) worker" where
  "broadcast_outbound env collection_id out =
     andThen (answer (map_errE CollectorChain (cle_broadcast env (otr_signed_tx out)))) (\<lambda>hash.
     if hash \<noteq> otr_tx_hash out
     then answer (Err (BroadcastHashMismatch (otr_id out) (otr_tx_hash out) hash))
     else andThen (transact CollectorRepository (mark_broadcast (otr_id out))) (\<lambda>rec.
       answer (Ok (CollectorBroadcast collection_id rec))))"

definition receipt_block_confirmed_and_canonical ::
  "chain_source \<Rightarrow> u64 \<Rightarrow> ChainBlockRef \<Rightarrow> CollectionCollectorError + bool" where
  "receipt_block_confirmed_and_canonical src min_confirmations receipt_block =
     bindE (map_errE CollectorChain (src_latest_head src)) (\<lambda>head.
     if \<not> has_confirmations receipt_block head min_confirmations then Ok False
     else bindE (map_errE CollectorChain (src_block_by_number src (cb_number receipt_block))) (\<lambda>canonical_block.
       if blk_hash canonical_block \<noteq> cb_hash receipt_block
       then Err (CollectorChain (ProviderHashMismatch (''collection receipt block '' @ show_nat (unat (cb_number receipt_block)))
         ''receipt'' (cb_hash receipt_block) ''canonical'' (blk_hash canonical_block)))
       else Ok True))"

text \<open>The seconds are read as an \<open>i64\<close>; \<open>None\<close> is the panic of the subtraction.\<close>

definition outbound_replacement_due ::
  "collector_env \<Rightarrow> CollectionCollectorConfig \<Rightarrow> OutboundTxRecord \<Rightarrow> bool option" where
  "outbound_replacement_due env cfg out =
     (case otr_last_broadcast_at out of
        None \<Rightarrow> Some False
      | Some last_broadcast_at \<Rightarrow>
          map_option (\<lambda>cutoff. last_broadcast_at \<le> cutoff)
            (datetime_checked_add (cle_now env) (- (sint (ccf_replacement_stuck_after cfg) * one_second))))"

definition check_outbound_receipt ::
  "collector_env \<Rightarrow> CollectionCollectorConfig \<Rightarrow> string \<Rightarrow> uuid \<Rightarrow> OutboundTxRecord
   \<Rightarrow> (CollectionCollectorError, CollectionCollectorTickOutcome) worker" where
  "check_outbound_receipt env cfg worker_id collection_id out =
     andThen (answer (map_errE CollectorChain (cle_receipt env (otr_tx_hash out)))) (\<lambda>found.
     case found of
       None \<Rightarrow>
         andThen (answer (ok_or (outbound_replacement_due env cfg out) CollectorPanic)) (\<lambda>due.
         if due
         then
           andThen (call_service (replace_collection_job (cle_replace env) (cle_service env) worker_id collection_id out
             ''receipt missing beyond replacement threshold'')) (\<lambda>outcome.
           case outcome of
             NoJob \<Rightarrow> answer (Ok (CollectorReceiptPending collection_id out))
           | Prepared collection rec _ \<Rightarrow> broadcast_outbound env (cr_id collection) rec)
         else answer (Ok (CollectorReceiptPending collection_id out)))
     | Some receipt \<Rightarrow>
         if rcpt_tx_hash receipt \<noteq> otr_tx_hash out
         then answer (Err (ReceiptHashMismatch (otr_id out) (otr_tx_hash out) (rcpt_tx_hash receipt)))
         else case rcpt_status receipt of
           Success \<Rightarrow>
             andThen (answer (receipt_block_confirmed_and_canonical (cle_source env) (ccf_min_confirmations cfg)
               (rcpt_block receipt))) (\<lambda>confirmed.
             if \<not> confirmed then answer (Ok (CollectorReceiptPending collection_id out))
             else andThen (transact CollectorRepository (mark_confirmed (otr_id out) (rcpt_block receipt))) (\<lambda>rec.
               answer (Ok (CollectorConfirmed collection_id rec))))
         | Reverted \<Rightarrow>
             andThen (transact CollectorRepository (mark_failed (otr_id out) ''collect transaction reverted'')) (\<lambda>rec.
             answer (Ok (CollectorFailed collection_id rec))))"

definition prepare_and_broadcast ::
  "collector_env \<Rightarrow> string \<Rightarrow> (CollectionCollectorError, CollectionCollectorTickOutcome) worker" where
  "prepare_and_broadcast env worker =
     andThen (call_service (prepare_next_collection_job (cle_prepare env) (cle_service env) worker)) (\<lambda>outcome.
     case outcome of
       NoJob \<Rightarrow> answer (Ok CollectorNoJob)
     | Prepared collection rec _ \<Rightarrow> broadcast_outbound env (cr_id collection) rec)"

definition collector_tick ::
  "collector_env \<Rightarrow> CollectionCollectorConfig \<Rightarrow> (CollectionCollectorError, CollectionCollectorTickOutcome) worker" where
  "collector_tick env cfg =
     (let worker = trim (ccf_worker_id cfg) in
      andThen (answer (collector_validate cfg)) (\<lambda>_.
      andThen (transact_committed CollectorRepository (claim_signed_collect_tx_for_broadcast (cle_lease_seconds env) worker
        (ccf_chain_id cfg) (ccf_token_address cfg))) (\<lambda>recoverable.
      case recoverable of
        Some (collection_id, out) \<Rightarrow> broadcast_outbound env collection_id out
      | None \<Rightarrow>
          andThen (transact_committed CollectorRepository (claim_broadcast_collect_tx_for_receipt (cle_lease_seconds env)
            worker (ccf_chain_id cfg) (ccf_token_address cfg))) (\<lambda>checkable.
          case checkable of
            Some (collection_id, out) \<Rightarrow> check_outbound_receipt env cfg worker collection_id out
          | None \<Rightarrow> prepare_and_broadcast env worker))))"

end
