(* ===== verification/Collection_Service_Props.thy ===== *)
theory Collection_Service_Props
  imports Collection_Service
begin

text \<open>
  What the sweep service signs and writes: the strategy that is chosen, what the calldata makes the
  token contract do, the fees and the invariants of a replacement.
\<close>

section \<open>The chosen strategy\<close>

lemma preset_methods: "\<forall>x \<in> set preset_table. pti_method (snd x) \<notin> {Auto, Eip2612}"
  by (simp add: preset_table_def preset_info_def)

lemma lookup_preset_method: "lookup_preset chain_id token = Some p \<Longrightarrow> pti_method p \<noteq> Auto \<and> pti_method p \<noteq> Eip2612"
  using preset_methods by (force simp: lookup_preset_def dest: map_of_SomeD)

lemma heuristic_method: "pti_method (lookup_heuristic chain_id symbol) \<noteq> Auto \<and> pti_method (lookup_heuristic chain_id symbol) \<noteq> Eip2612"
  by (simp add: lookup_heuristic_def preset_info_def Let_def)

lemma preset_or_heuristic_method:
  "pti_method (lookup_preset_or_heuristic chain_id token symbol) \<noteq> Auto"
  "pti_method (lookup_preset_or_heuristic chain_id token symbol) \<noteq> Eip2612"
  using lookup_preset_method[of chain_id token] heuristic_method[of chain_id symbol]
  by (auto simp: lookup_preset_or_heuristic_def split: option.split)

lemma probe_method: "otc_method (probe_on_chain_token_capabilities call token) \<noteq> Auto"
  by (simp add: probe_on_chain_token_capabilities_def Let_def)

text \<open>
  C23: automatic resolution is safe whatever the token contract answers: the resolved method is never
  \<open>Auto\<close>; EIP-2612, whose permit alone moves no tokens, is only used when it is configured
  explicitly; and a method that needs a relayer is only used when there is one or when it is
  configured explicitly.  An explicit choice is never overridden.
\<close>
theorem resolved_strategy_safe:
  "let r = resolve_optimal_collection_strategy_with_probe chain_id token symbol has_relayer configured name version client in
   osr_method r \<noteq> Auto \<and> (osr_method r = Eip2612 \<longrightarrow> configured = Eip2612) \<and>
   (is_gasless (osr_method r) \<longrightarrow> has_relayer \<or> osr_method r = configured) \<and>
   (configured \<noteq> Auto \<longrightarrow> osr_method r = configured)"
proof -
  have auto: "osr_method (resolve_optimal_collection_strategy chain_id token symbol True Auto name version)
      = pti_method (lookup_preset_or_heuristic chain_id token symbol)"
    "configured \<noteq> Auto \<Longrightarrow>
       osr_method (resolve_optimal_collection_strategy chain_id token symbol has_relayer configured name version) = configured"
    by (simp_all add: resolve_optimal_collection_strategy_def Let_def)
  show ?thesis
  proof (cases "configured = Auto \<and> has_relayer")
    case True
    then show ?thesis
      using auto(1) lookup_preset_method[of chain_id token] preset_or_heuristic_method[of chain_id token symbol] probe_method
      by (auto simp: resolve_optimal_collection_strategy_with_probe_def Let_def is_gasless_def split: option.split)
  next
    case False
    then show ?thesis using auto(2) by (auto simp: resolve_optimal_collection_strategy_with_probe_def Let_def is_gasless_def)
  qed
qed

definition permit_only_token :: contract_call where
  "permit_only_token token data =
     (if data = domain_separator_probe_calldata then Ok (replicate 32 1)
      else if data = nonces_probe_calldata then Ok (replicate 32 0) else Err ''execution reverted'')"

theorem resolved_strategy_safe_witness:
  "otc_method (probe_on_chain_token_capabilities permit_only_token 7) = Eip2612 \<and>
   osr_method (resolve_optimal_collection_strategy_with_probe 1 7 ''X'' True Auto None None (Some permit_only_token)) \<noteq> Eip2612"
  using resolved_strategy_safe[of 1 7 "''X''" True Auto None None "Some permit_only_token"]
  by (auto simp: Let_def probe_on_chain_token_capabilities_def permit_only_token_def answers_word_def
      eip3009_probe_calldata_def polygon_meta_tx_probe_calldata_def domain_separator_probe_calldata_def nonces_probe_calldata_def
      EIP3009_AUTHORIZATION_STATE_SELECTOR_def POLYGON_GET_NONCE_SELECTOR_def EIP2612_DOMAIN_SEPARATOR_SELECTOR_def
      EIP2612_NONCES_SELECTOR_def)


section \<open>What the calldata says\<close>

text \<open>
  Calldata read by the contract ABI: a selector of four bytes and arguments in slots of 32 bytes, all as
  numbers; a byte string argument is found at the offset that its slot gives, after its length.
\<close>

definition abi_args :: "nat \<Rightarrow> bytes \<Rightarrow> nat list" where
  "abi_args n data = map (\<lambda>i. be_nat (take 32 (drop (4 + 32 * i) data))) [0 ..< n]"

definition abi_bytes :: "nat \<Rightarrow> bytes \<Rightarrow> bytes" where
  "abi_bytes offset data = take (be_nat (take 32 (drop (4 + offset) data))) (drop (4 + offset + 32) data)"

definition calls :: "bytes \<Rightarrow> nat \<Rightarrow> nat list \<Rightarrow> bool" where
  "calls data selector args \<longleftrightarrow>
     be_nat (take 4 data) = selector \<and> length data = 4 + 32 * length args \<and> abi_args (length args) data = args"

lemma slot_lengths [simp]:
  "length (word_bytes (a :: EvmAddress)) = 20" "length (word_bytes (w :: u256)) = 32" "length (address_slot a) = 32"
  "length (u64_slot n) = 32" "length (v_slot v) = 32"
  by (simp_all add: word_bytes_def address_slot_def u64_slot_def v_slot_def)

lemma be_nat_word_bytes: "be_nat (word_bytes (w :: u256)) = unat w"
proof -
  have "unat w < 2 ^ 256" using unsigned_less[of w, where ?'a = nat] by simp
  then show ?thesis by (simp add: word_bytes_def be_simps pow_256)
qed

lemma be_nat_zeros [simp]: "be_nat (replicate k 0 @ bs) = be_nat bs"
proof -
  have "foldl (\<lambda>a b. 256 * a + unat b) 0 (replicate k (0 :: u8)) = 0" by (induction k) simp_all
  then show ?thesis by (simp add: be_nat_def)
qed

lemma slot_values [simp]:
  "be_nat (word_bytes (w :: u256)) = unat w" "be_nat (address_slot a) = unat a" "be_nat (u64_slot n) = unat n" "be_nat (v_slot v) = unat v"
proof -
  have "be_nat (word_bytes a) = unat a" using unsigned_less[of a, where ?'a = nat] by (simp add: word_bytes_def be_nat_be_bytes)
  then show "be_nat (address_slot a) = unat a" by (simp add: address_slot_def)
  show "be_nat (u64_slot n) = unat n" by (simp add: u64_slot_def be_nat_word_bytes unsigned_ucast_eq take_bit_nat_eq_self_iff order_less_trans[OF unsigned_less])
  show "be_nat (v_slot v) = unat v" by (simp add: v_slot_def) (simp add: be_nat_def)
qed (rule be_nat_word_bytes)

lemma erc20_transfer_slots: "erc20_transfer_data to_address amount = ERC20_TRANSFER_SELECTOR @ address_slot to_address @ word_bytes amount"
  by (simp add: erc20_transfer_data_def address_slot_def)

lemmas selector_defs = ERC20_TRANSFER_SELECTOR_def EIP3009_TRANSFER_WITH_AUTHORIZATION_SELECTOR_def
  POLYGON_EXECUTE_META_TRANSACTION_SELECTOR_def EIP2612_PERMIT_SELECTOR_def

lemmas abi_eval = calls_def abi_args_def upt_rec[of _ n for n] selector_defs be_nat_def[of "[a, b, c, d]" for a b c d]

lemma transfer_calls: "calls (erc20_transfer_data to_address amount) 0xa9059cbb [unat to_address, unat amount]"
  by (simp add: abi_eval erc20_transfer_slots)

lemma authorization_calls:
  "calls (encode_eip3009_transfer_with_authorization a b amount va vb nonce sig) 0xe3ee160e
     [unat a, unat b, unat amount, unat va, unat vb, unat nonce, unat (sig_v sig), unat (sig_r sig), unat (sig_s sig)]"
  by (simp add: abi_eval encode_eip3009_transfer_with_authorization_def)

lemma permit_calls:
  "calls (encode_eip2612_permit a b amount deadline sig) 0xd505accf
     [unat a, unat b, unat amount, unat deadline, unat (sig_v sig), unat (sig_r sig), unat (sig_s sig)]"
  by (simp add: abi_eval encode_eip2612_permit_def)

lemma meta_calls:
  assumes "length fn_sig < 2 ^ 256"
  shows "be_nat (take 4 (encode_polygon_execute_meta_transaction a fn_sig sig)) = 0x0c53c51c"
    "abi_args 5 (encode_polygon_execute_meta_transaction a fn_sig sig) =
       [unat a, 160, unat (sig_r sig), unat (sig_s sig), unat (sig_v sig)]"
    "abi_bytes 160 (encode_polygon_execute_meta_transaction a fn_sig sig) = fn_sig"
proof -
  have "unat (of_nat (length fn_sig) :: u256) = length fn_sig" using assms by (simp add: unat_of_nat take_bit_nat_eq_self)
  then show "abi_bytes 160 (encode_polygon_execute_meta_transaction a fn_sig sig) = fn_sig"
    by (simp add: abi_bytes_def encode_polygon_execute_meta_transaction_def selector_defs)
qed (simp_all add: abi_eval encode_polygon_execute_meta_transaction_def)

text \<open>The signature of the order's own key over an EIP-712 message, under the domain of the token.\<close>

definition child_signs :: "collection_env \<Rightarrow> CollectionJob \<Rightarrow> u256 \<Rightarrow> u256 \<Rightarrow> TypedSignature \<Rightarrow> bool" where
  "child_signs env job domain message sig \<longleftrightarrow>
     ce_sign_digest env (cj_signer_key_ref job) (cj_derivation_path job) (eip712_digest (ce_keccak256 env) domain message) = Ok sig"

lemma child_signature_Ok: "child_signature env job domain message = Ok sig \<longleftrightarrow> child_signs env job domain message sig"
  by (simp add: child_signature_def child_signs_def)

text \<open>
  C22: what the calldata of a sweep says, read back by the contract ABI.  The plain strategy calls \<open>transfer\<close>
  with the collection's destination and the amount.  EIP-3009 calls \<open>transferWithAuthorization\<close> from the
  order's address to the destination, and the signature in the call is the order's key's over
  the very sender, recipient, amount, validity window and nonce that the call carries.  The Polygon
  strategy calls \<open>executeMetaTransaction\<close> for the order's address, and the signature is over the inner
  call it carries, which is \<open>transfer\<close> of the amount to the destination.  EIP-2612 calls \<open>permit\<close> for the
  relayer over the amount it signed, and nothing else: the relayer's transferFrom that the documentation
  (docs/AI/tasks/TASK-029.md) has after it is not made.
\<close>
theorem sweep_calldata_says:
  assumes "build_collection_calldata env cfg job amount = Ok data"
  shows "let c = cj_collection job; k = ce_keccak256 env; a = cr_from_address c; b = cr_to_address c; now = unix_seconds env in
    case csc_strategy cfg of
      StrategyStandard \<Rightarrow> calls data 0xa9059cbb [unat b, unat amount]
    | StrategyEip3009 name version _ \<Rightarrow> \<exists>va vb nonce sig.
        calls data 0xe3ee160e [unat a, unat b, unat amount, unat va, unat vb, unat nonce, unat (sig_v sig), unat (sig_r sig), unat (sig_s sig)] \<and>
        child_signs env job (eip712_domain_separator k name version (cr_chain_id c) (cr_token_address c))
          (eip3009_struct_hash k a b amount va vb nonce) sig \<and>
        va = saturating_sub now 60 \<and> vb = now + 86400 \<and> nonce = k (str_bytes (''pay3:eip3009:'' @ show_uuid (cr_id c)))
    | StrategyPolygonMetaTx name version _ \<Rightarrow> \<exists>inner sig.
        be_nat (take 4 data) = 0x0c53c51c \<and> abi_args 5 data = [unat a, 160, unat (sig_r sig), unat (sig_s sig), unat (sig_v sig)] \<and>
        abi_bytes 160 data = inner \<and> calls inner 0xa9059cbb [unat b, unat amount] \<and>
        child_signs env job (polygon_meta_tx_domain_separator k name version (cr_chain_id c) (cr_token_address c))
          (polygon_meta_tx_struct_hash k 0 a inner) sig
    | StrategyEip2612 name version relayer \<Rightarrow> \<exists>deadline sig.
        calls data 0xd505accf [unat a, unat (rel_address relayer), unat amount, unat deadline, unat (sig_v sig), unat (sig_r sig), unat (sig_s sig)] \<and>
        child_signs env job (eip712_domain_separator k name version (cr_chain_id c) (cr_token_address c))
          (eip2612_struct_hash k a (rel_address relayer) amount 0 deadline) sig \<and>
        deadline = now + 86400"
proof -
  have short: "length (erc20_transfer_data b amount) < 2 ^ 256" for b by (simp add: erc20_transfer_slots selector_defs)
  let ?c = "cj_collection job" and ?k = "ce_keccak256 env" and ?now = "unix_seconds env"
  note built = assms[unfolded build_collection_calldata_def Let_def]
  show ?thesis
  proof (cases "csc_strategy cfg")
    case StrategyStandard
    with built have "data = erc20_transfer_data (cr_to_address ?c) amount" by simp
    with StrategyStandard show ?thesis by (simp add: Let_def transfer_calls)
  next
    case (StrategyEip3009 name version relayer)
    let ?va = "saturating_sub ?now 60" and ?vb = "?now + 86400" and ?nonce = "?k (str_bytes (''pay3:eip3009:'' @ show_uuid (cr_id ?c)))"
    from built[unfolded StrategyEip3009 CollectionStrategyConfig.case] obtain sig where sig:
      "child_signature env job (eip712_domain_separator ?k name version (cr_chain_id ?c) (cr_token_address ?c))
         (eip3009_struct_hash ?k (cr_from_address ?c) (cr_to_address ?c) amount ?va ?vb ?nonce) = Ok sig"
      "Ok (encode_eip3009_transfer_with_authorization (cr_from_address ?c) (cr_to_address ?c) amount ?va ?vb ?nonce sig) =
         (Ok data :: CollectionServiceError + bytes)" by (rule bindE_OkE)
    have data: "data = encode_eip3009_transfer_with_authorization (cr_from_address ?c) (cr_to_address ?c) amount ?va ?vb ?nonce sig"
      using sig(2) by (rule sum.inject(2)[THEN iffD1, symmetric])
    show ?thesis unfolding Let_def StrategyEip3009 CollectionStrategyConfig.case data
      using sig(1)[unfolded child_signature_Ok]
        authorization_calls[of "cr_from_address ?c" "cr_to_address ?c" amount ?va ?vb ?nonce sig] by blast
  next
    case (StrategyPolygonMetaTx name version relayer)
    let ?inner = "erc20_transfer_data (cr_to_address ?c) amount"
    from built[unfolded StrategyPolygonMetaTx CollectionStrategyConfig.case] obtain sig where sig:
      "child_signature env job (polygon_meta_tx_domain_separator ?k name version (cr_chain_id ?c) (cr_token_address ?c))
         (polygon_meta_tx_struct_hash ?k 0 (cr_from_address ?c) ?inner) = Ok sig"
      "Ok (encode_polygon_execute_meta_transaction (cr_from_address ?c) ?inner sig) = (Ok data :: CollectionServiceError + bytes)"
      by (rule bindE_OkE)
    have data: "data = encode_polygon_execute_meta_transaction (cr_from_address ?c) ?inner sig"
      using sig(2) by (rule sum.inject(2)[THEN iffD1, symmetric])
    show ?thesis unfolding Let_def StrategyPolygonMetaTx CollectionStrategyConfig.case data
      using sig(1)[unfolded child_signature_Ok] meta_calls[OF short, of "cr_from_address ?c" "cr_to_address ?c" sig] transfer_calls by blast
  next
    case (StrategyEip2612 name version relayer)
    let ?deadline = "?now + 86400"
    from built[unfolded StrategyEip2612 CollectionStrategyConfig.case] obtain sig where sig:
      "child_signature env job (eip712_domain_separator ?k name version (cr_chain_id ?c) (cr_token_address ?c))
         (eip2612_struct_hash ?k (cr_from_address ?c) (rel_address relayer) amount 0 ?deadline) = Ok sig"
      "Ok (encode_eip2612_permit (cr_from_address ?c) (rel_address relayer) amount ?deadline sig) = (Ok data :: CollectionServiceError + bytes)"
      by (rule bindE_OkE)
    have data: "data = encode_eip2612_permit (cr_from_address ?c) (rel_address relayer) amount ?deadline sig"
      using sig(2) by (rule sum.inject(2)[THEN iffD1, symmetric])
    show ?thesis unfolding Let_def StrategyEip2612 CollectionStrategyConfig.case data
      using sig(1)[unfolded child_signature_Ok] permit_calls[of "cr_from_address ?c" "rel_address relayer" amount ?deadline sig] by blast
  qed
qed


text \<open>A concrete service: sweeps of the sample stream, signed by the child accounts.\<close>

definition sample_service :: CollectionServiceConfig where
  "sample_service = \<lparr>csc_chain_id = 137, csc_token_address = 0xA, csc_treasury_address = 0x7EA, csc_problem_funds_address = 0xBAD,
     csc_fees = fees_new 60000 30 2, csc_strategy = StrategyStandard\<rparr>"

definition sample_signer :: "TxHash \<Rightarrow> string \<Rightarrow> string \<Rightarrow> UnsignedTx \<Rightarrow> SignerError + SignedTx" where
  "sample_signer hash key_ref path t =
     Ok \<lparr>sx_request_id = ut_request_id t, sx_chain_id = ut_chain_id t, sx_nonce = ut_nonce t, sx_from = 0xB0B,
        sx_to = ut_to t, sx_tx_hash = hash, sx_raw_tx = [7]\<rparr>"

definition sample_collection_env :: "uuid \<Rightarrow> TxHash \<Rightarrow> collection_env" where
  "sample_collection_env i hash =
     \<lparr>ce_claim_lease_seconds = 60, ce_new_ids = (i, i + 1000), ce_token_balance = \<lambda>_ _. Ok 120,
      ce_estimate_fees = Ok \<lparr>fe_max_fee_per_gas = 20, fe_max_priority_fee_per_gas = 1\<rparr>, ce_pending_nonce = \<lambda>_ _. Ok 4,
      ce_ensure_gas = \<lambda>_. Ok (), ce_health_check = Ok (), ce_sign_transaction = sample_signer hash,
      ce_sign_digest = \<lambda>_ _ _. Err EmptyRequestId, ce_keccak256 = \<lambda>_. 0, ce_to_vec = \<lambda>_. Ok [], ce_unix_now = 0, ce_now = 0\<rparr>"

definition sample_job :: CollectionJob where
  "sample_job = \<lparr>cj_collection = \<lparr>cr_id = 61, cr_owner_sub = ''alice'', cr_order_id = 1, cr_idempotency_key = ''sweep-1'',
       cr_request_hash = ''rh'', cr_child_account_id = 5, cr_chain_id = 137, cr_token_address = 0xA, cr_from_address = 0xB0B,
       cr_to_address = 0x7EA, cr_amount_raw = Some 100, cr_status = ColQueued, cr_outbound_tx_id = None, cr_attempt_count = 0,
       cr_locked_by = None, cr_locked_until = None, cr_error = None, cr_created_at = 20, cr_updated_at = 20\<rparr>,
     cj_signer_key_ref = ''root'', cj_derivation_version = 1, cj_derivation_segment = sample_segment, cj_derivation_path = ''p''\<rparr>"

text \<open>A token that takes authorizations, and a signer that answers with a fixed signature.\<close>

definition gasless_service :: CollectionServiceConfig where
  "gasless_service = sample_service\<lparr>csc_strategy := StrategyEip3009 ''USD Coin'' ''2''
     \<lparr>rel_key_ref = ''relayer'', rel_derivation_path = ''q'', rel_address = 0xFEE\<rparr>\<rparr>"

definition signing_env :: collection_env where
  "signing_env = (sample_collection_env 71 1)\<lparr>ce_sign_digest := \<lambda>_ _ _. Ok \<lparr>sig_v = 27, sig_r = 5, sig_s = 6\<rparr>, ce_unix_now := 1000\<rparr>"

theorem sweep_calldata_says_witness:
  "\<exists>data (nonce :: u256). build_collection_calldata signing_env gasless_service sample_job 100 = Ok data \<and>
     calls data 0xe3ee160e [0xB0B, 0x7EA, 100, 940, 87400, unat nonce, 27, 5, 6]"
proof -
  have "\<exists>data. build_collection_calldata signing_env gasless_service sample_job 100 = Ok data"
    by (simp add: build_collection_calldata_def gasless_service_def signing_env_def sample_collection_env_def child_signature_def Let_def)
  then obtain data where data: "build_collection_calldata signing_env gasless_service sample_job 100 = Ok data" by blast
  have time: "unix_seconds signing_env = 1000" by (simp add: unix_seconds_def signing_env_def)
  have signed: "child_signs signing_env job dom msg sig \<longleftrightarrow> sig = \<lparr>sig_v = 27, sig_r = 5, sig_s = 6\<rparr>" for job dom msg sig
    by (auto simp: child_signs_def signing_env_def)
  from sweep_calldata_says[OF data] show ?thesis
    using data by (auto simp: Let_def gasless_service_def sample_job_def time signed saturating_sub_def)
qed


section \<open>Replacements\<close>

lemma checked_add_uint: "checked_add a b = Some c \<Longrightarrow> uint c = uint a + uint b"
  for a :: u256
  by (simp only: checked_add_Some uint_nat of_nat_add)

lemma bump_raw_amount_Ok:
  assumes "bump_raw_amount a = Ok b"
  shows "uint a + max 1 (uint a div 10) \<le> uint b"
proof -
  let ?t = "a div 10"
  have t: "uint ?t = uint a div 10" by (simp add: uint_div)
  from assms obtain c where c: "checked_add a (if ?t = 0 then 1 else ?t) = Some b"
    by (auto simp: bump_raw_amount_def Let_def ok_or_def split: option.splits)
  have "uint b = uint a + uint (if ?t = 0 then 1 else ?t)" using checked_add_uint[OF c] .
  moreover have "max 1 (uint a div 10) \<le> uint (if ?t = 0 then 1 else ?t)"
  proof (cases "?t = 0")
    case True
    then have "uint ?t = 0" by simp
    then have "uint a div 10 = 0" unfolding t .
    then show ?thesis using True by simp
  next
    case False
    then have "uint ?t \<noteq> 0" by (simp add: uint_0_iff)
    moreover have "0 \<le> uint ?t" by simp
    ultimately show ?thesis using False t by simp
  qed
  ultimately show ?thesis by simp
qed

lemma replacement_fees_of_Ok:
  assumes "replacement_fees_of current old = Ok fees"
  shows "uint (otr_max_fee_per_gas old) + max 1 (uint (otr_max_fee_per_gas old) div 10) \<le> uint (cf_max_fee_per_gas fees)"
    "uint (otr_max_priority_fee_per_gas old) + max 1 (uint (otr_max_priority_fee_per_gas old) div 10)
       \<le> uint (cf_max_priority_fee_per_gas fees)"
    "otr_gas_limit old \<le> cf_gas_limit fees"
proof -
  obtain f p where f: "bump_raw_amount (otr_max_fee_per_gas old) = Ok f" and p: "bump_raw_amount (otr_max_priority_fee_per_gas old) = Ok p"
    and fees: "fees = fees_new (max (cf_gas_limit current) (otr_gas_limit old)) (max (cf_max_fee_per_gas current) f)
       (max (cf_max_priority_fee_per_gas current) p)"
    using assms by (auto simp: replacement_fees_of_def bump_collection_fees_def bindE_eq_Ok fees_new_def)
  have m: "uint b \<le> uint (max a b)" for a b :: u256 by (simp add: max_def word_le_def)
  show "uint (otr_max_fee_per_gas old) + max 1 (uint (otr_max_fee_per_gas old) div 10) \<le> uint (cf_max_fee_per_gas fees)"
    using bump_raw_amount_Ok[OF f] m[of f "cf_max_fee_per_gas current"] by (simp add: fees fees_new_def)
  show "uint (otr_max_priority_fee_per_gas old) + max 1 (uint (otr_max_priority_fee_per_gas old) div 10)
       \<le> uint (cf_max_priority_fee_per_gas fees)"
    using bump_raw_amount_Ok[OF p] m[of p "cf_max_priority_fee_per_gas current"] by (simp add: fees fees_new_def)
  show "otr_gas_limit old \<le> cf_gas_limit fees" by (simp add: fees fees_new_def)
qed

lemma append_collection_audit_Ok:
  assumes "append_collection_audit i e ctx oid cid h payload d = (Ok u, d')"
  shows "\<exists>as. d' = d\<lparr>audit_events := as\<rparr>"
  using assms by (auto simp: append_collection_audit_def andThen_Ok elim!: append_audit_event_Ok)

lemma sign_collection_Ok:
  assumes "sign_collection env cfg job amount fees nonce rid = Ok stx"
  shows "sx_chain_id stx = cr_chain_id (cj_collection job)" "sx_nonce stx = nonce" "sx_from stx = fst (payer_of cfg job)"
    "sx_to stx = cr_token_address (cj_collection job)"
    "\<exists>data. build_collection_calldata env cfg job amount = Ok data"
  using assms
  by (auto simp: sign_collection_def bindE_eq_Ok ensure_signed_tx_matches_job_def Let_def split: prod.splits if_splits)

lemma outbound_record_fees:
  assumes "outbound_record_from_row (new_outbound_row t r (uint (nst_chain_id t)) (uint (nst_gas_limit t)) now) = Ok rec"
  shows "otr_max_fee_per_gas rec = nst_max_fee_per_gas t" "otr_max_priority_fee_per_gas rec = nst_max_priority_fee_per_gas t"
    "otr_gas_limit rec = nst_gas_limit t" "otr_tx_hash rec = nst_tx_hash t" "otr_signed_tx rec = nst_signed_tx t"
    "otr_nonce rec = nst_nonce t" "otr_chain_id rec = nst_chain_id t" "otr_from_address rec = nst_from_address t"
    "otr_to_address rec = nst_to_address t" "otr_status rec = TxSigned" "otr_id rec = nst_id t"
    "otr_last_broadcast_at rec = None"
  using assms
  by (auto simp: outbound_record_from_row_def new_outbound_row_def ord_i64_to_u64_def raw_amount_to_numeric_def bindE_eq_Ok
      word_uint_eq_iff dest!: decimal_to_raw_amount_Ok split: if_splits)

lemma retired_rows:
  assumes "update_collections b sel mv (d\<lparr>outbound_transactions := update_where (\<lambda>r. ob_id r = i) (retire_row now reason)
      (outbound_transactions d) @ [r]\<rparr>) = Ok (cs, d1)"
    and "ob_id r \<noteq> i"
  shows "\<forall>x \<in> set (outbound_transactions d1). ob_id x = i \<longrightarrow> ob_status x = TxReplaced"
proof -
  have "outbound_transactions d1 = update_where (\<lambda>r. ob_id r = i) (retire_row now reason) (outbound_transactions d) @ [r]"
    using update_collections_Ok(1)[OF assms(1)] by simp
  moreover have "ob_status x = TxReplaced"
    if "x \<in> set (update_where (\<lambda>r. ob_id r = i) (retire_row now reason) xs)" "ob_id x = i" for x xs
    using that unfolding set_update_where by (elim imageE) (simp add: retire_row_def split: if_split_asm)
  ultimately show ?thesis using assms(2) by (metis Un_iff empty_iff empty_set set_ConsD set_append)
qed

lemma replace_collection_job_Ok:
  assumes "replace_collection_job env cfg worker cid old reason d = (Ok (Prepared c rec stx), d')"
  obtains job amount nonce current fees rid d1 as where
    "raw_amount_to_u64 (otr_nonce old) = Ok nonce" "replacement_fees_of current old = Ok fees"
    "otr_from_address old = fst (payer_of cfg job)" "otr_status old = TxBroadcast"
    "sign_collection env cfg job amount fees nonce rid = Ok stx"
    "replace_signed_tx (otr_id old) (new_collect_tx (fst (ce_new_ids env)) (cj_collection job) (fst (payer_of cfg job))
       (otr_nonce old) fees stx (Some (otr_id old)) (Some (trim reason))) d = Ok (rec, d1)"
    "d' = d1\<lparr>audit_events := as\<rparr>" "cr_token_address c = cr_token_address (cj_collection job)" "cr_id c = cr_id (cj_collection job)"
proof -
  obtain job amount nonce current fees rid d1 where
    n: "raw_amount_to_u64 (otr_nonce old) = Ok nonce" and f: "replacement_fees_of current old = Ok fees"
    and p: "otr_from_address old = fst (payer_of cfg job)" and cand: "ensure_replacement_candidate (cj_collection job) old = Ok ()"
    and sg: "sign_collection env cfg job amount fees nonce rid = Ok stx"
    and rp: "replace_signed_tx (otr_id old) (new_collect_tx (fst (ce_new_ids env)) (cj_collection job) (fst (payer_of cfg job))
       (otr_nonce old) fees stx (Some (otr_id old)) (Some (trim reason))) d = Ok (rec, d1)"
    and au: "\<exists>i e ctx oid cid h payload u. append_collection_audit i e ctx oid cid h payload d1 = (Ok u, d')"
    and c: "cr_token_address c = cr_token_address (cj_collection job)" "cr_id c = cr_id (cj_collection job)"
  proof -
    obtain i k where ids: "ce_new_ids env = (i, k)" by (cases "ce_new_ids env")
    show thesis
      using assms that
      unfolding replace_collection_job_def Let_def ids prod.case andThen_Ok answer_simps prod.inject
      by (elim exE conjE) (fastforce simp: andThen_Ok ok_or_eq_Ok ids split: if_split_asm)
  qed
  have "otr_status old = TxBroadcast" using cand by (simp add: ensure_replacement_candidate_def split: if_splits)
  moreover obtain as where "d' = d1\<lparr>audit_events := as\<rparr>" using au append_collection_audit_Ok by blast
  ultimately show thesis using that[OF n f p _ sg rp _ c] by blast
qed

text \<open>
  C20: a replacement of a stuck sweep competes with the old transaction and can only take its
  place: it is signed by the same payer for the same nonce of the same chain and recipient, both
  fees rise by a tenth and by one unit at least (the rule by which nodes accept a replacement), the gas
  limit does not fall, the record holds the signed bytes and hash, and the old transaction is retired
  in the same database transaction.
\<close>
theorem replacement_outbids:
  assumes run: "replace_collection_job env cfg worker cid old reason d = (Ok (Prepared c rec stx), d')"
    and old: "select_outbound_for_update (otr_id old) d = Ok old"
  shows "(otr_chain_id rec, otr_from_address rec, otr_to_address rec, otr_nonce rec) =
      (otr_chain_id old, otr_from_address old, otr_to_address old, otr_nonce old) \<and>
    (sx_chain_id stx, sx_from stx, unat (sx_nonce stx), sx_to stx) =
      (otr_chain_id old, otr_from_address old, unat (otr_nonce old), cr_token_address c) \<and>
    (otr_tx_hash rec, otr_signed_tx rec) = (sx_tx_hash stx, sx_raw_tx stx) \<and>
    uint (otr_max_fee_per_gas old) + max 1 (uint (otr_max_fee_per_gas old) div 10) \<le> uint (otr_max_fee_per_gas rec) \<and>
    uint (otr_max_priority_fee_per_gas old) + max 1 (uint (otr_max_priority_fee_per_gas old) div 10)
      \<le> uint (otr_max_priority_fee_per_gas rec) \<and>
    otr_gas_limit old \<le> otr_gas_limit rec \<and>
    (\<forall>x \<in> set (outbound_transactions d'). ob_id x = otr_id old \<longrightarrow> ob_status x = TxReplaced)"
  using run
proof (rule replace_collection_job_Ok)
  fix job :: CollectionJob and amount nonce current and fees :: CollectionFees and rid and d1 :: db and as
  let ?t = "new_collect_tx (fst (ce_new_ids env)) (cj_collection job) (fst (payer_of cfg job))
       (otr_nonce old) fees stx (Some (otr_id old)) (Some (trim reason))"
  assume n: "raw_amount_to_u64 (otr_nonce old) = Ok nonce" and f: "replacement_fees_of current old = Ok fees"
    and p: "otr_from_address old = fst (payer_of cfg job)"
    and sg: "sign_collection env cfg job amount fees nonce rid = Ok stx"
    and rp: "replace_signed_tx (otr_id old) ?t d = Ok (rec, d1)"
    and d': "d' = d1\<lparr>audit_events := as\<rparr>" and c: "cr_token_address c = cr_token_address (cj_collection job)"
  note s = sign_collection_Ok[OF sg] and fee = replacement_fees_of_Ok[OF f]
  have unonce: "unat nonce = unat (otr_nonce old)"
    using n by (auto simp: raw_amount_to_u64_def unsigned_ucast_eq take_bit_nat_eq_self split: if_splits)
  have t: "nst_max_fee_per_gas ?t = cf_max_fee_per_gas fees" "nst_max_priority_fee_per_gas ?t = cf_max_priority_fee_per_gas fees"
    "nst_gas_limit ?t = cf_gas_limit fees" "nst_tx_hash ?t = sx_tx_hash stx" "nst_signed_tx ?t = sx_raw_tx stx"
    "nst_chain_id ?t = cr_chain_id (cj_collection job)"
    by (simp_all add: new_collect_tx_def)
  from rp show ?thesis
  proof (rule replace_signed_tx_Ok)
    fix x old' r cs
    assume x: "find_row (\<lambda>r. ob_id r = otr_id old) (outbound_transactions d) = Some x" "outbound_record_from_row x = Ok old'"
      and r: "r = new_outbound_row ?t (Some (otr_id old)) (uint (nst_chain_id ?t)) (uint (nst_gas_limit ?t)) (db_now d)"
      and rec: "outbound_record_from_row r = Ok rec"
      and same: "otr_nonce old' = nst_nonce ?t" "otr_chain_id old' = nst_chain_id ?t" "otr_from_address old' = nst_from_address ?t"
        "otr_to_address old' = nst_to_address ?t"
      and fresh: "\<not> (\<exists>x \<in> set (outbound_transactions d). ob_id x = ob_id r)"
      and up: "update_collections True (\<lambda>c. col_outbound_tx_id c = Some (otr_id old)) (move_to_replacement (db_now d) (otr_id rec))
       (d\<lparr>outbound_transactions := update_where (\<lambda>r. ob_id r = otr_id old)
                 (retire_row (db_now d) (nst_replacement_reason ?t)) (outbound_transactions d) @ [r]\<rparr>) = Ok (cs, d1)"
    have "old' = old" using old x by (simp add: select_outbound_for_update_def)
    note same = same[unfolded this] and rf = outbound_record_fees[OF rec[unfolded r]]
    have "ob_id r \<noteq> otr_id old" using fresh find_row_Some[OF x(1)] by metis
    then have "\<forall>x \<in> set (outbound_transactions d'). ob_id x = otr_id old \<longrightarrow> ob_status x = TxReplaced"
      using retired_rows[OF up] by (simp add: d')
    then show ?thesis using fee same(2) by (simp add: rf t s c p unonce same[symmetric])
  qed
qed

definition stuck_db :: db where
  "stuck_db = sweep_db\<lparr>
     collections := [(new_collection_row sample_sweep 137 20)\<lparr>col_status := ColConfirming, col_outbound_tx_id := Some 71\<rparr>],
     outbound_transactions := [(new_outbound_row (sample_tx 71 0x1) None 137 60000 20)
       \<lparr>ob_status := TxBroadcast, ob_broadcast_count := 1, ob_last_broadcast_at := Some 20\<rparr>]\<rparr>"

definition stuck_tx :: OutboundTxRecord where
  "stuck_tx = \<lparr>otr_id = 71, otr_chain_id = 137, otr_purpose = Collect, otr_from_address = 0xB0B, otr_to_address = 0x7EA,
     otr_nonce = 4, otr_gas_limit = 60000, otr_max_fee_per_gas = 30, otr_max_priority_fee_per_gas = 2, otr_tx_hash = 1,
     otr_signed_tx = [2], otr_status = TxBroadcast, otr_replacement_of = None, otr_replacement_reason = None,
     otr_broadcast_count = 1, otr_last_broadcast_at = Some 20, otr_receipt_block = None, otr_error = None,
     otr_created_at = 20, otr_updated_at = 20\<rparr>"

lemma strip_keeps_visible:
  "\<forall>w \<in> set ws. \<forall>c \<in> set w. \<not> visible c \<Longrightarrow> \<exists>c \<in> set s. visible c \<Longrightarrow>
     \<exists>c \<in> set (strip_leading ws s). visible c"
proof (induction ws s rule: strip_leading.induct)
  case (1 ws s)
  show ?case
  proof (cases "find (\<lambda>w. w \<noteq> [] \<and> starts_with s w) ws")
    case None
    then show ?thesis using "1.prems"(2) by (simp add: strip_leading.simps[of ws s])
  next
    case (Some w)
    then have w: "w \<in> set ws" "take (length w) s = w" by (auto simp: find_Some_iff starts_with_def)
    have "set s = set w \<union> set (drop (length w) s)" using w(2) by (metis append_take_drop_id set_append)
    then have "\<exists>c \<in> set (drop (length w) s). visible c" using "1.prems" w(1) by blast
    from "1.IH"[OF Some "1.prems"(1) this] show ?thesis using Some by (simp add: strip_leading.simps[of ws s])
  qed
qed

lemma whitespace_invisible: "list_all (\<lambda>w. list_all (\<lambda>c. \<not> visible c) w) utf8_whitespace"
  by code_simp

lemma trim_nonempty: "visible c \<Longrightarrow> trim (c # s) \<noteq> []"
proof -
  assume "visible c"
  then have "\<exists>x \<in> set (strip_leading utf8_whitespace (c # s)). visible x"
    using whitespace_invisible by (intro strip_keeps_visible) (auto simp: list_all_iff)
  then have "\<exists>x \<in> set (strip_leading (map rev utf8_whitespace) (rev (strip_leading utf8_whitespace (c # s)))). visible x"
    using whitespace_invisible by (intro strip_keeps_visible) (auto simp: list_all_iff)
  then show ?thesis by (auto simp: trim_def)
qed

lemma stuck_selected: "select_outbound_for_update 71 stuck_db = Ok stuck_tx"
  by (simp add: stuck_db_def stuck_tx_def outbound_eval collection_eval decimal_to_raw_amount_eval)

lemmas service_eval = replace_collection_job_def must_not_be_empty_def andThen_def transact_def query_def
  get_collection_job_def collection_job_from_record_def ensure_replacement_candidate_def
  payer_of_def raw_amount_to_u64_def current_collection_fees_def collection_fees_from_estimate_def replacement_fees_of_def
  bump_collection_fees_def bump_raw_amount_def fees_new_def assert_replacement_allowed_def replacement_plan_def
  sign_collection_def build_collection_calldata_def unsigned_tx_new_def normalize_request_id_def
  ensure_signed_tx_matches_job_def new_collect_tx_def append_collection_audit_def append_audit_event_def audit_event_from_row_def
  sample_service_def sample_collection_env_def sample_signer_def

lemma stuck_replaced:
  "\<exists>c rec stx d'. replace_collection_job (sample_collection_env 72 2) sample_service ''w'' 61 stuck_tx ''stuck'' stuck_db
      = (Ok (Prepared c rec stx), d')"
  by (simp add: service_eval stuck_db_def stuck_tx_def outbound_eval collection_eval decimal_to_raw_amount_eval
      i64_to_u32_def segment_new_def validate_index_def trim_nonempty visible_def MAX_DERIVATION_INDEX_def checked_add_def
      audit_hash_roundtrip[of "Some h" for h, simplified])

theorem replacement_outbids_witness:
  "\<exists>c rec stx d'. replace_collection_job (sample_collection_env 72 2) sample_service ''w'' 61 stuck_tx ''stuck'' stuck_db
      = (Ok (Prepared c rec stx), d') \<and> otr_nonce rec = 4 \<and> 33 \<le> uint (otr_max_fee_per_gas rec)"
proof -
  obtain c rec stx d' where run: "replace_collection_job (sample_collection_env 72 2) sample_service ''w'' 61 stuck_tx ''stuck'' stuck_db
      = (Ok (Prepared c rec stx), d')" using stuck_replaced by blast
  have id: "otr_id stuck_tx = 71" "otr_max_fee_per_gas stuck_tx = 30" "otr_nonce stuck_tx = 4" by (simp_all add: stuck_tx_def)
  have "otr_nonce rec = 4 \<and> 33 \<le> uint (otr_max_fee_per_gas rec)"
    using replacement_outbids[OF run] stuck_selected by (simp add: id)
  then show ?thesis using run by blast
qed

end
