(* ===== verification/Collector_Props.thy ===== *)
theory Collector_Props
  imports Collector Collection_Service_Props
begin

text \<open>
  The sweep service and the collector as programs over the repositories: what they keep of the
  whole database, when a sweep becomes final, and what a restart does with a transaction that was
  signed but not sent.
\<close>

section \<open>The programs\<close>

lemma runs_call_service [worker_intro]: "runs_commands m \<Longrightarrow> runs_commands (call_service m)"
  by (simp add: runs_commands_def call_service_def)

lemma runs_outcome [worker_intro]:
  "runs_commands m \<Longrightarrow> (\<And>c rec stx. runs_commands (f c rec stx)) \<Longrightarrow>
     runs_commands (case outcome of NoJob \<Rightarrow> m | Prepared c rec stx \<Rightarrow> f c rec stx)"
  by (cases outcome) simp_all

lemma runs_pair [worker_intro]: "(\<And>a b. runs_commands (f a b)) \<Longrightarrow> runs_commands (case p of (a, b) \<Rightarrow> f a b)"
  by (cases p) simp

lemma runs_status [worker_intro]:
  "runs_commands m \<Longrightarrow> runs_commands m' \<Longrightarrow> runs_commands (case s of Success \<Rightarrow> m | Reverted \<Rightarrow> m')"
  by (cases s) simp_all

lemma runs_audit [worker_intro]: "runs_commands (append_collection_audit i e ctx oid cid h payload)"
  unfolding append_collection_audit_def by (intro worker_intro)

lemma runs_create_collection: "runs_commands (create_collection_for_route env cfg inp route)"
  unfolding create_collection_for_route_def Let_def by (intro worker_intro)

lemma runs_prepare [worker_intro]: "runs_commands (prepare_next_collection_job env cfg worker_id)"
  unfolding prepare_next_collection_job_def Let_def by (intro worker_intro)

lemma runs_replace [worker_intro]: "runs_commands (replace_collection_job env cfg worker_id cid old reason)"
  unfolding replace_collection_job_def Let_def by (intro worker_intro)

lemma runs_broadcast [worker_intro]: "runs_commands (broadcast_outbound env cid out)"
  unfolding broadcast_outbound_def by (intro worker_intro)

lemma runs_receipt [worker_intro]: "runs_commands (check_outbound_receipt env cfg w cid out)"
  unfolding check_outbound_receipt_def by (intro worker_intro)

lemma runs_collector: "runs_commands (collector_tick env cfg)"
  unfolding collector_tick_def prepare_and_broadcast_def Let_def by (intro worker_intro)

interpretation create_collection_prog: worker_program "create_collection_for_route env cfg inp route" for env cfg inp route
  by unfold_locales (rule runs_create_collection)

interpretation collector_prog: worker_program "collector_tick env cfg" for env cfg
  by unfold_locales (rule runs_collector)


section \<open>Claims\<close>

lemma claimable_outbound_mem:
  "(c, x) \<in> set (claimable_outbound cs os chain token d) \<longleftrightarrow>
     c \<in> set (collections d) \<and> x \<in> set (outbound_transactions d) \<and> col_outbound_tx_id c = Some (ob_id x) \<and>
     ob_status x = os \<and> col_status c = cs \<and> col_chain_id c = chain \<and> col_token_address c = token \<and> lease_free (db_now d) c"
  by (auto simp: claimable_outbound_def)

lemma claim_outbound_Ok:
  assumes "claim_outbound cs os lease w chain_id token d = Ok (r, d1)"
  obtains (free) "r = Ok None" "d1 = d" "claimable_outbound cs os (uint chain_id) token d = []"
  | (claimed) c x until where "c \<in> set (collections d)" "x \<in> set (outbound_transactions d)"
    "col_outbound_tx_id c = Some (ob_id x)" "ob_status x = os" "col_status c = cs"
    "r = mapE (\<lambda>rec. Some (col_id c, rec)) (outbound_record_from_row x)"
    "d1 = d\<lparr>collections := update_where (\<lambda>r. col_id r = col_id c)
        (\<lambda>r. r\<lparr>col_locked_by := Some w, col_locked_until := Some until, col_updated_at := db_now d\<rparr>) (collections d)\<rparr>"
proof -
  obtain ls chain where chain: "ord_u64_to_i64 chain_id ''chain_id'' = Ok chain" and
    rest: "(case first_row (claimable_outbound cs os chain token d) of
       None \<Rightarrow> Ok (Ok None, d)
     | Some (c, x) \<Rightarrow>
         bindE (update_collections False (\<lambda>r. col_id r = col_id c)
             (\<lambda>r. r\<lparr>col_locked_by := Some w, col_locked_until := Some (db_now d + ls * one_second),
                    col_updated_at := db_now d\<rparr>) d) (\<lambda>(_, d1).
         Ok (mapE (\<lambda>rec. Some (col_id c, rec)) (outbound_record_from_row x), d1))) = Ok (r, d1)"
    using assms unfolding claim_outbound_def by (elim bindE_OkE)
  have chain': "chain = uint chain_id" using chain by (simp add: ord_u64_to_i64_def split: if_splits)
  show thesis
  proof (cases "claimable_outbound cs os chain token d")
    case Nil
    then show ?thesis using rest free by (simp add: first_row_def chain')
  next
    case (Cons p ps)
    obtain c x where p: "p = (c, x)" by (cases p)
    have mem: "(c, x) \<in> set (claimable_outbound cs os chain token d)" by (simp add: Cons p)
    note m = mem[unfolded claimable_outbound_mem]
    from rest obtain cs' where
      up: "update_collections False (\<lambda>r. col_id r = col_id c)
             (\<lambda>r. r\<lparr>col_locked_by := Some w, col_locked_until := Some (db_now d + ls * one_second),
                    col_updated_at := db_now d\<rparr>) d = Ok (cs', d1)"
      and r: "r = mapE (\<lambda>rec. Some (col_id c, rec)) (outbound_record_from_row x)"
      by (auto simp: Cons p first_row_def bindE_eq_Ok)
    show ?thesis using claimed[of c x] m r update_collections_Ok(1)[OF up] by blast
  qed
qed


section \<open>Confirmation\<close>

lemma broadcast_outbound_Ok:
  assumes "broadcast_outbound env cid out d = (Ok outcome, d')"
  shows "\<exists>rec. outcome = CollectorBroadcast cid rec \<and> mark_broadcast (otr_id out) d = Ok (rec, d') \<and>
    cle_broadcast env (otr_signed_tx out) = Ok (otr_tx_hash out)"
  using assms by (auto simp: broadcast_outbound_def andThen_Ok split: if_splits)

lemma service_outcome:
  assumes "(case outcome of NoJob \<Rightarrow> answer (Ok other) | Prepared c rec stx \<Rightarrow> broadcast_outbound env (cr_id c) rec) d = (Ok result, d')"
  shows "result = other \<or> (\<exists>cid rec. result = CollectorBroadcast cid rec)"
  using assms by (cases outcome) (auto dest!: broadcast_outbound_Ok)

lemma final_receipt:
  assumes "receipt_block_confirmed_and_canonical src n b = Ok True"
  shows "\<exists>head blk. src_latest_head src = Ok head \<and> has_confirmations b head n \<and>
    src_block_by_number src (cb_number b) = Ok blk \<and> blk_hash blk = cb_hash b"
  using assms by (auto simp: receipt_block_confirmed_and_canonical_def bindE_eq_Ok split: if_splits)

lemma receipt_confirmed:
  assumes "check_outbound_receipt env cfg w cid out d = (Ok (CollectorConfirmed cid' rec), d')"
  shows "\<exists>receipt. cle_receipt env (otr_tx_hash out) = Ok (Some receipt) \<and> rcpt_tx_hash receipt = otr_tx_hash out \<and>
    rcpt_status receipt = Success \<and> cid' = cid \<and>
    receipt_block_confirmed_and_canonical (cle_source env) (ccf_min_confirmations cfg) (rcpt_block receipt) = Ok True \<and>
    mark_confirmed (otr_id out) (rcpt_block receipt) d = Ok (rec, d')"
proof -
  obtain found where f: "cle_receipt env (otr_tx_hash out) = Ok found" using assms by (auto simp: check_outbound_receipt_def andThen_Ok)
  show ?thesis
  proof (cases found)
    case None
    then show ?thesis
      using assms f
      by (auto simp: check_outbound_receipt_def andThen_Ok dest!: service_outcome split: if_splits)
  next
    case (Some receipt)
    then show ?thesis
      using assms f
      by (auto simp: check_outbound_receipt_def andThen_Ok split: if_splits TransactionStatus.splits)
  qed
qed

lemma tick_confirmed:
  assumes "collector_tick env cfg d = (Ok (CollectorConfirmed cid rec), d')"
  shows "\<exists>out d1. claim_broadcast_collect_tx_for_receipt (cle_lease_seconds env) (trim (ccf_worker_id cfg)) (ccf_chain_id cfg)
      (ccf_token_address cfg) d = Ok (Ok (Some (cid, out)), d1) \<and>
    check_outbound_receipt env cfg (trim (ccf_worker_id cfg)) cid out d1 = (Ok (CollectorConfirmed cid rec), d')"
proof -
  let ?w = "trim (ccf_worker_id cfg)"
  let ?claim = "claim_broadcast_collect_tx_for_receipt (cle_lease_seconds env) ?w (ccf_chain_id cfg) (ccf_token_address cfg)"
  obtain signed d0 where c1: "claim_signed_collect_tx_for_broadcast (cle_lease_seconds env) ?w (ccf_chain_id cfg)
      (ccf_token_address cfg) d = Ok (Ok signed, d0)"
    and rest: "(case signed of Some (collection_id, out) \<Rightarrow> broadcast_outbound env collection_id out
      | None \<Rightarrow> andThen (transact_committed CollectorRepository ?claim) (\<lambda>checkable.
          case checkable of Some (collection_id, out) \<Rightarrow> check_outbound_receipt env cfg ?w collection_id out
          | None \<Rightarrow> prepare_and_broadcast env ?w)) d0 = (Ok (CollectorConfirmed cid rec), d')"
    using assms by (auto simp: collector_tick_def Let_def andThen_Ok)
  have "signed = None" using rest by (cases signed) (auto dest!: broadcast_outbound_Ok)
  then have "d0 = d" using c1 unfolding claim_signed_collect_tx_for_broadcast_def
    by (auto elim!: claim_outbound_Ok simp: mapE_def split: sum.splits)
  from rest \<open>signed = None\<close> obtain found d1 where c2: "?claim d = Ok (Ok found, d1)"
    and go: "(case found of Some (collection_id, out) \<Rightarrow> check_outbound_receipt env cfg ?w collection_id out
          | None \<Rightarrow> prepare_and_broadcast env ?w) d1 = (Ok (CollectorConfirmed cid rec), d')"
    by (auto simp: andThen_Ok \<open>d0 = d\<close>)
  show ?thesis
  proof (cases found)
    case None
    then show ?thesis
      using go by (auto simp: prepare_and_broadcast_def andThen_Ok dest!: service_outcome)
  next
    case (Some p)
    then obtain i out where p: "found = Some (i, out)" by (cases p) simp
    then have run: "check_outbound_receipt env cfg ?w i out d1 = (Ok (CollectorConfirmed cid rec), d')" using go by simp
    then have "i = cid" using receipt_confirmed by blast
    then show ?thesis using c2 p run by blast
  qed
qed

lemma outbound_record_hash:
  assumes "outbound_record_from_row x = Ok out"
  shows "otr_id out = ob_id x" "otr_tx_hash out = ob_tx_hash x" "otr_signed_tx out = ob_signed_tx x" "otr_status out = ob_status x"
  using assms by (auto simp: outbound_record_from_row_def elim!: bindE_OkE)

lemma claimed_rows:
  assumes "claim_outbound cs os lease w chain_id token d = Ok (Ok (Some (cid, out)), d1)"
  shows "\<exists>x. x \<in> set (outbound_transactions d) \<and> outbound_record_from_row x = Ok out \<and> ob_status x = os \<and>
    outbound_transactions d1 = outbound_transactions d \<and> account_nonces d1 = account_nonces d \<and>
    (\<exists>c \<in> set (collections d1). col_id c = cid \<and> col_outbound_tx_id c = Some (ob_id x) \<and> col_status c = cs)"
  using assms
proof (cases rule: claim_outbound_Ok)
  case (claimed c x until)
  let ?f = "\<lambda>r. r\<lparr>col_locked_by := Some w, col_locked_until := Some until, col_updated_at := db_now d\<rparr>"
  have rec: "outbound_record_from_row x = Ok out" "cid = col_id c"
    using claimed(6) by (auto simp: mapE_def split: sum.splits)
  have "?f c \<in> set (collections d1)"
    using update_where_mem[OF claimed(1), of "\<lambda>r. col_id r = col_id c" ?f] by (simp add: claimed(7))
  moreover have "col_id (?f c) = cid \<and> col_outbound_tx_id (?f c) = Some (ob_id x) \<and> col_status (?f c) = cs"
    using claimed rec by simp
  ultimately have "\<exists>c \<in> set (collections d1). col_id c = cid \<and> col_outbound_tx_id c = Some (ob_id x) \<and> col_status c = cs" ..
  moreover have "outbound_transactions d1 = outbound_transactions d" "account_nonces d1 = account_nonces d"
    by (simp_all add: claimed(7))
  ultimately show ?thesis using claimed(2,4) rec(1) by blast
qed simp

lemma marked_record:
  assumes "mark_outbound oid f e1 S g e2 d = Ok (rec, d')" "distinct (map ob_id (outbound_transactions d))"
    and "x \<in> set (outbound_transactions d)" "ob_id x = oid"
  shows "outbound_record_from_row (f x) = Ok rec"
  using assms(1)
proof (rule mark_outbound_Ok)
  fix r
  assume r: "r \<in> set (outbound_transactions d)" "markable oid r" "outbound_record_from_row (f r) = Ok rec"
  have "r = x" using assms(2-4) r(1,2) by (auto simp: markable_def distinct_map inj_on_def)
  then show ?thesis using r(3) by simp
qed

lemma marked_collection:
  assumes "mark_outbound oid f e1 S g e2 d = Ok (rec, d')"
    and "c \<in> set (collections d)" "col_outbound_tx_id c = Some oid" "col_status c \<in> S"
  shows "g c \<in> set (collections d')"
  using assms(1)
proof (rule mark_outbound_Ok)
  assume "d' = d\<lparr>outbound_transactions := update_where (markable oid) f (outbound_transactions d),
            collections := update_where (\<lambda>c. col_outbound_tx_id c = Some oid \<and> col_status c \<in> S) g (collections d)\<rparr>"
  then show ?thesis
    using update_where_mem[OF assms(2), of "\<lambda>c. col_outbound_tx_id c = Some oid \<and> col_status c \<in> S" g] assms(3,4) by simp
qed

lemma marked_confirmed:
  assumes "mark_confirmed oid b d = Ok (rec, d')" "distinct (map ob_id (outbound_transactions d))"
    and x: "x \<in> set (outbound_transactions d)" "ob_id x = oid"
    and c: "c \<in> set (collections d)" "col_outbound_tx_id c = Some oid" "col_status c = ColConfirming"
  shows "otr_id rec = oid \<and> otr_tx_hash rec = ob_tx_hash x \<and> otr_status rec = TxConfirmed \<and> otr_receipt_block rec = Some b \<and>
    (\<exists>c' \<in> set (collections d'). col_id c' = col_id c \<and> col_outbound_tx_id c' = Some oid \<and> col_status c' = ColConfirmed)"
proof -
  let ?f = "\<lambda>r. r\<lparr>ob_status := TxConfirmed, ob_receipt_block_number := Some (uint (cb_number b)),
              ob_receipt_block_hash := Some (cb_hash b), ob_error := None, ob_updated_at := db_now d\<rparr>"
  let ?g = "\<lambda>c. c\<lparr>col_status := ColConfirmed, col_locked_by := None, col_locked_until := None, col_error := None,
              col_updated_at := db_now d\<rparr>"
  have run: "mark_outbound oid ?f '' is not confirmable'' {ColConfirming} ?g '' is not attached to a confirmable collection'' d
      = Ok (rec, d')"
    using assms(1) by (auto simp: mark_confirmed_def ord_u64_to_i64_def elim!: bindE_OkE split: if_splits)
  have row: "outbound_record_from_row (?f x) = Ok rec" using run assms(2) x by (rule marked_record)
  have "?g c \<in> set (collections d')" using marked_collection[OF run c(1,2)] c(3) by simp
  then have "\<exists>c' \<in> set (collections d'). col_id c' = col_id c \<and> col_outbound_tx_id c' = Some oid \<and> col_status c' = ColConfirmed"
    by (rule bexI[rotated]) (simp add: c)
  moreover have "otr_receipt_block rec = Some b"
    using row by (auto simp: outbound_record_from_row_def optional_receipt_block_def ord_i64_to_u64_def elim!: bindE_OkE split: if_splits)
  ultimately show ?thesis using outbound_record_hash[OF row] x(2) by simp
qed

text \<open>
  C17: the collector calls a sweep confirmed only on final evidence: the node returned a successful
  receipt of exactly this transaction, the receipt's block has the configured number of confirmations
  under the head, and the chain still has that block at that height.  The transaction and the
  collection that was claimed are then both confirmed, with the receipt's block on record.
\<close>
theorem collector_confirms_final:
  assumes run: "collector_tick env cfg d = (Ok (CollectorConfirmed cid rec), d')" and ok: "system_ok d"
  shows "\<exists>receipt head blk.
    cle_receipt env (otr_tx_hash rec) = Ok (Some receipt) \<and> rcpt_tx_hash receipt = otr_tx_hash rec \<and>
    rcpt_status receipt = Success \<and> src_latest_head (cle_source env) = Ok head \<and>
    has_confirmations (rcpt_block receipt) head (ccf_min_confirmations cfg) \<and>
    src_block_by_number (cle_source env) (cb_number (rcpt_block receipt)) = Ok blk \<and>
    blk_hash blk = cb_hash (rcpt_block receipt) \<and>
    otr_status rec = TxConfirmed \<and> otr_receipt_block rec = Some (rcpt_block receipt) \<and>
    (\<exists>c \<in> set (collections d'). col_id c = cid \<and> col_outbound_tx_id c = Some (otr_id rec) \<and> col_status c = ColConfirmed)"
proof -
  obtain out d1 where
    claim: "claim_outbound ColConfirming TxBroadcast (cle_lease_seconds env) (trim (ccf_worker_id cfg)) (ccf_chain_id cfg)
        (ccf_token_address cfg) d = Ok (Ok (Some (cid, out)), d1)"
    and chk: "check_outbound_receipt env cfg (trim (ccf_worker_id cfg)) cid out d1 = (Ok (CollectorConfirmed cid rec), d')"
    using tick_confirmed[OF run] unfolding claim_broadcast_collect_tx_for_receipt_def by blast
  obtain receipt where rc: "cle_receipt env (otr_tx_hash out) = Ok (Some receipt)" "rcpt_tx_hash receipt = otr_tx_hash out"
      "rcpt_status receipt = Success"
    and fin: "receipt_block_confirmed_and_canonical (cle_source env) (ccf_min_confirmations cfg) (rcpt_block receipt) = Ok True"
    and mark: "mark_confirmed (otr_id out) (rcpt_block receipt) d1 = Ok (rec, d')"
    using receipt_confirmed[OF chk] by blast
  obtain x c where x: "x \<in> set (outbound_transactions d)" "outbound_record_from_row x = Ok out"
    and d1: "outbound_transactions d1 = outbound_transactions d"
    and c: "c \<in> set (collections d1)" "col_id c = cid" "col_outbound_tx_id c = Some (ob_id x)" "col_status c = ColConfirming"
    using claimed_rows[OF claim] by blast
  note h = outbound_record_hash[OF x(2)]
  have uniq: "distinct (map ob_id (outbound_transactions d1))" using ok by (simp add: system_ok_def sweep_ok_def d1)
  have marked: "otr_id rec = otr_id out \<and> otr_tx_hash rec = ob_tx_hash x \<and> otr_status rec = TxConfirmed \<and>
    otr_receipt_block rec = Some (rcpt_block receipt) \<and>
    (\<exists>c' \<in> set (collections d'). col_id c' = col_id c \<and> col_outbound_tx_id c' = Some (otr_id out) \<and> col_status c' = ColConfirmed)"
    by (rule marked_confirmed[OF mark uniq]) (use x(1) h c in \<open>simp_all add: d1\<close>)
  obtain head blk where fr: "src_latest_head (cle_source env) = Ok head"
    "has_confirmations (rcpt_block receipt) head (ccf_min_confirmations cfg)"
    "src_block_by_number (cle_source env) (cb_number (rcpt_block receipt)) = Ok blk" "blk_hash blk = cb_hash (rcpt_block receipt)"
    using final_receipt[OF fin] by blast
  show ?thesis
    by (rule exI[of _ receipt], rule exI[of _ head], rule exI[of _ blk]) (use rc fr marked h c(2) in simp)
qed


section \<open>Recovery\<close>

lemma mark_broadcast_keeps:
  assumes "mark_broadcast oid d = Ok (rec, d')"
  shows "map tx_party (outbound_transactions d') = map tx_party (outbound_transactions d)"
    "map ob_signed_tx (outbound_transactions d') = map ob_signed_tx (outbound_transactions d)"
    "account_nonces d' = account_nonces d"
proof -
  let ?f = "\<lambda>r. r\<lparr>ob_status := TxBroadcast, ob_broadcast_count := ob_broadcast_count r + 1,
              ob_last_broadcast_at := Some (db_now d), ob_error := None, ob_updated_at := db_now d\<rparr>"
  from assms[unfolded mark_broadcast_def]
  have "outbound_transactions d' = update_where (markable oid) ?f (outbound_transactions d) \<and> account_nonces d' = account_nonces d"
    by (rule mark_outbound_Ok) simp
  moreover have "map tx_party (update_where (markable oid) ?f xs) = map tx_party xs"
    "map ob_signed_tx (update_where (markable oid) ?f xs) = map ob_signed_tx xs" for xs
    by (rule map_update_where; simp add: tx_party_def)+
  ultimately show "map tx_party (outbound_transactions d') = map tx_party (outbound_transactions d)"
    "map ob_signed_tx (outbound_transactions d') = map ob_signed_tx (outbound_transactions d)"
    "account_nonces d' = account_nonces d" by simp_all
qed

definition wallet_view where
  "wallet_view d = (account_nonces d, map tx_party (outbound_transactions d), map ob_signed_tx (outbound_transactions d))"

lemma broadcast_outbound_keeps:
  assumes "broadcast_outbound env cid out d = (r, d')"
  shows "wallet_view d' = wallet_view d"
  using assms mark_broadcast_keeps
  by (auto simp: broadcast_outbound_def andThen_def transact_def wallet_view_def split: sum.splits if_splits)

text \<open>
  C18: after a crash between signing and sending, the signed transaction is sent again before
  anything new is signed: while a signed transaction waits, a tick reserves no nonce, stores and
  removes no transaction, and keeps the identity, payer, nonce, recipient and signed bytes of every stored
  one (only the progress of the resent row moves: its status and its count of broadcasts), whatever
  fails; when it succeeds, the bytes that were sent are the ones on record and the node answered
  with the hash on record.
\<close>
theorem collector_resends_first:
  assumes run: "collector_tick env cfg d = (r, d')"
    and waiting: "claimable_outbound ColTransferring TxSigned (uint (ccf_chain_id cfg)) (ccf_token_address cfg) d \<noteq> []"
  shows "wallet_view d' = wallet_view d \<and>
    (\<forall>outcome. r = Ok outcome \<longrightarrow> (\<exists>cid rec x. outcome = CollectorBroadcast cid rec \<and> x \<in> set (outbound_transactions d) \<and>
       ob_status x = TxSigned \<and> cle_broadcast env (ob_signed_tx x) = Ok (ob_tx_hash x)))"
proof -
  let ?claim = "claim_signed_collect_tx_for_broadcast (cle_lease_seconds env) (trim (ccf_worker_id cfg)) (ccf_chain_id cfg)
      (ccf_token_address cfg)"
  show ?thesis
  proof (cases "collector_validate cfg")
    case (Inl e)
    then show ?thesis using run by (auto simp: collector_tick_def andThen_def Let_def)
  next
    case ok: (Inr u)
    show ?thesis
    proof (cases "?claim d")
      case (Inl e)
      then show ?thesis using run ok by (auto simp: collector_tick_def andThen_def transact_committed_def Let_def)
    next
      case (Inr p)
      then obtain res d1 where claim: "?claim d = Ok (res, d1)" by (cases p) simp
      from claim[unfolded claim_signed_collect_tx_for_broadcast_def] show ?thesis
      proof (cases rule: claim_outbound_Ok)
        case free
        then show ?thesis using waiting by simp
      next
        case (claimed c x until)
        have view: "wallet_view d1 = wallet_view d" by (simp add: claimed(7) wallet_view_def)
        show ?thesis
        proof (cases "outbound_record_from_row x")
          case (Inl e)
          then have "r = Err (CollectorRepository e)" "d' = d1"
            using run ok claim claimed(6)
            by (simp_all add: collector_tick_def andThen_def transact_committed_def Let_def)
          then show ?thesis using view by simp
        next
          case rec: (Inr out)
          have b: "broadcast_outbound env (col_id c) out d1 = (r, d')"
            using run ok claim claimed(6) rec by (simp add: collector_tick_def andThen_def transact_committed_def Let_def)
          have "\<exists>cid rec x. outcome = CollectorBroadcast cid rec \<and> x \<in> set (outbound_transactions d) \<and>
              ob_status x = TxSigned \<and> cle_broadcast env (ob_signed_tx x) = Ok (ob_tx_hash x)" if "r = Ok outcome" for outcome
            using broadcast_outbound_Ok[OF b[unfolded that]] claimed(2,4) outbound_record_hash[OF rec] by auto
          then show ?thesis using broadcast_outbound_keeps[OF b] view by simp
        qed
      qed
    qed
  qed
qed

text \<open>Concrete ticks: a signed transaction that waits, and a sent one whose receipt is final.\<close>

definition sample_collector :: CollectionCollectorConfig where
  "sample_collector = \<lparr>ccf_worker_id = ''w'', ccf_chain_id = 137, ccf_token_address = 0xA, ccf_replacement_stuck_after = 600,
     ccf_min_confirmations = 2\<rparr>"

definition sample_collector_env :: collector_env where
  "sample_collector_env = \<lparr>cle_lease_seconds = 60, cle_service = sample_service, cle_prepare = sample_collection_env 72 2,
     cle_replace = sample_collection_env 73 3, cle_broadcast = \<lambda>_. Ok 1,
     cle_receipt = \<lambda>_. Ok (Some \<lparr>rcpt_tx_hash = 1, rcpt_block = \<lparr>cb_number = 50, cb_hash = 0x50\<rparr>, rcpt_status = Success,
       rcpt_gas_used = None\<rparr>),
     cle_source = \<lparr>src_latest_head = Ok \<lparr>cb_number = 60, cb_hash = 0x60\<rparr>, src_safe_head = Err (RpcUnavailable []),
       src_finalized_head = Err (RpcUnavailable []),
       src_block_by_number = \<lambda>n. Ok \<lparr>blk_number = n, blk_hash = 0x50, blk_parent_hash = 0, blk_timestamp = 0\<rparr>,
       src_transfer_logs = \<lambda>_. Ok []\<rparr>,
     cle_now = 20\<rparr>"

lemma attached_system: "system_ok attached_db"
proof -
  have "schema_ok attached_db"
    by (simp add: schema_ok_def keys_ok_def payments_ok_def payment_row_ok_def payment_references_def cursor_ok_def
        attached_db_def sweep_db_def late_payment_def sample_defs)
  moreover have "ledger_ok attached_db"
    by (auto simp: ledger_ok_def order_settled_def confirmed_accepted_total_def non_orphaned_accepted_total_def
        confirmed_on_time_sum_def non_orphaned_on_time_sum_def accepted_problem_raw_def payments_of_def
        recompute_status_from_totals_def attached_db_def sweep_db_def late_payment_def sample_defs)
  moreover have "windows_ok attached_db"
    by (simp add: windows_ok_def attached_db_def sweep_db_def sample_defs)
  ultimately show ?thesis using attached_ok by (simp add: system_ok_def repo_ok_def)
qed

lemma stuck_system: "system_ok stuck_db"
proof -
  have "base_tables stuck_db = base_tables attached_db" by (simp add: base_tables_def stuck_db_def attached_db_def)
  moreover have "repo_ok attached_db" using attached_system by (simp add: system_ok_def)
  ultimately have "repo_ok stuck_db" by (metis base_tables_repo)
  moreover have "sweep_ok stuck_db"
    by (simp add: sweep_ok_def one_active_per_nonce_def one_active_per_child_def lifecycle_row_def tx_pays_for_def
      statuses_agree_def treasury_only_def stuck_db_def new_collection_row_def new_outbound_row_def sample_tx_def sample_sweep_def
      sweep_db_def)
  ultimately show ?thesis by (simp add: system_ok_def)
qed

lemmas tick_eval = collector_tick_def collector_validate_def andThen_def transact_committed_def transact_def
  claim_signed_collect_tx_for_broadcast_def claim_broadcast_collect_tx_for_receipt_def claim_outbound_def claimable_outbound_def
  lease_free_def broadcast_outbound_def check_outbound_receipt_def receipt_block_confirmed_and_canonical_def has_confirmations_def
  confirmations_against_def   mark_confirmed_def mark_broadcast_def mark_outbound_def markable_def sample_collector_def sample_collector_env_def
  outbound_eval collection_eval decimal_to_raw_amount_eval trim_nonempty visible_def

lemma stuck_confirmed: "\<exists>rec d'. collector_tick sample_collector_env sample_collector stuck_db = (Ok (CollectorConfirmed 61 rec), d')"
  by (simp add: tick_eval stuck_db_def)

lemma attached_resent: "\<exists>rec d'. collector_tick sample_collector_env sample_collector attached_db = (Ok (CollectorBroadcast 61 rec), d')"
  by (simp add: tick_eval)

theorem collector_confirms_final_witness:
  "\<exists>rec d'. collector_tick sample_collector_env sample_collector stuck_db = (Ok (CollectorConfirmed 61 rec), d') \<and>
     otr_status rec = TxConfirmed \<and> (\<exists>c \<in> set (collections d'). col_id c = 61 \<and> col_status c = ColConfirmed)"
proof -
  obtain rec d' where run: "collector_tick sample_collector_env sample_collector stuck_db = (Ok (CollectorConfirmed 61 rec), d')"
    using stuck_confirmed by blast
  from collector_confirms_final[OF run stuck_system] run show ?thesis by blast
qed

theorem collector_resends_first_witness:
  "\<exists>rec d'. collector_tick sample_collector_env sample_collector attached_db = (Ok (CollectorBroadcast 61 rec), d') \<and>
     wallet_view d' = wallet_view attached_db"
proof -
  obtain rec d' where run: "collector_tick sample_collector_env sample_collector attached_db = (Ok (CollectorBroadcast 61 rec), d')"
    using attached_resent by blast
  have "claimable_outbound ColTransferring TxSigned (uint (ccf_chain_id sample_collector)) (ccf_token_address sample_collector)
      attached_db \<noteq> []"
    by (simp add: claimable_outbound_def sample_collector_def lease_free_def outbound_eval collection_eval)
  from collector_resends_first[OF run this] run show ?thesis by blast
qed

end
