(* ===== verification/Auth.thy ===== *)
theory Auth
  imports Permit "HOL-Library.AList" "HOL-Library.List_Lexorder" "HOL-Library.Char_ord"
begin

text \<open>
  Authentication, \<open>src/src/auth\<close>: scopes, bearer tokens, the key set with its remote refresh and the
  verification of a token.  The \<open>jsonwebtoken\<close> crate (header decoding, signature check with its own
  claim validation, keys made from a JWK), the JSON reader, the HTTP client and the clocks are
  arguments.  A decoding key is of any type.
\<close>

section \<open>Errors and scopes\<close>

datatype AuthError =
    MissingBearerToken
  | InvalidAuthorizationScheme
  | MalformedBearerToken
  | MissingKeyId
  | UnknownKeyId
  | UnsupportedAlgorithm
  | InvalidKey
  | InvalidJwks
  | DuplicateKeyId string
  | InvalidToken
  | TokenExpired
  | TokenNotYetValid
  | InvalidIssuer
  | InvalidAudience
  | MissingClaim string
  | InvalidSubject
  | InvalidIssuedAt
  | MissingScope string
  | InsufficientScope string
  | RemoteJwksFetchFailed string

definition auth_error_text :: "AuthError \<Rightarrow> string" where
  "auth_error_text e = (case e of
      MissingBearerToken \<Rightarrow> ''missing bearer token''
    | InvalidAuthorizationScheme \<Rightarrow> ''invalid authorization scheme''
    | MalformedBearerToken \<Rightarrow> ''malformed bearer token''
    | MissingKeyId \<Rightarrow> ''missing jwt key id''
    | UnknownKeyId \<Rightarrow> ''unknown jwt key id''
    | UnsupportedAlgorithm \<Rightarrow> ''unsupported jwt algorithm''
    | InvalidKey \<Rightarrow> ''invalid jwt key''
    | InvalidJwks \<Rightarrow> ''invalid jwt jwks''
    | DuplicateKeyId kid \<Rightarrow> ''duplicate jwt key id: '' @ kid
    | InvalidToken \<Rightarrow> ''invalid token''
    | TokenExpired \<Rightarrow> ''token expired''
    | TokenNotYetValid \<Rightarrow> ''token not yet valid''
    | InvalidIssuer \<Rightarrow> ''invalid issuer''
    | InvalidAudience \<Rightarrow> ''invalid audience''
    | MissingClaim c \<Rightarrow> ''missing claim: '' @ c
    | InvalidSubject \<Rightarrow> ''invalid subject''
    | InvalidIssuedAt \<Rightarrow> ''invalid issued-at''
    | MissingScope s \<Rightarrow> ''missing scope: '' @ s
    | InsufficientScope s \<Rightarrow> ''insufficient scope: '' @ s
    | RemoteJwksFetchFailed m \<Rightarrow> ''remote jwks fetch failed: '' @ m)"

definition ORDERS_CREATE_SCOPE :: string where "ORDERS_CREATE_SCOPE = ''orders:create''"
definition ORDERS_READ_SCOPE :: string where "ORDERS_READ_SCOPE = ''orders:read''"
definition ORDERS_VERIFY_SCOPE :: string where "ORDERS_VERIFY_SCOPE = ''orders:verify''"
definition COLLECTIONS_CREATE_SCOPE :: string where "COLLECTIONS_CREATE_SCOPE = ''collections:create''"
definition COLLECTIONS_READ_SCOPE :: string where "COLLECTIONS_READ_SCOPE = ''collections:read''"

text \<open>A \<open>BTreeSet\<close> of strings: the members in byte order.\<close>

type_synonym ScopeSet = "string list"

definition scope_insert :: "string \<Rightarrow> ScopeSet \<Rightarrow> ScopeSet" where
  "scope_insert scope scopes =
     (let s = trim scope in if s = [] \<or> s \<in> set scopes then scopes else insort s scopes)"

definition scope_extend :: "ScopeSet \<Rightarrow> string list \<Rightarrow> ScopeSet" where
  "scope_extend scopes values = fold scope_insert values scopes"

definition scope_require :: "ScopeSet \<Rightarrow> string \<Rightarrow> AuthError + unit" where
  "scope_require scopes scope =
     (if scope \<in> set scopes then Ok ()
      else if scopes = [] then Err (MissingScope scope)
      else Err (InsufficientScope scope))"

text \<open>\<open>str::split_whitespace\<close>: the words between runs of white space.\<close>

fun next_word :: "string \<Rightarrow> string \<times> string" where
  "next_word [] = ([], [])"
| "next_word (c # cs) =
     (if \<exists>w \<in> set utf8_whitespace. starts_with (c # cs) w then ([], c # cs)
      else (let (word, rest) = next_word cs in (c # word, rest)))"

lemma next_word_shorter: "length (snd (next_word s)) \<le> length s"
  by (induction s rule: next_word.induct) (auto simp: Let_def split: prod.splits)

lemma strip_leading_shorter: "length (strip_leading ws s) \<le> length s"
proof (induction ws s rule: strip_leading.induct)
  case (1 ws s)
  then show ?case by (subst strip_leading.simps) (force split: option.split)
qed

function split_whitespace :: "string \<Rightarrow> string list" where
  "split_whitespace s =
     (case strip_leading utf8_whitespace s of
        [] \<Rightarrow> []
      | c # cs \<Rightarrow> (c # fst (next_word cs)) # split_whitespace (snd (next_word cs)))"
  by pat_completeness auto
termination
proof (relation "measure length")
  fix s c cs
  assume "strip_leading utf8_whitespace s = c # cs"
  then have "length cs < length s" using strip_leading_shorter[of utf8_whitespace s] by simp
  then show "(snd (next_word cs), s) \<in> measure length" using next_word_shorter[of cs] by simp
qed simp

declare split_whitespace.simps [simp del]


section \<open>Claims and principals\<close>

datatype Audience = One string | Many "string list"

definition audience_contains :: "Audience \<Rightarrow> string \<Rightarrow> bool" where
  "audience_contains a expected = (case a of One x \<Rightarrow> x = expected | Many xs \<Rightarrow> list_ex (\<lambda>x. x = expected) xs)"

definition audience_values :: "Audience \<Rightarrow> string list" where
  "audience_values a = (case a of One x \<Rightarrow> [x] | Many xs \<Rightarrow> xs)"

record Claims =
  cl_exp :: u64
  cl_nbf :: u64
  cl_iat :: u64
  cl_iss :: string
  cl_aud :: Audience
  cl_sub :: string
  cl_scope :: "string option"
  cl_scopes :: "string list option"
  cl_scp :: "string list option"

definition scope_set :: "Claims \<Rightarrow> ScopeSet" where
  "scope_set c =
     (let s1 = (case cl_scope c of None \<Rightarrow> [] | Some scope \<Rightarrow> scope_extend [] (split_whitespace scope));
          s2 = (case cl_scopes c of None \<Rightarrow> s1 | Some values \<Rightarrow> scope_extend s1 values)
      in case cl_scp c of None \<Rightarrow> s2 | Some values \<Rightarrow> scope_extend s2 values)"

record Principal =
  pr_subject :: string
  pr_issuer :: string
  pr_audience :: "string list"
  pr_scopes :: ScopeSet

definition bearer_token :: "string option \<Rightarrow> AuthError + string" where
  "bearer_token authorization =
     (let header = (case map_option trim authorization of Some [] \<Rightarrow> None | x \<Rightarrow> x) in
      bindE (ok_or header MissingBearerToken) (\<lambda>authorization.
      bindE (ok_or (if CHR '' '' \<in> set authorization
          then Some (takeWhile (\<lambda>c. c \<noteq> CHR '' '') authorization, tl (dropWhile (\<lambda>c. c \<noteq> CHR '' '') authorization))
          else None) InvalidAuthorizationScheme) (\<lambda>(scheme, rest).
      if \<not> eq_ignore_ascii_case scheme ''bearer'' then Err InvalidAuthorizationScheme
      else
        let token = trim rest in
        if token = [] \<or> length (split_whitespace token) \<noteq> 1 then Err MalformedBearerToken
        else Ok token)))"


section \<open>The key set\<close>

text \<open>The algorithms of the \<open>jsonwebtoken\<close> crate; a key algorithm the code does not name is \<open>OtherKeyAlgorithm\<close>.\<close>

datatype Algorithm = HS256 | HS384 | HS512 | ES256 | ES384 | RS256 | RS384 | RS512 | PS256 | PS384 | PS512 | EdDSA

datatype KeyAlgorithm = KeyRS256 | KeyEdDSA | OtherKeyAlgorithm string

definition jwk_algorithm :: "KeyAlgorithm option \<Rightarrow> AuthError + Algorithm" where
  "jwk_algorithm a = (case a of Some KeyRS256 \<Rightarrow> Ok RS256 | Some KeyEdDSA \<Rightarrow> Ok EdDSA | _ \<Rightarrow> Err UnsupportedAlgorithm)"

record 'k VerificationKey =
  vk_algorithm :: Algorithm
  vk_key :: 'k

text \<open>A parsed JWK: its id, its algorithm and the key the crate makes of it, if it can.\<close>

record 'k jwk =
  jwk_kid :: "string option"
  jwk_alg :: "KeyAlgorithm option"
  jwk_key :: "'k option"

type_synonym 'k key_map = "(string \<times> 'k VerificationKey) list"

fun insert_jwks :: "'k jwk list \<Rightarrow> 'k key_map \<Rightarrow> AuthError + 'k key_map" where
  "insert_jwks [] keys = Ok keys"
| "insert_jwks (j # js) keys =
     bindE (ok_or (case jwk_kid j of None \<Rightarrow> None | Some kid \<Rightarrow> if trim kid = [] then None else Some kid) MissingKeyId) (\<lambda>kid.
     bindE (jwk_algorithm (jwk_alg j)) (\<lambda>algorithm.
     bindE (ok_or (jwk_key j) InvalidKey) (\<lambda>key.
     insert_jwks js (AList.update kid \<lparr>vk_algorithm = algorithm, vk_key = key\<rparr> keys))))"

definition parse_jwks_keys :: "(string \<Rightarrow> 'k jwk list option) \<Rightarrow> string \<Rightarrow> AuthError + 'k key_map" where
  "parse_jwks_keys read_jwks body =
     bindE (ok_or (read_jwks body) InvalidJwks) (\<lambda>jwks.
     bindE (insert_jwks jwks []) (\<lambda>keys.
     if keys = [] then Err MissingKeyId else Ok keys))"

text \<open>Times of the monotonic clock and durations, in nanoseconds.\<close>

type_synonym instant = int

record RemoteJwksConfig =
  rj_url :: string
  rj_timeout :: instant
  rj_default_ttl :: instant
  rj_refresh_cooldown :: instant

definition second_ns :: instant where "second_ns = 10 ^ 9"

definition remote_jwks_config_new :: "string \<Rightarrow> RemoteJwksConfig" where
  "remote_jwks_config_new url =
     \<lparr>rj_url = url, rj_timeout = 5 * second_ns, rj_default_ttl = 300 * second_ns, rj_refresh_cooldown = 5 * second_ns\<rparr>"

text \<open>\<open>str::parse\<close> of a \<open>u64\<close>: an optional plus sign, then digits, without overflow.\<close>

definition parse_u64 :: "string \<Rightarrow> u64 option" where
  "parse_u64 s =
     (let digits = (case s of [] \<Rightarrow> [] | c # cs \<Rightarrow> if c = CHR ''+'' then cs else s) in
      if digits \<noteq> [] \<and> list_all is_ascii_digit digits \<and> dec_value digits < 2 ^ 64
      then Some (of_nat (dec_value digits)) else None)"

fun first_max_age :: "string list \<Rightarrow> instant option" where
  "first_max_age [] = None"
| "first_max_age (part # parts) =
     (case strip_prefix (trim part) ''max-age='' of
        None \<Rightarrow> first_max_age parts
      | Some rest \<Rightarrow>
          (case parse_u64 (trim rest) of
             None \<Rightarrow> first_max_age parts
           | Some seconds \<Rightarrow> Some (uint (max seconds 5) * second_ns)))"

definition parse_cache_control_max_age :: "string option \<Rightarrow> instant \<Rightarrow> instant" where
  "parse_cache_control_max_age header default_ttl =
     (case header of None \<Rightarrow> default_ttl
      | Some h \<Rightarrow> (case first_max_age (split_char CHR '','' h) of None \<Rightarrow> default_ttl | Some ttl \<Rightarrow> ttl))"

text \<open>What the HTTP client gives: the error text, or a response whose body may fail to arrive.\<close>

record http_response =
  hr_status :: nat
  hr_status_text :: string
  hr_cache_control :: "string option"
  hr_body :: "string + string"

definition jwks_fetch ::
  "(string \<Rightarrow> 'k jwk list option) \<Rightarrow> RemoteJwksConfig \<Rightarrow> string + http_response \<Rightarrow> AuthError + ('k key_map \<times> instant)" where
  "jwks_fetch read_jwks cfg sent =
     bindE (map_errE RemoteJwksFetchFailed sent) (\<lambda>response.
     if \<not> (200 \<le> hr_status response \<and> hr_status response < 300)
     then Err (RemoteJwksFetchFailed (''remote jwks returned HTTP status '' @ hr_status_text response))
     else
       let ttl = parse_cache_control_max_age (hr_cache_control response) (rj_default_ttl cfg) in
       bindE (map_errE RemoteJwksFetchFailed (hr_body response)) (\<lambda>body.
       bindE (parse_jwks_keys read_jwks body) (\<lambda>keys.
       Ok (keys, ttl))))"

record 'k JwksState =
  js_keys :: "'k key_map"
  js_expires_at :: instant
  js_last_refresh :: instant

definition jwks_state_new :: "'k key_map \<Rightarrow> instant \<Rightarrow> instant \<Rightarrow> 'k JwksState" where
  "jwks_state_new keys ttl now = \<lparr>js_keys = keys, js_expires_at = now + ttl, js_last_refresh = now\<rparr>"

definition is_expired :: "'k JwksState \<Rightarrow> instant \<Rightarrow> bool" where
  "is_expired s now \<longleftrightarrow> js_expires_at s \<le> now"

definition can_refresh :: "'k JwksState \<Rightarrow> instant \<Rightarrow> instant \<Rightarrow> bool" where
  "can_refresh s cooldown now \<longleftrightarrow> js_last_refresh s + cooldown \<le> now"


section \<open>The verifier\<close>

text \<open>
  What the \<open>jsonwebtoken\<close> crate does, and its error kinds as far as the code tells them apart.
  \<open>jl_decode\<close> checks the signature with the key and the claims against the validation record.
\<close>

datatype JwtErrorKind =
    ExpiredSignature
  | ImmatureSignature
  | KindInvalidIssuer
  | KindInvalidAudience
  | KindInvalidSubject
  | KindInvalidAlgorithm
  | MissingRequiredClaim string
  | OtherJwtError

record Validation =
  vd_algorithm :: Algorithm
  vd_leeway :: u64
  vd_validate_exp :: bool
  vd_validate_nbf :: bool
  vd_required_spec_claims :: "string list"
  vd_issuer :: "string list"
  vd_audience :: "string list"

record 'k jwt_library =
  jl_decode_header :: "string \<Rightarrow> (string option \<times> Algorithm) option"
  jl_decode :: "string \<Rightarrow> 'k \<Rightarrow> Validation \<Rightarrow> JwtErrorKind + Claims"
  jl_from_secret :: "string \<Rightarrow> 'k"
  jl_from_rsa_pem :: "string \<Rightarrow> 'k option"
  jl_from_ed_pem :: "string \<Rightarrow> 'k option"
  jl_read_jwks :: "string \<Rightarrow> 'k jwk list option"

record 'k JwtVerifier =
  jv_issuer :: string
  jv_audience :: string
  jv_state :: "'k JwksState"
  jv_remote :: "RemoteJwksConfig option"
  jv_leeway_seconds :: u64

fun insert_keys :: "(string \<times> Algorithm \<times> 'k) list \<Rightarrow> 'k key_map \<Rightarrow> AuthError + 'k key_map" where
  "insert_keys [] keys = Ok keys"
| "insert_keys ((kid, algorithm, key) # rest) keys =
     (if trim kid = [] then Err MissingKeyId
      else if map_of keys kid \<noteq> None then Err (DuplicateKeyId kid)
      else insert_keys rest (AList.update kid \<lparr>vk_algorithm = algorithm, vk_key = key\<rparr> keys))"

definition ten_years :: instant where "ten_years = 86400 * 365 * 10 * second_ns"

definition static_verifier :: "string \<Rightarrow> string \<Rightarrow> 'k key_map \<Rightarrow> instant \<Rightarrow> 'k JwtVerifier" where
  "static_verifier issuer audience keys now =
     \<lparr>jv_issuer = issuer, jv_audience = audience, jv_state = jwks_state_new keys ten_years now, jv_remote = None,
      jv_leeway_seconds = 0\<rparr>"

definition verifier_new ::
  "string \<Rightarrow> string \<Rightarrow> (string \<times> Algorithm \<times> 'k) list \<Rightarrow> instant \<Rightarrow> AuthError + 'k JwtVerifier" where
  "verifier_new issuer audience keys now =
     bindE (insert_keys keys []) (\<lambda>vkeys.
     if vkeys = [] then Err MissingKeyId else Ok (static_verifier issuer audience vkeys now))"

definition new_hs256 ::
  "'k jwt_library \<Rightarrow> string \<Rightarrow> string \<Rightarrow> (string \<times> string) list \<Rightarrow> instant \<Rightarrow> AuthError + 'k JwtVerifier" where
  "new_hs256 lib issuer audience keys now =
     verifier_new issuer audience (map (\<lambda>(kid, secret). (kid, HS256, jl_from_secret lib secret)) keys) now"

definition new_asymmetric_pem ::
  "'k jwt_library \<Rightarrow> string \<Rightarrow> string \<Rightarrow> string \<Rightarrow> Algorithm \<Rightarrow> string \<Rightarrow> instant \<Rightarrow> AuthError + 'k JwtVerifier" where
  "new_asymmetric_pem lib issuer audience kid algorithm pem now =
     (if algorithm \<noteq> RS256 \<and> algorithm \<noteq> EdDSA then Err UnsupportedAlgorithm
      else bindE (ok_or (if algorithm = RS256 then jl_from_rsa_pem lib pem else jl_from_ed_pem lib pem) InvalidKey)
        (\<lambda>key. verifier_new issuer audience [(kid, algorithm, key)] now))"

definition from_jwks_json ::
  "'k jwt_library \<Rightarrow> string \<Rightarrow> string \<Rightarrow> string \<Rightarrow> instant \<Rightarrow> AuthError + 'k JwtVerifier" where
  "from_jwks_json lib issuer audience body now =
     bindE (parse_jwks_keys (jl_read_jwks lib) body) (\<lambda>keys. Ok (static_verifier issuer audience keys now))"

definition from_jwks_config ::
  "'k jwt_library \<Rightarrow> string \<Rightarrow> string \<Rightarrow> RemoteJwksConfig \<Rightarrow> string + http_response \<Rightarrow> instant \<Rightarrow> AuthError + 'k JwtVerifier" where
  "from_jwks_config lib issuer audience cfg sent now =
     bindE (jwks_fetch (jl_read_jwks lib) cfg sent) (\<lambda>(keys, ttl).
     Ok \<lparr>jv_issuer = issuer, jv_audience = audience, jv_state = jwks_state_new keys ttl now, jv_remote = Some cfg,
         jv_leeway_seconds = 0\<rparr>)"

text \<open>
  A refresh: the key set is checked, checked again under the lock, and fetched.  The clock is read at
  each check and after the fetch; \<open>rf_waited\<close>, \<open>rf_fetching\<close> and \<open>rf_reading\<close> are what other tasks do to the
  shared key set while this one waits for the lock, for the response, and before it reads its key.
  Instants are unbounded here; in Rust the
  sum with a time to live that is too long for one panics.
\<close>

record 'k refresh_env =
  rf_expired1 :: instant
  rf_cooldown1 :: instant
  rf_waited :: "'k JwksState \<Rightarrow> 'k JwksState"
  rf_expired2 :: instant
  rf_cooldown2 :: instant
  rf_response :: "string + http_response"
  rf_fetching :: "'k JwksState \<Rightarrow> 'k JwksState"
  rf_after :: instant
  rf_reading :: "'k JwksState \<Rightarrow> 'k JwksState"

definition needs_fetch :: "RemoteJwksConfig \<Rightarrow> string option \<Rightarrow> instant \<Rightarrow> instant \<Rightarrow> 'k JwksState \<Rightarrow> bool" where
  "needs_fetch cfg target_kid t1 t2 s \<longleftrightarrow>
     (is_expired s t1 \<or> (case target_kid of None \<Rightarrow> False | Some kid \<Rightarrow> map_of (js_keys s) kid = None))
     \<and> can_refresh s (rj_refresh_cooldown cfg) t2"

definition maybe_refresh_remote ::
  "'k jwt_library \<Rightarrow> 'k refresh_env \<Rightarrow> RemoteJwksConfig option \<Rightarrow> string option \<Rightarrow> 'k JwksState
   \<Rightarrow> (AuthError + unit) \<times> 'k JwksState" where
  "maybe_refresh_remote lib env remote target_kid s =
     (case remote of
        None \<Rightarrow> (Ok (), s)
      | Some cfg \<Rightarrow>
          if \<not> needs_fetch cfg target_kid (rf_expired1 env) (rf_cooldown1 env) s then (Ok (), s)
          else
            let s1 = rf_waited env s in
            if \<not> needs_fetch cfg target_kid (rf_expired2 env) (rf_cooldown2 env) s1 then (Ok (), s1)
            else
              let s2 = rf_fetching env s1 in
              (case jwks_fetch (jl_read_jwks lib) cfg (rf_response env) of
                 Inr (new_keys, ttl) \<Rightarrow>
                   (Ok (), s2\<lparr>js_keys := new_keys, js_expires_at := rf_after env + ttl, js_last_refresh := rf_after env\<rparr>)
               | Inl err \<Rightarrow>
                   (if js_keys s2 = [] then Err err else Ok (), s2\<lparr>js_last_refresh := rf_after env\<rparr>)))"

text \<open>One turn of the background refresher, after its sleep.\<close>

definition background_refresh ::
  "'k jwt_library \<Rightarrow> RemoteJwksConfig \<Rightarrow> string + http_response \<Rightarrow> instant \<Rightarrow> 'k JwksState \<Rightarrow> 'k JwksState" where
  "background_refresh lib cfg sent now s =
     (case jwks_fetch (jl_read_jwks lib) cfg sent of
        Inr (new_keys, ttl) \<Rightarrow> s\<lparr>js_keys := new_keys, js_expires_at := now + ttl, js_last_refresh := now\<rparr>
      | Inl _ \<Rightarrow> s\<lparr>js_last_refresh := now\<rparr>)"

definition map_jwt_error :: "JwtErrorKind \<Rightarrow> AuthError" where
  "map_jwt_error k = (case k of
      ExpiredSignature \<Rightarrow> TokenExpired
    | ImmatureSignature \<Rightarrow> TokenNotYetValid
    | KindInvalidIssuer \<Rightarrow> InvalidIssuer
    | KindInvalidAudience \<Rightarrow> InvalidAudience
    | KindInvalidSubject \<Rightarrow> InvalidSubject
    | KindInvalidAlgorithm \<Rightarrow> UnsupportedAlgorithm
    | MissingRequiredClaim c \<Rightarrow> MissingClaim c
    | OtherJwtError \<Rightarrow> InvalidToken)"

definition validation :: "'k JwtVerifier \<Rightarrow> Algorithm \<Rightarrow> Validation" where
  "validation v algorithm =
     \<lparr>vd_algorithm = algorithm, vd_leeway = jv_leeway_seconds v, vd_validate_exp = True, vd_validate_nbf = True,
      vd_required_spec_claims = [''exp'', ''nbf'', ''iat'', ''iss'', ''aud'', ''sub''],
      vd_issuer = [jv_issuer v], vd_audience = [jv_audience v]\<rparr>"

definition validate_claims :: "'k JwtVerifier \<Rightarrow> u64 \<Rightarrow> Claims \<Rightarrow> AuthError + unit" where
  "validate_claims v now c =
     (if cl_iss c \<noteq> jv_issuer v then Err InvalidIssuer
      else if \<not> audience_contains (cl_aud c) (jv_audience v) then Err InvalidAudience
      else if trim (cl_sub c) = [] then Err InvalidSubject
      else if saturating_add now (jv_leeway_seconds v) < cl_iat c then Err InvalidIssuedAt
      else if cl_exp c < cl_nbf c then Err TokenNotYetValid
      else if cl_exp c < cl_iat c then Err InvalidIssuedAt
      else Ok ())"

text \<open>The part \<open>verify_token\<close> and \<open>verify_token_async\<close> share: the key, the algorithm, the signature, the claims.\<close>

definition verify_with_keys ::
  "'k jwt_library \<Rightarrow> 'k JwtVerifier \<Rightarrow> u64 \<Rightarrow> string \<Rightarrow> string \<Rightarrow> Algorithm \<Rightarrow> 'k JwksState \<Rightarrow> AuthError + Principal" where
  "verify_with_keys lib v now token kid alg s =
     bindE (ok_or (map_of (js_keys s) kid) UnknownKeyId) (\<lambda>vk.
     if alg \<noteq> vk_algorithm vk then Err UnsupportedAlgorithm
     else
       bindE (map_errE map_jwt_error (jl_decode lib token (vk_key vk) (validation v (vk_algorithm vk)))) (\<lambda>claims.
       bindE (validate_claims v now claims) (\<lambda>_.
       Ok \<lparr>pr_subject = cl_sub claims, pr_issuer = cl_iss claims, pr_audience = audience_values (cl_aud claims),
           pr_scopes = scope_set claims\<rparr>)))"

definition token_key_id :: "'k jwt_library \<Rightarrow> string \<Rightarrow> AuthError + (string \<times> Algorithm)" where
  "token_key_id lib token =
     bindE (ok_or (jl_decode_header lib token) InvalidToken) (\<lambda>(kid, alg).
     bindE (ok_or kid MissingKeyId) (\<lambda>kid. Ok (kid, alg)))"

definition verify_token :: "'k jwt_library \<Rightarrow> 'k JwtVerifier \<Rightarrow> u64 \<Rightarrow> string \<Rightarrow> AuthError + Principal" where
  "verify_token lib v now token =
     bindE (token_key_id lib token) (\<lambda>(kid, alg). verify_with_keys lib v now token kid alg (jv_state v))"

definition verify_token_async ::
  "'k jwt_library \<Rightarrow> 'k refresh_env \<Rightarrow> 'k JwtVerifier \<Rightarrow> u64 \<Rightarrow> string \<Rightarrow> (AuthError + Principal) \<times> 'k JwksState" where
  "verify_token_async lib env v now token =
     (case token_key_id lib token of
        Inl e \<Rightarrow> (Err e, jv_state v)
      | Inr (kid, alg) \<Rightarrow>
          (case maybe_refresh_remote lib env (jv_remote v) (Some kid) (jv_state v) of
             (Inl e, s) \<Rightarrow> (Err e, s)
           | (Inr _, s) \<Rightarrow> let s' = rf_reading env s in (verify_with_keys lib v now token kid alg s', s')))"

definition verify_bearer :: "'k jwt_library \<Rightarrow> 'k JwtVerifier \<Rightarrow> u64 \<Rightarrow> string option \<Rightarrow> AuthError + Principal" where
  "verify_bearer lib v now authorization = bindE (bearer_token authorization) (verify_token lib v now)"

definition verify_bearer_with_scope ::
  "'k jwt_library \<Rightarrow> 'k JwtVerifier \<Rightarrow> u64 \<Rightarrow> string option \<Rightarrow> string \<Rightarrow> AuthError + Principal" where
  "verify_bearer_with_scope lib v now authorization required_scope =
     bindE (verify_bearer lib v now authorization) (\<lambda>p.
     bindE (scope_require (pr_scopes p) required_scope) (\<lambda>_. Ok p))"

definition verify_bearer_with_scope_async ::
  "'k jwt_library \<Rightarrow> 'k refresh_env \<Rightarrow> 'k JwtVerifier \<Rightarrow> u64 \<Rightarrow> string option \<Rightarrow> string
   \<Rightarrow> (AuthError + Principal) \<times> 'k JwksState" where
  "verify_bearer_with_scope_async lib env v now authorization required_scope =
     (case bearer_token authorization of
        Inl e \<Rightarrow> (Err e, jv_state v)
      | Inr token \<Rightarrow>
          let (r, s) = verify_token_async lib env v now token in
          (bindE r (\<lambda>p. bindE (scope_require (pr_scopes p) required_scope) (\<lambda>_. Ok p)), s))"

definition verify_token_with_scope ::
  "'k jwt_library \<Rightarrow> 'k JwtVerifier \<Rightarrow> u64 \<Rightarrow> string \<Rightarrow> string \<Rightarrow> AuthError + Principal" where
  "verify_token_with_scope lib v now token required_scope =
     bindE (verify_token lib v now token) (\<lambda>p.
     bindE (scope_require (pr_scopes p) required_scope) (\<lambda>_. Ok p))"


section \<open>What an accepted token proves\<close>

lemma scope_insert_set: "set (scope_insert x s) = (if trim x = [] then set s else insert (trim x) (set s))"
  by (auto simp: scope_insert_def Let_def set_insort_key)

lemma scope_extend_set: "set (scope_extend s xs) = set s \<union> {trim x | x. x \<in> set xs \<and> trim x \<noteq> []}"
proof (induction xs arbitrary: s)
  case (Cons x xs)
  have "scope_extend s (x # xs) = scope_extend (scope_insert x s) xs" by (simp add: scope_extend_def)
  then show ?case by (auto simp: Cons.IH scope_insert_set)
qed (simp add: scope_extend_def)

text \<open>The scopes a token grants: the words of \<open>scope\<close> and the entries of \<open>scopes\<close> and \<open>scp\<close>, trimmed.\<close>

definition granted :: "Claims \<Rightarrow> string set" where
  "granted c = {trim x | x. trim x \<noteq> [] \<and>
     (x \<in> set (case cl_scope c of None \<Rightarrow> [] | Some t \<Rightarrow> split_whitespace t)
      \<or> x \<in> set (or_default (cl_scopes c) []) \<or> x \<in> set (or_default (cl_scp c) []))}"

lemma scope_set_granted: "set (scope_set c) = granted c"
  by (auto simp: scope_set_def granted_def Let_def scope_extend_set or_default_def split: option.splits)

lemma scope_set_sorted: "sorted (scope_set c) \<and> distinct (scope_set c)"
proof -
  have ins: "sorted (scope_insert x s) \<and> distinct (scope_insert x s)" if "sorted s \<and> distinct s" for x s
    using that by (auto simp: scope_insert_def Let_def sorted_insort distinct_insort)
  have ext: "sorted (scope_extend s xs) \<and> distinct (scope_extend s xs)" if "sorted s \<and> distinct s" for s xs
    using that
  proof (induction xs arbitrary: s)
    case (Cons x xs)
    then show ?case using ins[of s x] by (simp add: scope_extend_def)
  qed (simp add: scope_extend_def)
  show ?thesis by (auto simp: scope_set_def Let_def intro!: ext split: option.split)
qed

lemma verify_with_keys_Ok:
  assumes "verify_with_keys lib v now token kid alg s = Ok p"
  obtains vk claims where "map_of (js_keys s) kid = Some vk" "vk_algorithm vk = alg"
    "jl_decode lib token (vk_key vk) (validation v alg) = Ok claims" "validate_claims v now claims = Ok ()"
    "p = \<lparr>pr_subject = cl_sub claims, pr_issuer = cl_iss claims, pr_audience = audience_values (cl_aud claims),
       pr_scopes = scope_set claims\<rparr>"
  using assms by (auto simp: verify_with_keys_def bindE_eq_Ok split: if_splits)

lemma validate_claims_Ok:
  "validate_claims v now c = Ok () \<longleftrightarrow>
     cl_iss c = jv_issuer v \<and> jv_audience v \<in> set (audience_values (cl_aud c)) \<and> trim (cl_sub c) \<noteq> [] \<and>
     cl_iat c \<le> saturating_add now (jv_leeway_seconds v) \<and> cl_nbf c \<le> cl_exp c \<and> cl_iat c \<le> cl_exp c"
  by (auto simp: validate_claims_def audience_contains_def audience_values_def list_ex_iff not_less split: Audience.splits)

lemma jwks_fetch_keys: "jwks_fetch r cfg sent = Ok (keys, ttl) \<Longrightarrow> keys \<noteq> []"
  by (auto simp: jwks_fetch_def parse_jwks_keys_def Let_def bindE_eq_Ok split: if_splits)

text \<open>
  C16: an accepted request proves who sent it: the header carries one bearer token, the token names a
  key of the key set after any refresh and the algorithm that key is registered for (not one of
  the sender's choice), the signature library accepted the token under that key with expiry,
  not-before, issuer and audience enforced, the claims name the configured issuer and audience and a
  subject that is not blank, they are not issued in the future, and the required scope is one of the
  scopes the claims grant.  The principal carries this subject and exactly these scopes.
\<close>
theorem auth_accepts_only_proved:
  assumes "verify_bearer_with_scope_async lib env v now authorization scope = (Ok p, s')"
  shows "\<exists>token kid alg vk claims. bearer_token authorization = Ok token \<and> jl_decode_header lib token = Some (Some kid, alg) \<and>
    map_of (js_keys s') kid = Some vk \<and> vk_algorithm vk = alg \<and>
    jl_decode lib token (vk_key vk) \<lparr>vd_algorithm = alg, vd_leeway = jv_leeway_seconds v, vd_validate_exp = True,
      vd_validate_nbf = True, vd_required_spec_claims = [''exp'', ''nbf'', ''iat'', ''iss'', ''aud'', ''sub''],
      vd_issuer = [jv_issuer v], vd_audience = [jv_audience v]\<rparr> = Ok claims \<and>
    cl_iss claims = jv_issuer v \<and> jv_audience v \<in> set (audience_values (cl_aud claims)) \<and> trim (cl_sub claims) \<noteq> [] \<and>
    cl_iat claims \<le> saturating_add now (jv_leeway_seconds v) \<and> cl_nbf claims \<le> cl_exp claims \<and>
    scope \<in> granted claims \<and> pr_subject p = cl_sub claims \<and> set (pr_scopes p) = granted claims"
proof -
  obtain token where token: "bearer_token authorization = Ok token"
    and req: "scope_require (pr_scopes p) scope = Ok ()"
    and ver: "verify_token_async lib env v now token = (Ok p, s')"
    using assms
    by (auto simp: verify_bearer_with_scope_async_def Let_def bindE_eq_Ok split: sum.splits prod.splits)
  obtain kid alg where hd: "token_key_id lib token = Ok (kid, alg)" and keys: "verify_with_keys lib v now token kid alg s' = Ok p"
    using ver by (auto simp: verify_token_async_def Let_def split: sum.splits prod.splits)
  have "jl_decode_header lib token = Some (Some kid, alg)" using hd by (auto simp: token_key_id_def bindE_eq_Ok)
  moreover have "scope \<in> set (pr_scopes p)" using req by (simp add: scope_require_def split: if_splits)
  moreover obtain vk claims where "map_of (js_keys s') kid = Some vk" "vk_algorithm vk = alg"
    "jl_decode lib token (vk_key vk) \<lparr>vd_algorithm = alg, vd_leeway = jv_leeway_seconds v, vd_validate_exp = True,
      vd_validate_nbf = True, vd_required_spec_claims = [''exp'', ''nbf'', ''iat'', ''iss'', ''aud'', ''sub''],
      vd_issuer = [jv_issuer v], vd_audience = [jv_audience v]\<rparr> = Ok claims" "validate_claims v now claims = Ok ()"
    "p = \<lparr>pr_subject = cl_sub claims, pr_issuer = cl_iss claims, pr_audience = audience_values (cl_aud claims),
       pr_scopes = scope_set claims\<rparr>"
    using verify_with_keys_Ok[OF keys] unfolding validation_def by blast
  ultimately show ?thesis using token unfolding validate_claims_Ok by (auto simp: scope_set_granted)
qed

text \<open>
  What other tasks do to the shared key set while the key server is down: turns of the background refresher and
  refreshes on behalf of other requests, each of which fails to fetch.
\<close>

inductive outage_step :: "'k jwt_library \<Rightarrow> RemoteJwksConfig \<Rightarrow> 'k JwksState \<Rightarrow> 'k JwksState \<Rightarrow> bool"
  for lib :: "'k jwt_library" and cfg :: RemoteJwksConfig where
  background: "jwks_fetch (jl_read_jwks lib) cfg sent = Err e \<Longrightarrow> outage_step lib cfg s (background_refresh lib cfg sent now s)"
| on_demand: "jwks_fetch (jl_read_jwks lib) cfg (rf_response env) = Err e \<Longrightarrow> rf_waited env = id \<Longrightarrow> rf_fetching env = id \<Longrightarrow>
    outage_step lib cfg s (snd (maybe_refresh_remote lib env (Some cfg) kid s))"

definition only_outage :: "'k jwt_library \<Rightarrow> RemoteJwksConfig option \<Rightarrow> ('k JwksState \<Rightarrow> 'k JwksState) \<Rightarrow> bool" where
  "only_outage lib remote f \<longleftrightarrow> (\<forall>s. case remote of None \<Rightarrow> f s = s | Some cfg \<Rightarrow> (outage_step lib cfg)\<^sup>*\<^sup>* s (f s))"

lemma outage_steps_keep:
  assumes "(outage_step lib cfg)\<^sup>*\<^sup>* s s'"
  shows "\<exists>t. s' = s\<lparr>js_last_refresh := t\<rparr>"
  using assms
proof (induction rule: rtranclp_induct)
  case base
  show ?case by (rule exI[of _ "js_last_refresh s"]) simp
next
  case (step s1 s2)
  from step.hyps(2) have "\<exists>t. s2 = s1\<lparr>js_last_refresh := t\<rparr>"
  proof cases
    case background
    then show ?thesis by (auto simp: background_refresh_def)
  next
    case on_demand
    then show ?thesis by (auto simp: maybe_refresh_remote_def Let_def intro: exI[of _ "js_last_refresh s1"])
  qed
  with step.IH show ?case by auto
qed

lemma only_outage_keeps: "only_outage lib remote f \<Longrightarrow> \<exists>t. f s = s\<lparr>js_last_refresh := t\<rparr>"
  using outage_steps_keep[of lib _ s "f s"] unfolding only_outage_def
  by (cases remote) (auto intro: exI[of _ "js_last_refresh s"])

text \<open>
  C24: an outage of the key server locks nobody out and lets nobody in: while every fetch fails, those of the
  background refresher and of other requests that run in between included, and a key is cached, asynchronous
  verification gives exactly the answer of the cached keys, and the key set and its expiry stay.
\<close>
theorem key_server_outage:
  assumes fail: "\<And>cfg. jv_remote v = Some cfg \<Longrightarrow> jwks_fetch (jl_read_jwks lib) cfg (rf_response env) = Err (e cfg)"
    and cached: "js_keys (jv_state v) \<noteq> []"
    and others: "only_outage lib (jv_remote v) (rf_waited env)" "only_outage lib (jv_remote v) (rf_fetching env)"
      "only_outage lib (jv_remote v) (rf_reading env)"
  shows "fst (verify_token_async lib env v now token) = verify_token lib v now token \<and>
    js_keys (snd (verify_token_async lib env v now token)) = js_keys (jv_state v) \<and>
    js_expires_at (snd (verify_token_async lib env v now token)) = js_expires_at (jv_state v)"
proof -
  let ?s = "jv_state v"
  have refresh: "\<exists>t. maybe_refresh_remote lib env (jv_remote v) kid ?s = (Ok (), ?s\<lparr>js_last_refresh := t\<rparr>)" for kid
  proof (cases "jv_remote v")
    case None
    then show ?thesis by (simp add: maybe_refresh_remote_def exI[of _ "js_last_refresh ?s"])
  next
    case (Some cfg)
    obtain t1 where t1: "rf_waited env ?s = ?s\<lparr>js_last_refresh := t1\<rparr>" using only_outage_keeps[OF others(1)] by blast
    obtain t2 where t2: "rf_fetching env (?s\<lparr>js_last_refresh := t1\<rparr>) = ?s\<lparr>js_last_refresh := t2\<rparr>"
      using only_outage_keeps[OF others(2), of "?s\<lparr>js_last_refresh := t1\<rparr>"] by auto
    show ?thesis
      using cached fail[OF Some]
      by (auto simp: maybe_refresh_remote_def Some t1 t2 Let_def intro: exI[of _ "js_last_refresh ?s"])
  qed
  have same: "verify_with_keys lib v now token kid alg (?s\<lparr>js_last_refresh := t\<rparr>) = verify_with_keys lib v now token kid alg ?s" for kid alg t
    by (simp add: verify_with_keys_def)
  show ?thesis
  proof (cases "token_key_id lib token")
    case (Inr ka)
    obtain kid alg where ka: "ka = (kid, alg)" by (cases ka)
    obtain t where t: "maybe_refresh_remote lib env (jv_remote v) (Some kid) ?s = (Ok (), ?s\<lparr>js_last_refresh := t\<rparr>)"
      using refresh by blast
    obtain t' where t': "rf_reading env (?s\<lparr>js_last_refresh := t\<rparr>) = ?s\<lparr>js_last_refresh := t'\<rparr>"
      using only_outage_keeps[OF others(3), of "?s\<lparr>js_last_refresh := t\<rparr>"] by auto
    show ?thesis by (simp add: verify_token_async_def verify_token_def Inr ka t t' same Let_def)
  qed (simp add: verify_token_async_def verify_token_def)
qed

text \<open>A concrete verifier: keys are numbers, a token is accepted under key 7.\<close>

definition sample_claims :: Claims where
  "sample_claims = \<lparr>cl_exp = 2000, cl_nbf = 100, cl_iat = 100, cl_iss = ''iss'', cl_aud = One ''pay3'', cl_sub = ''alice'',
     cl_scope = None, cl_scopes = Some [''orders:create''], cl_scp = Some [''orders:read'']\<rparr>"

definition sample_jwt :: "nat jwt_library" where
  "sample_jwt = \<lparr>jl_decode_header = \<lambda>t. Some (Some ''k1'', RS256),
     jl_decode = \<lambda>t k v. if k = 7 then Ok sample_claims else Err OtherJwtError,
     jl_from_secret = \<lambda>_. 0, jl_from_rsa_pem = \<lambda>_. None, jl_from_ed_pem = \<lambda>_. None, jl_read_jwks = \<lambda>_. None\<rparr>"

definition sample_verifier :: "nat JwtVerifier" where
  "sample_verifier = \<lparr>jv_issuer = ''iss'', jv_audience = ''pay3'',
     jv_state = jwks_state_new [(''k1'', \<lparr>vk_algorithm = RS256, vk_key = 7\<rparr>)] 0 0,
     jv_remote = Some (remote_jwks_config_new ''u''), jv_leeway_seconds = 0\<rparr>"

definition sample_refresh :: "nat refresh_env" where
  "sample_refresh = \<lparr>rf_expired1 = 10 ^ 12, rf_cooldown1 = 10 ^ 12, rf_waited = id, rf_expired2 = 10 ^ 12, rf_cooldown2 = 10 ^ 12,
     rf_response = Inl ''timeout'', rf_fetching = id, rf_after = 10 ^ 12, rf_reading = id\<rparr>"

lemma sample_trims: "trim ''orders:create'' = ''orders:create''" "trim ''orders:read'' = ''orders:read''" "trim ''alice'' = ''alice''"
  "trim ''Bearer t'' = ''Bearer t''" "trim ''t'' = ''t''"
  by (rule trim_visible_ends; simp add: visible_def)+

lemma sample_word: "split_whitespace ''t'' = [''t'']"
proof -
  have "strip_leading utf8_whitespace ''t'' = ''t''"
    using whitespace_not_visible by (intro strip_leading_visible) (auto simp: list_all_iff visible_def)
  moreover have "strip_leading utf8_whitespace [] = []"
    using whitespace_not_visible by (intro strip_leading_visible) (auto simp: list_all_iff)
  ultimately show ?thesis by (subst split_whitespace.simps) (simp, subst split_whitespace.simps, simp)
qed

lemma sample_bearer: "bearer_token (Some ''Bearer t'') = Ok ''t''"
proof -
  have "eq_ignore_ascii_case ''Bearer'' ''bearer''" by code_simp
  then show ?thesis by (simp add: bearer_token_def Let_def sample_trims sample_word)
qed

lemma sample_scope_set: "set (scope_set sample_claims) = {''orders:create'', ''orders:read''}"
proof -
  have "granted sample_claims = {trim x | x. trim x \<noteq> [] \<and> x \<in> {''orders:create'', ''orders:read''}}"
    by (auto simp: granted_def sample_claims_def or_default_def)
  also have "\<dots> = trim ` {''orders:create'', ''orders:read''} - {[]}" by auto
  finally show ?thesis by (simp add: scope_set_granted sample_trims)
qed

lemma sample_fetch_fails: "jwks_fetch r cfg (rf_response sample_refresh) = Err (RemoteJwksFetchFailed ''timeout'')"
  by (simp add: jwks_fetch_def sample_refresh_def)

lemma sample_verified:
  "fst (verify_token_async sample_jwt sample_refresh sample_verifier 500 ''t'') = Ok \<lparr>pr_subject = ''alice'', pr_issuer = ''iss'',
     pr_audience = [''pay3''], pr_scopes = scope_set sample_claims\<rparr>"
  by (simp add: verify_token_async_def token_key_id_def maybe_refresh_remote_def verify_with_keys_def
      sample_jwt_def sample_verifier_def sample_refresh_def jwks_state_new_def needs_fetch_def is_expired_def can_refresh_def
      remote_jwks_config_new_def second_ns_def Let_def jwks_fetch_def validate_claims_def sample_claims_def[THEN arg_cong[of _ _ cl_iss]]
      sample_claims_def[THEN arg_cong[of _ _ cl_aud]] sample_claims_def[THEN arg_cong[of _ _ cl_sub]]
      sample_claims_def[THEN arg_cong[of _ _ cl_iat]] sample_claims_def[THEN arg_cong[of _ _ cl_exp]]
      sample_claims_def[THEN arg_cong[of _ _ cl_nbf]] audience_contains_def audience_values_def sample_trims saturating_add_def)

lemma sample_accepted:
  "\<exists>p s'. verify_bearer_with_scope_async sample_jwt sample_refresh sample_verifier 500 (Some ''Bearer t'') ''orders:read'' = (Ok p, s') \<and>
     pr_subject p = ''alice''"
  using sample_verified
  by (auto simp: verify_bearer_with_scope_async_def sample_bearer scope_require_def sample_scope_set Let_def split: prod.splits)

theorem auth_accepts_only_proved_witness:
  "\<exists>p s'. verify_bearer_with_scope_async sample_jwt sample_refresh sample_verifier 500 (Some ''Bearer t'') ''orders:read'' = (Ok p, s') \<and>
     pr_subject p = ''alice'' \<and> ''orders:read'' \<in> set (pr_scopes p)"
proof -
  obtain p s' where run: "verify_bearer_with_scope_async sample_jwt sample_refresh sample_verifier 500 (Some ''Bearer t'')
      ''orders:read'' = (Ok p, s')" "pr_subject p = ''alice''" using sample_accepted by blast
  with auth_accepts_only_proved[OF run(1)] show ?thesis by blast
qed

text \<open>The same verifier while the background refresher fails once during the request.\<close>

definition busy_refresh :: "nat refresh_env" where
  "busy_refresh = sample_refresh\<lparr>rf_fetching := background_refresh sample_jwt (remote_jwks_config_new ''u'') (Inl ''timeout'') (10 ^ 11)\<rparr>"

theorem key_server_outage_witness:
  "is_ok (fst (verify_token_async sample_jwt busy_refresh sample_verifier 500 ''t'')) \<and>
   is_ok (verify_token sample_jwt sample_verifier 500 ''t'')"
proof -
  have "only_outage sample_jwt (Some (remote_jwks_config_new ''u''))
      (background_refresh sample_jwt (remote_jwks_config_new ''u'') (Inl ''timeout'') (10 ^ 11))"
    unfolding only_outage_def using outage_step.background[of sample_jwt "remote_jwks_config_new ''u''" "Inl ''timeout''"]
    by (auto simp: jwks_fetch_def)
  moreover have "only_outage sample_jwt r id" for r by (simp add: only_outage_def split: option.split)
  ultimately have async: "fst (verify_token_async sample_jwt env sample_verifier 500 ''t'') = verify_token sample_jwt sample_verifier 500 ''t''"
    if "env = busy_refresh \<or> env = sample_refresh" for env
    using key_server_outage[of sample_verifier sample_jwt env "\<lambda>_. RemoteJwksFetchFailed ''timeout''" 500 "''t''"] that
    by (auto simp: busy_refresh_def sample_refresh_def sample_verifier_def jwks_state_new_def jwks_fetch_def)
  have "is_ok (verify_token sample_jwt sample_verifier 500 ''t'')"
    using async[of sample_refresh] unfolding sample_verified by (metis is_ok_simps(1))
  with async[of busy_refresh] show ?thesis by simp
qed

end
