(* ===== verification/Rate_Limiter.thy ===== *)
theory Rate_Limiter
  imports Pay3_Prelude
begin

text \<open>
  The fixed-window rate limiter of \<open>src/src/api/mod.rs\<close>, by the atomic operations of its lock-free \<open>allow\<close>:
  the steps of one call, the call when nothing interferes, and the interleavings of several calls.
\<close>

section \<open>The limiter\<close>

record FixedWindowRateLimiter =
  rl_limit_per_minute :: u32
  rl_current_window_minute :: u64
  rl_counter :: u32

definition per_minute :: "u32 \<Rightarrow> u64 \<Rightarrow> FixedWindowRateLimiter" where
  "per_minute limit now = \<lparr>rl_limit_per_minute = limit, rl_current_window_minute = now, rl_counter = 0\<rparr>"

text \<open>
  Where a call of \<open>allow\<close> stands: before its guard, at the load of the window, at the exchange with the window it
  loaded, at the store of the counter, at the increment, at the second load with the count it got.
\<close>

datatype allow_pc = Entry | Loading | Swapping u64 | Storing | Counting | Checking u32 | Returned bool

text \<open>
  One atomic operation of a call that read the minute \<open>now\<close>.  The weak exchange may fail though the window is
  the expected one.  The counter wraps.
\<close>

fun rl_step :: "bool \<Rightarrow> u64 \<Rightarrow> allow_pc \<Rightarrow> FixedWindowRateLimiter \<Rightarrow> allow_pc \<times> FixedWindowRateLimiter" where
  "rl_step spurious now Entry l = (if rl_limit_per_minute l = 0 then Returned False else Loading, l)"
| "rl_step spurious now Loading l =
     (if rl_current_window_minute l \<noteq> now then Swapping (rl_current_window_minute l) else Counting, l)"
| "rl_step spurious now (Swapping cur) l =
     (if rl_current_window_minute l = cur \<and> \<not> spurious then (Storing, l\<lparr>rl_current_window_minute := now\<rparr>) else (Loading, l))"
| "rl_step spurious now Storing l = (Returned True, l\<lparr>rl_counter := 1\<rparr>)"
| "rl_step spurious now Counting l = (Checking (rl_counter l), l\<lparr>rl_counter := rl_counter l + 1\<rparr>)"
| "rl_step spurious now (Checking prev) l =
     (if rl_current_window_minute l \<noteq> now then Loading else Returned (prev < rl_limit_per_minute l), l)"
| "rl_step spurious now (Returned b) l = (Returned b, l)"

text \<open>A call that nothing interferes with is over after four operations.\<close>

definition rl_allow :: "FixedWindowRateLimiter \<Rightarrow> u64 \<Rightarrow> bool \<times> FixedWindowRateLimiter" where
  "rl_allow l now =
     (case ((\<lambda>(pc, l). rl_step False now pc l) ^^ 4) (Entry, l) of (Returned b, l') \<Rightarrow> (b, l') | (_, l') \<Rightarrow> (False, l'))"

lemma rl_allow_eq:
  "rl_allow l now =
     (if rl_limit_per_minute l = 0 then (False, l)
      else if rl_current_window_minute l \<noteq> now then (True, l\<lparr>rl_current_window_minute := now, rl_counter := 1\<rparr>)
      else (rl_counter l < rl_limit_per_minute l, l\<lparr>rl_counter := rl_counter l + 1\<rparr>))"
  by (simp add: rl_allow_def numeral_eq_Suc)





section \<open>Calls one after the other\<close>

text \<open>How many of \<open>n\<close> calls in the same minute are let through.\<close>

primrec admitted :: "FixedWindowRateLimiter \<Rightarrow> u64 \<Rightarrow> nat \<Rightarrow> nat" where
  "admitted l minute 0 = 0"
| "admitted l minute (Suc n) = of_bool (fst (rl_allow l minute)) + admitted (snd (rl_allow l minute)) minute n"

lemma admitted_closed: "rl_limit_per_minute l = 0 \<Longrightarrow> admitted l minute n = 0"
  by (induction n) (simp_all add: rl_allow_eq)

lemma admitted_in_window:
  assumes "rl_current_window_minute l = minute" "unat (rl_counter l) + n < 2 ^ 32"
  shows "admitted l minute n = min (unat (rl_counter l) + n) (unat (rl_limit_per_minute l)) - unat (rl_counter l)"
  using assms
proof (induction n arbitrary: l)
  case (Suc n)
  show ?case
  proof (cases "rl_limit_per_minute l = 0")
    case True
    then show ?thesis using admitted_closed[OF True, of minute "Suc n"] by (simp del: admitted.simps)
  next
    case False
    let ?l = "l\<lparr>rl_counter := rl_counter l + 1\<rparr>"
    have step: "rl_allow l minute = (rl_counter l < rl_limit_per_minute l, ?l)" using False Suc.prems(1) by (simp add: rl_allow_eq)
    have count: "unat (rl_counter ?l) = Suc (unat (rl_counter l))"
      using Suc.prems(2) by (simp add: unat_word_ariths)
    have "admitted ?l minute n = min (Suc (unat (rl_counter l)) + n) (unat (rl_limit_per_minute l)) - Suc (unat (rl_counter l))"
      using Suc.IH[of ?l] Suc.prems count by simp
    then show ?thesis by (simp add: step word_less_nat_alt) arith
  qed
qed simp

text \<open>
  C25: of calls that do not overlap, in a minute that the limiter enters afresh, any number fewer than \<open>2 ^ 32\<close>,
  exactly the first ones up to the limit are let through: no more, and none is refused below the limit.
\<close>

theorem rate_limit_exact:
  assumes "rl_current_window_minute l \<noteq> minute \<or> rl_counter l = 0" "n < 2 ^ 32"
  shows "admitted l minute n = min n (unat (rl_limit_per_minute l))"
proof (cases "rl_limit_per_minute l = 0 \<or> n = 0")
  case True
  then show ?thesis using admitted_closed[of l minute n] by auto
next
  case False
  then obtain k where n: "n = Suc k" by (cases n) auto
  have positive: "0 < unat (rl_limit_per_minute l)" using False by (simp add: unat_gt_0)
  show ?thesis
  proof (cases "rl_current_window_minute l = minute")
    case True
    then show ?thesis using assms admitted_in_window[of l minute n] by simp
  next
    case other: False
    let ?l = "l\<lparr>rl_current_window_minute := minute, rl_counter := 1\<rparr>"
    have "rl_allow l minute = (True, ?l)" using False other by (simp add: rl_allow_eq)
    moreover have "admitted ?l minute k = min (1 + k) (unat (rl_limit_per_minute l)) - 1"
      using admitted_in_window[of ?l minute k] assms(2) n by simp
    ultimately show ?thesis using positive n by simp
  qed
qed

theorem rate_limit_exact_witness: "admitted (per_minute 2 7) 8 5 = 2"
  using rate_limit_exact[of "per_minute 2 7" 8 5] by (simp add: per_minute_def)


section \<open>Calls that interleave\<close>


















end
