(* ===== verification/Api.thy ===== *)
theory Api
  imports Auth Collection_Service Order_Service Manual_Verify Rate_Limiter
begin

text \<open>
  The HTTP API of \<open>src/src/api\<close> and \<open>src/src/error.rs\<close>: the error envelope, the
  responses and the handlers with their authorisation, composed with the services.  Decoding of the
  JSON body, \<open>Uuid::parse_str\<close>, the RFC 3339 formatter and the texts of verification errors are
  arguments; a header is given by its text when it is there and readable.
\<close>

section \<open>Errors\<close>

text \<open>A request id that was not set is a fresh random one.\<close>

record ApiError =
  ape_status :: nat
  ape_code :: string
  ape_message :: string
  ape_request_id :: "string option"
  ape_retryable :: bool
  ape_details :: "(string \<times> json) list"

definition api_error_new :: "nat \<Rightarrow> string \<Rightarrow> string \<Rightarrow> ApiError" where
  "api_error_new status code message =
     \<lparr>ape_status = status, ape_code = code, ape_message = message, ape_request_id = None,
      ape_retryable = (status \<in> {429, 503, 504, 502}), ape_details = []\<rparr>"

definition bad_request :: "string \<Rightarrow> string \<Rightarrow> ApiError" where "bad_request = api_error_new 400"
definition unauthorized :: "string \<Rightarrow> ApiError" where "unauthorized = api_error_new 401 ''unauthorized''"
definition forbidden :: "string \<Rightarrow> ApiError" where "forbidden = api_error_new 403 ''forbidden''"
definition conflict :: "string \<Rightarrow> string \<Rightarrow> ApiError" where "conflict = api_error_new 409"
definition not_found :: "string \<Rightarrow> ApiError" where "not_found = api_error_new 404 ''not_found''"
definition service_unavailable :: "string \<Rightarrow> string \<Rightarrow> ApiError" where "service_unavailable = api_error_new 503"
definition too_many_requests :: "string \<Rightarrow> string \<Rightarrow> ApiError" where "too_many_requests = api_error_new 429"
definition internal :: "string \<Rightarrow> ApiError" where "internal = api_error_new 500 ''internal_error''"

definition auth_error_to_api :: "AuthError \<Rightarrow> ApiError" where
  "auth_error_to_api e = (case e of
      MissingScope _ \<Rightarrow> forbidden (auth_error_text e)
    | InsufficientScope _ \<Rightarrow> forbidden (auth_error_text e)
    | RemoteJwksFetchFailed _ \<Rightarrow> service_unavailable ''jwks_unavailable'' (auth_error_text e)
    | _ \<Rightarrow> unauthorized (auth_error_text e))"

definition order_service_error_to_api :: "OrderServiceError \<Rightarrow> ApiError" where
  "order_service_error_to_api e = (case e of
      OrderInvalidArgument field message \<Rightarrow> bad_request ''invalid_order'' (field @ '': '' @ message)
    | OrderRepositoryError (IdempotencyConflict resource key _) \<Rightarrow>
        conflict ''idempotency_conflict'' (resource @ '' idempotency conflict for key '' @ key)
    | OrderRepositoryError (NotFound _ _) \<Rightarrow> not_found ''order not found''
    | OrderViewMissing _ \<Rightarrow> not_found ''order not found''
    | ChainHeadUnavailable message \<Rightarrow>
        service_unavailable ''chain_head_unavailable'' (''chain head unavailable: '' @ message)
    | _ \<Rightarrow> internal ''internal server error'')"

definition order_status_debug :: "OrderStatus \<Rightarrow> string" where
  "order_status_debug s = (case s of
      Pending \<Rightarrow> ''Pending'' | Partial \<Rightarrow> ''Partial'' | Confirming \<Rightarrow> ''Confirming'' | Paid \<Rightarrow> ''Paid'' | Expired \<Rightarrow> ''Expired'')"

definition signer_error_text :: "SignerError \<Rightarrow> string" where
  "signer_error_text e = (case e of
      SignerEmptyKeyRef \<Rightarrow> ''signer key ref must not be empty''
    | SignerInvalidDerivationPath path \<Rightarrow> ''derivation path is invalid: '' @ path
    | SignerInvalidFakeNamespace \<Rightarrow> ''fake signer namespace must not be empty''
    | EmptyRemoteSignerEndpoint \<Rightarrow> ''remote signer endpoint must not be empty''
    | EmptyLocalSignerMnemonic \<Rightarrow> ''local signer mnemonic must not be empty''
    | SignerUnknownKeyRef key_ref \<Rightarrow> ''signer key ref not found: '' @ key_ref
    | HealthCheckFailed m \<Rightarrow> ''signer health check failed: '' @ m
    | RemoteTransport op m \<Rightarrow> ''remote signer transport error during '' @ op @ '': '' @ m
    | RemoteHttpStatus op status body \<Rightarrow> ''remote signer returned non-success status during '' @ op @ '': status=''
        @ show_nat (unat status) @ '', body='' @ body
    | RemoteJson op m \<Rightarrow> ''remote signer returned invalid json during '' @ op @ '': '' @ m
    | EmptyRequestId \<Rightarrow> ''transaction request id must not be empty''
    | LocalSigner op m \<Rightarrow> ''local signer failed during '' @ op @ '': '' @ m)"

definition gas_funding_error_text :: "GasFundingError \<Rightarrow> string" where
  "gas_funding_error_text e = (case e of
      GasUnavailable chain_id a m \<Rightarrow> ''native gas balance unavailable for '' @ show_nat (unat chain_id) @ ''/''
        @ address_to_lower_hex a @ '': '' @ m
    | GasInsufficient chain_id a \<Rightarrow> ''native gas balance is insufficient for '' @ show_nat (unat chain_id) @ ''/''
        @ address_to_lower_hex a)"

definition collection_service_error_to_api :: "CollectionServiceError \<Rightarrow> ApiError" where
  "collection_service_error_to_api e = (case e of
      CollectionInvalidArgument field message \<Rightarrow> bad_request ''invalid_collection'' (field @ '': '' @ message)
    | CollectionOrderNotFound _ \<Rightarrow> not_found ''order not found''
    | CollectionRepositoryError (NotFound _ _) \<Rightarrow> not_found ''order not found''
    | CollectionRepositoryError (IdempotencyConflict resource key _) \<Rightarrow>
        conflict ''idempotency_conflict'' (resource @ '' idempotency conflict for key '' @ key)
    | OrderNotCollectable oid status \<Rightarrow>
        conflict ''collection_not_allowed'' (''order '' @ show_uuid oid @ '' with status '' @ order_status_debug status
          @ '' cannot be collected for this destination'')
    | OrderStreamMismatch oid \<Rightarrow>
        conflict ''collection_not_allowed'' (''order '' @ show_uuid oid @ '' is for a different chain/token'')
    | ZeroCollectionAmount cid \<Rightarrow>
        conflict ''collection_not_allowed'' (''collection amount resolved to zero for collection '' @ show_uuid cid)
    | InsufficientTokenBalance cid _ _ \<Rightarrow>
        conflict ''collection_not_allowed'' (''insufficient token balance for collection '' @ show_uuid cid)
    | CollectionChain err \<Rightarrow> service_unavailable ''collection_dependency_unavailable'' (chain_error_text err)
    | CollectionSigner err \<Rightarrow> service_unavailable ''collection_dependency_unavailable'' (signer_error_text err)
    | CollectionGasFunding err \<Rightarrow> service_unavailable ''collection_dependency_unavailable'' (gas_funding_error_text err)
    | _ \<Rightarrow> internal ''internal server error'')"

datatype OrderVerifyError =
    OrderVerifyNotFound
  | OrderVerifyCoverageInsufficient
  | DependencyUnavailable string

definition order_verify_error :: "(ManualVerifyError \<Rightarrow> string) \<Rightarrow> ManualVerifyError \<Rightarrow> OrderVerifyError" where
  "order_verify_error text_of e = (case e of
      VerifyOrderNotFound _ \<Rightarrow> OrderVerifyNotFound
    | CoverageInsufficient _ \<Rightarrow> OrderVerifyCoverageInsufficient
    | _ \<Rightarrow> DependencyUnavailable (text_of e))"

definition order_verify_error_to_api :: "OrderVerifyError \<Rightarrow> ApiError" where
  "order_verify_error_to_api e = (case e of
      OrderVerifyNotFound \<Rightarrow> not_found ''order not found''
    | OrderVerifyCoverageInsufficient \<Rightarrow>
        service_unavailable ''log_store_coverage_insufficient'' ''transfer log coverage is insufficient''
    | DependencyUnavailable m \<Rightarrow>
        service_unavailable ''order_verify_unavailable'' (''verify dependency unavailable: '' @ m))"


section \<open>State and environment\<close>

record OrderResponseConfig =
  orc_token_decimals :: u8
  orc_token_symbol :: string
  orc_problem_funds_address :: EvmAddress

record 'k ApiState =
  as_auth :: "'k JwtVerifier option"
  as_orders :: "OrderServiceConfig option"
  as_order_verify :: "ManualVerifyConfig option"
  as_collections :: "CollectionServiceConfig option"
  as_order_response_config :: "OrderResponseConfig option"
  as_rate_limiter :: "FixedWindowRateLimiter option"

record 'k api_env =
  ae_jwt :: "'k jwt_library"
  ae_refresh :: "'k refresh_env"
  ae_unix_now :: u64
  ae_unix_minute :: u64
  ae_parse_uuid :: "string \<Rightarrow> uuid option"
  ae_format_timestamp :: "timestamp \<Rightarrow> string"
  ae_order :: order_env
  ae_accept_now :: timestamp
  ae_verify :: verify_env
  ae_verify_error_text :: "ManualVerifyError \<Rightarrow> string"
  ae_collection :: collection_env

record api_headers =
  hd_authorization :: "string option"
  hd_request_id :: "string option"

type_synonym ('k, 'a) handler = "'k ApiState \<Rightarrow> db \<Rightarrow> (ApiError + 'a) \<times> 'k ApiState \<times> db"

definition request_id_from_headers :: "api_headers \<Rightarrow> string option" where
  "request_id_from_headers h = (case map_option trim (hd_request_id h) of Some [] \<Rightarrow> None | x \<Rightarrow> x)"

definition require_scope ::
  "'k api_env \<Rightarrow> api_headers \<Rightarrow> string \<Rightarrow> 'k ApiState \<Rightarrow> (ApiError + Principal) \<times> 'k ApiState" where
  "require_scope env h required_scope st =
     (case as_auth st of
        None \<Rightarrow> (Err (internal ''auth verifier is not configured''), st)
      | Some v \<Rightarrow>
          let (r, keys) = verify_bearer_with_scope_async (ae_jwt env) (ae_refresh env) v (ae_unix_now env) (hd_authorization h)
            required_scope in
          (map_errE auth_error_to_api r, st\<lparr>as_auth := Some (v\<lparr>jv_state := keys\<rparr>)\<rparr>))"

text \<open>A handler: the scope first, then the rest of its body over the database.\<close>

definition with_scope ::
  "'k api_env \<Rightarrow> api_headers \<Rightarrow> string \<Rightarrow> (Principal \<Rightarrow> (ApiError, 'a) worker) \<Rightarrow> ('k, 'a) handler" where
  "with_scope env h required_scope body st d =
     (case require_scope env h required_scope st of
        (Inl e, st') \<Rightarrow> (Err e, st', d)
      | (Inr p, st') \<Rightarrow> let (r, d') = body p d in (r, st', d'))"

definition map_error :: "('e \<Rightarrow> 'f) \<Rightarrow> ('e, 'a) worker \<Rightarrow> ('f, 'a) worker" where
  "map_error f m d = (map_errE f (fst (m d)), snd (m d))"

definition parse_order_id :: "'k api_env \<Rightarrow> string \<Rightarrow> ApiError + uuid" where
  "parse_order_id env value = ok_or (ae_parse_uuid env value) (bad_request ''invalid_order_id'' ''invalid order id'')"

definition parse_collection_id :: "'k api_env \<Rightarrow> string \<Rightarrow> ApiError + uuid" where
  "parse_collection_id env value =
     ok_or (ae_parse_uuid env value) (bad_request ''invalid_collection_id'' ''invalid collection id'')"

definition parse_collection_amount :: "string \<Rightarrow> ApiError + CollectionAmount" where
  "parse_collection_amount value =
     (if eq_ignore_ascii_case (trim value) ''max'' then Ok MaxAmount
      else Err (bad_request ''invalid_collection_amount''
        (''collection amount must be '' @ [CHR 0x22] @ ''max'' @ [CHR 0x22] @ '' for MVP'')))"

definition orders_service :: "'k ApiState \<Rightarrow> ApiError + OrderServiceConfig" where
  "orders_service st = ok_or (as_orders st) (service_unavailable ''orders_unavailable'' ''orders service is not configured'')"

definition order_verify_service :: "'k ApiState \<Rightarrow> ApiError + ManualVerifyConfig" where
  "order_verify_service st =
     ok_or (as_order_verify st) (service_unavailable ''order_verify_unavailable'' ''order verify service is not configured'')"

definition collections_service :: "'k ApiState \<Rightarrow> ApiError + CollectionServiceConfig" where
  "collections_service st =
     ok_or (as_collections st) (service_unavailable ''collections_unavailable'' ''collections service is not configured'')"

definition response_config :: "'k ApiState \<Rightarrow> ApiError + OrderResponseConfig" where
  "response_config st = ok_or (as_order_response_config st) (internal ''order response config is not configured'')"


section \<open>Requests and responses\<close>

record CreateOrderRequest =
  corq_external_id :: string
  corq_amount :: string
  corq_ttl_seconds :: u64
  corq_metadata :: "json option"

record CreateCollectionRequest =
  crr_order_id :: string
  crr_amount :: string
  crr_idempotency_key :: string

record OrderPaymentResponse =
  opr_chain_id :: u64
  opr_token_address :: string
  opr_token_symbol :: string
  opr_token_decimals :: u8
  opr_amount :: string
  opr_amount_raw :: string
  opr_paid_amount_raw :: string
  opr_receive_address :: string
  opr_child_account_id :: uuid
  opr_derivation_path :: string
  opr_expires_at :: string
  opr_monitor_until :: string

datatype OrderPaymentDiagnosticState =
    AwaitingPayment
  | NoIssue
  | ExpiredNoPayment
  | ProblemPaymentObserved
  | ProblemPaymentConfirmed
  | ProblemFundsCollecting
  | ProblemFundsCollected
  | ProblemPaymentAccepted

record OrderProblemPaymentResponse =
  ppr_tx_hash :: string
  ppr_amount_raw :: string
  ppr_block_number :: u64
  ppr_block_time :: string
  ppr_confirmations :: u64
  ppr_match_status :: PaymentMatchStatus
  ppr_chain_status :: PaymentChainStatus

record OrderProblemCollectionResponse =
  pcl_id :: uuid
  pcl_status :: CollectionRecordStatus
  pcl_amount_raw :: "string option"
  pcl_outbound_tx_id :: "uuid option"
  pcl_to_address :: string
  pcl_updated_at :: string

record OrderManualAcceptanceResponse =
  mar_accepted_problem_payment_raw :: string
  mar_accepted_by :: string
  mar_reason :: "string option"
  mar_created_at :: string
  mar_updated_at :: string

record OrderPaymentDiagnosticsResponse =
  pdr_state :: OrderPaymentDiagnosticState
  pdr_problem_payment_count :: u64
  pdr_problem_payment_total_raw :: string
  pdr_late_payment_count :: u64
  pdr_late_payment_total_raw :: string
  pdr_outside_window_payment_count :: u64
  pdr_outside_window_payment_total_raw :: string
  pdr_latest_problem_payment :: "OrderProblemPaymentResponse option"
  pdr_problem_collection :: "OrderProblemCollectionResponse option"
  pdr_manual_acceptance :: "OrderManualAcceptanceResponse option"

record OrderResponse =
  ors_id :: uuid
  ors_external_id :: string
  ors_status :: OrderStatus
  ors_payment :: OrderPaymentResponse
  ors_diagnostics :: OrderPaymentDiagnosticsResponse

record CollectionResponse =
  cre_id :: uuid
  cre_order_id :: uuid
  cre_chain_id :: u64
  cre_token_address :: string
  cre_status :: CollectionRecordStatus
  cre_from_address :: string
  cre_to_address :: string
  cre_amount_raw :: "string option"
  cre_outbound_tx_id :: "uuid option"
  cre_attempt_count :: u32
  cre_error :: "string option"
  cre_created_at :: string
  cre_updated_at :: string

datatype OrderVerifyStatus = OvConfirmed | OvConfirming | OvNotFound | OvNoCoverage

record OrderVerifyResult =
  ovre_order_id :: uuid
  ovre_status :: OrderVerifyStatus
  ovre_matched_payments :: u64
  ovre_paid_amount_raw :: RawAmount
  ovre_confirmations :: u64
  ovre_complete_to_block :: "u64 option"

definition payment_diagnostic_state :: "OrderStatus \<Rightarrow> OrderPaymentDiagnostics \<Rightarrow> OrderPaymentDiagnosticState" where
  "payment_diagnostic_state status dg =
     (if opd_manual_acceptance dg \<noteq> None then ProblemPaymentAccepted
      else case map_option opc_status (opd_problem_collection dg) of
        Some ColConfirmed \<Rightarrow> ProblemFundsCollected
      | Some ColQueued \<Rightarrow> ProblemFundsCollecting
      | Some ColTransferring \<Rightarrow> ProblemFundsCollecting
      | Some ColConfirming \<Rightarrow> ProblemFundsCollecting
      | Some ColReplacing \<Rightarrow> ProblemFundsCollecting
      | _ \<Rightarrow>
          if opd_problem_payment_count dg > 0
          then (case opd_latest_problem_payment dg of
              Some p \<Rightarrow> if opp_chain_status p = Confirmed then ProblemPaymentConfirmed else ProblemPaymentObserved
            | None \<Rightarrow> ProblemPaymentObserved)
          else (case status of
              Pending \<Rightarrow> AwaitingPayment | Partial \<Rightarrow> AwaitingPayment | Confirming \<Rightarrow> AwaitingPayment
            | Expired \<Rightarrow> ExpiredNoPayment | Paid \<Rightarrow> NoIssue))"

definition problem_payment_response :: "'k api_env \<Rightarrow> OrderProblemPaymentRecord \<Rightarrow> OrderProblemPaymentResponse" where
  "problem_payment_response env p =
     \<lparr>ppr_tx_hash = hash_to_lower_hex (opp_tx_hash p), ppr_amount_raw = show_raw (opp_amount_raw p),
      ppr_block_number = opp_block_number p, ppr_block_time = ae_format_timestamp env (opp_block_time p),
      ppr_confirmations = opp_confirmations p, ppr_match_status = opp_match_status p, ppr_chain_status = opp_chain_status p\<rparr>"

definition problem_collection_response :: "'k api_env \<Rightarrow> OrderProblemCollectionRecord \<Rightarrow> OrderProblemCollectionResponse" where
  "problem_collection_response env c =
     \<lparr>pcl_id = opc_id c, pcl_status = opc_status c, pcl_amount_raw = map_option show_raw (opc_amount_raw c),
      pcl_outbound_tx_id = opc_outbound_tx_id c, pcl_to_address = address_to_lower_hex (opc_to_address c),
      pcl_updated_at = ae_format_timestamp env (opc_updated_at c)\<rparr>"

definition manual_acceptance_response :: "'k api_env \<Rightarrow> OrderManualAcceptanceRecord \<Rightarrow> OrderManualAcceptanceResponse" where
  "manual_acceptance_response env a =
     \<lparr>mar_accepted_problem_payment_raw = show_raw (oma_accepted_problem_payment_raw a), mar_accepted_by = oma_accepted_by a,
      mar_reason = oma_reason a, mar_created_at = ae_format_timestamp env (oma_created_at a),
      mar_updated_at = ae_format_timestamp env (oma_updated_at a)\<rparr>"

definition order_response :: "'k api_env \<Rightarrow> OrderView \<Rightarrow> OrderResponseConfig \<Rightarrow> OrderPaymentDiagnostics \<Rightarrow> OrderResponse" where
  "order_response env view cfg dg =
     (let ord = ov_order view in
      \<lparr>ors_id = or_id ord, ors_external_id = or_external_id ord, ors_status = or_status ord,
       ors_payment = \<lparr>opr_chain_id = or_chain_id ord, opr_token_address = address_to_lower_hex (or_token_address ord),
         opr_token_symbol = orc_token_symbol cfg, opr_token_decimals = orc_token_decimals cfg,
         opr_amount = to_decimal_string \<lparr>raw = or_expected_amount_raw ord, decimals = orc_token_decimals cfg\<rparr>,
         opr_amount_raw = show_raw (or_expected_amount_raw ord), opr_paid_amount_raw = show_raw (or_paid_amount_raw ord),
         opr_receive_address = address_to_lower_hex (or_receive_address ord), opr_child_account_id = or_child_account_id ord,
         opr_derivation_path = car_derivation_path (ov_child_account view),
         opr_expires_at = ae_format_timestamp env (or_expires_at ord),
         opr_monitor_until = ae_format_timestamp env (or_monitor_until ord)\<rparr>,
       ors_diagnostics = \<lparr>pdr_state = payment_diagnostic_state (or_status ord) dg,
         pdr_problem_payment_count = opd_problem_payment_count dg,
         pdr_problem_payment_total_raw = show_raw (opd_problem_payment_total_raw dg),
         pdr_late_payment_count = opd_late_payment_count dg, pdr_late_payment_total_raw = show_raw (opd_late_payment_total_raw dg),
         pdr_outside_window_payment_count = opd_outside_window_payment_count dg,
         pdr_outside_window_payment_total_raw = show_raw (opd_outside_window_payment_total_raw dg),
         pdr_latest_problem_payment = map_option (problem_payment_response env) (opd_latest_problem_payment dg),
         pdr_problem_collection = map_option (problem_collection_response env) (opd_problem_collection dg),
         pdr_manual_acceptance = map_option (manual_acceptance_response env) (opd_manual_acceptance dg)\<rparr>\<rparr>)"

definition collection_response :: "'k api_env \<Rightarrow> CollectionRecord \<Rightarrow> CollectionResponse" where
  "collection_response env c =
     \<lparr>cre_id = cr_id c, cre_order_id = cr_order_id c, cre_chain_id = cr_chain_id c,
      cre_token_address = address_to_lower_hex (cr_token_address c), cre_status = cr_status c,
      cre_from_address = address_to_lower_hex (cr_from_address c), cre_to_address = address_to_lower_hex (cr_to_address c),
      cre_amount_raw = map_option show_raw (cr_amount_raw c), cre_outbound_tx_id = cr_outbound_tx_id c,
      cre_attempt_count = cr_attempt_count c, cre_error = cr_error c,
      cre_created_at = ae_format_timestamp env (cr_created_at c), cre_updated_at = ae_format_timestamp env (cr_updated_at c)\<rparr>"

definition order_verify_response :: "ManualVerifyResult \<Rightarrow> OrderVerifyResult" where
  "order_verify_response r =
     \<lparr>ovre_order_id = mvr_order_id r,
      ovre_status = (case mvr_status r of
        VerifyConfirmed \<Rightarrow> OvConfirmed | VerifyConfirming \<Rightarrow> OvConfirming | VerifyNoCoverage \<Rightarrow> OvNoCoverage),
      ovre_matched_payments = mvr_matched_payments r, ovre_paid_amount_raw = mvr_paid_amount_raw r,
      ovre_confirmations = mvr_confirmations r, ovre_complete_to_block = mvr_complete_to_block r\<rparr>"


section \<open>Handlers\<close>

definition no_diagnostics :: OrderPaymentDiagnostics where
  "no_diagnostics = \<lparr>opd_problem_payment_count = 0, opd_problem_payment_total_raw = 0, opd_late_payment_count = 0,
     opd_late_payment_total_raw = 0, opd_outside_window_payment_count = 0, opd_outside_window_payment_total_raw = 0,
     opd_latest_problem_payment = None, opd_problem_collection = None, opd_manual_acceptance = None\<rparr>"

definition order_payment_diagnostics ::
  "'k ApiState \<Rightarrow> string \<Rightarrow> uuid \<Rightarrow> OrderResponseConfig \<Rightarrow> (ApiError, OrderPaymentDiagnostics) worker" where
  "order_payment_diagnostics st owner_sub order_id cfg =
     andThen (answer (orders_service st)) (\<lambda>_.
     andThen (map_error order_service_error_to_api
       (service_get_order_payment_diagnostics_for_owner order_id owner_sub (orc_problem_funds_address cfg))) (\<lambda>dg.
     answer (Ok (or_default dg no_diagnostics))))"

text \<open>The end of every order handler: the diagnostics are read, the response is built.\<close>

definition respond_order ::
  "'k api_env \<Rightarrow> 'k ApiState \<Rightarrow> string \<Rightarrow> OrderResponseConfig \<Rightarrow> OrderView \<Rightarrow> (ApiError, OrderResponse) worker" where
  "respond_order env st owner_sub cfg view =
     andThen (order_payment_diagnostics st owner_sub (or_id (ov_order view)) cfg) (\<lambda>dg.
     answer (Ok (order_response env view cfg dg)))"

definition order_metadata :: "json option \<Rightarrow> ApiError + json" where
  "order_metadata m = (case m of
      Some (JObject kvs) \<Rightarrow> Ok (JObject kvs)
    | Some JNull \<Rightarrow> Ok (JObject [])
    | None \<Rightarrow> Ok (JObject [])
    | Some _ \<Rightarrow> Err (bad_request ''invalid_metadata'' ''metadata must be a JSON object when provided''))"

definition create_order_body ::
  "'k api_env \<Rightarrow> 'k ApiState \<Rightarrow> string + CreateOrderRequest \<Rightarrow> Principal \<Rightarrow> (ApiError, nat \<times> OrderResponse) worker" where
  "create_order_body env st payload p =
     andThen (answer (map_errE (bad_request ''invalid_json'') payload)) (\<lambda>req.
     andThen (answer (response_config st)) (\<lambda>cfg.
     andThen (answer (map_errE (\<lambda>e. bad_request ''invalid_amount'' (amount_error_text e))
       (token_amount_parse (corq_amount req) (orc_token_decimals cfg)))) (\<lambda>amount.
     andThen (answer (order_metadata (corq_metadata req))) (\<lambda>metadata.
     andThen (answer (orders_service st)) (\<lambda>ocfg.
     andThen (map_error order_service_error_to_api (create_order_for_owner (ae_order env) ocfg (pr_subject p)
       \<lparr>coi_external_id = corq_external_id req, coi_expected_amount_raw = raw amount, coi_ttl_seconds = corq_ttl_seconds req,
        coi_metadata = metadata\<rparr>)) (\<lambda>result.
     andThen (respond_order env st (pr_subject p) cfg (cor_view result)) (\<lambda>response.
     answer (Ok (if cor_outcome result = OrderCreated then 201 else 200, response)))))))))"

definition get_order_body ::
  "'k api_env \<Rightarrow> 'k ApiState \<Rightarrow> string \<Rightarrow> Principal \<Rightarrow> (ApiError, OrderResponse) worker" where
  "get_order_body env st path_id p =
     andThen (answer (parse_order_id env path_id)) (\<lambda>oid.
     andThen (answer (response_config st)) (\<lambda>cfg.
     andThen (answer (orders_service st)) (\<lambda>_.
     andThen (map_error order_service_error_to_api (service_get_order_for_owner oid (pr_subject p))) (\<lambda>found.
     andThen (answer (ok_or found (not_found ''order not found''))) (\<lambda>view.
     respond_order env st (pr_subject p) cfg view)))))"

definition get_order_by_external_id_body ::
  "'k api_env \<Rightarrow> 'k ApiState \<Rightarrow> string \<Rightarrow> Principal \<Rightarrow> (ApiError, OrderResponse) worker" where
  "get_order_by_external_id_body env st external_id p =
     andThen (answer (response_config st)) (\<lambda>cfg.
     andThen (answer (orders_service st)) (\<lambda>_.
     andThen (map_error order_service_error_to_api
       (service_get_order_by_external_id_for_owner external_id (pr_subject p))) (\<lambda>found.
     andThen (answer (ok_or found (not_found ''order not found''))) (\<lambda>view.
     respond_order env st (pr_subject p) cfg view))))"

definition accept_problem_payment_body ::
  "'k api_env \<Rightarrow> 'k ApiState \<Rightarrow> string \<Rightarrow> string + string option \<Rightarrow> Principal \<Rightarrow> (ApiError, OrderResponse) worker" where
  "accept_problem_payment_body env st path_id payload p =
     andThen (answer (parse_order_id env path_id)) (\<lambda>oid.
     andThen (answer (map_errE (bad_request ''invalid_json'') payload)) (\<lambda>reason.
     andThen (answer (response_config st)) (\<lambda>cfg.
     andThen (answer (orders_service st)) (\<lambda>_.
     andThen (map_error order_service_error_to_api
       (service_accept_problem_payment_for_owner (ae_accept_now env) oid (pr_subject p) (pr_subject p) reason)) (\<lambda>found.
     andThen (answer (ok_or found (not_found ''order not found''))) (\<lambda>view.
     respond_order env st (pr_subject p) cfg view))))))"

definition verify_order_body ::
  "'k api_env \<Rightarrow> 'k ApiState \<Rightarrow> string \<Rightarrow> Principal \<Rightarrow> (ApiError, OrderVerifyResult) worker" where
  "verify_order_body env st path_id p =
     andThen (answer (parse_order_id env path_id)) (\<lambda>oid.
     andThen (answer (order_verify_service st)) (\<lambda>vcfg.
     andThen (map_error (order_verify_error_to_api \<circ> order_verify_error (ae_verify_error_text env))
       (verify_order_for_owner (ae_verify env) vcfg oid (pr_subject p))) (\<lambda>result.
     answer (Ok (order_verify_response result)))))"

definition create_collection_body ::
  "'k api_env \<Rightarrow> 'k ApiState \<Rightarrow> api_headers \<Rightarrow> string + CreateCollectionRequest \<Rightarrow> Principal
   \<Rightarrow> (ApiError, nat \<times> CollectionResponse) worker" where
  "create_collection_body env st h payload p =
     andThen (answer (map_errE (bad_request ''invalid_json'') payload)) (\<lambda>req.
     andThen (answer (parse_order_id env (crr_order_id req))) (\<lambda>oid.
     andThen (answer (parse_collection_amount (crr_amount req))) (\<lambda>amount.
     andThen (answer (collections_service st)) (\<lambda>ccfg.
     andThen (map_error collection_service_error_to_api (create_collection (ae_collection env) ccfg
       \<lparr>cci_order_id = oid, cci_amount = amount, cci_idempotency_key = crr_idempotency_key req,
        cci_audit = \<lparr>ac_request_id = request_id_from_headers h, ac_principal_sub = Some (pr_subject p),
          ac_scopes = pr_scopes p\<rparr>\<rparr>)) (\<lambda>result.
     answer (Ok (if ccr_outcome result = CollectionCreated then 201 else 200,
       collection_response env (ccr_collection result))))))))"

definition get_collection_body ::
  "'k api_env \<Rightarrow> 'k ApiState \<Rightarrow> string \<Rightarrow> Principal \<Rightarrow> (ApiError, CollectionResponse) worker" where
  "get_collection_body env st path_id p =
     andThen (answer (parse_collection_id env path_id)) (\<lambda>cid.
     andThen (answer (collections_service st)) (\<lambda>_.
     andThen (map_error collection_service_error_to_api (service_get_collection_for_owner cid (pr_subject p))) (\<lambda>found.
     andThen (answer (ok_or found (not_found ''collection not found''))) (\<lambda>c.
     answer (Ok (collection_response env c))))))"



section \<open>Routes\<close>

text \<open>The requests of the token service; a body that is not the expected JSON is its rejection text.\<close>

datatype ApiRequest =
    PostOrder "string + CreateOrderRequest"
  | GetOrderByExternalId string
  | PostAcceptProblemPayment string "string + string option"
  | GetOrder string
  | PostVerify string
  | PostCollection "string + CreateCollectionRequest"
  | GetCollection string

datatype ApiResponse =
    OrderReply nat OrderResponse
  | VerifyReply OrderVerifyResult
  | CollectionReply nat CollectionResponse

definition reply :: "('a \<Rightarrow> ApiResponse) \<Rightarrow> ('k, 'a) handler \<Rightarrow> ('k, ApiResponse) handler" where
  "reply f m st d = (let (r, st', d') = m st d in (mapE f r, st', d'))"

definition required_scope :: "ApiRequest \<Rightarrow> string" where
  "required_scope req = (case req of
      PostOrder _ \<Rightarrow> ORDERS_CREATE_SCOPE
    | GetOrderByExternalId _ \<Rightarrow> ORDERS_READ_SCOPE
    | PostAcceptProblemPayment _ _ \<Rightarrow> ORDERS_VERIFY_SCOPE
    | GetOrder _ \<Rightarrow> ORDERS_READ_SCOPE
    | PostVerify _ \<Rightarrow> ORDERS_VERIFY_SCOPE
    | PostCollection _ \<Rightarrow> COLLECTIONS_CREATE_SCOPE
    | GetCollection _ \<Rightarrow> COLLECTIONS_READ_SCOPE)"

text \<open>A route exists when its service is configured.\<close>

definition routed :: "'k ApiState \<Rightarrow> ApiRequest \<Rightarrow> bool" where
  "routed st req = (case req of
      PostVerify _ \<Rightarrow> as_order_verify st \<noteq> None
    | PostCollection _ \<Rightarrow> as_collections st \<noteq> None
    | GetCollection _ \<Rightarrow> as_collections st \<noteq> None
    | _ \<Rightarrow> as_orders st \<noteq> None)"

definition run_route :: "'k api_env \<Rightarrow> api_headers \<Rightarrow> ApiRequest \<Rightarrow> ('k, ApiResponse) handler" where
  "run_route env h req st =
     (case req of
        PostOrder payload \<Rightarrow> reply (\<lambda>(n, r). OrderReply n r) (with_scope env h ORDERS_CREATE_SCOPE (create_order_body env st payload))
      | GetOrderByExternalId x \<Rightarrow> reply (OrderReply 200) (with_scope env h ORDERS_READ_SCOPE (get_order_by_external_id_body env st x))
      | PostAcceptProblemPayment path_id payload \<Rightarrow>
          reply (OrderReply 200) (with_scope env h ORDERS_VERIFY_SCOPE (accept_problem_payment_body env st path_id payload))
      | GetOrder path_id \<Rightarrow> reply (OrderReply 200) (with_scope env h ORDERS_READ_SCOPE (get_order_body env st path_id))
      | PostVerify path_id \<Rightarrow> reply VerifyReply (with_scope env h ORDERS_VERIFY_SCOPE (verify_order_body env st path_id))
      | PostCollection payload \<Rightarrow>
          reply (\<lambda>(n, r). CollectionReply n r) (with_scope env h COLLECTIONS_CREATE_SCOPE (create_collection_body env st h payload))
      | GetCollection path_id \<Rightarrow>
          reply (CollectionReply 200) (with_scope env h COLLECTIONS_READ_SCOPE (get_collection_body env st path_id))) st"

text \<open>The rate limit in front of every route of \<open>/v1/\<close>.\<close>

definition rate_limited :: "api_headers \<Rightarrow> FixedWindowRateLimiter \<Rightarrow> ApiError" where
  "rate_limited h l =
     (too_many_requests ''rate_limited'' ''API rate limit exceeded'')
       \<lparr>ape_details := [(''limit_per_minute'', JNumber (show_nat (unat (rl_limit_per_minute l))))],
        ape_request_id := request_id_from_headers h\<rparr>"

definition handle_request :: "'k api_env \<Rightarrow> api_headers \<Rightarrow> ApiRequest \<Rightarrow> ('k, ApiResponse) handler" where
  "handle_request env h req st d =
     (if \<not> routed st req then (Err (not_found ''route not found''), st, d)
      else case as_rate_limiter st of
        None \<Rightarrow> run_route env h req st d
      | Some l \<Rightarrow>
          let (ok, l') = rl_allow l (ae_unix_minute env); st' = st\<lparr>as_rate_limiter := Some l'\<rparr> in
          if ok then run_route env h req st' d else (Err (rate_limited h l'), st', d))"

end
