(* ===== verification/Api_Props.thy ===== *)
theory Api_Props
  imports Api Collector_Props Order_Service_Props Manual_Verify_Props
begin

text \<open>
  Guarantees of the API as its clients see them: no effect without an accepted token of the right
  scope, answers about the caller's own orders only, and the limit on requests.
\<close>

section \<open>Programs\<close>

lemma runs_map_error [worker_intro]: "runs_commands m \<Longrightarrow> runs_commands (map_error f m)"
  by (simp add: runs_commands_def map_error_def)

lemma map_error_Ok [simp]: "map_error f m d = (Ok a, d') \<longleftrightarrow> m d = (Ok a, d')"
  by (cases "m d") (simp add: map_error_def)

lemma runs_reads [worker_intro]:
  "runs_commands (service_get_order_for_owner oid owner)" "runs_commands (service_get_order_by_external_id_for_owner ext owner)"
  "runs_commands (service_get_order_payment_diagnostics_for_owner oid owner a)"
  "runs_commands (service_get_collection_for_owner cid owner)"
  unfolding service_get_order_for_owner_def service_get_order_by_external_id_for_owner_def
    service_get_order_payment_diagnostics_for_owner_def service_get_collection_for_owner_def
  by (intro worker_intro)+

lemma runs_respond [worker_intro]: "runs_commands (respond_order env st owner cfg view)"
  unfolding respond_order_def order_payment_diagnostics_def by (intro worker_intro)

lemma runs_bodies:
  "runs_commands (create_order_body env st payload p)" "runs_commands (get_order_body env st i p)"
  "runs_commands (get_order_by_external_id_body env st x p)" "runs_commands (accept_problem_payment_body env st i reason p)"
  "runs_commands (verify_order_body env st i p)" "runs_commands (create_collection_body env st h creq p)"
  "runs_commands (get_collection_body env st i p)"
  unfolding create_order_body_def get_order_body_def get_order_by_external_id_body_def accept_problem_payment_body_def
    verify_order_body_def create_collection_body_def get_collection_body_def verify_order_for_owner_def create_collection_def
  by (intro worker_intro runs_accept runs_verify runs_create_collection)+

text \<open>
  The interface of a handler: the body runs only for a principal that the verifier accepted with
  the scope of the request, and is a program over the repositories.
\<close>

definition accepted :: "'k api_env \<Rightarrow> api_headers \<Rightarrow> string \<Rightarrow> 'k ApiState \<Rightarrow> Principal \<Rightarrow> bool" where
  "accepted env h scope st p \<longleftrightarrow>
     (\<exists>v keys. as_auth st = Some v \<and> verify_bearer_with_scope_async (ae_jwt env) (ae_refresh env) v (ae_unix_now env)
        (hd_authorization h) scope = (Ok p, keys))"

locale guarded_handler =
  fixes handler :: "'k ApiState \<Rightarrow> db \<Rightarrow> (ApiError + 'a) \<times> 'k ApiState \<times> db"
    and env :: "'k api_env" and h :: api_headers and scope :: string and body :: "'k ApiState \<Rightarrow> Principal \<Rightarrow> (ApiError, 'b) worker"
    and wrap :: "'b \<Rightarrow> 'a"
  assumes refused: "handler st d = (r, st', d') \<Longrightarrow> (\<forall>p. \<not> accepted env h scope st p) \<Longrightarrow> d' = d \<and> \<not> is_ok r"
    and served: "handler st d = (r, st', d') \<Longrightarrow> accepted env h scope st p \<Longrightarrow>
      r = mapE wrap (fst (body st p d)) \<and> d' = snd (body st p d)"
    and program: "runs_commands (body st p)"
begin

lemma keeps_system:
  assumes "handler st d = (r, st', d')" "system_ok d"
  shows "system_ok d' \<and> evolves d d'"
proof (cases "\<exists>p. accepted env h scope st p")
  case True
  then obtain p where p: "accepted env h scope st p" ..
  have steps: "system_step\<^sup>*\<^sup>* d (snd (body st p d))" using program unfolding runs_commands_def by blast
  show ?thesis using reachable_evolves[OF steps assms(2)] served[OF assms(1) p] by simp
next
  case False
  then have "d' = d" using refused[OF assms(1)] by blast
  then show ?thesis using assms(2) reachable_evolves[OF rtranclp.rtrancl_refl assms(2)] by simp
qed

lemma answers_accepted: "handler st d = (r, st', d') \<Longrightarrow> d' \<noteq> d \<or> is_ok r \<Longrightarrow> \<exists>p. accepted env h scope st p"
  using refused by blast

lemma served_Ok:
  assumes "handler st d = (Ok a, st', d')" "accepted env h scope st p"
  shows "\<exists>b. body st p d = (Ok b, d') \<and> a = wrap b"
proof -
  have "mapE wrap (fst (body st p d)) = Ok a" "d' = snd (body st p d)" using served[OF assms] by simp_all
  then show ?thesis by (cases "body st p d") (auto simp: mapE_eq_Ok)
qed

end

lemma with_scope_guarded:
  fixes body :: "'k ApiState \<Rightarrow> Principal \<Rightarrow> (ApiError, 'b) worker"
  assumes "\<And>st p. runs_commands (body st p)"
  shows "guarded_handler (\<lambda>st. reply wrap (with_scope env h scope (body st)) st) env h scope body wrap"
proof
  fix st :: "'k ApiState" and d r st' d'
  assume run: "reply wrap (with_scope env h scope (body st)) st d = (r, st', d')"
  { assume "\<forall>p. \<not> accepted env h scope st p"
    then have "\<exists>e st'. require_scope env h scope st = (Err e, st')"
      by (auto simp: require_scope_def accepted_def map_errE_def Let_def split: option.splits prod.splits sum.splits)
    then show "d' = d \<and> \<not> is_ok r" using run by (auto simp: reply_def with_scope_def Let_def)
  }
  fix p
  assume "accepted env h scope st p"
  then have "\<exists>st'. require_scope env h scope st = (Ok p, st')" by (auto simp: require_scope_def accepted_def)
  then show "r = mapE wrap (fst (body st p d)) \<and> d' = snd (body st p d)"
    using run by (auto simp: reply_def with_scope_def Let_def split: prod.splits)
next
  fix st p
  show "runs_commands (body st p)" by (rule assms)
qed

interpretation post_order: guarded_handler
  "\<lambda>st. reply (\<lambda>(n, r). OrderReply n r) (with_scope env h ORDERS_CREATE_SCOPE (create_order_body env st payload)) st" env h ORDERS_CREATE_SCOPE
  "\<lambda>st. create_order_body env st payload" "\<lambda>(n, r). OrderReply n r"
  for env h payload
  by (rule with_scope_guarded) (rule runs_bodies)

interpretation get_external: guarded_handler
  "\<lambda>st. reply (OrderReply 200) (with_scope env h ORDERS_READ_SCOPE (get_order_by_external_id_body env st x)) st" env h ORDERS_READ_SCOPE
  "\<lambda>st. get_order_by_external_id_body env st x" "OrderReply 200"
  for env h x
  by (rule with_scope_guarded) (rule runs_bodies)

interpretation post_accept: guarded_handler
  "\<lambda>st. reply (OrderReply 200) (with_scope env h ORDERS_VERIFY_SCOPE (accept_problem_payment_body env st i reason)) st" env h ORDERS_VERIFY_SCOPE
  "\<lambda>st. accept_problem_payment_body env st i reason" "OrderReply 200"
  for env h i reason
  by (rule with_scope_guarded) (rule runs_bodies)

interpretation get_order: guarded_handler
  "\<lambda>st. reply (OrderReply 200) (with_scope env h ORDERS_READ_SCOPE (get_order_body env st i)) st" env h ORDERS_READ_SCOPE
  "\<lambda>st. get_order_body env st i" "OrderReply 200"
  for env h i
  by (rule with_scope_guarded) (rule runs_bodies)

interpretation post_verify: guarded_handler
  "\<lambda>st. reply VerifyReply (with_scope env h ORDERS_VERIFY_SCOPE (verify_order_body env st i)) st" env h ORDERS_VERIFY_SCOPE
  "\<lambda>st. verify_order_body env st i" "VerifyReply"
  for env h i
  by (rule with_scope_guarded) (rule runs_bodies)

interpretation post_collection: guarded_handler
  "\<lambda>st. reply (\<lambda>(n, r). CollectionReply n r) (with_scope env h COLLECTIONS_CREATE_SCOPE (create_collection_body env st h creq)) st" env h COLLECTIONS_CREATE_SCOPE
  "\<lambda>st. create_collection_body env st h creq" "\<lambda>(n, r). CollectionReply n r"
  for env h creq
  by (rule with_scope_guarded) (rule runs_bodies)

interpretation get_coll: guarded_handler
  "\<lambda>st. reply (CollectionReply 200) (with_scope env h COLLECTIONS_READ_SCOPE (get_collection_body env st i)) st" env h COLLECTIONS_READ_SCOPE
  "\<lambda>st. get_collection_body env st i" "CollectionReply 200"
  for env h i
  by (rule with_scope_guarded) (rule runs_bodies)

lemma route_system:
  assumes "run_route env h req st d = (r, st', d')"
  shows "(d' \<noteq> d \<or> is_ok r \<longrightarrow> (\<exists>p. accepted env h (required_scope req) st p)) \<and>
    (system_ok d \<longrightarrow> system_ok d' \<and> evolves d d')"
  using assms
  by (cases req)
    (auto simp: run_route_def required_scope_def dest: post_order.answers_accepted get_external.answers_accepted
      post_accept.answers_accepted get_order.answers_accepted post_verify.answers_accepted post_collection.answers_accepted
      get_coll.answers_accepted post_order.keeps_system get_external.keeps_system post_accept.keeps_system get_order.keeps_system
      post_verify.keeps_system post_collection.keeps_system get_coll.keeps_system)


section \<open>Nothing without a token\<close>

lemma accepted_limiter [simp]: "accepted env h scope (st\<lparr>as_rate_limiter := l\<rparr>) p = accepted env h scope st p"
  by (simp add: accepted_def)

text \<open>What happens in front of the routes: the request is refused unchanged, or the route runs.\<close>

lemma handle_request_cases:
  assumes "handle_request env h req st d = (r, st', d')"
  obtains "d' = d" "\<not> is_ok r" | l where "run_route env h req (st\<lparr>as_rate_limiter := l\<rparr>) d = (r, st', d')"
proof (cases "routed st req")
  case False
  with assms show thesis by (intro that(1)) (auto simp: handle_request_def)
next
  case routed: True
  show thesis
  proof (cases "as_rate_limiter st")
    case None
    then have "st = st\<lparr>as_rate_limiter := None\<rparr>" by simp
    with assms routed None that(2)[of None] show thesis by (simp add: handle_request_def)
  next
    case (Some l)
    with assms routed that show thesis by (auto simp: handle_request_def Let_def split: prod.splits if_splits)
  qed
qed

text \<open>
  C15: An answer other than an error, and any change of the database, is behind a bearer token that the
  verifier accepted with the scope the request needs; and every request, whatever its headers and
  body, keeps the invariant of the whole database and lets it evolve only by the service's rules.
\<close>

theorem api_needs_accepted_token:
  assumes "handle_request env h req st d = (r, st', d')"
  shows "(d' \<noteq> d \<or> is_ok r \<longrightarrow> (\<exists>p. accepted env h (required_scope req) st p)) \<and>
    (system_ok d \<longrightarrow> system_ok d' \<and> evolves d d')"
  using assms
proof (cases rule: handle_request_cases)
  case 1
  then show ?thesis using reachable_evolves[OF rtranclp.rtrancl_refl, of d] by simp
next
  case (2 l)
  show ?thesis using route_system[OF 2] unfolding accepted_limiter .
qed


section \<open>Only the caller's own orders\<close>

definition shows_order :: "OrderResponse \<Rightarrow> order_row \<Rightarrow> bool" where
  "shows_order resp r \<longleftrightarrow> ors_id resp = o_id r \<and> ors_external_id resp = o_external_id r \<and> ors_status resp = o_status r \<and>
     opr_receive_address (ors_payment resp) = address_to_lower_hex (o_receive_address r) \<and>
     opr_amount_raw (ors_payment resp) = show_int (o_expected_amount_raw r) \<and>
     opr_paid_amount_raw (ors_payment resp) = show_int (o_paid_amount_raw r)"

definition answers_owner :: "Principal \<Rightarrow> ApiRequest \<Rightarrow> ApiResponse \<Rightarrow> db \<Rightarrow> db \<Rightarrow> bool" where
  "answers_owner p req a d d' \<longleftrightarrow> (case a of
      OrderReply _ resp \<Rightarrow> \<exists>r \<in> set (orders d'). o_owner_sub r = trim (pr_subject p) \<and> shows_order resp r
    | VerifyReply res \<Rightarrow> \<exists>r \<in> set (orders d). o_owner_sub r = pr_subject p \<and> o_id r = ovre_order_id res
    | CollectionReply _ resp \<Rightarrow> (case req of
        GetCollection _ \<Rightarrow> \<exists>c \<in> set (collections d'). col_owner_sub c = trim (pr_subject p) \<and> col_id c = cre_id resp \<and>
          cre_status resp = col_status c
      | _ \<Rightarrow> True))"

lemma respond_order_Ok:
  "respond_order env st owner cfg view d = (Ok resp, d') \<Longrightarrow> d' = d \<and> (\<exists>dg. resp = order_response env view cfg dg)"
  by (auto simp: respond_order_def order_payment_diagnostics_def service_get_order_payment_diagnostics_for_owner_def andThen_Ok)

lemma show_raw_row: "show_raw a = show_int (uint a)"
  by (simp only: show_int_uint) (simp add: show_raw_def raw_amount_to_string_def)

lemma record_fields:
  assumes "row_to_order_record r = Ok rec"
  shows "or_id rec = o_id r \<and> or_external_id rec = o_external_id r \<and> or_status rec = o_status r \<and>
    or_receive_address rec = o_receive_address r \<and> uint (or_expected_amount_raw rec) = o_expected_amount_raw r \<and>
    uint (or_paid_amount_raw rec) = o_paid_amount_raw r"
  using assms by (auto simp: row_to_order_record_def bindE_eq_Ok dest!: big_decimal_Ok)

lemma response_shows: "row_to_order_record r = Ok (ov_order view) \<Longrightarrow> shows_order (order_response env view cfg dg) r"
  by (drule record_fields) (simp add: shows_order_def order_response_def Let_def show_raw_row)

lemma fetched_view_record:
  assumes "fetch_order_view q d = Ok (Some view)"
  shows "\<exists>r \<in> set (orders d). q r \<and> row_to_order_record r = Ok (ov_order view)"
proof -
  obtain r c w where r: "find_row q (orders d) = Some r" "row_to_order_view r c w = Ok view"
    using assms by (auto simp: fetch_order_view_def mapE_eq_Ok split: option.splits)
  have "row_to_order_record r = Ok (ov_order view)" using r(2) by (auto simp: row_to_order_view_def bindE_eq_Ok)
  then show ?thesis using find_row_Some[OF r(1)] by blast
qed

definition owned_view :: "Principal \<Rightarrow> OrderView \<Rightarrow> db \<Rightarrow> bool" where
  "owned_view p view d \<longleftrightarrow>
     (\<exists>r \<in> set (orders d). o_owner_sub r = trim (pr_subject p) \<and> row_to_order_record r = Ok (ov_order view))"

lemma owned_fetch: "get_order_view_for_owner oid (trim (pr_subject p)) d = Ok (Some view) \<Longrightarrow> owned_view p view d"
  unfolding get_order_view_for_owner_def owned_view_def by (drule fetched_view_record) blast

lemma normalize_owner_Ok: "normalize_owner_sub x = Ok y \<Longrightarrow> y = trim x"
  by (auto simp: normalize_owner_sub_def Let_def split: if_splits)

lemma owned_response:
  assumes "respond_order env st owner cfg view d = (Ok resp, d')" "owned_view p view d"
  shows "\<exists>r \<in> set (orders d'). o_owner_sub r = trim (pr_subject p) \<and> shows_order resp r"
  using respond_order_Ok[OF assms(1)] assms(2) response_shows unfolding owned_view_def by blast

lemma created_owned:
  assumes "create_order_for_owner env cfg (pr_subject p) inp d = (Ok res, d')" "system_ok d"
  shows "owned_view p (cor_view res) d'"
proof -
  obtain rec hash where rec: "get_order_by_external_id_for_owner (trim (coi_external_id inp)) (trim (pr_subject p)) d' = Ok (Some rec)"
    "ov_order (cor_view res) = rec" "request_hash env inp = Ok hash" "or_request_hash rec = hash"
    by (rule create_order_Ok[OF assms])
  obtain r where r: "find_row (\<lambda>r. o_external_id r = trim (coi_external_id inp) \<and> o_owner_sub r = trim (pr_subject p)) (orders d') = Some r"
    "row_to_order_record r = Ok rec"
    using rec(1) unfolding get_order_by_external_id_for_owner_def by (rule fetched_row)
  show ?thesis using find_row_Some[OF r(1)] r(2) rec(2) unfolding owned_view_def by blast
qed

lemma accepted_owned:
  assumes "service_accept_problem_payment_for_owner now oid (pr_subject p) by_whom reason d = (Ok (Some view), d')" "system_ok d"
  shows "owned_view p view d'"
proof -
  have run: "accept_problem_payment_for_owner now oid (trim (pr_subject p)) by_whom reason d = Ok (Some view, d')"
    using assms(1) by (auto simp: service_accept_problem_payment_for_owner_def andThen_Ok dest!: normalize_owner_Ok)
  have "schema_ok d" "ledger_ok d" using assms(2) by (simp_all add: system_ok_def repo_ok_def)
  from run this show ?thesis
    by (cases rule: accept_problem_payment_Ok) (auto dest: owned_fetch)
qed

lemmas order_bodies = create_order_body_def get_order_body_def get_order_by_external_id_body_def accept_problem_payment_body_def

lemma create_body_owned:
  assumes "create_order_body env st payload p d = (Ok (n, resp), d')" "system_ok d"
  shows "\<exists>r \<in> set (orders d'). o_owner_sub r = trim (pr_subject p) \<and> shows_order resp r"
  using assms(1) unfolding create_order_body_def andThen_Ok answer_simps map_error_Ok prod.inject
  by (elim exE conjE) (auto dest: created_owned[OF _ assms(2)] intro: owned_response)

lemma get_body_owned:
  assumes "get_order_body env st i p d = (Ok resp, d')"
  shows "\<exists>r \<in> set (orders d'). o_owner_sub r = trim (pr_subject p) \<and> shows_order resp r"
  using assms unfolding get_order_body_def service_get_order_for_owner_def andThen_Ok answer_simps map_error_Ok query_Ok prod.inject
  by (elim exE conjE) (auto dest!: normalize_owner_Ok simp: ok_or_eq_Ok dest: owned_fetch intro: owned_response)

lemma external_body_owned:
  assumes "get_order_by_external_id_body env st x p d = (Ok resp, d')"
  shows "\<exists>r \<in> set (orders d'). o_owner_sub r = trim (pr_subject p) \<and> shows_order resp r"
proof -
  have owned: "owned_view p view d0 \<and> d1 = d0" if "service_get_order_by_external_id_for_owner x (pr_subject p) d0 = (Ok (Some view), d1)"
    for view d0 d1
    using that by (auto simp: service_get_order_by_external_id_for_owner_def andThen_Ok mapE_eq_Ok ok_or_eq_Ok
        dest!: normalize_owner_Ok dest: owned_fetch split: option.splits)
  show ?thesis
    using assms unfolding get_order_by_external_id_body_def andThen_Ok answer_simps map_error_Ok prod.inject
    by (elim exE conjE) (auto simp: ok_or_eq_Ok dest: owned intro: owned_response)
qed

lemma accept_body_owned:
  assumes "accept_problem_payment_body env st i reason p d = (Ok resp, d')" "system_ok d"
  shows "\<exists>r \<in> set (orders d'). o_owner_sub r = trim (pr_subject p) \<and> shows_order resp r"
  using assms(1) unfolding accept_problem_payment_body_def andThen_Ok answer_simps map_error_Ok prod.inject
  by (elim exE conjE) (auto simp: ok_or_eq_Ok dest: accepted_owned[OF _ assms(2)] intro: owned_response)

lemma verify_body_owned:
  assumes "verify_order_body env st i p d = (Ok res, d')"
  shows "\<exists>r \<in> set (orders d). o_owner_sub r = pr_subject p \<and> o_id r = ovre_order_id res"
proof -
  obtain vcfg oid res0 where run: "verify_order_internal (ae_verify env) vcfg oid (Some (pr_subject p)) d = (Ok res0, d')"
    "res = order_verify_response res0"
    using assms by (auto simp: verify_order_body_def verify_order_for_owner_def andThen_Ok)
  have "mvr_order_id res0 = oid" "\<exists>view. get_order_view_for_owner oid (pr_subject p) d = Ok (Some view)"
    using run(1) by (auto simp: verify_order_internal_def verify_result_def bindE_eq_Ok Let_def andThen_Ok ok_or_def split: if_splits option.splits)
  then show ?thesis
    unfolding get_order_view_for_owner_def run(2) by (auto simp: order_verify_response_def dest!: fetched_view_record)
qed

lemma collection_body_owned:
  assumes "get_collection_body env st i p d = (Ok resp, d')"
  shows "\<exists>c \<in> set (collections d'). col_owner_sub c = trim (pr_subject p) \<and> col_id c = cre_id resp \<and> cre_status resp = col_status c"
proof -
  obtain cid c where "get_collection_for_owner cid (trim (pr_subject p)) d = Ok (Some c)" "resp = collection_response env c" "d' = d"
    using assms by (auto simp: get_collection_body_def service_get_collection_for_owner_def andThen_Ok ok_or_eq_Ok)
  then obtain r where r: "find_row (\<lambda>r. col_id r = cid \<and> col_owner_sub r = trim (pr_subject p)) (collections d') = Some r"
    "collection_record_from_row r = Ok c" "resp = collection_response env c"
    by (auto simp: get_collection_for_owner_def optionE_def mapE_eq_Ok split: option.splits)
  have "cr_id c = col_id r" "cr_status c = col_status r" using r(2) by (auto simp: collection_record_from_row_def bindE_eq_Ok)
  then show ?thesis using find_row_Some[OF r(1)] r(3) by (auto simp: collection_response_def)
qed

lemma route_owner:
  assumes "run_route env h req st d = (Ok a, st', d')" "system_ok d"
  shows "\<exists>p. accepted env h (required_scope req) st p \<and> answers_owner p req a d d'"
proof -
  obtain p where p: "accepted env h (required_scope req) st p" using route_system[OF assms(1)] by auto
  have "answers_owner p req a d d'"
  proof (cases req)
    case (PostOrder payload)
    from post_order.served_Ok[OF assms(1)[unfolded run_route_def PostOrder ApiRequest.case] p[unfolded required_scope_def PostOrder ApiRequest.case]]
    obtain n resp where "create_order_body env st payload p d = (Ok (n, resp), d')" "a = OrderReply n resp"
      by auto
    then show ?thesis using create_body_owned[OF _ assms(2)] by (simp add: answers_owner_def)
  next
    case (GetOrderByExternalId x)
    from get_external.served_Ok[OF assms(1)[unfolded run_route_def GetOrderByExternalId ApiRequest.case] p[unfolded required_scope_def GetOrderByExternalId ApiRequest.case]]
    obtain resp where "get_order_by_external_id_body env st x p d = (Ok resp, d')" "a = OrderReply 200 resp"
      by auto
    then show ?thesis using external_body_owned by (simp add: answers_owner_def)
  next
    case (PostAcceptProblemPayment i reason)
    from post_accept.served_Ok[OF assms(1)[unfolded run_route_def PostAcceptProblemPayment ApiRequest.case] p[unfolded required_scope_def PostAcceptProblemPayment ApiRequest.case]]
    obtain resp where "accept_problem_payment_body env st i reason p d = (Ok resp, d')" "a = OrderReply 200 resp"
      by auto
    then show ?thesis using accept_body_owned[OF _ assms(2)] by (simp add: answers_owner_def)
  next
    case (GetOrder i)
    from get_order.served_Ok[OF assms(1)[unfolded run_route_def GetOrder ApiRequest.case] p[unfolded required_scope_def GetOrder ApiRequest.case]]
    obtain resp where "get_order_body env st i p d = (Ok resp, d')" "a = OrderReply 200 resp"
      by auto
    then show ?thesis using get_body_owned by (simp add: answers_owner_def)
  next
    case (PostVerify i)
    from post_verify.served_Ok[OF assms(1)[unfolded run_route_def PostVerify ApiRequest.case] p[unfolded required_scope_def PostVerify ApiRequest.case]]
    obtain res where "verify_order_body env st i p d = (Ok res, d')" "a = VerifyReply res"
      by auto
    then show ?thesis using verify_body_owned by (simp add: answers_owner_def)
  next
    case (PostCollection payload)
    from post_collection.served_Ok[OF assms(1)[unfolded run_route_def PostCollection ApiRequest.case] p[unfolded required_scope_def PostCollection ApiRequest.case]]
    obtain n resp where "a = CollectionReply n resp" by auto
    then show ?thesis using PostCollection by (simp add: answers_owner_def)
  next
    case (GetCollection i)
    from get_coll.served_Ok[OF assms(1)[unfolded run_route_def GetCollection ApiRequest.case] p[unfolded required_scope_def GetCollection ApiRequest.case]]
    obtain resp where "get_collection_body env st i p d = (Ok resp, d')" "a = CollectionReply 200 resp"
      by auto
    then show ?thesis using collection_body_owned GetCollection by (simp add: answers_owner_def)
  qed
  with p show ?thesis by blast
qed

text \<open>
  C14: An order answer describes, after the request, a row of the orders table that belongs to the
  subject of the accepted token, with its status, its address and its amounts; a verification
  answer is about an order that belonged to that subject, and a collection is read by its owner only.
\<close>

theorem api_owner_isolation:
  assumes "handle_request env h req st d = (Ok a, st', d')" "system_ok d"
  shows "\<exists>p. accepted env h (required_scope req) st p \<and> answers_owner p req a d d'"
  using assms(1)
proof (cases rule: handle_request_cases)
  case 1
  then show ?thesis by simp
next
  case (2 l)
  show ?thesis using route_owner[OF 2 assms(2)] unfolding accepted_limiter .
qed


section \<open>Witnesses\<close>

definition sample_api_env :: "nat api_env" where
  "sample_api_env = \<lparr>ae_jwt = sample_jwt, ae_refresh = sample_refresh, ae_unix_now = 500, ae_unix_minute = 8,
     ae_parse_uuid = \<lambda>x. if x = ''1'' then Some 1 else None, ae_format_timestamp = \<lambda>_. [], ae_order = shop_env, ae_accept_now = 40,
     ae_verify = sample_verify_env, ae_verify_error_text = \<lambda>_. [], ae_collection = sample_collection_env 72 2\<rparr>"

definition sample_api :: "nat ApiState" where
  "sample_api = \<lparr>as_auth = Some sample_verifier, as_orders = Some shop_config, as_order_verify = Some sample_verify,
     as_collections = Some sample_service,
     as_order_response_config = Some \<lparr>orc_token_decimals = 6, orc_token_symbol = ''USDC'', orc_problem_funds_address = 0xDEAD\<rparr>,
     as_rate_limiter = Some (per_minute 2 7)\<rparr>"

definition sample_headers :: api_headers where
  "sample_headers = \<lparr>hd_authorization = Some ''Bearer t'', hd_request_id = None\<rparr>"

lemma sample_view_read: "\<exists>view. get_order_view_for_owner 1 ''alice'' verify_db = Ok (Some view) \<and> or_id (ov_order view) = 1"
  using big_decimal_numeral[of 100] big_decimal_numeral[of 0]
  by (simp add: get_order_view_for_owner_def fetch_order_view_def row_to_order_view_def row_to_order_record_def row_to_child_account_def
      order_eval segment_new_def validate_index_def MAX_DERIVATION_INDEX_def verify_db_def sample_child_def sample_defs)

lemma sample_diagnostics_read: "\<exists>dg. get_order_payment_diagnostics_for_owner 1 ''alice'' 0xDEAD verify_db = Ok (Some dg)"
  using big_decimal_numeral[of 0]
  by (simp add: get_order_payment_diagnostics_for_owner_def verify_db_def sample_defs find_row_def first_row_def optionE_def
      sum_amounts_def ord_i64_to_u64_def Let_def)

lemma sample_api_run:
  "\<exists>a st'. handle_request sample_api_env sample_headers (GetOrder ''1'') sample_api verify_db = (Ok a, st', verify_db)"
proof -
  obtain p s' where p: "verify_bearer_with_scope_async sample_jwt sample_refresh sample_verifier 500 (Some ''Bearer t'')
      ''orders:read'' = (Ok p, s')" "pr_subject p = ''alice''" using sample_accepted by blast
  obtain view where view: "get_order_view_for_owner 1 ''alice'' verify_db = Ok (Some view)" "or_id (ov_order view) = 1"
    using sample_view_read by blast
  obtain dg where dg: "get_order_payment_diagnostics_for_owner 1 ''alice'' 0xDEAD verify_db = Ok (Some dg)"
    using sample_diagnostics_read by blast
  let ?st = "sample_api\<lparr>as_rate_limiter := Some ((per_minute 2 7)\<lparr>rl_current_window_minute := 8, rl_counter := 1\<rparr>)\<rparr>"
  have "normalize_owner_sub ''alice'' = Ok ''alice''" by (rule shop_steps)
  then obtain resp where body: "get_order_body sample_api_env ?st ''1'' p verify_db = (Ok resp, verify_db)"
    by (simp add: get_order_body_def respond_order_def order_payment_diagnostics_def service_get_order_for_owner_def
        service_get_order_payment_diagnostics_for_owner_def andThen_def query_def map_error_def p(2) view dg parse_order_id_def
        response_config_def orders_service_def sample_api_env_def sample_api_def ok_or_def)
  obtain st' where scope: "require_scope sample_api_env sample_headers ORDERS_READ_SCOPE ?st = (Ok p, st')"
    by (simp add: require_scope_def sample_api_env_def sample_api_def sample_headers_def p(1) ORDERS_READ_SCOPE_def)
  have "run_route sample_api_env sample_headers (GetOrder ''1'') ?st verify_db = (Ok (OrderReply 200 resp), st', verify_db)"
    unfolding run_route_def ApiRequest.case reply_def with_scope_def scope by (simp add: body)
  moreover have "handle_request sample_api_env sample_headers (GetOrder ''1'') sample_api verify_db =
      run_route sample_api_env sample_headers (GetOrder ''1'') ?st verify_db"
    by (simp add: handle_request_def routed_def rl_allow_eq per_minute_def sample_api_def sample_api_env_def)
  ultimately show ?thesis by (intro exI) simp
qed

theorem api_needs_accepted_token_witness:
  "\<exists>p. accepted sample_api_env sample_headers ''orders:read'' sample_api p"
proof -
  obtain a st' where "handle_request sample_api_env sample_headers (GetOrder ''1'') sample_api verify_db = (Ok a, st', verify_db)"
    using sample_api_run by blast
  from api_needs_accepted_token[OF this] show ?thesis by (simp add: required_scope_def ORDERS_READ_SCOPE_def)
qed

theorem api_owner_isolation_witness:
  "\<exists>a st' p. handle_request sample_api_env sample_headers (GetOrder ''1'') sample_api verify_db = (Ok a, st', verify_db) \<and>
     accepted sample_api_env sample_headers ''orders:read'' sample_api p \<and> answers_owner p (GetOrder ''1'') a verify_db verify_db"
proof -
  obtain a st' where run: "handle_request sample_api_env sample_headers (GetOrder ''1'') sample_api verify_db = (Ok a, st', verify_db)"
    using sample_api_run by blast
  from api_owner_isolation[OF run verify_db_system] run show ?thesis by (auto simp: required_scope_def ORDERS_READ_SCOPE_def)
qed

end
