(* ===== verification/Rpc.thy ===== *)
theory Rpc
  imports Collection_Service Auth
begin

text \<open>
  The JSON-RPC chain client of \<open>src/src/chain/rpc.rs\<close>: decoding of the nodes' answers
  and the provider that reaches a node over HTTP.  What a node answers to a method
  and its parameters is an argument; serde's derived readers are written out on JSON values, and
  the text of a serde error is an argument.
\<close>

section \<open>JSON values\<close>

definition as_str :: "json \<Rightarrow> string option" where
  "as_str v = (case v of JString s \<Rightarrow> Some s | _ \<Rightarrow> None)"

definition as_array :: "json \<Rightarrow> json list option" where
  "as_array v = (case v of JArray xs \<Rightarrow> Some xs | _ \<Rightarrow> None)"

definition json_get :: "json \<Rightarrow> string \<Rightarrow> json option" where
  "json_get v k = (case v of JObject kvs \<Rightarrow> map_of kvs k | _ \<Rightarrow> None)"

definition is_object :: "json \<Rightarrow> bool" where
  "is_object v \<longleftrightarrow> (case v of JObject _ \<Rightarrow> True | _ \<Rightarrow> False)"

text \<open>
  Fields of a derived reader: \<open>Option<String>\<close>, \<open>String\<close>, \<open>Vec<String>\<close>; no result is a type error.  An
  array in the place of an object, which serde reads by position, is one here as well.
\<close>

definition optional_text :: "json \<Rightarrow> string \<Rightarrow> string option option" where
  "optional_text v k = (case json_get v k of None \<Rightarrow> Some None | Some JNull \<Rightarrow> Some None | Some x \<Rightarrow> map_option Some (as_str x))"

definition required_text :: "json \<Rightarrow> string \<Rightarrow> string option" where
  "required_text v k = Option.bind (json_get v k) as_str"

fun all_some :: "'a option list \<Rightarrow> 'a list option" where
  "all_some [] = Some []"
| "all_some (x # xs) = Option.bind x (\<lambda>a. map_option ((#) a) (all_some xs))"

definition text_array :: "json \<Rightarrow> string list option" where
  "text_array v = Option.bind (as_array v) (\<lambda>xs. all_some (map as_str xs))"

fun join_texts :: "string \<Rightarrow> string list \<Rightarrow> string" where
  "join_texts sep [] = []"
| "join_texts sep [x] = x"
| "join_texts sep (x # y # xs) = x @ sep @ join_texts sep (y # xs)"

fun contains_text :: "string \<Rightarrow> string \<Rightarrow> bool" where
  "contains_text s pat = (starts_with s pat \<or> (case s of [] \<Rightarrow> False | _ # rest \<Rightarrow> contains_text rest pat))"


section \<open>Decoding of quantities, data, hashes and addresses\<close>

definition malformed :: "string \<Rightarrow> string \<Rightarrow> ChainError" where
  "malformed field what = MalformedRpcResponse (field @ what)"

definition hex_digits_value :: "string \<Rightarrow> nat option" where
  "hex_digits_value s =
     (if list_all is_hex_digit s
      then Some (foldl (\<lambda>a c. 16 * a + unat (the (hex_value (char_byte c)))) 0 s) else None)"

text \<open>\<open>u64::from_str_radix(_, 16)\<close> of at most sixteen characters, which cannot overflow: it allows a plus sign.\<close>

definition from_str_radix_16 :: "string \<Rightarrow> u64 option" where
  "from_str_radix_16 s =
     (let digits = (case s of c # d # cs \<Rightarrow> if c = CHR ''+'' then d # cs else s | _ \<Rightarrow> s) in
      if digits = [] then None else map_option of_nat (hex_digits_value digits))"

definition parse_hex_u64 :: "string \<Rightarrow> string \<Rightarrow> ChainError + u64" where
  "parse_hex_u64 value field =
     bindE (ok_or (strip_hex_prefix value) (malformed field '' must be a 0x-prefixed hex quantity'')) (\<lambda>hex.
     if hex = [] then Ok 0
     else if length hex > 16 then Err (malformed field '' overflows u64'')
     else ok_or (from_str_radix_16 hex) (malformed field '' contains invalid hex''))"

definition missing_field :: "string \<Rightarrow> ChainError" where
  "missing_field field = malformed field '' is missing from RPC response''"

definition parse_required_hex_u64 :: "string option \<Rightarrow> string \<Rightarrow> ChainError + u64" where
  "parse_required_hex_u64 value field = bindE (ok_or value (missing_field field)) (\<lambda>v. parse_hex_u64 v field)"

definition decode_prefixed_hex :: "string \<Rightarrow> string \<Rightarrow> bool \<Rightarrow> ChainError + bytes" where
  "decode_prefixed_hex value field allow_odd_nibbles =
     bindE (ok_or (strip_hex_prefix value) (malformed field '' must be 0x-prefixed hex'')) (\<lambda>hex.
     if hex = [] then Ok []
     else if odd (length hex) \<and> \<not> allow_odd_nibbles then Err (malformed field '' has odd-length hex data'')
     else
       map_errE (\<lambda>e. MalformedRpcResponse (hex_error_text e))
         (decode_chunks field 0 (if odd (length hex) then CHR ''0'' # hex else hex)))"

definition parse_hex_u256 :: "string \<Rightarrow> string \<Rightarrow> ChainError + u256" where
  "parse_hex_u256 value field =
     bindE (decode_prefixed_hex value field True) (\<lambda>bytes.
     if length bytes > 32 then Err (malformed field '' overflows uint256'') else Ok (word_of_bytes bytes))"

definition field_error :: "string \<Rightarrow> HexParseError \<Rightarrow> ChainError" where
  "field_error field e = MalformedRpcResponse (field @ '': '' @ hex_error_text e)"

definition parse_block_hash :: "string \<Rightarrow> string \<Rightarrow> ChainError + BlockHash" where
  "parse_block_hash value field = map_errE (field_error field) (block_hash_from_str value)"

definition parse_required_block_hash :: "string option \<Rightarrow> string \<Rightarrow> ChainError + BlockHash" where
  "parse_required_block_hash value field = bindE (ok_or value (missing_field field)) (\<lambda>v. parse_block_hash v field)"

definition parse_tx_hash :: "string \<Rightarrow> string \<Rightarrow> ChainError + TxHash" where
  "parse_tx_hash value field = map_errE (field_error field) (tx_hash_from_str value)"

definition parse_required_tx_hash :: "string option \<Rightarrow> string \<Rightarrow> ChainError + TxHash" where
  "parse_required_tx_hash value field = bindE (ok_or value (missing_field field)) (\<lambda>v. parse_tx_hash v field)"

definition parse_address :: "string \<Rightarrow> string \<Rightarrow> ChainError + EvmAddress" where
  "parse_address value field = map_errE (field_error field) (address_from_str value)"

text \<open>
  The slice \<open>hex[..24]\<close> panics when byte 24 is inside a character; then the first 24 bytes are not all
  \<open>0\<close>, and the model gives the error of that branch.
\<close>

definition parse_topic_address :: "string \<Rightarrow> string \<Rightarrow> ChainError + EvmAddress" where
  "parse_topic_address value field =
     bindE (ok_or (strip_hex_prefix value) (malformed field '' must be a 0x-prefixed topic'')) (\<lambda>hex.
     if length hex \<noteq> 64 then Err (malformed field '' must contain 64 hex chars'')
     else if \<not> list_all (\<lambda>c. c = CHR ''0'') (take 24 hex)
     then Err (malformed field '' contains non-zero padding in high 12 bytes'')
     else parse_address (''0x'' @ drop 24 hex) field)"

fun show_hex :: "nat \<Rightarrow> string" where
  "show_hex n = (if n < 16 then [hex_table ! n] else show_hex (n div 16) @ [hex_table ! (n mod 16)])"

declare show_hex.simps [simp del]

definition quantity_hex :: "u64 \<Rightarrow> string" where
  "quantity_hex value = ''0x'' @ show_hex (unat value)"

definition encode_hex :: "bytes \<Rightarrow> string" where
  "encode_hex bs = ''0x'' @ concat (map encode_byte bs)"


section \<open>Answers of the nodes\<close>

record rpc_env =
  rn_request :: "nat \<Rightarrow> string \<Rightarrow> json \<Rightarrow> ChainError + json"
  rn_now :: instant
  rn_serde_error :: "json \<Rightarrow> string"

definition serde :: "rpc_env \<Rightarrow> json \<Rightarrow> 'a option \<Rightarrow> ChainError + 'a" where
  "serde env v r = ok_or r (MalformedRpcResponse (rn_serde_error env v))"

record ProviderBlock =
  pb_provider_id :: string
  pb_block :: ChainBlock

record RpcBlock =
  rb_number :: "string option"
  rb_hash :: "string option"
  rb_parent_hash :: "string option"
  rb_timestamp :: "string option"

definition read_rpc_block :: "json \<Rightarrow> RpcBlock option" where
  "read_rpc_block v =
     (if \<not> is_object v then None
      else
        Option.bind (optional_text v ''number'') (\<lambda>number.
        Option.bind (optional_text v ''hash'') (\<lambda>hash.
        Option.bind (optional_text v ''parentHash'') (\<lambda>parent.
        Option.bind (optional_text v ''timestamp'') (\<lambda>timestamp.
        Some \<lparr>rb_number = number, rb_hash = hash, rb_parent_hash = parent, rb_timestamp = timestamp\<rparr>)))))"

text \<open>\<open>OffsetDateTime::from_unix_timestamp\<close>, whose error text is an argument as well.\<close>

definition from_unix_timestamp :: "int \<Rightarrow> timestamp option" where
  "from_unix_timestamp s =
     (if MIN_DATETIME \<le> s * one_second \<and> s * one_second \<le> MAX_DATETIME then Some (s * one_second) else None)"

definition parse_block :: "rpc_env \<Rightarrow> json \<Rightarrow> string \<Rightarrow> ChainError + ProviderBlock" where
  "parse_block env value provider_id =
     bindE (serde env value (read_rpc_block value)) (\<lambda>b.
     bindE (parse_required_hex_u64 (rb_number b) ''block.number'') (\<lambda>number.
     bindE (parse_required_block_hash (rb_hash b) ''block.hash'') (\<lambda>hash.
     bindE (parse_required_block_hash (rb_parent_hash b) ''block.parentHash'') (\<lambda>parent_hash.
     bindE (parse_required_hex_u64 (rb_timestamp b) ''block.timestamp'') (\<lambda>seconds.
     bindE (serde env value (from_unix_timestamp (sint seconds))) (\<lambda>timestamp.
     Ok \<lparr>pb_provider_id = provider_id,
         pb_block = \<lparr>blk_number = number, blk_hash = hash, blk_parent_hash = parent_hash, blk_timestamp = timestamp\<rparr>\<rparr>))))))"

record RpcLog =
  rl_address :: string
  rl_topics :: "string list"
  rl_data :: string
  rl_block_number :: "string option"
  rl_block_hash :: "string option"
  rl_transaction_hash :: "string option"
  rl_log_index :: "string option"

definition read_rpc_log :: "json \<Rightarrow> RpcLog option" where
  "read_rpc_log v =
     Option.bind (required_text v ''address'') (\<lambda>address.
     Option.bind (Option.bind (json_get v ''topics'') text_array) (\<lambda>topics.
     Option.bind (required_text v ''data'') (\<lambda>data.
     Option.bind (optional_text v ''blockNumber'') (\<lambda>block_number.
     Option.bind (optional_text v ''blockHash'') (\<lambda>block_hash.
     Option.bind (optional_text v ''transactionHash'') (\<lambda>tx_hash.
     Option.bind (optional_text v ''logIndex'') (\<lambda>log_index.
     Some \<lparr>rl_address = address, rl_topics = topics, rl_data = data, rl_block_number = block_number,
       rl_block_hash = block_hash, rl_transaction_hash = tx_hash, rl_log_index = log_index\<rparr>)))))))"

record ParsedTransferLog =
  pt_token_address :: EvmAddress
  pt_block_number :: u64
  pt_block_hash :: BlockHash
  pt_tx_hash :: TxHash
  pt_log_index :: u64
  pt_from_address :: EvmAddress
  pt_to_address :: EvmAddress
  pt_amount_raw :: RawAmount

definition ERC20_TRANSFER_TOPIC :: string where
  "ERC20_TRANSFER_TOPIC = ''0xddf252ad1be2c89b69c2b068fc378daa952ba7f163c4a11628f55a4df523b3ef''"

definition parse_transfer_log :: "rpc_env \<Rightarrow> json \<Rightarrow> ChainError + ParsedTransferLog" where
  "parse_transfer_log env value =
     bindE (serde env value (read_rpc_log value)) (\<lambda>l.
     bindE (parse_address (rl_address l) ''log.address'') (\<lambda>token_address.
     bindE (parse_required_hex_u64 (rl_block_number l) ''log.blockNumber'') (\<lambda>block_number.
     bindE (parse_required_block_hash (rl_block_hash l) ''log.blockHash'') (\<lambda>block_hash.
     bindE (parse_required_tx_hash (rl_transaction_hash l) ''log.transactionHash'') (\<lambda>tx_hash.
     bindE (parse_required_hex_u64 (rl_log_index l) ''log.logIndex'') (\<lambda>log_index.
     case rl_topics l of
       topic # from # to # _ \<Rightarrow>
         if \<not> eq_ignore_ascii_case topic ERC20_TRANSFER_TOPIC
         then Err (MalformedRpcResponse ''eth_getLogs returned a non-Transfer event'')
         else
           bindE (parse_topic_address from ''log.topics[1]'') (\<lambda>from_address.
           bindE (parse_topic_address to ''log.topics[2]'') (\<lambda>to_address.
           bindE (parse_hex_u256 (rl_data l) ''log.data'') (\<lambda>amount.
           Ok \<lparr>pt_token_address = token_address, pt_block_number = block_number, pt_block_hash = block_hash,
               pt_tx_hash = tx_hash, pt_log_index = log_index, pt_from_address = from_address,
               pt_to_address = to_address, pt_amount_raw = amount\<rparr>)))
     | topics \<Rightarrow> Err (MalformedRpcResponse (''ERC20 Transfer log has '' @ show_nat (length topics) @ '' topics''))))))))"

record RpcReceipt =
  rr_transaction_hash :: string
  rr_block_number :: "string option"
  rr_block_hash :: "string option"
  rr_status :: "string option"
  rr_gas_used :: "string option"

definition read_rpc_receipt :: "json \<Rightarrow> RpcReceipt option" where
  "read_rpc_receipt v =
     Option.bind (required_text v ''transactionHash'') (\<lambda>tx_hash.
     Option.bind (optional_text v ''blockNumber'') (\<lambda>block_number.
     Option.bind (optional_text v ''blockHash'') (\<lambda>block_hash.
     Option.bind (optional_text v ''status'') (\<lambda>status.
     Option.bind (optional_text v ''gasUsed'') (\<lambda>gas_used.
     Some \<lparr>rr_transaction_hash = tx_hash, rr_block_number = block_number, rr_block_hash = block_hash,
       rr_status = status, rr_gas_used = gas_used\<rparr>)))))"

definition parse_receipt :: "rpc_env \<Rightarrow> json \<Rightarrow> ChainError + TxReceipt" where
  "parse_receipt env value =
     bindE (serde env value (read_rpc_receipt value)) (\<lambda>r.
     bindE (parse_tx_hash (rr_transaction_hash r) ''receipt.transactionHash'') (\<lambda>tx_hash.
     bindE (parse_required_hex_u64 (rr_block_number r) ''receipt.blockNumber'') (\<lambda>block_number.
     bindE (parse_required_block_hash (rr_block_hash r) ''receipt.blockHash'') (\<lambda>block_hash.
     bindE (case rr_status r of
         None \<Rightarrow> Err (MalformedRpcResponse ''receipt.status is missing'')
       | Some s \<Rightarrow>
           if s = ''0x1'' \<or> s = ''0X1'' then Ok Success
           else if s = ''0x0'' \<or> s = ''0X0'' then Ok Reverted
           else Err (MalformedRpcResponse (''unknown receipt.status '' @ s))) (\<lambda>status.
     bindE (case rr_gas_used r of None \<Rightarrow> Ok None | Some g \<Rightarrow> mapE Some (parse_hex_u64 g ''receipt.gasUsed'')) (\<lambda>gas_used.
     Ok \<lparr>rcpt_tx_hash = tx_hash, rcpt_block = \<lparr>cb_number = block_number, cb_hash = block_hash\<rparr>, rcpt_status = status,
         rcpt_gas_used = gas_used\<rparr>))))))"


section \<open>The HTTP provider\<close>

text \<open>What the HTTP client gives; the absent and the null result are the same.\<close>

record JsonRpcResponse =
  jr_result :: "json option"
  jr_error :: "(int \<times> string) option"

record http_reply =
  ht_status :: nat
  ht_status_text :: string
  ht_payload :: "string + JsonRpcResponse"

definition http_request :: "string \<Rightarrow> string \<Rightarrow> string + http_reply \<Rightarrow> ChainError + json" where
  "http_request pid meth sent =
     bindE (map_errE (\<lambda>e. RpcUnavailable (''provider '' @ pid @ '' request '' @ meth @ '' failed: '' @ e)) sent) (\<lambda>response.
     if ht_status response = 429
     then Err (RpcUnavailable (''provider '' @ pid @ '' rate limited request '' @ meth))
     else if \<not> (200 \<le> ht_status response \<and> ht_status response < 300)
     then Err (RpcUnavailable (''provider '' @ pid @ '' returned HTTP '' @ ht_status_text response @ '' for '' @ meth))
     else
       bindE (map_errE MalformedRpcResponse (ht_payload response)) (\<lambda>payload.
       case jr_error payload of
         Some (code, message) \<Rightarrow>
           Err (RpcUnavailable (''provider '' @ pid @ '' JSON-RPC error '' @ show_int code @ '' for '' @ meth @ '': '' @ message))
       | None \<Rightarrow>
           if meth = ''eth_getTransactionReceipt'' \<and> jr_result payload = None then Ok JNull
           else ok_or (jr_result payload) (MalformedRpcResponse (''provider '' @ pid @ '' omitted result for '' @ meth))))"

end
