(* ===== verification/Rpc_Client.thy ===== *)
theory Rpc_Client
  imports Rpc
begin

text \<open>
  The provider pool \<open>RpcProviderManager\<close> and the client \<open>RpcRangeSource\<close> of \<open>src/src/chain/rpc.rs\<close>.  The
  state of the pool (the health of each provider and the round-robin counter) is passed on; a
  provider is its index in the pool.  During one operation a node gives the same answer to the same
  request and the clock stands still; the concurrent header reads of \<open>transfer_logs\<close> run one
  after the other in the order of the blocks.
\<close>

section \<open>Health\<close>

record RpcProviderHealth =
  rh_consecutive_failures :: u32
  rh_unavailable_until :: "instant option"

definition provider_cooldown :: "u32 \<Rightarrow> instant" where
  "provider_cooldown consecutive_failures =
     (let exponent = min (saturating_sub consecutive_failures 1) 4;
          multiplier = push_bit (unat exponent) (1 :: u64) in
      uint (min (saturating_mul 5 multiplier) 60) * second_ns)"

definition health_available :: "instant \<Rightarrow> RpcProviderHealth \<Rightarrow> bool" where
  "health_available now h \<longleftrightarrow> (case rh_unavailable_until h of None \<Rightarrow> True | Some t \<Rightarrow> t \<le> now)"

definition record_success :: "RpcProviderHealth \<Rightarrow> RpcProviderHealth" where
  "record_success h = h\<lparr>rh_consecutive_failures := 0, rh_unavailable_until := None\<rparr>"

definition record_failure :: "instant \<Rightarrow> RpcProviderHealth \<Rightarrow> RpcProviderHealth" where
  "record_failure now h =
     (let n = saturating_add (rh_consecutive_failures h) 1 in
      h\<lparr>rh_consecutive_failures := n, rh_unavailable_until := Some (now + provider_cooldown n)\<rparr>)"

definition is_missing_safe_block_error :: "ChainError \<Rightarrow> bool" where
  "is_missing_safe_block_error e \<longleftrightarrow>
     e = BlockNotFound (- 1) \<or> contains_text (map to_ascii_lower (chain_error_text e)) ''safe block not found''"

definition is_provider_health_failure :: "ChainError \<Rightarrow> bool" where
  "is_provider_health_failure e \<longleftrightarrow>
     (case e of BlockNotFound _ \<Rightarrow> False | TransactionNotFound _ \<Rightarrow> False | _ \<Rightarrow> True) \<and> \<not> is_missing_safe_block_error e"


section \<open>The pool\<close>

record ManagedRpcProvider =
  mr_id :: string
  mr_health :: RpcProviderHealth

record RpcProviderManager =
  rm_expected_chain_id :: u64
  rm_min_provider_count :: nat
  rm_providers :: "ManagedRpcProvider list"
  rm_round_robin_counter :: u64

definition healthy :: RpcProviderHealth where
  "healthy = \<lparr>rh_consecutive_failures = 0, rh_unavailable_until = None\<rparr>"

definition with_min_provider_count :: "u64 \<Rightarrow> string list \<Rightarrow> nat \<Rightarrow> ChainError + RpcProviderManager" where
  "with_min_provider_count expected_chain_id ids min_provider_count =
     (if length ids < min_provider_count
      then Err (RpcUnavailable (''configured '' @ show_nat (length ids) @ '' RPC providers, expected at least ''
        @ show_nat min_provider_count))
      else if ids = [] then Err (RpcUnavailable ''no RPC providers configured'')
      else Ok \<lparr>rm_expected_chain_id = expected_chain_id, rm_min_provider_count = min_provider_count,
        rm_providers = map (\<lambda>i. \<lparr>mr_id = i, mr_health = healthy\<rparr>) ids, rm_round_robin_counter = 0\<rparr>)"

text \<open>\<open>build\<close> stands for the construction of the HTTP client of a url.\<close>

fun build_clients :: "(string \<Rightarrow> ChainError + unit) \<Rightarrow> nat \<Rightarrow> string list \<Rightarrow> ChainError + string list" where
  "build_clients build k [] = Ok []"
| "build_clients build k (url # urls) =
     bindE (build url) (\<lambda>_. mapE ((#) (''rpc-'' @ show_nat (k + 1))) (build_clients build (k + 1) urls))"

definition from_http_urls ::
  "(string \<Rightarrow> ChainError + unit) \<Rightarrow> u64 \<Rightarrow> string list \<Rightarrow> nat \<Rightarrow> ChainError + RpcProviderManager" where
  "from_http_urls build expected_chain_id urls min_provider_count =
     bindE (build_clients build 0 urls) (\<lambda>ids. with_min_provider_count expected_chain_id ids min_provider_count)"

definition provider_id :: "RpcProviderManager \<Rightarrow> nat \<Rightarrow> string" where
  "provider_id m i = mr_id (rm_providers m ! i)"

definition update_health :: "nat \<Rightarrow> (RpcProviderHealth \<Rightarrow> RpcProviderHealth) \<Rightarrow> RpcProviderManager \<Rightarrow> RpcProviderManager" where
  "update_health i f m =
     m\<lparr>rm_providers := (rm_providers m)[i := (rm_providers m ! i)\<lparr>mr_health := f (mr_health (rm_providers m ! i))\<rparr>]\<rparr>"

definition failed_call :: "rpc_env \<Rightarrow> nat \<Rightarrow> ChainError \<Rightarrow> RpcProviderManager \<Rightarrow> RpcProviderManager" where
  "failed_call env i e m = (if is_provider_health_failure e then update_health i (record_failure (rn_now env)) m else m)"

definition provider_error :: "RpcProviderManager \<Rightarrow> nat \<Rightarrow> string \<Rightarrow> string" where
  "provider_error m i text = provider_id m i @ '': '' @ text"

definition provider_candidates :: "instant \<Rightarrow> RpcProviderManager \<Rightarrow> nat list \<times> RpcProviderManager" where
  "provider_candidates now m =
     (let all = [0 ..< length (rm_providers m)];
          available = filter (\<lambda>i. health_available now (mr_health (rm_providers m ! i))) all;
          pool = (if available = [] then all else available) in
      if pool = [] then ([], m)
      else
        let start = unat (rm_round_robin_counter m) mod length pool in
        (map (\<lambda>i. pool ! ((start + i) mod length pool)) [0 ..< length pool],
         m\<lparr>rm_round_robin_counter := rm_round_robin_counter m + 1\<rparr>))"

text \<open>Steps over the pool: the result, and the pool as it is then.\<close>

type_synonym 'a rpc = "RpcProviderManager \<Rightarrow> (ChainError + 'a) \<times> RpcProviderManager"

definition rpc_answer :: "ChainError + 'a \<Rightarrow> 'a rpc" where
  "rpc_answer r m = (r, m)"

definition rpc_then :: "'a rpc \<Rightarrow> ('a \<Rightarrow> 'b rpc) \<Rightarrow> 'b rpc" where
  "rpc_then p f m = (case p m of (Inl e, m') \<Rightarrow> (Inl e, m') | (Inr a, m') \<Rightarrow> f a m')"

fun first_success :: "rpc_env \<Rightarrow> string \<Rightarrow> json \<Rightarrow> nat list \<Rightarrow> string list \<Rightarrow> (string \<times> json) rpc" where
  "first_success env meth params [] errors m =
     (Err (RpcUnavailable (''all RPC providers failed '' @ meth @ '': '' @ join_texts ''; '' errors)), m)"
| "first_success env meth params (i # is) errors m =
     (case rn_request env i meth params of
        Inr value \<Rightarrow> (Ok (provider_id m i, value), update_health i record_success m)
      | Inl e \<Rightarrow> first_success env meth params is (errors @ [provider_error m i (chain_error_text e)]) (failed_call env i e m))"

definition request_first_success :: "rpc_env \<Rightarrow> string \<Rightarrow> json \<Rightarrow> (string \<times> json) rpc" where
  "request_first_success env meth params m =
     (let (candidates, m') = provider_candidates (rn_now env) m in first_success env meth params candidates [] m')"


section \<open>Blocks and heads\<close>

definition select_conservative_head :: "ProviderBlock list \<Rightarrow> ProviderBlock" where
  "select_conservative_head bs =
     foldl (\<lambda>best b. if blk_number (pb_block b) < blk_number (pb_block best) then b else best) (hd bs) (tl bs)"

fun consistent_loop :: "string \<Rightarrow> (u64 \<times> ProviderBlock) list \<Rightarrow> ProviderBlock list \<Rightarrow> ChainError + unit" where
  "consistent_loop ctx hashes [] = Ok ()"
| "consistent_loop ctx hashes (b # bs) =
     (case map_of hashes (blk_number (pb_block b)) of
        Some existing \<Rightarrow>
          if blk_hash (pb_block existing) \<noteq> blk_hash (pb_block b)
          then Err (ProviderHashMismatch ctx (pb_provider_id existing) (blk_hash (pb_block existing))
            (pb_provider_id b) (blk_hash (pb_block b)))
          else consistent_loop ctx hashes bs
      | None \<Rightarrow> consistent_loop ctx ((blk_number (pb_block b), b) # hashes) bs)"

definition ensure_consistent_block_hashes :: "string \<Rightarrow> ProviderBlock list \<Rightarrow> ChainError + unit" where
  "ensure_consistent_block_hashes ctx bs = consistent_loop ctx [] bs"

text \<open>The loop of \<open>request_blocks\<close>: the answer of an early return, or what was collected.\<close>

fun collect_blocks ::
  "rpc_env \<Rightarrow> string \<Rightarrow> json \<Rightarrow> nat list \<Rightarrow> ProviderBlock list \<Rightarrow> string list \<Rightarrow> nat \<Rightarrow> RpcProviderManager
   \<Rightarrow> ((ChainError + ProviderBlock list) + (ProviderBlock list \<times> string list \<times> nat)) \<times> RpcProviderManager" where
  "collect_blocks env ctx params [] blocks errors not_found_count m = (Inr (blocks, errors, not_found_count), m)"
| "collect_blocks env ctx params (i # is) blocks errors not_found_count m =
     (let absent = (\<lambda>m. collect_blocks env ctx params is blocks (errors @ [provider_error m i ''block not found'']) (not_found_count + 1) m)
      in
      case rn_request env i ''eth_getBlockByNumber'' params of
        Inr JNull \<Rightarrow> absent m
      | Inr value \<Rightarrow>
          (case parse_block env value (provider_id m i) of
             Inr b \<Rightarrow>
               let m' = update_health i record_success m; blocks' = blocks @ [b] in
               if rm_min_provider_count m \<le> length blocks'
               then (Inl (mapE (\<lambda>_. blocks') (ensure_consistent_block_hashes ctx blocks')), m')
               else collect_blocks env ctx params is blocks' errors not_found_count m'
           | Inl e \<Rightarrow>
               collect_blocks env ctx params is blocks (errors @ [provider_error m i (chain_error_text e)]) not_found_count
                 (update_health i (record_failure (rn_now env)) m))
      | Inl (BlockNotFound _) \<Rightarrow> absent m
      | Inl e \<Rightarrow>
          collect_blocks env ctx params is blocks (errors @ [provider_error m i (chain_error_text e)]) not_found_count
            (failed_call env i e m))"

definition request_blocks :: "rpc_env \<Rightarrow> string \<Rightarrow> json \<Rightarrow> ChainError \<Rightarrow> ProviderBlock list rpc" where
  "request_blocks env ctx params not_found_error m =
     (let (candidates, m0) = provider_candidates (rn_now env) m in
      case collect_blocks env ctx params candidates [] [] 0 m0 of
        (Inl r, m1) \<Rightarrow> (r, m1)
      | (Inr (blocks, errors, not_found_count), m1) \<Rightarrow>
          (if blocks = []
           then
             if not_found_count = length candidates then Err not_found_error
             else if errors = [] then Err (RpcUnavailable (''no RPC provider returned '' @ ctx))
             else Err (RpcUnavailable (''no RPC provider returned '' @ ctx @ '': '' @ join_texts ''; '' errors))
           else mapE (\<lambda>_. blocks) (ensure_consistent_block_hashes ctx blocks), m1))"

definition head_by_tag :: "rpc_env \<Rightarrow> string \<Rightarrow> ChainBlockRef rpc" where
  "head_by_tag env tag =
     rpc_then (request_blocks env (''block tag '' @ tag) (JArray [JString tag, JBool False]) (BlockNotFound (- 1))) (\<lambda>blocks.
     rpc_answer (Ok (block_ref (pb_block (select_conservative_head blocks)))))"

definition rpc_block_by_number :: "rpc_env \<Rightarrow> u64 \<Rightarrow> ChainBlock rpc" where
  "rpc_block_by_number env number =
     rpc_then (request_blocks env (''block '' @ show_nat (unat number)) (JArray [JString (quantity_hex number), JBool False])
       (BlockNotFound number)) (\<lambda>blocks.
     rpc_answer (Ok (pb_block (select_conservative_head blocks))))"


section \<open>Readiness\<close>

record RpcProviderChainStatus =
  pc_provider_id :: string
  pc_chain_id :: u64

record RpcProviderReadiness =
  pr_expected_chain_id :: u64
  pr_providers :: "RpcProviderChainStatus list"
  pr_latest_head :: ChainBlockRef
  pr_safe_head :: ChainBlockRef
  pr_finalized_head :: ChainBlockRef

definition provider_chain_id :: "rpc_env \<Rightarrow> nat \<Rightarrow> string \<Rightarrow> ChainError + u64" where
  "provider_chain_id env i pid =
     bindE (rn_request env i ''eth_chainId'' (JArray [])) (\<lambda>value.
     bindE (ok_or (as_str value) (MalformedRpcResponse (''provider '' @ pid @ '' returned non-string eth_chainId''))) (\<lambda>chain_id.
     parse_hex_u64 chain_id ''eth_chainId''))"

text \<open>The tasks answer in the order given; a task that panics is not modelled.\<close>

fun chain_id_loop ::
  "rpc_env \<Rightarrow> nat list \<Rightarrow> RpcProviderChainStatus list \<Rightarrow> string list \<Rightarrow> (RpcProviderChainStatus list \<times> string list) rpc" where
  "chain_id_loop env [] statuses errors m = (Ok (statuses, errors), m)"
| "chain_id_loop env (i # is) statuses errors m =
     (case provider_chain_id env i (provider_id m i) of
        Inr actual \<Rightarrow>
          if actual = rm_expected_chain_id m
          then chain_id_loop env is (statuses @ [\<lparr>pc_provider_id = provider_id m i, pc_chain_id = actual\<rparr>]) errors
            (update_health i record_success m)
          else (Err (ChainIdMismatch (rm_expected_chain_id m) actual), update_health i (record_failure (rn_now env)) m)
      | Inl e \<Rightarrow> chain_id_loop env is statuses (errors @ [provider_error m i (chain_error_text e)]) (failed_call env i e m))"

definition validate_chain_ids :: "rpc_env \<Rightarrow> nat list \<Rightarrow> RpcProviderChainStatus list rpc" where
  "validate_chain_ids env completion =
     rpc_then (chain_id_loop env completion [] []) (\<lambda>(statuses, errors) m.
       (if length statuses < rm_min_provider_count m
        then Err (RpcUnavailable (''RPC chain id validation failed: '' @ show_nat (length statuses)
          @ '' healthy providers, expected at least '' @ show_nat (rm_min_provider_count m) @ ''; '' @ join_texts ''; '' errors))
        else Ok (sort_key pc_provider_id statuses), m))"

definition readiness_probe :: "rpc_env \<Rightarrow> nat list \<Rightarrow> RpcProviderReadiness rpc" where
  "readiness_probe env completion =
     rpc_then (validate_chain_ids env completion) (\<lambda>providers.
     rpc_then (head_by_tag env ''latest'') (\<lambda>latest_head.
     rpc_then (head_by_tag env ''finalized'') (\<lambda>finalized_head.
     rpc_then (\<lambda>m. case head_by_tag env ''safe'' m of
         (Inl e, m') \<Rightarrow> (if is_missing_safe_block_error e then Ok finalized_head else Err e, m')
       | r \<Rightarrow> r) (\<lambda>safe_head m.
     (Ok \<lparr>pr_expected_chain_id = rm_expected_chain_id m, pr_providers = providers, pr_latest_head = latest_head,
          pr_safe_head = safe_head, pr_finalized_head = finalized_head\<rparr>, m)))))"


section \<open>Transfer logs\<close>

definition padded_address :: "EvmAddress \<Rightarrow> string" where
  "padded_address a = replicate 24 CHR ''0'' @ drop 2 (address_to_lower_hex a)"

definition transfer_filter :: "TransferLogRange \<Rightarrow> json" where
  "transfer_filter rg =
     JArray [JObject [
       (''address'', JString (address_to_lower_hex (rg_token_address rg))),
       (''fromBlock'', JString (quantity_hex (rg_from_block rg))),
       (''toBlock'', JString (quantity_hex (rg_to_block rg))),
       (''topics'', JArray (JString ERC20_TRANSFER_TOPIC # (case rg_recipient rg of
          None \<Rightarrow> [] | Some a \<Rightarrow> [JNull, JString (''0x'' @ padded_address a)])))]]"

fun parse_logs :: "rpc_env \<Rightarrow> TransferLogRange \<Rightarrow> json list \<Rightarrow> ChainError + ParsedTransferLog list" where
  "parse_logs env rg [] = Ok []"
| "parse_logs env rg (raw_log # raws) =
     (if json_get raw_log ''removed'' = Some (JBool True) then parse_logs env rg raws
      else
        bindE (parse_transfer_log env raw_log) (\<lambda>parsed.
        if pt_token_address parsed \<noteq> rg_token_address rg then parse_logs env rg raws
        else mapE ((#) parsed) (parse_logs env rg raws)))"

fun fetch_headers :: "rpc_env \<Rightarrow> u64 list \<Rightarrow> (u64 \<times> ChainBlock) list rpc" where
  "fetch_headers env [] = rpc_answer (Ok [])"
| "fetch_headers env (n # ns) =
     rpc_then (rpc_block_by_number env n) (\<lambda>header.
     rpc_then (fetch_headers env ns) (\<lambda>rest.
     rpc_answer (Ok ((n, header) # rest))))"

fun attach_headers ::
  "string \<Rightarrow> TransferLogRange \<Rightarrow> (u64 \<times> ChainBlock) list \<Rightarrow> ParsedTransferLog list \<Rightarrow> ChainError + TransferLog list" where
  "attach_headers pid rg headers [] = Ok []"
| "attach_headers pid rg headers (l # ls) =
     bindE (ok_or (map_of headers (pt_block_number l))
       (MalformedRpcResponse (''missing header for log block '' @ show_nat (unat (pt_block_number l))))) (\<lambda>header.
     if blk_hash header \<noteq> pt_block_hash l
     then Err (ProviderHashMismatch (''eth_getLogs block '' @ show_nat (unat (pt_block_number l))) pid (pt_block_hash l)
       ''header_quorum'' (blk_hash header))
     else
       mapE ((#) \<lparr>tl_chain_id = rg_chain_id rg, tl_token_address = pt_token_address l, tl_block = header,
          tl_tx_hash = pt_tx_hash l, tl_log_index = pt_log_index l, tl_from_address = pt_from_address l,
          tl_to_address = pt_to_address l, tl_amount_raw = pt_amount_raw l\<rparr>)
         (attach_headers pid rg headers ls))"

definition chain_guard :: "u64 \<Rightarrow> unit rpc" where
  "chain_guard chain_id m =
     (if chain_id \<noteq> rm_expected_chain_id m then Err (ChainIdMismatch chain_id (rm_expected_chain_id m)) else Ok (), m)"

definition rpc_transfer_logs :: "rpc_env \<Rightarrow> TransferLogRange \<Rightarrow> TransferLog list rpc" where
  "rpc_transfer_logs env rg =
     rpc_then (rpc_answer (range_validate rg)) (\<lambda>_.
     rpc_then (chain_guard (rg_chain_id rg)) (\<lambda>_.
     rpc_then (request_first_success env ''eth_getLogs'' (transfer_filter rg)) (\<lambda>(pid, value).
     rpc_then (rpc_answer (ok_or (as_array value) (MalformedRpcResponse ''eth_getLogs result must be an array''))) (\<lambda>raw_logs.
     rpc_then (rpc_answer (parse_logs env rg raw_logs)) (\<lambda>parsed_logs.
     rpc_then (fetch_headers env (sort (remdups (map pt_block_number parsed_logs)))) (\<lambda>headers.
     rpc_then (rpc_answer (attach_headers pid rg headers parsed_logs)) (\<lambda>logs.
     rpc_answer (Ok (sort_logs logs)))))))))"

definition rpc_capacity_probe :: "rpc_env \<Rightarrow> TransferLogRange \<Rightarrow> TransferLogCapacityLimits \<Rightarrow> TransferLogCapacityReport rpc" where
  "rpc_capacity_probe env rg limits =
     rpc_then (rpc_transfer_logs env rg) (\<lambda>logs.
     rpc_answer (Ok \<lparr>cr_range = rg, cr_log_count = length logs,
       cr_max_logs_in_single_block = max_logs_in_single_block logs, cr_limits = limits\<rparr>))"

definition ensure_capacity :: "rpc_env \<Rightarrow> TransferLogRange \<Rightarrow> TransferLogCapacityLimits \<Rightarrow> TransferLogCapacityReport rpc" where
  "ensure_capacity env rg limits =
     rpc_then (rpc_capacity_probe env rg limits) (\<lambda>report.
     rpc_then (rpc_answer (ensure_within_limits report)) (\<lambda>_.
     rpc_answer (Ok report)))"


section \<open>Balances, nonces, receipts and broadcast\<close>

text \<open>A call whose result is a text, which the given reader decodes.\<close>

definition text_call :: "rpc_env \<Rightarrow> string \<Rightarrow> json \<Rightarrow> string \<Rightarrow> (string \<Rightarrow> ChainError + 'a) \<Rightarrow> 'a rpc" where
  "text_call env meth params complaint read =
     rpc_then (request_first_success env meth params) (\<lambda>(_, value).
     rpc_then (rpc_answer (ok_or (as_str value) (MalformedRpcResponse complaint))) (\<lambda>text.
     rpc_answer (read text)))"

definition rpc_native_balance :: "rpc_env \<Rightarrow> u64 \<Rightarrow> EvmAddress \<Rightarrow> RawAmount rpc" where
  "rpc_native_balance env chain_id owner =
     rpc_then (chain_guard chain_id) (\<lambda>_.
     text_call env ''eth_getBalance'' (JArray [JString (address_to_lower_hex owner), JString ''latest''])
       ''eth_getBalance result must be a hex string'' (\<lambda>v. parse_hex_u256 v ''eth_getBalance result''))"

definition rpc_pending_nonce :: "rpc_env \<Rightarrow> u64 \<Rightarrow> EvmAddress \<Rightarrow> RawAmount rpc" where
  "rpc_pending_nonce env chain_id owner =
     rpc_then (chain_guard chain_id) (\<lambda>_.
     text_call env ''eth_getTransactionCount'' (JArray [JString (address_to_lower_hex owner), JString ''pending''])
       ''eth_getTransactionCount result must be a hex string'' (\<lambda>v. parse_hex_u256 v ''eth_getTransactionCount result''))"

definition balance_of_call :: "EvmAddress \<Rightarrow> EvmAddress \<Rightarrow> json" where
  "balance_of_call token owner =
     JArray [JObject [(''to'', JString (address_to_lower_hex token)), (''data'', JString (''0x70a08231'' @ padded_address owner))],
       JString ''latest'']"

definition rpc_token_balance :: "rpc_env \<Rightarrow> EvmAddress \<Rightarrow> EvmAddress \<Rightarrow> RawAmount rpc" where
  "rpc_token_balance env token owner =
     text_call env ''eth_call'' (balance_of_call token owner) ''eth_call balanceOf result must be a hex string''
       (\<lambda>v. parse_hex_u256 v ''eth_call balanceOf result'')"

definition is_transient_receipt_lookup_error :: "ChainError \<Rightarrow> bool" where
  "is_transient_receipt_lookup_error e \<longleftrightarrow>
     (case e of RpcUnavailable message \<Rightarrow> contains_text message ''eth_getTransactionReceipt'' | _ \<Rightarrow> False)"

definition rpc_transaction_receipt :: "rpc_env \<Rightarrow> TxHash \<Rightarrow> TxReceipt option rpc" where
  "rpc_transaction_receipt env tx m =
     (case request_first_success env ''eth_getTransactionReceipt'' (JArray [JString (hash_to_lower_hex tx)]) m of
        (Inl e, m') \<Rightarrow> (if is_transient_receipt_lookup_error e then Ok None else Err e, m')
      | (Inr (_, value), m') \<Rightarrow> (if value = JNull then Ok None else mapE Some (parse_receipt env value), m'))"

definition rpc_broadcast_signed_tx :: "rpc_env \<Rightarrow> bytes \<Rightarrow> TxHash rpc" where
  "rpc_broadcast_signed_tx env signed_tx =
     text_call env ''eth_sendRawTransaction'' (JArray [JString (encode_hex signed_tx)])
       ''eth_sendRawTransaction result must be a tx hash'' (\<lambda>v. parse_tx_hash v ''eth_sendRawTransaction result'')"

definition call_contract :: "rpc_env \<Rightarrow> EvmAddress \<Rightarrow> bytes \<Rightarrow> bytes rpc" where
  "call_contract env to data =
     text_call env ''eth_call'' (JArray [JObject [(''to'', JString (address_to_lower_hex to)), (''data'', JString (encode_hex data))],
         JString ''latest''])
       ''eth_call result must be a hex string'' (\<lambda>v. decode_prefixed_hex v ''eth_call result'' True)"


section \<open>Fees\<close>

record ParsedFeeHistoryEstimate =
  fh_base_fee_per_gas :: "u256 option"
  fh_priority_fee_per_gas :: "u256 option"

definition max_optional_u256 :: "u256 option \<Rightarrow> u256 option \<Rightarrow> u256 option" where
  "max_optional_u256 left right =
     (case (left, right) of
        (Some x, Some y) \<Rightarrow> Some (max x y)
      | (Some x, None) \<Rightarrow> Some x
      | (None, Some y) \<Rightarrow> Some y
      | (None, None) \<Rightarrow> None)"

text \<open>\<open>RpcFeeHistory\<close>: the base fees, and the rewards when they are there.\<close>

definition read_fee_history :: "json \<Rightarrow> (string list \<times> string list list option) option" where
  "read_fee_history v =
     Option.bind (Option.bind (json_get v ''baseFeePerGas'') text_array) (\<lambda>base_fees.
     case json_get v ''reward'' of
       None \<Rightarrow> Some (base_fees, None)
     | Some JNull \<Rightarrow> Some (base_fees, None)
     | Some r \<Rightarrow> Option.bind (as_array r) (\<lambda>rows. map_option (\<lambda>rs. (base_fees, Some rs)) (all_some (map text_array rows))))"

fun max_reward :: "u256 option \<Rightarrow> string list \<Rightarrow> ChainError + u256 option" where
  "max_reward best [] = Ok best"
| "max_reward best (r # rs) =
     bindE (parse_hex_u256 r ''eth_feeHistory reward'') (\<lambda>parsed. max_reward (max_optional_u256 best (Some parsed)) rs)"

definition parse_fee_history_estimate :: "rpc_env \<Rightarrow> json \<Rightarrow> ChainError + ParsedFeeHistoryEstimate" where
  "parse_fee_history_estimate env value =
     bindE (serde env value (read_fee_history value)) (\<lambda>(base_fees, rewards).
     bindE (if base_fees = [] then Ok None
       else mapE Some (parse_hex_u256 (last base_fees) ''eth_feeHistory baseFeePerGas'')) (\<lambda>base_fee.
     bindE (max_reward None (case rewards of None \<Rightarrow> [] | Some rows \<Rightarrow> concat rows)) (\<lambda>priority_fee.
     Ok \<lparr>fh_base_fee_per_gas = base_fee, fh_priority_fee_per_gas = priority_fee\<rparr>)))"

definition fee_history_estimate :: "rpc_env \<Rightarrow> ParsedFeeHistoryEstimate rpc" where
  "fee_history_estimate env =
     rpc_then (request_first_success env ''eth_feeHistory''
       (JArray [JString (quantity_hex 5), JString ''latest'', JArray [JNumber ''50'', JNumber ''90'']])) (\<lambda>(_, value).
     rpc_answer (parse_fee_history_estimate env value))"

definition max_priority_fee_per_gas :: "rpc_env \<Rightarrow> u256 rpc" where
  "max_priority_fee_per_gas env =
     text_call env ''eth_maxPriorityFeePerGas'' (JArray []) ''eth_maxPriorityFeePerGas result must be a hex string''
       (\<lambda>v. parse_hex_u256 v ''eth_maxPriorityFeePerGas result'')"

definition gas_price :: "rpc_env \<Rightarrow> u256 rpc" where
  "gas_price env =
     text_call env ''eth_gasPrice'' (JArray []) ''eth_gasPrice result must be a hex string''
       (\<lambda>v. parse_hex_u256 v ''eth_gasPrice result'')"

text \<open>The estimate from what the three reads gave.\<close>

definition fees_from :: "ParsedFeeHistoryEstimate option \<Rightarrow> u256 option \<Rightarrow> u256 option \<Rightarrow> ChainError + Eip1559FeeEstimate" where
  "fees_from history rpc_priority price =
     (let base_fee = Option.bind history fh_base_fee_per_gas;
          suggested = max_optional_u256 (Option.bind history fh_priority_fee_per_gas) rpc_priority;
          inferred = Option.bind price (\<lambda>p. Option.bind base_fee (checked_sub p));
          with_inferred = (case inferred of None \<Rightarrow> suggested | Some i \<Rightarrow> max_optional_u256 suggested (Some i));
          chosen = (if with_inferred = None then price else with_inferred) in
      bindE (ok_or chosen (RpcUnavailable
        ''fee estimation failed: eth_feeHistory, eth_maxPriorityFeePerGas, and eth_gasPrice were unavailable'')) (\<lambda>priority_fee.
      bindE (case base_fee of
          None \<Rightarrow> Ok priority_fee
        | Some base \<Rightarrow>
            bindE (ok_or (checked_mul base 2) (MalformedRpcResponse ''estimated base fee overflowed'')) (\<lambda>doubled.
            bindE (ok_or (checked_add doubled priority_fee) (MalformedRpcResponse ''estimated max fee overflowed'')) (\<lambda>fee.
            Ok (max priority_fee fee)))) (\<lambda>max_fee.
      Ok \<lparr>fe_max_fee_per_gas = (case price of None \<Rightarrow> max_fee | Some p \<Rightarrow> max max_fee p),
          fe_max_priority_fee_per_gas = priority_fee\<rparr>)))"

definition ok_value :: "'e + 'a \<Rightarrow> 'a option" where
  "ok_value r = (case r of Inl _ \<Rightarrow> None | Inr a \<Rightarrow> Some a)"

definition rpc_estimate_eip1559_fees :: "rpc_env \<Rightarrow> Eip1559FeeEstimate rpc" where
  "rpc_estimate_eip1559_fees env m =
     (let (history, m1) = fee_history_estimate env m;
          (rpc_priority, m2) = max_priority_fee_per_gas env m1;
          (price, m3) = gas_price env m2 in
      (fees_from (ok_value history) (ok_value rpc_priority) (ok_value price), m3))"

end
