(* ===== verification/Rpc_Props.thy ===== *)
theory Rpc_Props
  imports Rpc_Client
begin

text \<open>
  Guarantees of the JSON-RPC client: what it writes nodes read back and what they write it reads
  back, heads are conservative and agreed on, one healthy node is enough, and over nodes that serve a
  chain it is the log source that scanner, log store and verification rely on.
\<close>

section \<open>Quantities and data\<close>

lemma hex_table_is_digit: "n < 16 \<Longrightarrow> is_hex_digit (hex_table ! n)"
  using hex_table_value[of n] hex_value_is_hex_digit[of "hex_table ! n"] by simp

lemma hex_table_digit_value: "n < 16 \<Longrightarrow> unat (the (hex_value (char_byte (hex_table ! n)))) = n"
  by (simp add: hex_table_value unat_of_nat take_bit_eq_mod)

lemma show_hex_digits: "list_all is_hex_digit (show_hex n)"
proof (induction n rule: show_hex.induct)
  case (1 n)
  then show ?case by (subst show_hex.simps) (simp add: hex_table_is_digit)
qed

lemma show_hex_value: "hex_digits_value (show_hex n) = Some n"
proof -
  have "foldl (\<lambda>a c. 16 * a + unat (the (hex_value (char_byte c)))) 0 (show_hex n) = n"
  proof (induction n rule: show_hex.induct)
    case (1 n)
    then show ?case by (subst show_hex.simps) (simp add: hex_table_digit_value)
  qed
  then show ?thesis by (simp add: hex_digits_value_def show_hex_digits)
qed

lemma show_hex_length: "n < 16 ^ Suc k \<Longrightarrow> length (show_hex n) \<le> Suc k"
proof (induction k arbitrary: n)
  case 0
  then show ?case by (subst show_hex.simps) simp
next
  case (Suc k)
  have "n div 16 < 16 ^ Suc k" using Suc.prems by (simp add: less_mult_imp_div_less)
  then show ?case using Suc.IH[of "n div 16"] by (subst show_hex.simps) simp
qed

lemma show_hex_not_Nil [simp]: "show_hex n \<noteq> []"
  by (subst show_hex.simps) simp

lemma plus_not_hex: "\<not> is_hex_digit CHR ''+''"
  by (simp add: is_hex_digit_def)

lemma radix_show_hex: "from_str_radix_16 (show_hex n) = Some (of_nat n)"
proof -
  obtain c cs where show_n: "show_hex n = c # cs" by (cases "show_hex n") auto
  have "c \<noteq> CHR ''+''" using show_hex_digits[of n] plus_not_hex by (auto simp: show_n)
  then have "(case show_hex n of c # d # cs \<Rightarrow> if c = CHR ''+'' then d # cs else show_hex n | _ \<Rightarrow> show_hex n) = show_hex n"
    by (simp add: show_n split: list.split)
  then show ?thesis by (simp add: from_str_radix_16_def show_hex_value)
qed

lemma strip_0x: "strip_hex_prefix (CHR ''0'' # CHR ''x'' # s) = Some s"
  by (simp add: strip_hex_prefix_def strip_prefix_def starts_with_def)

lemma quantity_roundtrip [simp]: "parse_hex_u64 (quantity_hex v) field = Ok v"
proof -
  have "length (show_hex (unat v)) \<le> 16" using show_hex_length[of "unat v" 15] unsigned_less[of v] by simp
  then show ?thesis by (simp add: parse_hex_u64_def quantity_hex_def strip_0x radix_show_hex ok_or_def)
qed

lemma data_roundtrip [simp]: "decode_prefixed_hex (encode_hex bs) field allow = Ok bs"
proof (cases "concat (map encode_byte bs) = []")
  case True
  then have "bs = []" by (cases bs) (simp_all add: encode_byte_def)
  then show ?thesis by (simp add: decode_prefixed_hex_def encode_hex_def strip_0x)
next
  case False
  then show ?thesis by (auto simp: decode_prefixed_hex_def encode_hex_def strip_0x length_encode decode_chunks_encode)
qed

lemma amount_roundtrip [simp]: "parse_hex_u256 (encode_hex (word_bytes (w :: u256))) field = Ok w"
  by (simp add: parse_hex_u256_def word_of_bytes_word_bytes)

lemma lower_hex_digits: "address_to_lower_hex a = ''0x'' @ drop 2 (address_to_lower_hex a)"
  by (simp add: address_to_lower_hex_def encode_lower_prefixed_def)

lemma address_digits_length: "length (drop 2 (address_to_lower_hex a)) = 40"
  by (simp add: address_to_lower_hex_def encode_lower_prefixed_def length_encode)

text \<open>The topic by which a recipient is asked for is read back as that recipient.\<close>

lemma topic_roundtrip [simp]: "parse_topic_address (''0x'' @ padded_address a) field = Ok a"
proof -
  have "''0x'' @ drop 24 (padded_address a) = address_to_lower_hex a"
    using lower_hex_digits[of a] by (simp add: padded_address_def)
  then show ?thesis
    using address_digits_length[of a]
    by (simp add: parse_topic_address_def strip_0x padded_address_def list_all_iff parse_address_def evm_address.dec_enc)
qed


section \<open>Nodes that serve a chain\<close>

text \<open>How a node writes a block and a transfer log; both may have further fields.\<close>

definition seconds_text :: "timestamp \<Rightarrow> string" where
  "seconds_text t = quantity_hex (of_int (t div one_second))"

definition writes_block :: "json \<Rightarrow> ChainBlock \<Rightarrow> bool" where
  "writes_block v b \<longleftrightarrow> is_object v \<and> json_get v ''number'' = Some (JString (quantity_hex (blk_number b))) \<and>
     json_get v ''hash'' = Some (JString (hash_to_lower_hex (blk_hash b))) \<and>
     json_get v ''parentHash'' = Some (JString (hash_to_lower_hex (blk_parent_hash b))) \<and>
     json_get v ''timestamp'' = Some (JString (seconds_text (blk_timestamp b)))"

definition writes_log :: "json \<Rightarrow> TransferLog \<Rightarrow> bool" where
  "writes_log v l \<longleftrightarrow> json_get v ''address'' = Some (JString (address_to_lower_hex (tl_token_address l))) \<and>
     json_get v ''topics'' = Some (JArray [JString ERC20_TRANSFER_TOPIC, JString (''0x'' @ padded_address (tl_from_address l)),
       JString (''0x'' @ padded_address (tl_to_address l))]) \<and>
     json_get v ''data'' = Some (JString (encode_hex (word_bytes (tl_amount_raw l)))) \<and>
     json_get v ''blockNumber'' = Some (JString (quantity_hex (blk_number (tl_block l)))) \<and>
     json_get v ''blockHash'' = Some (JString (hash_to_lower_hex (blk_hash (tl_block l)))) \<and>
     json_get v ''transactionHash'' = Some (JString (hash_to_lower_hex (tl_tx_hash l))) \<and>
     json_get v ''logIndex'' = Some (JString (quantity_hex (tl_log_index l))) \<and>
     json_get v ''removed'' \<noteq> Some (JBool True)"

text \<open>Times of blocks are whole seconds of the Unix epoch, up to the year 9999.\<close>

definition block_time_ok :: "ChainBlock \<Rightarrow> bool" where
  "block_time_ok b \<longleftrightarrow> (\<exists>s. 0 \<le> s \<and> s \<le> 253402300799 \<and> blk_timestamp b = s * one_second)"

definition parsed_log :: "TransferLog \<Rightarrow> ParsedTransferLog" where
  "parsed_log l = \<lparr>pt_token_address = tl_token_address l, pt_block_number = blk_number (tl_block l),
     pt_block_hash = blk_hash (tl_block l), pt_tx_hash = tl_tx_hash l, pt_log_index = tl_log_index l,
     pt_from_address = tl_from_address l, pt_to_address = tl_to_address l, pt_amount_raw = tl_amount_raw l\<rparr>"

lemma hash_parses [simp]: "parse_block_hash (hash_to_lower_hex h) field = Ok h" "parse_tx_hash (hash_to_lower_hex h) field = Ok h"
  by (simp_all add: parse_block_hash_def parse_tx_hash_def block_hash.dec_enc tx_hash.dec_enc)

lemma address_parses [simp]: "parse_address (address_to_lower_hex a) field = Ok a"
  by (simp add: parse_address_def evm_address.dec_enc)

lemma unix_time_read:
  assumes "block_time_ok b"
  shows "from_unix_timestamp (sint (of_int (blk_timestamp b div one_second) :: u64)) = Some (blk_timestamp b)"
proof -
  obtain s where s: "0 \<le> s" "s \<le> 253402300799" "blk_timestamp b = s * one_second" using assms unfolding block_time_ok_def by blast
  have "sint (of_int s :: u64) = s" using s(1,2) by (simp add: signed_of_int signed_take_bit_int_eq_self)
  moreover have "blk_timestamp b div one_second = s" by (simp add: s(3) one_second_def)
  ultimately show ?thesis
    using s by (simp add: from_unix_timestamp_def MIN_DATETIME_def MAX_DATETIME_def one_second_def)
qed

lemma block_read:
  assumes "writes_block v b" "block_time_ok b"
  shows "parse_block env v pid = Ok \<lparr>pb_provider_id = pid, pb_block = b\<rparr>"
  using assms(1) unix_time_read[OF assms(2)]
  by (simp add: writes_block_def parse_block_def read_rpc_block_def optional_text_def as_str_def serde_def ok_or_def
      parse_required_hex_u64_def parse_required_block_hash_def seconds_text_def)

lemma eq_ignore_ascii_case_refl: "eq_ignore_ascii_case s s"
  by (simp add: eq_ignore_ascii_case_def)

lemma log_read: "writes_log v l \<Longrightarrow> parse_transfer_log env v = Ok (parsed_log l)"
  by (simp add: writes_log_def parse_transfer_log_def read_rpc_log_def required_text_def optional_text_def as_str_def as_array_def
      text_array_def serde_def ok_or_def parse_required_hex_u64_def parse_required_block_hash_def parse_required_tx_hash_def
      eq_ignore_ascii_case_refl parsed_log_def topic_roundtrip[simplified])


section \<open>The pool\<close>

text \<open>What no step changes: the configuration and who the providers are.\<close>

definition same_pool :: "RpcProviderManager \<Rightarrow> RpcProviderManager \<Rightarrow> bool" where
  "same_pool m m' \<longleftrightarrow> rm_expected_chain_id m' = rm_expected_chain_id m \<and> rm_min_provider_count m' = rm_min_provider_count m \<and>
     map mr_id (rm_providers m') = map mr_id (rm_providers m)"

text \<open>A provider of the pool that is not cooling down.\<close>

definition up :: "rpc_env \<Rightarrow> nat \<Rightarrow> RpcProviderManager \<Rightarrow> bool" where
  "up env i m \<longleftrightarrow> i < length (rm_providers m) \<and> health_available (rn_now env) (mr_health (rm_providers m ! i))"

lemma same_pool_refl [simp]: "same_pool m m"
  by (simp add: same_pool_def)

lemma same_pool_trans: "same_pool m m' \<Longrightarrow> same_pool m' m'' \<Longrightarrow> same_pool m m''"
  by (simp add: same_pool_def)

lemma same_pool_length: "same_pool m m' \<Longrightarrow> length (rm_providers m') = length (rm_providers m)"
  unfolding same_pool_def by (metis length_map)

lemma update_health_pool [simp]: "same_pool m (update_health i f m)"
  by (cases "i < length (rm_providers m)") (auto simp: same_pool_def update_health_def map_update list_update_same_conv intro!: nth_equalityI simp: nth_list_update)

lemma failed_call_pool [simp]: "same_pool m (failed_call env i e m)"
  by (simp add: failed_call_def)

lemma success_up: "up env i m \<Longrightarrow> up env i (update_health j record_success m)"
  by (cases "i = j") (simp_all add: up_def update_health_def record_success_def health_available_def)

lemma update_other_up: "i \<noteq> j \<Longrightarrow> up env i m \<Longrightarrow> up env i (update_health j f m)"
  by (simp add: up_def update_health_def)

lemma failed_other_up: "i \<noteq> j \<Longrightarrow> up env i m \<Longrightarrow> up env i (failed_call env j e m)"
  by (simp add: failed_call_def update_other_up)

lemma rotated_pool:
  assumes "pool \<noteq> []"
  shows "map (\<lambda>i. pool ! ((start + i) mod length pool)) [0 ..< length pool] = rotate start pool"
  using assms by (intro nth_equalityI) (simp_all add: nth_rotate)

lemma candidates_pool: "provider_candidates now m = (is, m') \<Longrightarrow> same_pool m m' \<and> rm_providers m' = rm_providers m \<and>
    (\<forall>i \<in> set is. i < length (rm_providers m))"
  by (auto simp: provider_candidates_def Let_def rotated_pool same_pool_def split: if_splits)

lemma candidates_up:
  assumes "provider_candidates (rn_now env) m = (is, m')" "up env i m"
  shows "i \<in> set is \<and> up env i m'"
proof -
  let ?all = "[0 ..< length (rm_providers m)]"
  let ?available = "filter (\<lambda>i. health_available (rn_now env) (mr_health (rm_providers m ! i))) ?all"
  have "i \<in> set ?available" using assms(2) by (simp add: up_def)
  then have "?available \<noteq> []" by (metis empty_iff empty_set)
  then have "is = rotate (unat (rm_round_robin_counter m) mod length ?available) ?available" "rm_providers m' = rm_providers m"
    using assms(1) by (auto simp: provider_candidates_def Let_def rotated_pool)
  then show ?thesis using \<open>i \<in> set ?available\<close> assms(2) by (simp add: up_def)
qed


section \<open>Failover\<close>

lemma first_success_Ok:
  "first_success env meth params is errors m = (Ok (pid, v), m') \<Longrightarrow>
    same_pool m m' \<and> (\<exists>i \<in> set is. rn_request env i meth params = Ok v)"
proof (induction "is" arbitrary: errors m)
  case (Cons j js)
  then show ?case
    by (cases "rn_request env j meth params") (auto dest!: Cons.IH intro: same_pool_trans[OF failed_call_pool])
qed simp

lemma first_success_up:
  assumes "rn_request env i meth params = Ok v" "i \<in> set is" "up env i m"
  shows "\<exists>pid w m'. first_success env meth params is errors m = (Ok (pid, w), m') \<and> up env i m'"
  using assms
proof (induction "is" arbitrary: errors m)
  case (Cons j js)
  show ?case
  proof (cases "rn_request env j meth params")
    case (Inr w)
    then show ?thesis using success_up[OF Cons.prems(3)] by simp
  next
    case (Inl e)
    then have "i \<noteq> j" using Cons.prems(1) by auto
    with Inl Cons.prems failed_other_up[OF this Cons.prems(3)] show ?thesis by (auto intro!: Cons.IH)
  qed
qed simp

lemma request_first_success_Ok:
  assumes "request_first_success env meth params m = (Ok (pid, v), m')"
  shows "same_pool m m' \<and> (\<exists>i. rn_request env i meth params = Ok v)"
proof -
  obtain cs m0 where c: "provider_candidates (rn_now env) m = (cs, m0)" by fastforce
  have "first_success env meth params cs [] m0 = (Ok (pid, v), m')" using assms by (simp add: request_first_success_def c)
  from first_success_Ok[OF this] candidates_pool[OF c] show ?thesis using same_pool_trans by blast
qed

lemma request_first_success_up:
  assumes "rn_request env i meth params = Ok v" "up env i m"
  shows "\<exists>pid w m'. request_first_success env meth params m = (Ok (pid, w), m') \<and> up env i m'"
proof -
  obtain cs m0 where c: "provider_candidates (rn_now env) m = (cs, m0)" by fastforce
  from candidates_up[OF c assms(2)] have "i \<in> set cs" "up env i m0" by simp_all
  from first_success_up[OF assms(1) this] show ?thesis by (simp add: request_first_success_def c)
qed


section \<open>Blocks\<close>

lemma conservative_fold:
  "foldl (\<lambda>best b. if blk_number (pb_block b) < blk_number (pb_block best) then b else best) x bs \<in> insert x (set bs) \<and>
   (\<forall>b \<in> insert x (set bs). blk_number (pb_block (foldl (\<lambda>best b. if blk_number (pb_block b) < blk_number (pb_block best) then b else best) x bs))
     \<le> blk_number (pb_block b))"
proof (induction bs arbitrary: x)
  case (Cons b bs)
  show ?case using Cons[of "if blk_number (pb_block b) < blk_number (pb_block x) then b else x"] by (auto split: if_splits)
qed simp

lemma conservative_head:
  "bs \<noteq> [] \<Longrightarrow> select_conservative_head bs \<in> set bs \<and>
    (\<forall>b \<in> set bs. blk_number (pb_block (select_conservative_head bs)) \<le> blk_number (pb_block b))"
  using conservative_fold[of "hd bs" "tl bs"] by (cases bs) (simp_all add: select_conservative_head_def)

lemma consistent_loop_Ok:
  assumes "consistent_loop ctx hashes bs = Ok ()"
  shows "\<exists>h. (\<forall>(n, b) \<in> set hashes. map_of hashes n = Some b \<longrightarrow> h n = blk_hash (pb_block b)) \<and>
    (\<forall>b \<in> set bs. blk_hash (pb_block b) = h (blk_number (pb_block b)))"
  using assms
proof (induction ctx hashes bs rule: consistent_loop.induct)
  case (1 ctx hashes)
  show ?case by (rule exI[of _ "\<lambda>n. blk_hash (pb_block (the (map_of hashes n)))"]) auto
next
  case (2 ctx hashes b bs)
  show ?case
  proof (cases "map_of hashes (blk_number (pb_block b))")
    case None
    from 2(1)[OF None] 2(3) None obtain h where h: "\<forall>(n, x) \<in> set ((blk_number (pb_block b), b) # hashes).
        map_of ((blk_number (pb_block b), b) # hashes) n = Some x \<longrightarrow> h n = blk_hash (pb_block x)"
      "\<forall>x \<in> set bs. blk_hash (pb_block x) = h (blk_number (pb_block x))" by auto
    have "h (blk_number (pb_block b)) = blk_hash (pb_block b)" using h(1) by simp
    moreover have "\<forall>(n, x) \<in> set hashes. map_of hashes n = Some x \<longrightarrow> h n = blk_hash (pb_block x)"
      using h(1) None by (fastforce split: if_splits)
    ultimately show ?thesis using h(2) by auto
  next
    case (Some e)
    have same: "blk_hash (pb_block e) = blk_hash (pb_block b)" using 2(3) Some by (auto split: if_splits)
    with 2(2)[OF Some same[THEN not_not[THEN iffD2]]] 2(3) Some obtain h where h: "\<forall>(n, x) \<in> set hashes. map_of hashes n = Some x \<longrightarrow> h n = blk_hash (pb_block x)"
      "\<forall>x \<in> set bs. blk_hash (pb_block x) = h (blk_number (pb_block x))" by auto
    have "h (blk_number (pb_block b)) = blk_hash (pb_block b)" using h(1) map_of_SomeD[OF Some] Some same by auto
    with h show ?thesis by auto
  qed
qed

lemma consistent_agree:
  "\<forall>x \<in> set bs \<union> snd ` set hashes. blk_hash (pb_block x) = h (blk_number (pb_block x)) \<Longrightarrow>
    \<forall>(n, x) \<in> set hashes. n = blk_number (pb_block x) \<Longrightarrow> consistent_loop ctx hashes bs = Ok ()"
proof (induction ctx hashes bs rule: consistent_loop.induct)
  case (2 ctx hashes c bs)
  show ?case
  proof (cases "map_of hashes (blk_number (pb_block c))")
    case None
    with 2 show ?thesis by simp
  next
    case (Some x)
    then have x: "(blk_number (pb_block c), x) \<in> set hashes" by (rule map_of_SomeD)
    then have "blk_hash (pb_block x) = blk_hash (pb_block c)" using 2(3,4) by force
    with 2(2)[OF Some] 2(3,4) Some show ?thesis by simp
  qed
qed simp

lemma consistent_same: "\<forall>x \<in> set bs. pb_block x = b \<Longrightarrow> consistent_loop ctx [] bs = Ok ()"
  by (rule consistent_agree[where h = "\<lambda>_. blk_hash b"]) auto

definition block_params :: "u64 \<Rightarrow> json" where
  "block_params n = JArray [JString (quantity_hex n), JBool False]"

text \<open>Every block that was collected is one that a provider answered.\<close>

definition answered_block :: "rpc_env \<Rightarrow> json \<Rightarrow> ProviderBlock \<Rightarrow> bool" where
  "answered_block env params b \<longleftrightarrow> (\<exists>i v. rn_request env i ''eth_getBlockByNumber'' params = Ok v \<and> parse_block env v (pb_provider_id b) = Ok b)"

lemma parse_block_id: "parse_block env v pid = Ok b \<Longrightarrow> pb_provider_id b = pid"
  by (auto simp: parse_block_def bindE_eq_Ok)

lemma answered_block_parse:
  "rn_request env i ''eth_getBlockByNumber'' params = Ok v \<Longrightarrow> parse_block env v pid = Ok b \<Longrightarrow> answered_block env params b"
  using parse_block_id unfolding answered_block_def by blast

lemma collected:
  assumes "collect_blocks env ctx params is blocks errors nf m = (r, m')" "\<forall>b \<in> set blocks. answered_block env params b"
  shows "same_pool m m' \<and> (case r of
      Inl early \<Rightarrow> (\<forall>bs. early = Ok bs \<longrightarrow> bs \<noteq> [] \<and> (\<forall>b \<in> set bs. answered_block env params b) \<and>
        ensure_consistent_block_hashes ctx bs = Ok ())
    | Inr (bs, _, _) \<Rightarrow> \<forall>b \<in> set bs. answered_block env params b)"
  using assms
proof (induction "is" arbitrary: blocks errors nf m)
  case (Cons i "is")
  note step = Cons.prems(1) and old = Cons.prems(2)
  show ?case
  proof (cases "rn_request env i ''eth_getBlockByNumber'' params")
    case (Inl e)
    with step Cons.IH[OF _ old] show ?thesis
      by (cases e) (auto simp: Let_def intro: same_pool_trans[OF failed_call_pool])
  next
    case (Inr v)
    show ?thesis
    proof (cases "v = JNull")
      case True
      with Inr step Cons.IH[OF _ old] show ?thesis by (simp add: Let_def)
    next
      case given: False
      show ?thesis
      proof (cases "parse_block env v (provider_id m i)")
        case e: (Inl e)
        have "collect_blocks env ctx params is blocks (errors @ [provider_error m i (chain_error_text e)]) nf
            (update_health i (record_failure (rn_now env)) m) = (r, m')"
          using step Inr given e by (cases v) (simp_all add: Let_def)
        from Cons.IH[OF this old] show ?thesis using same_pool_trans[OF update_health_pool] by blast
      next
        case b: (Inr b)
        have all: "\<forall>x \<in> set (blocks @ [b]). answered_block env params x" using old answered_block_parse[OF Inr b] by auto
        have go: "(if rm_min_provider_count m \<le> length (blocks @ [b])
           then (Inl (mapE (\<lambda>_. blocks @ [b]) (ensure_consistent_block_hashes ctx (blocks @ [b]))), update_health i record_success m)
           else collect_blocks env ctx params is (blocks @ [b]) errors nf (update_health i record_success m)) = (r, m')"
          using step Inr given b by (cases v) (simp_all add: Let_def)
        show ?thesis
        proof (cases "rm_min_provider_count m \<le> length (blocks @ [b])")
          case True
          with go all show ?thesis by (auto simp: mapE_eq_Ok simp del: set_append)
        next
          case False
          with go have "collect_blocks env ctx params is (blocks @ [b]) errors nf (update_health i record_success m) = (r, m')" by simp
          from Cons.IH[OF this all] show ?thesis using same_pool_trans[OF update_health_pool] by blast
        qed
      qed
    qed
  qed
qed auto

lemma request_blocks_Ok:
  assumes "request_blocks env ctx params e m = (Ok bs, m')"
  shows "same_pool m m' \<and> bs \<noteq> [] \<and> (\<forall>b \<in> set bs. answered_block env params b) \<and> ensure_consistent_block_hashes ctx bs = Ok ()"
proof -
  obtain cs m0 where c: "provider_candidates (rn_now env) m = (cs, m0)" by fastforce
  obtain r m1 where run: "collect_blocks env ctx params cs [] [] 0 m0 = (r, m1)" by fastforce
  have pool: "same_pool m m0" using candidates_pool[OF c] by simp
  have none: "\<forall>b \<in> set []. answered_block env params b" by simp
  show ?thesis
  proof (cases r)
    case (Inl early)
    then show ?thesis using assms collected[OF run none] pool same_pool_trans by (auto simp: request_blocks_def c run)
  next
    case (Inr x)
    obtain bs' errs nf where x: "x = (bs', errs, nf)" by (cases x)
    have got: "same_pool m0 m1" "\<forall>b \<in> set bs'. answered_block env params b"
      using collected[OF run none] by (simp_all add: Inr x)
    have "bs' \<noteq> [] \<and> bs = bs' \<and> m' = m1 \<and> ensure_consistent_block_hashes ctx bs' = Ok ()"
      using assms by (simp add: request_blocks_def c run Inr x mapE_eq_Ok split: if_splits)
    then show ?thesis using got same_pool_trans[OF pool] by blast
  qed
qed


section \<open>Heads\<close>

text \<open>
  The answers that a block request takes into account, said without the loop: the blocks that can
  be read from the answers of the candidates, in their order, up to the configured number of providers.
\<close>

definition answer_of :: "rpc_env \<Rightarrow> json \<Rightarrow> RpcProviderManager \<Rightarrow> nat \<Rightarrow> ProviderBlock option" where
  "answer_of env params m i =
     (case rn_request env i ''eth_getBlockByNumber'' params of
        Inl _ \<Rightarrow> None
      | Inr v \<Rightarrow> if v = JNull then None else case parse_block env v (provider_id m i) of Inl _ \<Rightarrow> None | Inr b \<Rightarrow> Some b)"

definition block_answers :: "rpc_env \<Rightarrow> json \<Rightarrow> RpcProviderManager \<Rightarrow> ProviderBlock list" where
  "block_answers env params m =
     take (max 1 (rm_min_provider_count m)) (List.map_filter (answer_of env params m) (fst (provider_candidates (rn_now env) m)))"

definition one_hash_per_number :: "ProviderBlock list \<Rightarrow> bool" where
  "one_hash_per_number bs \<longleftrightarrow> (\<forall>b \<in> set bs. \<forall>b' \<in> set bs.
     blk_number (pb_block b) = blk_number (pb_block b') \<longrightarrow> blk_hash (pb_block b) = blk_hash (pb_block b'))"

lemma provider_id_kept [simp]:
  "provider_id (update_health i f m) j = provider_id m j" "provider_id (failed_call env i e m) j = provider_id m j"
proof -
  show *: "provider_id (update_health i f m) j = provider_id m j" for f
    by (cases "i < length (rm_providers m)"; cases "i = j") (simp_all add: provider_id_def update_health_def list_update_beyond not_less)
  show "provider_id (failed_call env i e m) j = provider_id m j" by (simp add: failed_call_def *)
qed

lemma answer_of_kept [simp]:
  "answer_of env params (update_health i f m) = answer_of env params m" "answer_of env params (failed_call env' i e m) = answer_of env params m"
  unfolding answer_of_def[abs_def] provider_id_kept by (rule refl)+

lemma quorum_kept [simp]:
  "rm_min_provider_count (update_health i f m) = rm_min_provider_count m" "rm_min_provider_count (failed_call env i e m) = rm_min_provider_count m"
  by (simp_all add: update_health_def failed_call_def)

lemma map_filter_Cons: "List.map_filter f (x # xs) = (case f x of None \<Rightarrow> List.map_filter f xs | Some y \<Rightarrow> y # List.map_filter f xs)"
  by (simp add: List.map_filter_def split: option.split)

text \<open>The loop stops at the configured number of blocks or has all that there are.\<close>

lemma collect_blocks_exact:
  assumes "length blocks < max 1 (rm_min_provider_count m)"
  shows "let all = blocks @ List.map_filter (answer_of env params m) is; n = max 1 (rm_min_provider_count m) in
    if n \<le> length all
    then fst (collect_blocks env ctx params is blocks errors nf m) = Inl (mapE (\<lambda>_. take n all) (ensure_consistent_block_hashes ctx (take n all)))
    else \<exists>errs k. fst (collect_blocks env ctx params is blocks errors nf m) = Inr (all, errs, k)"
  using assms
proof (induction "is" arbitrary: blocks errors nf m)
  case Nil
  then show ?case by (auto simp: List.map_filter_def)
next
  case (Cons i "is")
  show ?case
  proof (cases "answer_of env params m i")
    case None
    then have "\<exists>errs k m1. collect_blocks env ctx params (i # is) blocks errors nf m = collect_blocks env ctx params is blocks errs k m1 \<and>
        answer_of env params m1 = answer_of env params m \<and> rm_min_provider_count m1 = rm_min_provider_count m"
      by (fastforce simp: answer_of_def[of env params m i] Let_def split: sum.splits json.splits if_splits ChainError.splits)
    then obtain errs k m1 where m1: "collect_blocks env ctx params (i # is) blocks errors nf m = collect_blocks env ctx params is blocks errs k m1"
      "answer_of env params m1 = answer_of env params m" "rm_min_provider_count m1 = rm_min_provider_count m" by blast
    show ?thesis using Cons.IH[of blocks m1 errs k, unfolded m1(2,3), OF Cons.prems] unfolding m1(1) map_filter_Cons None option.case .
  next
    case (Some b)
    then obtain v where v: "rn_request env i ''eth_getBlockByNumber'' params = Ok v" "v \<noteq> JNull" "parse_block env v (provider_id m i) = Ok b"
      by (auto simp: answer_of_def split: sum.splits if_splits)
    let ?m = "update_health i record_success m"
    have go: "collect_blocks env ctx params (i # is) blocks errors nf m = (if rm_min_provider_count m \<le> length (blocks @ [b])
           then (Inl (mapE (\<lambda>_. blocks @ [b]) (ensure_consistent_block_hashes ctx (blocks @ [b]))), ?m)
           else collect_blocks env ctx params is (blocks @ [b]) errors nf ?m)"
      using v by (cases v) (simp_all add: Let_def)
    show ?thesis
    proof (cases "rm_min_provider_count m \<le> length (blocks @ [b])")
      case True
      then have "max 1 (rm_min_provider_count m) = length (blocks @ [b])" using Cons.prems by simp
      then show ?thesis unfolding go if_P[OF True] map_filter_Cons Some option.case by (simp add: Let_def)
    next
      case False
      then have "length (blocks @ [b]) < max 1 (rm_min_provider_count ?m)" by simp
      from Cons.IH[OF this, of errors nf] show ?thesis
        unfolding go if_not_P[OF False] map_filter_Cons Some option.case quorum_kept answer_of_kept by simp
    qed
  qed
qed

lemma consistent_iff: "ensure_consistent_block_hashes ctx bs = Ok () \<longleftrightarrow> one_hash_per_number bs"
proof
  assume "ensure_consistent_block_hashes ctx bs = Ok ()"
  then obtain h where "\<forall>b \<in> set bs. blk_hash (pb_block b) = h (blk_number (pb_block b))"
    using consistent_loop_Ok[of ctx "[]" bs] unfolding ensure_consistent_block_hashes_def by auto
  then show "one_hash_per_number bs" by (simp add: one_hash_per_number_def)
next
  assume one: "one_hash_per_number bs"
  define h where "h n = blk_hash (pb_block (SOME b. b \<in> set bs \<and> blk_number (pb_block b) = n))" for n
  have "blk_hash (pb_block b) = h (blk_number (pb_block b))" if b: "b \<in> set bs" for b
  proof -
    have "\<exists>x. x \<in> set bs \<and> blk_number (pb_block x) = blk_number (pb_block b)" using b by blast
    from someI_ex[OF this] show ?thesis using one b unfolding one_hash_per_number_def h_def by metis
  qed
  then show "ensure_consistent_block_hashes ctx bs = Ok ()"
    unfolding ensure_consistent_block_hashes_def by (intro consistent_agree[where h = h]) auto
qed

lemma request_blocks_exact:
  "fst (request_blocks env ctx params e m) = Ok bs \<longleftrightarrow> bs = block_answers env params m \<and> bs \<noteq> [] \<and> one_hash_per_number bs"
proof -
  obtain cs m0 where c: "provider_candidates (rn_now env) m = (cs, m0)" by fastforce
  have ids: "provider_id m0 = provider_id m" using candidates_pool[OF c] by (simp add: provider_id_def fun_eq_iff)
  have m0: "answer_of env params m0 = answer_of env params m" unfolding answer_of_def[abs_def] ids by (rule refl)
  have k: "rm_min_provider_count m0 = rm_min_provider_count m" using candidates_pool[OF c] by (simp add: same_pool_def)
  let ?n = "max 1 (rm_min_provider_count m)" and ?all = "List.map_filter (answer_of env params m) cs"
  have ans: "block_answers env params m = take ?n ?all" by (simp add: block_answers_def c)
  obtain r m1 where run: "collect_blocks env ctx params cs [] [] 0 m0 = (r, m1)" by fastforce
  show ?thesis
  proof (cases "?n \<le> length ?all")
    case True
    then have "r = Inl (mapE (\<lambda>_. take ?n ?all) (ensure_consistent_block_hashes ctx (take ?n ?all)))"
      using collect_blocks_exact[of "[]" m0 env params cs ctx "[]" 0] by (simp add: run m0 k Let_def less_max_iff_disj)
    moreover have "take ?n ?all \<noteq> []" using True by (cases ?all) simp_all
    ultimately show ?thesis by (auto simp: request_blocks_def c run ans mapE_eq_Ok consistent_iff)
  next
    case False
    then obtain errs nf where "r = Inr (?all, errs, nf)"
      using collect_blocks_exact[of "[]" m0 env params cs ctx "[]" 0] by (auto simp: run m0 k Let_def less_max_iff_disj)
    moreover have "take ?n ?all = ?all" using False by (intro take_all) linarith
    ultimately show ?thesis by (auto simp: request_blocks_def c run ans mapE_eq_Ok consistent_iff)
  qed
qed

lemma request_blocks_pool: "same_pool m (snd (request_blocks env ctx params e m))"
proof -
  obtain cs m0 where c: "provider_candidates (rn_now env) m = (cs, m0)" by fastforce
  obtain r m1 where run: "collect_blocks env ctx params cs [] [] 0 m0 = (r, m1)" by fastforce
  have "same_pool m0 m1" using collected[OF run] by simp
  then have "same_pool m m1" using candidates_pool[OF c] same_pool_trans by blast
  then show ?thesis by (simp add: request_blocks_def c run split: sum.split prod.split)
qed

text \<open>
  C11: which head the client reports, exactly.  Of the candidates, asked in turn, it takes the blocks it
  can read from their answers up to the configured number of providers.  It reports a head when there is at
  least one such block and no two of them give different hashes for one block number, and then it is the
  oldest of them; otherwise it reports an error.  The pool keeps its chain, quorum and providers.
\<close>

theorem rpc_head_conservative:
  "same_pool m (snd (head_by_tag env tag m)) \<and>
   (fst (head_by_tag env tag m) = Ok h \<longleftrightarrow>
      (\<exists>b \<in> set (block_answers env (JArray [JString tag, JBool False]) m). h = block_ref (pb_block b)) \<and>
      (\<forall>b \<in> set (block_answers env (JArray [JString tag, JBool False]) m). cb_number h \<le> blk_number (pb_block b)) \<and>
      (\<forall>b \<in> set (block_answers env (JArray [JString tag, JBool False]) m).
         \<forall>b' \<in> set (block_answers env (JArray [JString tag, JBool False]) m).
           blk_number (pb_block b) = blk_number (pb_block b') \<longrightarrow> blk_hash (pb_block b) = blk_hash (pb_block b')))"
proof -
  let ?ps = "JArray [JString tag, JBool False]"
  let ?bs = "block_answers env ?ps m" and ?r = "request_blocks env (''block tag '' @ tag) ?ps (BlockNotFound (- 1)) m"
  let ?least = "pb_block (select_conservative_head ?bs)"
  have pool: "same_pool m (snd (head_by_tag env tag m))"
    using request_blocks_pool[of m env "''block tag '' @ tag" ?ps "BlockNotFound (- 1)"]
    by (auto simp: head_by_tag_def rpc_then_def rpc_answer_def split: prod.splits sum.splits)
  have reported: "fst (head_by_tag env tag m) = Ok h \<longleftrightarrow> (\<exists>bs. fst ?r = Ok bs \<and> h = block_ref (pb_block (select_conservative_head bs)))"
    by (auto simp: head_by_tag_def rpc_then_def rpc_answer_def split: prod.splits sum.splits)
  then have "fst (head_by_tag env tag m) = Ok h \<longleftrightarrow> ?bs \<noteq> [] \<and> one_hash_per_number ?bs \<and> h = block_ref ?least"
    unfolding request_blocks_exact by blast
  also have "\<dots> \<longleftrightarrow> one_hash_per_number ?bs \<and> (\<exists>b \<in> set ?bs. h = block_ref (pb_block b)) \<and> (\<forall>b \<in> set ?bs. cb_number h \<le> blk_number (pb_block b))"
  proof (cases "?bs = []")
    case False
    note least = conservative_head[OF False]
    show ?thesis
    proof (intro iffI; elim conjE bexE)
      fix b
      assume one: "one_hash_per_number ?bs" and b: "b \<in> set ?bs" "h = block_ref (pb_block b)"
        and le: "\<forall>b \<in> set ?bs. cb_number h \<le> blk_number (pb_block b)"
      have "blk_number (pb_block b) = blk_number ?least" using le least b by (force simp: block_ref_def intro: antisym)
      then have "block_ref (pb_block b) = block_ref ?least"
        using one least b(1) unfolding one_hash_per_number_def block_ref_def by fastforce
      then show "?bs \<noteq> [] \<and> one_hash_per_number ?bs \<and> h = block_ref ?least" using False one b(2) by simp
    qed (use least in \<open>auto simp: block_ref_def\<close>)
  qed simp
  finally show ?thesis using pool unfolding one_hash_per_number_def by blast
qed


section \<open>Over nodes that serve a chain\<close>

text \<open>
  The log filter of the JSON-RPC interface, read as numbers: a log is selected when its contract is the
  address, its block lies between the bounds and its topics agree with those of the filter position
  by position, where null stands for any.  A transfer has the topic of the event, the sender and the
  recipient.
\<close>

definition text_number :: "json option \<Rightarrow> nat option" where
  "text_number v = (case v of Some (JString s) \<Rightarrow> if take 2 s = ''0x'' then hex_digits_value (drop 2 s) else None | _ \<Rightarrow> None)"

definition log_topics :: "TransferLog \<Rightarrow> nat list" where
  "log_topics l = [0xddf252ad1be2c89b69c2b068fc378daa952ba7f163c4a11628f55a4df523b3ef, unat (tl_from_address l), unat (tl_to_address l)]"

definition filter_matches :: "json \<Rightarrow> TransferLog \<Rightarrow> bool" where
  "filter_matches params l \<longleftrightarrow> (\<exists>f lo hi ts. params = JArray [f] \<and>
     text_number (json_get f ''address'') = Some (unat (tl_token_address l)) \<and>
     text_number (json_get f ''fromBlock'') = Some lo \<and> text_number (json_get f ''toBlock'') = Some hi \<and>
     lo \<le> unat (blk_number (tl_block l)) \<and> unat (blk_number (tl_block l)) \<le> hi \<and>
     json_get f ''topics'' = Some (JArray ts) \<and> length ts \<le> 3 \<and>
     (\<forall>i < length ts. ts ! i = JNull \<or> text_number (Some (ts ! i)) = Some (log_topics l ! i)))"

text \<open>
  The nodes serve a chain when what they answer is right: the logs of a range query are those of the
  canonical list that the filter selects, a block that is asked for by number is the chain's one or not
  there yet.  They may fail at any request.
\<close>

definition serves :: "rpc_env \<Rightarrow> u64 \<Rightarrow> (u64 \<Rightarrow> ChainBlock option) \<Rightarrow> TransferLog list \<Rightarrow> bool" where
  "serves env chain_id chain canonical \<longleftrightarrow>
     (\<forall>l \<in> set canonical. chain (blk_number (tl_block l)) = Some (tl_block l)) \<and>
     (\<forall>n b. chain n = Some b \<longrightarrow> block_time_ok b) \<and>
     (\<forall>i rg v. rg_chain_id rg = chain_id \<longrightarrow> rn_request env i ''eth_getLogs'' (transfer_filter rg) = Ok v \<longrightarrow>
        (\<exists>raws. v = JArray raws \<and>
           list_all2 writes_log raws (filter (\<lambda>l. tl_chain_id l = chain_id \<and> filter_matches (transfer_filter rg) l) canonical))) \<and>
     (\<forall>i n b v. chain n = Some b \<longrightarrow> rn_request env i ''eth_getBlockByNumber'' (block_params n) = Ok v \<longrightarrow>
        v = JNull \<or> writes_block v b)"

text \<open>The filter that the client writes selects the range it was asked for.\<close>

lemma nibbles: "16 * unat (drop_bit 4 b) + unat (b AND 15) = unat (b :: u8)"
proof -
  have "b AND 15 = take_bit 4 b" by (simp add: take_bit_eq_mask mask_eq_exp_minus_1)
  then have "unat (b AND 15) = unat b mod 16" by (simp add: take_bit_eq_mod unat_mod)
  moreover have "unat (drop_bit 4 b) = unat b div 16" by (simp add: drop_bit_eq_div unat_div)
  ultimately show ?thesis by simp
qed

lemma bytes_value: "hex_digits_value (concat (map encode_byte bs)) = Some (be_nat bs)"
proof -
  have digits: "list_all is_hex_digit (concat (map encode_byte bs))"
    by (induction bs) (simp_all add: encode_byte_def hex_table_is_digit high_nibble_lt low_nibble_lt)
  have "foldl (\<lambda>a c. 16 * a + unat (the (hex_value (char_byte c)))) 0 (concat (map encode_byte bs)) = be_nat bs"
  proof (induction bs rule: rev_induct)
    case (snoc b bs)
    have "16 * (16 * k + unat (drop_bit 4 b)) + unat (b AND 15) = 256 * k + unat b" for k
      using nibbles[of b] by simp
    with snoc show ?case
      by (simp add: encode_byte_def hex_table_digit_value high_nibble_lt low_nibble_lt be_nat_snoc)
  qed simp
  with digits show ?thesis by (simp add: hex_digits_value_def)
qed

lemma address_value: "hex_digits_value (drop 2 (address_to_lower_hex a)) = Some (unat a)"
proof -
  have "be_nat (word_bytes a) = unat a" using unsigned_less[of a, where 'a = nat] by (simp add: word_bytes_def be_nat_be_bytes)
  then show ?thesis by (simp add: address_to_lower_hex_def encode_lower_prefixed_def bytes_value)
qed

lemma zeros_value: "hex_digits_value (replicate k CHR ''0'' @ s) = hex_digits_value s"
proof -
  have "hex_value (char_byte (CHR ''0'')) = Some 0" "is_hex_digit (CHR ''0'')" by code_simp+
  then have "foldl (\<lambda>a c. 16 * a + unat (the (hex_value (char_byte c)))) 0 (replicate k CHR ''0'') = 0"
    "list_all is_hex_digit (replicate k CHR ''0'')"
    by (induction k) simp_all
  then show ?thesis by (simp add: hex_digits_value_def)
qed

lemma topic_digits:
  "hex_value (char_byte CHR ''0'') = Some 0" "is_hex_digit CHR ''0''"
  "hex_value (char_byte CHR ''1'') = Some 1" "is_hex_digit CHR ''1''"
  "hex_value (char_byte CHR ''2'') = Some 2" "is_hex_digit CHR ''2''"
  "hex_value (char_byte CHR ''3'') = Some 3" "is_hex_digit CHR ''3''"
  "hex_value (char_byte CHR ''4'') = Some 4" "is_hex_digit CHR ''4''"
  "hex_value (char_byte CHR ''5'') = Some 5" "is_hex_digit CHR ''5''"
  "hex_value (char_byte CHR ''6'') = Some 6" "is_hex_digit CHR ''6''"
  "hex_value (char_byte CHR ''7'') = Some 7" "is_hex_digit CHR ''7''"
  "hex_value (char_byte CHR ''8'') = Some 8" "is_hex_digit CHR ''8''"
  "hex_value (char_byte CHR ''9'') = Some 9" "is_hex_digit CHR ''9''"
  "hex_value (char_byte CHR ''a'') = Some 10" "is_hex_digit CHR ''a''"
  "hex_value (char_byte CHR ''b'') = Some 11" "is_hex_digit CHR ''b''"
  "hex_value (char_byte CHR ''c'') = Some 12" "is_hex_digit CHR ''c''"
  "hex_value (char_byte CHR ''d'') = Some 13" "is_hex_digit CHR ''d''"
  "hex_value (char_byte CHR ''e'') = Some 14" "is_hex_digit CHR ''e''"
  "hex_value (char_byte CHR ''f'') = Some 15" "is_hex_digit CHR ''f''"
  by code_simp+

lemma text_number_simps [simp]:
  "text_number (Some (JString (address_to_lower_hex a))) = Some (unat a)"
  "text_number (Some (JString (quantity_hex n))) = Some (unat n)"
  "text_number (Some (JString (CHR ''0'' # CHR ''x'' # padded_address a))) = Some (unat a)"
  "text_number (Some (JString ERC20_TRANSFER_TOPIC)) = Some 0xddf252ad1be2c89b69c2b068fc378daa952ba7f163c4a11628f55a4df523b3ef"
proof -
  show "text_number (Some (JString (address_to_lower_hex a))) = Some (unat a)"
    using address_value[of a] by (simp add: text_number_def address_to_lower_hex_def encode_lower_prefixed_def)
  show "text_number (Some (JString (quantity_hex n))) = Some (unat n)"
    by (simp add: text_number_def quantity_hex_def show_hex_value)
  show "text_number (Some (JString (CHR ''0'' # CHR ''x'' # padded_address a))) = Some (unat a)"
    by (simp add: text_number_def padded_address_def zeros_value address_value)
  show "text_number (Some (JString ERC20_TRANSFER_TOPIC)) = Some 0xddf252ad1be2c89b69c2b068fc378daa952ba7f163c4a11628f55a4df523b3ef"
    by (simp add: text_number_def ERC20_TRANSFER_TOPIC_def hex_digits_value_def topic_digits)
qed

lemma transfer_filter_selects: "tl_chain_id l = rg_chain_id rg \<and> filter_matches (transfer_filter rg) l \<longleftrightarrow> range_selects rg l"
proof (cases "rg_recipient rg")
  case None
  then show ?thesis
    by (auto simp: filter_matches_def transfer_filter_def range_selects_def json_get_def log_topics_def word_le_nat_alt word_unat_eq_iff
        less_Suc_eq)
next
  case (Some a)
  then show ?thesis
    by (auto simp: filter_matches_def transfer_filter_def range_selects_def json_get_def log_topics_def word_le_nat_alt word_unat_eq_iff
        less_Suc_eq numeral_3_eq_3)
qed

lemma served_range:
  assumes "serves env chain_id chain canonical" "rg_chain_id rg = chain_id" "rn_request env i ''eth_getLogs'' (transfer_filter rg) = Ok v"
  shows "\<exists>raws. v = JArray raws \<and> list_all2 writes_log raws (filter (range_selects rg) canonical)"
proof -
  have "(\<lambda>l. tl_chain_id l = chain_id \<and> filter_matches (transfer_filter rg) l) = range_selects rg"
    using transfer_filter_selects[of _ rg] assms(2) by (simp add: fun_eq_iff)
  then show ?thesis using assms unfolding serves_def by fastforce
qed

lemma written_not_null: "writes_block v b \<Longrightarrow> v \<noteq> JNull"
  by (auto simp: writes_block_def is_object_def)

lemma answered_is_chain_block:
  assumes "answered_block env (block_params n) x" "serves env c chain canonical" "chain n = Some b"
  shows "pb_block x = b"
proof -
  obtain i v where v: "rn_request env i ''eth_getBlockByNumber'' (block_params n) = Ok v" "parse_block env v (pb_provider_id x) = Ok x"
    using assms(1) unfolding answered_block_def by blast
  have "v \<noteq> JNull" using v(2) by (auto simp: parse_block_def serde_def read_rpc_block_def is_object_def ok_or_def)
  then have "writes_block v b" "block_time_ok b" using assms(2,3) v(1) unfolding serves_def by blast+
  from block_read[OF this, of env "pb_provider_id x"] v(2) have "x = \<lparr>pb_provider_id = pb_provider_id x, pb_block = b\<rparr>" by simp
  then have "pb_block x = pb_block \<lparr>pb_provider_id = pb_provider_id x, pb_block = b\<rparr>" by (rule arg_cong)
  then show ?thesis by simp
qed

lemma served_block:
  assumes "rpc_block_by_number env n m = (Ok x, m')" "serves env c chain canonical" "chain n = Some b"
  shows "x = b \<and> same_pool m m'"
proof -
  obtain bs where bs: "request_blocks env (''block '' @ show_nat (unat n)) (block_params n) (BlockNotFound n) m = (Ok bs, m')"
    and x: "x = pb_block (select_conservative_head bs)"
    using assms(1) by (auto simp: rpc_block_by_number_def block_params_def rpc_then_def rpc_answer_def split: prod.splits sum.splits)
  show ?thesis
    using request_blocks_Ok[OF bs] conservative_head[of bs] answered_is_chain_block[OF _ assms(2,3)] x by blast
qed

lemma rpc_then_Ok: "rpc_then p f m = (Ok b, m') \<longleftrightarrow> (\<exists>a m1. p m = (Ok a, m1) \<and> f a m1 = (Ok b, m'))"
  by (auto simp: rpc_then_def split: prod.split sum.split)

lemma rpc_answer_simp [simp]: "rpc_answer r m = (r, m)"
  by (simp add: rpc_answer_def)

lemma served_headers:
  assumes "fetch_headers env ns m = (Ok hs, m')" "serves env c chain canonical" "\<forall>n \<in> set ns. chain n \<noteq> None"
  shows "hs = map (\<lambda>n. (n, the (chain n))) ns"
  using assms(1,3)
proof (induction ns arbitrary: m hs)
  case (Cons n ns)
  obtain b where b: "chain n = Some b" using Cons.prems(2) by auto
  obtain x m1 rest where "rpc_block_by_number env n m = (Ok x, m1)" "fetch_headers env ns m1 = (Ok rest, m')" "hs = (n, x) # rest"
    using Cons.prems(1) by (auto simp: rpc_then_Ok)
  with served_block[OF _ assms(2) b] Cons.IH Cons.prems(2) b show ?case by auto
qed simp

lemma served_logs_parse:
  assumes "list_all2 writes_log raws ls" "\<forall>l \<in> set ls. tl_token_address l = rg_token_address rg"
  shows "parse_logs env rg raws = Ok (map parsed_log ls)"
  using assms
proof (induction rule: list_all2_induct)
  case (Cons v raws l ls)
  have "json_get v ''removed'' \<noteq> Some (JBool True)" using Cons.hyps(1) by (simp add: writes_log_def)
  moreover have "pt_token_address (parsed_log l) = rg_token_address rg" using Cons.prems by (simp add: parsed_log_def)
  ultimately show ?case using Cons log_read[OF Cons.hyps(1)] by simp
qed simp

lemma served_logs_attach:
  assumes "\<forall>l \<in> set ls. map_of headers (blk_number (tl_block l)) = Some (tl_block l) \<and> tl_chain_id l = rg_chain_id rg"
  shows "attach_headers pid rg headers (map parsed_log ls) = Ok ls"
  using assms by (induction ls) (simp_all add: parsed_log_def)


text \<open>
  C9: Over nodes that serve a chain, wherever they fail, the client is a log source of that chain: a
  range query that succeeds returns exactly the canonical transfers of the range, each with the
  header of its block, in the order of the chain.
\<close>

theorem rpc_refines_log_source:
  assumes "serves env (rm_expected_chain_id m) chain canonical"
  shows "log_source (\<lambda>rg. fst (rpc_transfer_logs env rg m)) canonical"
proof
  fix rg ls
  assume "fst (rpc_transfer_logs env rg m) = Ok ls"
  then obtain m' where run: "rpc_transfer_logs env rg m = (Ok ls, m')" by (metis prod.collapse)
  let ?want = "filter (range_selects rg) canonical"
  from run obtain pid v m1 raws parsed headers m2 logs where right: "rg_chain_id rg = rm_expected_chain_id m"
    and v: "request_first_success env ''eth_getLogs'' (transfer_filter rg) m = (Ok (pid, v), m1)" "as_array v = Some raws"
      "parse_logs env rg raws = Ok parsed"
    and headers: "fetch_headers env (sort (remdups (map pt_block_number parsed))) m1 = (Ok headers, m2)"
    and logs: "attach_headers pid rg headers parsed = Ok logs" "ls = sort_logs logs"
    by (auto simp: rpc_transfer_logs_def rpc_then_Ok chain_guard_def ok_or_eq_Ok split: if_splits)
  obtain i where "rn_request env i ''eth_getLogs'' (transfer_filter rg) = Ok v" using request_first_success_Ok[OF v(1)] by blast
  from served_range[OF assms right this] have written: "list_all2 writes_log raws ?want" using v(2) by (auto simp: as_array_def)
  have parsed: "parsed = map parsed_log ?want"
    using served_logs_parse[OF written, of rg env] v(3) by (simp add: range_selects_def)
  have on_chain: "\<forall>l \<in> set ?want. chain (blk_number (tl_block l)) = Some (tl_block l)" using assms unfolding serves_def by simp
  then have "headers = map (\<lambda>n. (n, the (chain n))) (sort (remdups (map pt_block_number parsed)))"
    using served_headers[OF headers assms] by (auto simp: parsed parsed_log_def)
  then have "\<forall>l \<in> set ?want. map_of headers (blk_number (tl_block l)) = Some (tl_block l)"
    using on_chain by (auto simp: map_of_map_restrict parsed parsed_log_def restrict_map_def)
  then have "attach_headers pid rg headers parsed = Ok ?want"
    unfolding parsed by (intro served_logs_attach) (auto simp: range_selects_def)
  with logs show "ls = sort_logs ?want" by simp
qed


section \<open>One healthy node is enough\<close>

lemma update_good_up:
  "rn_request env i meth params = Ok v \<Longrightarrow> rn_request env j meth params = Inl e \<Longrightarrow> up env i m \<Longrightarrow> up env i (failed_call env j e m)"
  by (cases "i = j") (auto intro: failed_other_up)

lemma collect_up:
  assumes "collect_blocks env ctx (block_params n) is blocks errors nf m = (r, m')"
    and "serves env c chain canonical" "chain n = Some b"
    and "rn_request env i ''eth_getBlockByNumber'' (block_params n) = Ok v" "v \<noteq> JNull" "up env i m"
    and "\<forall>x \<in> set blocks. pb_block x = b"
  shows "up env i m' \<and> (i \<in> set is \<or> blocks \<noteq> [] \<longrightarrow>
    (\<exists>bs. bs \<noteq> [] \<and> (\<forall>x \<in> set bs. pb_block x = b) \<and> (r = Inl (Ok bs) \<or> (\<exists>es k. r = Inr (bs, es, k)))))"
  using assms(1,6,7)
proof (induction "is" arbitrary: blocks errors nf m)
  case Nil
  then show ?case by auto
next
  case (Cons j js)
  note step = Cons.prems(1) and upm = Cons.prems(2) and old = Cons.prems(3)
  show ?case
  proof (cases "rn_request env j ''eth_getBlockByNumber'' (block_params n)")
    case (Inl e)
    then have "i \<noteq> j" using assms(4) by auto
    with step Inl show ?thesis
      using Cons.IH[OF _ update_good_up[OF assms(4) Inl upm] old] Cons.IH[OF _ upm old] by (cases e) (auto simp: Let_def)
  next
    case (Inr w)
    show ?thesis
    proof (cases "w = JNull")
      case True
      then have "i \<noteq> j" using Inr assms(4,5) by auto
      with step Inr True show ?thesis using Cons.IH[OF _ upm old] by (auto simp: Let_def)
    next
      case False
      then have "writes_block w b" "block_time_ok b" using assms(2,3) Inr unfolding serves_def by blast+
      note read = block_read[OF this, of env "provider_id m j"]
      let ?b = "\<lparr>pb_provider_id = provider_id m j, pb_block = b\<rparr>"
      have all: "\<forall>x \<in> set (blocks @ [?b]). pb_block x = b" using old by simp
      have agreed: "ensure_consistent_block_hashes ctx (blocks @ [?b]) = Ok ()"
        unfolding ensure_consistent_block_hashes_def using all by (intro consistent_same[of _ b]) simp
      have go: "(if rm_min_provider_count m \<le> length (blocks @ [?b])
           then (Inl (mapE (\<lambda>_. blocks @ [?b]) (ensure_consistent_block_hashes ctx (blocks @ [?b]))), update_health j record_success m)
           else collect_blocks env ctx (block_params n) js (blocks @ [?b]) errors nf (update_health j record_success m)) = (r, m')"
        using step Inr False read by (cases w) (simp_all add: Let_def)
      show ?thesis
      proof (cases "rm_min_provider_count m \<le> length (blocks @ [?b])")
        case True
        with go agreed have "r = Inl (Ok (blocks @ [?b]))" "m' = update_health j record_success m" by auto
        then show ?thesis using all success_up[OF upm] by blast
      next
        case False
        with go have "collect_blocks env ctx (block_params n) js (blocks @ [?b]) errors nf (update_health j record_success m) = (r, m')"
          by simp
        from Cons.IH[OF this success_up[OF upm] all] show ?thesis by simp
      qed
    qed
  qed
qed

lemma blocks_up:
  assumes "serves env c chain canonical" "chain n = Some b" "up env i m"
    and "rn_request env i ''eth_getBlockByNumber'' (block_params n) = Ok v" "v \<noteq> JNull"
  shows "\<exists>bs m'. request_blocks env ctx (block_params n) e m = (Ok bs, m') \<and> up env i m' \<and> bs \<noteq> [] \<and> (\<forall>x \<in> set bs. pb_block x = b)"
proof -
  obtain cs m0 where c: "provider_candidates (rn_now env) m = (cs, m0)" by fastforce
  have i: "i \<in> set cs" "up env i m0" using candidates_up[OF c assms(3)] by simp_all
  obtain r m1 where run: "collect_blocks env ctx (block_params n) cs [] [] 0 m0 = (r, m1)" by fastforce
  obtain bs where bs: "bs \<noteq> []" "\<forall>x \<in> set bs. pb_block x = b" "r = Inl (Ok bs) \<or> (\<exists>es k. r = Inr (bs, es, k))" "up env i m1"
    using collect_up[OF run assms(1,2,4,5) i(2)] i(1) by auto
  have "ensure_consistent_block_hashes ctx bs = Ok ()"
    unfolding ensure_consistent_block_hashes_def using bs(2) by (intro consistent_same[of _ b]) simp
  then have "request_blocks env ctx (block_params n) e m = (Ok bs, m1)"
    using bs(1,3) by (auto simp: request_blocks_def c run)
  then show ?thesis using bs by blast
qed

lemma block_up:
  assumes "serves env c chain canonical" "chain n = Some b" "up env i m"
    and "rn_request env i ''eth_getBlockByNumber'' (block_params n) = Ok v" "v \<noteq> JNull"
  shows "\<exists>m'. rpc_block_by_number env n m = (Ok b, m') \<and> up env i m'"
proof -
  obtain bs m' where bs: "request_blocks env (''block '' @ show_nat (unat n)) (block_params n) (BlockNotFound n) m = (Ok bs, m')"
    "up env i m'" "bs \<noteq> []" "\<forall>x \<in> set bs. pb_block x = b" using blocks_up[OF assms] by blast
  have "pb_block (select_conservative_head bs) = b" using conservative_head[OF bs(3)] bs(4) by blast
  then have "rpc_block_by_number env n m = (Ok b, m')"
    unfolding rpc_block_by_number_def rpc_then_def block_params_def[symmetric] bs(1) by simp
  then show ?thesis using bs(2) by blast
qed

lemma headers_up:
  assumes "serves env c chain canonical" "up env i m"
    and "\<forall>n \<in> set ns. chain n \<noteq> None \<and> (\<exists>v. rn_request env i ''eth_getBlockByNumber'' (block_params n) = Ok v \<and> v \<noteq> JNull)"
  shows "\<exists>hs m'. fetch_headers env ns m = (Ok hs, m')"
  using assms(2,3)
proof (induction ns arbitrary: m)
  case (Cons n ns)
  obtain b v where b: "chain n = Some b" "rn_request env i ''eth_getBlockByNumber'' (block_params n) = Ok v" "v \<noteq> JNull"
    using Cons.prems(2) by auto
  obtain m1 where m1: "rpc_block_by_number env n m = (Ok b, m1)" "up env i m1" using block_up[OF assms(1) b(1) Cons.prems(1) b(2,3)] by blast
  obtain hs m' where "fetch_headers env ns m1 = (Ok hs, m')" using Cons.IH[OF m1(2)] Cons.prems(2) by auto
  with m1 show ?case by (simp add: rpc_then_def)
qed simp


text \<open>
  C10: One healthy node is enough: when a provider that is not cooling down answers the query and knows
  the blocks of the logs, then whatever the other providers do - as long as they do not lie - a
  valid range query of the configured chain succeeds with exactly the canonical transfers.
\<close>

theorem rpc_one_node_suffices:
  assumes "serves env (rm_expected_chain_id m) chain canonical" "up env i m"
    and "rg_chain_id rg = rm_expected_chain_id m" "rg_from_block rg \<le> rg_to_block rg"
    and "is_ok (rn_request env i ''eth_getLogs'' (transfer_filter rg))"
    and "\<forall>l \<in> set canonical. range_selects rg l \<longrightarrow>
      (\<exists>v. rn_request env i ''eth_getBlockByNumber'' (block_params (blk_number (tl_block l))) = Ok v \<and> v \<noteq> JNull)"
  shows "fst (rpc_transfer_logs env rg m) = Ok (sort_logs (filter (range_selects rg) canonical))"
proof -
  let ?want = "filter (range_selects rg) canonical"
  obtain v where "rn_request env i ''eth_getLogs'' (transfer_filter rg) = Ok v" using assms(5) by (auto simp: is_ok_iff)
  from request_first_success_up[OF this assms(2)] obtain pid w m1
    where w: "request_first_success env ''eth_getLogs'' (transfer_filter rg) m = (Ok (pid, w), m1)" "up env i m1" by blast
  then obtain j where "rn_request env j ''eth_getLogs'' (transfer_filter rg) = Ok w" using request_first_success_Ok by blast
  then obtain raws where raws: "w = JArray raws" "list_all2 writes_log raws ?want"
    using served_range[OF assms(1,3)] by blast
  have parsed: "parse_logs env rg raws = Ok (map parsed_log ?want)"
    by (rule served_logs_parse[OF raws(2)]) (simp add: range_selects_def)
  have on_chain: "\<forall>l \<in> set ?want. chain (blk_number (tl_block l)) = Some (tl_block l)" using assms(1) unfolding serves_def by simp
  let ?ns = "sort (remdups (map pt_block_number (map parsed_log ?want)))"
  have known: "\<forall>n \<in> set ?ns. chain n \<noteq> None \<and> (\<exists>v. rn_request env i ''eth_getBlockByNumber'' (block_params n) = Ok v \<and> v \<noteq> JNull)"
    using on_chain assms(6) by (auto simp: parsed_log_def)
  obtain hs m2 where hs: "fetch_headers env ?ns m1 = (Ok hs, m2)" using headers_up[OF assms(1) w(2) known] by blast
  have "hs = map (\<lambda>n. (n, the (chain n))) ?ns" using served_headers[OF hs assms(1)] known by blast
  then have "\<forall>l \<in> set ?want. map_of hs (blk_number (tl_block l)) = Some (tl_block l)"
    using on_chain by (auto simp: map_of_map_restrict parsed_log_def restrict_map_def)
  then have "attach_headers pid rg hs (map parsed_log ?want) = Ok ?want"
    by (intro served_logs_attach) (auto simp: range_selects_def)
  then show ?thesis
    using assms(3,4) w(1) raws(1) parsed hs
    by (simp add: rpc_transfer_logs_def rpc_then_def range_validate_def chain_guard_def as_array_def)
qed


section \<open>Fees\<close>

lemma max_optional_Some: "max_optional_u256 a (Some b) = Some (case a of None \<Rightarrow> b | Some x \<Rightarrow> max x b)"
  by (simp add: max_optional_u256_def split: option.split)

lemma fees_cover:
  assumes "fees_from history suggestion price = Ok fee"
  shows "unat (fe_max_priority_fee_per_gas fee) \<le> unat (fe_max_fee_per_gas fee) \<and>
    (\<forall>p. price = Some p \<longrightarrow> p \<le> fe_max_fee_per_gas fee) \<and>
    (\<forall>s. suggestion = Some s \<longrightarrow> s \<le> fe_max_priority_fee_per_gas fee) \<and>
    (\<forall>h b. history = Some h \<longrightarrow> fh_base_fee_per_gas h = Some b \<longrightarrow>
      2 * unat b + unat (fe_max_priority_fee_per_gas fee) \<le> unat (fe_max_fee_per_gas fee))"
  using assms
  by (auto simp: fees_from_def Let_def bindE_eq_Ok checked_add_Some checked_mul_Some max_optional_u256_def
      word_le_nat_alt max_def split: option.splits if_splits)

text \<open>
  C21: An estimate of the fees covers the market the nodes report: the fee cap is at least the priority
  fee, at least the reported gas price, and twice the reported base fee with the priority fee on top
  fits under it; the priority fee is not below what a node suggests.  The arithmetic never wraps.
\<close>

theorem fee_estimate_covers:
  assumes "rpc_estimate_eip1559_fees env m = (Ok fee, m')"
    and "fee_history_estimate env m = (history, m1)" "max_priority_fee_per_gas env m1 = (suggestion, m2)" "gas_price env m2 = (price, m3)"
  shows "unat (fe_max_priority_fee_per_gas fee) \<le> unat (fe_max_fee_per_gas fee) \<and>
    (\<forall>p. price = Ok p \<longrightarrow> p \<le> fe_max_fee_per_gas fee) \<and>
    (\<forall>s. suggestion = Ok s \<longrightarrow> s \<le> fe_max_priority_fee_per_gas fee) \<and>
    (\<forall>h b. history = Ok h \<longrightarrow> fh_base_fee_per_gas h = Some b \<longrightarrow>
      2 * unat b + unat (fe_max_priority_fee_per_gas fee) \<le> unat (fe_max_fee_per_gas fee))"
proof -
  have "fees_from (ok_value history) (ok_value suggestion) (ok_value price) = Ok fee"
    using assms by (simp add: rpc_estimate_eip1559_fees_def)
  from fees_cover[OF this] show ?thesis by (simp add: ok_value_def)
qed


section \<open>Witnesses\<close>

definition block_json :: "ChainBlock \<Rightarrow> json" where
  "block_json b = JObject [(''number'', JString (quantity_hex (blk_number b))), (''hash'', JString (hash_to_lower_hex (blk_hash b))),
     (''parentHash'', JString (hash_to_lower_hex (blk_parent_hash b))), (''timestamp'', JString (seconds_text (blk_timestamp b)))]"

definition log_json :: "TransferLog \<Rightarrow> json" where
  "log_json l = JObject [(''address'', JString (address_to_lower_hex (tl_token_address l))),
     (''topics'', JArray [JString ERC20_TRANSFER_TOPIC, JString (''0x'' @ padded_address (tl_from_address l)),
       JString (''0x'' @ padded_address (tl_to_address l))]),
     (''data'', JString (encode_hex (word_bytes (tl_amount_raw l)))),
     (''blockNumber'', JString (quantity_hex (blk_number (tl_block l)))),
     (''blockHash'', JString (hash_to_lower_hex (blk_hash (tl_block l)))),
     (''transactionHash'', JString (hash_to_lower_hex (tl_tx_hash l))), (''logIndex'', JString (quantity_hex (tl_log_index l)))]"

lemma writes_json: "writes_block (block_json b) b" "writes_log (log_json l) l"
  by (simp_all add: writes_block_def writes_log_def block_json_def log_json_def is_object_def json_get_def)

lemma quantity_hex_inject: "quantity_hex v = quantity_hex w \<longleftrightarrow> v = w"
  by (metis quantity_roundtrip sum.inject(2))

lemma padded_inject: "padded_address a = padded_address b \<longleftrightarrow> a = b"
  by (metis topic_roundtrip sum.inject(2))

lemma transfer_filter_inject:
  assumes "transfer_filter r = transfer_filter r'" "rg_chain_id r = rg_chain_id r'"
  shows "r = (r' :: TransferLogRange)"
proof -
  have "rg_recipient r = rg_recipient r'"
    using assms(1) by (cases "rg_recipient r"; cases "rg_recipient r'") (simp_all add: transfer_filter_def padded_inject)
  with assms show ?thesis by (simp add: transfer_filter_def quantity_hex_inject evm_address.enc_inject)
qed

definition node_block :: ChainBlock where
  "node_block = \<lparr>blk_number = 12, blk_hash = 0xBEEF, blk_parent_hash = 0xBEEE, blk_timestamp = 30 * one_second\<rparr>"

definition node_log :: TransferLog where
  "node_log = \<lparr>tl_chain_id = 137, tl_token_address = 0xA, tl_block = node_block, tl_tx_hash = 0xFEED, tl_log_index = 3,
     tl_from_address = 0xC, tl_to_address = 0xB0B, tl_amount_raw = 100\<rparr>"

definition node_range :: TransferLogRange where
  "node_range = range_new 137 0xA 10 15"

text \<open>The first node answers one query, one block and the fee reads; the second is down.\<close>

definition node_env :: rpc_env where
  "node_env = \<lparr>rn_request = \<lambda>i meth params.
       if i \<noteq> 0 then Err (RpcUnavailable ''down'')
       else if meth = ''eth_getLogs'' \<and> params = transfer_filter node_range then Ok (JArray [log_json node_log])
       else if meth = ''eth_getBlockByNumber'' \<and> (params = block_params 12 \<or> params = JArray [JString ''latest'', JBool False])
       then Ok (block_json node_block)
       else if meth = ''eth_gasPrice'' then Ok (JString ''0x1e'')
       else if meth = ''eth_maxPriorityFeePerGas'' then Ok (JString ''0x02'')
       else if meth = ''eth_feeHistory'' then Ok (JObject [(''baseFeePerGas'', JArray [JString ''0x0a''])])
       else Err (RpcUnavailable ''down''),
     rn_now = 0, rn_serde_error = \<lambda>_. []\<rparr>"

definition node_pool :: RpcProviderManager where
  "node_pool = \<lparr>rm_expected_chain_id = 137, rm_min_provider_count = 2,
     rm_providers = [\<lparr>mr_id = ''rpc-1'', mr_health = healthy\<rparr>, \<lparr>mr_id = ''rpc-2'', mr_health = healthy\<rparr>], rm_round_robin_counter = 0\<rparr>"

lemma node_time: "block_time_ok node_block"
  unfolding block_time_ok_def by (rule exI[of _ 30]) (simp add: node_block_def)

lemma block_params_inject: "block_params n = block_params k \<longleftrightarrow> n = k"
  by (simp add: block_params_def quantity_hex_inject)

lemma node_serves: "serves node_env 137 [12 \<mapsto> node_block] [node_log]"
proof -
  have chain: "rg_chain_id node_range = 137" by (simp add: node_range_def range_new_def)
  have selected: "filter_matches (transfer_filter node_range) node_log"
    using transfer_filter_selects[of node_log node_range]
    by (simp add: range_selects_def node_range_def range_new_def node_log_def node_block_def)
  have "list_all2 writes_log [log_json node_log]
      (filter (\<lambda>l. tl_chain_id l = 137 \<and> filter_matches (transfer_filter node_range) l) [node_log])"
    using writes_json(2)[of node_log] selected by (simp add: node_log_def)
  moreover have "rg = node_range" if "transfer_filter rg = transfer_filter node_range" "rg_chain_id rg = 137" for rg :: TransferLogRange
    using that by (intro transfer_filter_inject) (simp_all add: node_range_def range_new_def)
  ultimately show ?thesis
    using node_time writes_json(1)[of node_block]
    by (auto simp: serves_def node_env_def block_params_inject node_log_def node_block_def split: if_splits)
qed


lemma node_chain: "rm_expected_chain_id node_pool = 137" and node_up: "up node_env 0 node_pool"
  by (simp_all add: node_pool_def up_def health_available_def healthy_def)

theorem rpc_refines_log_source_witness: "log_source (\<lambda>rg. fst (rpc_transfer_logs node_env rg node_pool)) [node_log]"
  using rpc_refines_log_source[of node_env node_pool "[12 \<mapsto> node_block]" "[node_log]"] node_serves by (simp add: node_chain)

theorem rpc_one_node_suffices_witness: "fst (rpc_transfer_logs node_env node_range node_pool) = Ok [node_log]"
proof -
  have "rg_chain_id node_range = rm_expected_chain_id node_pool" "rg_from_block node_range \<le> rg_to_block node_range"
    "is_ok (rn_request node_env 0 ''eth_getLogs'' (transfer_filter node_range))"
    "\<forall>l \<in> set [node_log]. range_selects node_range l \<longrightarrow>
      (\<exists>v. rn_request node_env 0 ''eth_getBlockByNumber'' (block_params (blk_number (tl_block l))) = Ok v \<and> v \<noteq> JNull)"
    by (simp_all add: node_range_def range_new_def node_env_def node_chain node_log_def node_block_def block_json_def)
  moreover have "serves node_env (rm_expected_chain_id node_pool) [12 \<mapsto> node_block] [node_log]" using node_serves by (simp add: node_chain)
  ultimately have "fst (rpc_transfer_logs node_env node_range node_pool) = Ok (sort_logs (filter (range_selects node_range) [node_log]))"
    using node_up by (intro rpc_one_node_suffices)
  then show ?thesis by (simp add: sort_logs_def range_selects_def node_range_def range_new_def node_log_def node_block_def)
qed

lemma node_head: "\<exists>m'. head_by_tag node_env ''latest'' node_pool = (Ok \<lparr>cb_number = 12, cb_hash = 0xBEEF\<rparr>, m')"
proof -
  have candidates: "provider_candidates 0 node_pool = ([0, 1], node_pool\<lparr>rm_round_robin_counter := 1\<rparr>)"
    by (simp add: provider_candidates_def node_pool_def health_available_def healthy_def numeral_2_eq_2)
  have answers: "rn_request node_env 0 ''eth_getBlockByNumber'' (JArray [JString ''latest'', JBool False]) = Ok (block_json node_block)"
    "rn_request node_env (Suc 0) meth params = Err (RpcUnavailable ''down'')" "rn_now node_env = 0" for meth params
    by (simp_all add: node_env_def)
  have quorum: "rm_min_provider_count (node_pool\<lparr>rm_round_robin_counter := 1\<rparr>) = 2" by (simp add: node_pool_def)
  have json: "block_json node_block = JObject [(''number'', JString (quantity_hex (blk_number node_block))),
      (''hash'', JString (hash_to_lower_hex (blk_hash node_block))),
      (''parentHash'', JString (hash_to_lower_hex (blk_parent_hash node_block))), (''timestamp'', JString (seconds_text (blk_timestamp node_block)))]"
    by (rule block_json_def)
  note read = block_read[OF writes_json(1) node_time, unfolded json]
  show ?thesis
    by (simp add: head_by_tag_def rpc_then_def request_blocks_def answers candidates quorum json read Let_def
        ensure_consistent_block_hashes_def select_conservative_head_def block_ref_def)
      (simp add: node_block_def)
qed

theorem rpc_head_conservative_witness:
  "(\<exists>b \<in> set (block_answers node_env (JArray [JString ''latest'', JBool False]) node_pool). blk_number (pb_block b) = 12) \<and>
   list_all (\<lambda>b. 12 \<le> blk_number (pb_block b)) (block_answers node_env (JArray [JString ''latest'', JBool False]) node_pool) \<and>
   fst (head_by_tag node_env ''latest'' node_pool) = Ok \<lparr>cb_number = 12, cb_hash = 0xBEEF\<rparr>"
proof -
  have run: "fst (head_by_tag node_env ''latest'' node_pool) = Ok \<lparr>cb_number = 12, cb_hash = 0xBEEF\<rparr>"
    using node_head by force
  note exact = conjunct2[OF rpc_head_conservative[of node_pool node_env "''latest''" "\<lparr>cb_number = 12, cb_hash = 0xBEEF\<rparr>"], THEN iffD1, OF run]
  from conjunct1[OF exact] obtain b where "b \<in> set (block_answers node_env (JArray [JString ''latest'', JBool False]) node_pool)"
    "\<lparr>cb_number = 12, cb_hash = 0xBEEF\<rparr> = block_ref (pb_block b)" by (elim bexE)
  moreover from this(2) have "blk_number (pb_block b) = 12" by (simp add: block_ref_def)
  moreover from conjunct1[OF conjunct2[OF exact]]
  have "list_all (\<lambda>b. 12 \<le> blk_number (pb_block b)) (block_answers node_env (JArray [JString ''latest'', JBool False]) node_pool)"
    unfolding ChainBlockRef.simps list_all_iff .
  ultimately show ?thesis using run by blast
qed

text \<open>
  The number of providers that must agree is not enforced on heads and blocks: with two configured as
  the minimum and the second one down, the head that the first reports is taken.
\<close>

theorem head_below_quorum:
  "rm_min_provider_count node_pool = 2 \<and> (\<forall>meth params. \<not> is_ok (rn_request node_env 1 meth params)) \<and>
   (\<exists>h m'. head_by_tag node_env ''latest'' node_pool = (Ok h, m'))"
  using node_head by (auto simp: node_pool_def node_env_def)

lemma node_answer:
  assumes "up node_env 0 m" "rn_request node_env 0 meth params = Ok v"
  obtains pid m' where "request_first_success node_env meth params m = (Ok (pid, v), m')" "up node_env 0 m'"
proof -
  obtain pid w m' where run: "request_first_success node_env meth params m = (Ok (pid, w), m')" "up node_env 0 m'"
    using request_first_success_up[OF assms(2,1)] by blast
  obtain i where i: "rn_request node_env i meth params = Ok w" using request_first_success_Ok[OF run(1)] by blast
  then have "i = 0" by (simp add: node_env_def split: if_splits)
  with i assms(2) run show thesis by (intro that) simp_all
qed

lemma node_amounts: "parse_hex_u256 ''0x1e'' f = Ok 30" "parse_hex_u256 ''0x02'' f = Ok 2" "parse_hex_u256 ''0x0a'' f = Ok 10"
  by (simp_all add: parse_hex_u256_def decode_prefixed_hex_def strip_0x hex_value_def char_byte_def word_of_bytes_def be_nat_def)

lemma node_fee_answers:
  "rn_request node_env 0 ''eth_feeHistory'' params = Ok (JObject [(''baseFeePerGas'', JArray [JString ''0x0a''])])"
  "rn_request node_env 0 ''eth_maxPriorityFeePerGas'' params = Ok (JString ''0x02'')"
  "rn_request node_env 0 ''eth_gasPrice'' params = Ok (JString ''0x1e'')"
  by (simp_all add: node_env_def)

lemma node_fees:
  obtains m1 m2 m3 where
    "fee_history_estimate node_env node_pool = (Ok \<lparr>fh_base_fee_per_gas = Some 10, fh_priority_fee_per_gas = None\<rparr>, m1)"
    "max_priority_fee_per_gas node_env m1 = (Ok 2, m2)" "gas_price node_env m2 = (Ok 30, m3)"
proof -
  let ?history = "JObject [(''baseFeePerGas'', JArray [JString ''0x0a''])]"
  obtain p1 m1 where 1: "request_first_success node_env ''eth_feeHistory''
      (JArray [JString (quantity_hex 5), JString ''latest'', JArray [JNumber ''50'', JNumber ''90'']]) node_pool = (Ok (p1, ?history), m1)"
      "up node_env 0 m1"
    by (rule node_answer[OF node_up node_fee_answers(1)])
  obtain p2 m2 where 2: "request_first_success node_env ''eth_maxPriorityFeePerGas'' (JArray []) m1 = (Ok (p2, JString ''0x02''), m2)"
      "up node_env 0 m2"
    by (rule node_answer[OF 1(2) node_fee_answers(2)])
  obtain p3 m3 where 3: "request_first_success node_env ''eth_gasPrice'' (JArray []) m2 = (Ok (p3, JString ''0x1e''), m3)"
      "up node_env 0 m3"
    by (rule node_answer[OF 2(2) node_fee_answers(3)])
  have "parse_fee_history_estimate node_env ?history = Ok \<lparr>fh_base_fee_per_gas = Some 10, fh_priority_fee_per_gas = None\<rparr>"
    by (simp add: parse_fee_history_estimate_def serde_def read_fee_history_def json_get_def text_array_def as_array_def as_str_def
        node_amounts)
  with 1(1) 2(1) 3(1) show thesis
    by (intro that[of m1 m2 m3])
      (simp_all add: fee_history_estimate_def max_priority_fee_per_gas_def gas_price_def text_call_def rpc_then_def as_str_def node_amounts)
qed

theorem fee_estimate_covers_witness:
  "\<exists>fee m'. rpc_estimate_eip1559_fees node_env node_pool = (Ok fee, m') \<and> 30 \<le> fe_max_fee_per_gas fee \<and>
     20 + unat (fe_max_priority_fee_per_gas fee) \<le> unat (fe_max_fee_per_gas fee)"
proof -
  obtain m1 m2 m3 where reads:
    "fee_history_estimate node_env node_pool = (Ok \<lparr>fh_base_fee_per_gas = Some 10, fh_priority_fee_per_gas = None\<rparr>, m1)"
    "max_priority_fee_per_gas node_env m1 = (Ok 2, m2)" "gas_price node_env m2 = (Ok 30, m3)" by (rule node_fees)
  have run: "rpc_estimate_eip1559_fees node_env node_pool = (Ok \<lparr>fe_max_fee_per_gas = 40, fe_max_priority_fee_per_gas = 20\<rparr>, m3)"
    by (simp add: rpc_estimate_eip1559_fees_def reads fees_from_def ok_value_def max_optional_u256_def checked_sub_def checked_mul_def
        checked_add_def max_def)
  from fee_estimate_covers[OF run reads] run show ?thesis by (intro exI[of _ "\<lparr>fe_max_fee_per_gas = 40, fe_max_priority_fee_per_gas = 20\<rparr>"] exI[of _ m3]) simp
qed

end
