(* ===== verification/Enqueuer.thy ===== *)
theory Enqueuer
  imports Collection_Service
begin

text \<open>
  The automatic queueing of sweeps in \<open>src/src/runtime.rs\<close>: the two selections of orders, by SQL over
  the tables, and the loop body that hands them to the collection service.  A call that fails is
  logged and skipped; what it has written stays.
\<close>

section \<open>Candidates\<close>

text \<open>The errors of \<open>RuntimeError\<close> that occur here.\<close>

datatype RuntimeError = RuntimeConfig "string list" | RuntimeRepository RepositoryError

definition runtime_chain_id :: "u64 \<Rightarrow> RuntimeError + int" where
  "runtime_chain_id chain_id =
     (if uint chain_id < 2 ^ 63 then Ok (uint chain_id)
      else Err (RuntimeConfig [''CHAIN_ID does not fit PostgreSQL bigint: out of range integral type conversion attempted'']))"

definition raw_amount_from_db_text :: "int \<Rightarrow> RuntimeError + RawAmount" where
  "raw_amount_from_db_text v =
     map_errE (\<lambda>e. RuntimeRepository (InvalidDbValue ''numeric(78,0)'' (show_int v) (''invalid raw amount: '' @ amount_error_text e)))
       (parse_dec_str (show_int v))"

record PaidCollectionCandidate =
  pcw_order_id :: uuid
  pcw_paid_amount_raw :: RawAmount

definition paid_without_collection :: "int \<Rightarrow> EvmAddress \<Rightarrow> db \<Rightarrow> order_row \<Rightarrow> bool" where
  "paid_without_collection chain token d r \<longleftrightarrow>
     o_chain_id r = chain \<and> o_token_address r = token \<and> o_status r = Paid \<and> 0 < o_paid_amount_raw r
     \<and> \<not> (\<exists>x \<in> set (order_payment_overrides d). ovr_order_id x = o_id r)
     \<and> \<not> (\<exists>c \<in> set (collections d). col_order_id c = o_id r)"

definition paid_orders_without_collections ::
  "u64 \<Rightarrow> EvmAddress \<Rightarrow> u32 \<Rightarrow> db \<Rightarrow> RuntimeError + PaidCollectionCandidate list" where
  "paid_orders_without_collections chain_id token limit d =
     bindE (runtime_chain_id chain_id) (\<lambda>chain.
     traverseE (\<lambda>r. mapE (\<lambda>a. \<lparr>pcw_order_id = o_id r, pcw_paid_amount_raw = a\<rparr>) (raw_amount_from_db_text (o_paid_amount_raw r)))
       (take (unat limit) (sort_key o_updated_at (sort_key o_id (filter (paid_without_collection chain token d) (orders d))))))"

record ProblemFundsCollectionCandidate =
  pfc_order_id :: uuid
  pfc_problem_payment_total_raw :: RawAmount

text \<open>The payments of an order that the first common table expression joins, and their sum.\<close>

definition problem_payment_of :: "order_row \<Rightarrow> payment_row \<Rightarrow> bool" where
  "problem_payment_of r p \<longleftrightarrow>
     p_order_id p = o_id r \<and> p_chain_status p = Confirmed
     \<and> (o_status r = Expired \<or> o_status r = Paid \<and> (p_match_status p = Late \<or> p_match_status p = OutsideWindow))"

definition problem_payment_total :: "db \<Rightarrow> order_row \<Rightarrow> int" where
  "problem_payment_total d r = sum_amounts (problem_payment_of r) (payments d)"

definition confirmed_problem_collections :: "int \<Rightarrow> EvmAddress \<Rightarrow> EvmAddress \<Rightarrow> db \<Rightarrow> uuid \<Rightarrow> int" where
  "confirmed_problem_collections chain token problem_funds_address d oid =
     sum_list (map (\<lambda>c. case col_amount_raw c of None \<Rightarrow> 0 | Some a \<Rightarrow> a)
       (filter (\<lambda>c. col_order_id c = oid \<and> col_chain_id c = chain \<and> col_token_address c = token
         \<and> col_to_address c = problem_funds_address \<and> col_status c = ColConfirmed) (collections d)))"

text \<open>The active sweeps to the problem funds address are among the active sweeps that the last condition excludes.\<close>

definition problem_funds_ready :: "int \<Rightarrow> EvmAddress \<Rightarrow> EvmAddress \<Rightarrow> db \<Rightarrow> order_row \<Rightarrow> bool" where
  "problem_funds_ready chain token problem_funds_address d r \<longleftrightarrow>
     o_chain_id r = chain \<and> o_token_address r = token
     \<and> (\<exists>p \<in> set (payments d). problem_payment_of r p)
     \<and> confirmed_problem_collections chain token problem_funds_address d (o_id r) < problem_payment_total d r
     \<and> \<not> (\<exists>c \<in> set (collections d). col_order_id c = o_id r \<and> collection_active (col_status c))"

definition problem_funds_orders_ready_for_collection ::
  "u64 \<Rightarrow> EvmAddress \<Rightarrow> EvmAddress \<Rightarrow> u32 \<Rightarrow> db \<Rightarrow> RuntimeError + ProblemFundsCollectionCandidate list" where
  "problem_funds_orders_ready_for_collection chain_id token problem_funds_address limit d =
     bindE (runtime_chain_id chain_id) (\<lambda>chain.
     traverseE (\<lambda>r. mapE (\<lambda>a. \<lparr>pfc_order_id = o_id r, pfc_problem_payment_total_raw = a\<rparr>)
         (raw_amount_from_db_text (problem_payment_total d r)))
       (take (unat limit) (sort_key o_id (filter (problem_funds_ready chain token problem_funds_address d) (orders d)))))"


section \<open>Queueing\<close>

definition paid_input :: "PaidCollectionCandidate \<Rightarrow> CreateCollectionInput" where
  "paid_input c = \<lparr>cci_order_id = pcw_order_id c, cci_amount = ExactAmount (pcw_paid_amount_raw c),
     cci_idempotency_key = ''auto-collect-'' @ show_uuid (pcw_order_id c), cci_audit = no_audit_context\<rparr>"

definition problem_input :: "ProblemFundsCollectionCandidate \<Rightarrow> CreateCollectionInput" where
  "problem_input c = \<lparr>cci_order_id = pfc_order_id c, cci_amount = MaxAmount,
     cci_idempotency_key = ''auto-problem-funds-'' @ show_uuid (pfc_order_id c) @ ''-'' @ show_raw (pfc_problem_payment_total_raw c),
     cci_audit = no_audit_context\<rparr>"

text \<open>The loop over the candidates: how many calls succeeded.  Each call has its own surroundings.\<close>

fun enqueue_each ::
  "CollectionServiceConfig \<Rightarrow> CollectionRoute \<Rightarrow> (nat \<Rightarrow> collection_env) \<Rightarrow> nat \<Rightarrow> CreateCollectionInput list \<Rightarrow> nat
   \<Rightarrow> (RuntimeError, nat) worker" where
  "enqueue_each cfg route envs k [] enqueued d = (Ok enqueued, d)"
| "enqueue_each cfg route envs k (inp # inps) enqueued d =
     (case create_collection_for_route (envs k) cfg inp route d of
        (Inr _, d') \<Rightarrow> enqueue_each cfg route envs (k + 1) inps (enqueued + 1) d'
      | (Inl _, d') \<Rightarrow> enqueue_each cfg route envs (k + 1) inps enqueued d')"

definition read_candidates :: "(db \<Rightarrow> RuntimeError + 'a) \<Rightarrow> (RuntimeError, 'a) worker" where
  "read_candidates q d = (q d, d)"

definition enqueue_paid_orders_for_collection ::
  "CollectionServiceConfig \<Rightarrow> (nat \<Rightarrow> collection_env) \<Rightarrow> u64 \<Rightarrow> EvmAddress \<Rightarrow> u32 \<Rightarrow> (RuntimeError, nat) worker" where
  "enqueue_paid_orders_for_collection cfg envs chain_id token batch_limit =
     andThen (read_candidates (paid_orders_without_collections chain_id token batch_limit)) (\<lambda>cs.
     enqueue_each cfg RouteTreasury envs 0 (map paid_input cs) 0)"

definition enqueue_problem_funds_orders_for_collection ::
  "CollectionServiceConfig \<Rightarrow> (nat \<Rightarrow> collection_env) \<Rightarrow> u64 \<Rightarrow> EvmAddress \<Rightarrow> EvmAddress \<Rightarrow> u32 \<Rightarrow> (RuntimeError, nat) worker" where
  "enqueue_problem_funds_orders_for_collection cfg envs chain_id token problem_funds_address batch_limit =
     andThen (read_candidates (problem_funds_orders_ready_for_collection chain_id token problem_funds_address batch_limit)) (\<lambda>cs.
     enqueue_each cfg RouteProblemFunds envs 0 (map problem_input cs) 0)"

definition enqueue_orders_for_collection ::
  "CollectionServiceConfig \<Rightarrow> (nat \<Rightarrow> collection_env) \<Rightarrow> (nat \<Rightarrow> collection_env) \<Rightarrow> u64 \<Rightarrow> EvmAddress \<Rightarrow> EvmAddress \<Rightarrow> u32
   \<Rightarrow> (RuntimeError, nat) worker" where
  "enqueue_orders_for_collection cfg envs envs' chain_id token problem_funds_address batch_limit =
     (if batch_limit = 0 then answer (Ok 0)
      else
        andThen (enqueue_paid_orders_for_collection cfg envs chain_id token batch_limit) (\<lambda>n.
        andThen (enqueue_problem_funds_orders_for_collection cfg envs' chain_id token problem_funds_address batch_limit) (\<lambda>k.
        answer (Ok (n + k)))))"

end
