(* ===== verification/Enqueuer_Props.thy ===== *)
theory Enqueuer_Props
  imports Enqueuer Api_Props
begin

text \<open>
  What the automatic queueing does to the database: only orders that may be swept are, each to the
  address its state allows, and the invariants of the whole database stay.
\<close>

lemma runs_enqueue_each: "runs_commands (enqueue_each cfg route envs k inps n)"
proof (induction inps arbitrary: k n)
  case Nil
  show ?case by (simp add: runs_commands_def)
next
  case (Cons inp inps)
  show ?case unfolding runs_commands_def
  proof
    fix d
    obtain r d1 where run: "create_collection_for_route (envs k) cfg inp route d = (r, d1)" by fastforce
    have "system_step\<^sup>*\<^sup>* d d1" using runs_create_collection[of "envs k" cfg inp route] run unfolding runs_commands_def by (metis snd_conv)
    moreover have "system_step\<^sup>*\<^sup>* d1 (snd (enqueue_each cfg route envs (k + 1) inps j d1))" for j
      using Cons.IH unfolding runs_commands_def by blast
    ultimately have step: "system_step\<^sup>*\<^sup>* d (snd (enqueue_each cfg route envs (k + 1) inps j d1))" for j
      by (rule rtranclp_trans)
    show "system_step\<^sup>*\<^sup>* d (snd (enqueue_each cfg route envs k (inp # inps) n d))"
      using step by (simp add: run split: sum.split)
  qed
qed


lemma runs_read_candidates [worker_intro]: "runs_commands (read_candidates q)"
  by (simp add: runs_commands_def read_candidates_def)

lemma runs_enqueuer: "runs_commands (enqueue_orders_for_collection cfg envs envs' chain_id token problem_funds_address batch_limit)"
  unfolding enqueue_orders_for_collection_def enqueue_paid_orders_for_collection_def enqueue_problem_funds_orders_for_collection_def
  by (intro worker_intro runs_enqueue_each)

interpretation enqueuer_prog: worker_program
  "enqueue_orders_for_collection cfg envs envs' chain_id token problem_funds_address batch_limit"
  for cfg envs envs' chain_id token problem_funds_address batch_limit
  by unfold_locales (rule runs_enqueuer)


section \<open>What one call queues\<close>

text \<open>The order behind a request and the row that the request adds.\<close>

definition route_allows :: "CollectionRoute \<Rightarrow> order_row \<Rightarrow> bool" where
  "route_allows route r \<longleftrightarrow> o_status r = Paid \<or> route = RouteProblemFunds \<and> o_status r = Expired"

definition queued_by :: "CollectionServiceConfig \<Rightarrow> CollectionRoute \<Rightarrow> CreateCollectionInput \<Rightarrow> db \<Rightarrow> collection_row \<Rightarrow> bool" where
  "queued_by cfg route inp d c \<longleftrightarrow>
     col_status c = ColQueued \<and> col_chain_id c = uint (csc_chain_id cfg) \<and> col_token_address c = csc_token_address cfg \<and>
     col_to_address c = route_to_address route cfg \<and>
     col_amount_raw c = map_option raw_amount_to_numeric (as_optional_raw (cci_amount inp)) \<and>
     (\<exists>r \<in> set (orders d). o_id r = cci_order_id inp \<and> o_id r = col_order_id c \<and> o_receive_address r = col_from_address c \<and>
        o_chain_id r = col_chain_id c \<and> o_token_address r = col_token_address c \<and> route_allows route r)"

text \<open>The states that a run of calls leads to: rows are appended, and the audit trail grows.\<close>

definition queues :: "(collection_row \<Rightarrow> bool) \<Rightarrow> db \<Rightarrow> db \<Rightarrow> bool" where
  "queues Q d d' \<longleftrightarrow> (\<exists>new as. d' = d\<lparr>collections := collections d @ new, audit_events := as\<rparr> \<and> (\<forall>c \<in> set new. Q c))"

lemma queues_refl [simp]: "queues Q d d"
  unfolding queues_def by (intro exI[of _ "[]"] exI[of _ "audit_events d"]) simp

lemma queues_audit [intro]: "queues Q d (d\<lparr>audit_events := as\<rparr>)"
  unfolding queues_def by (intro exI[of _ "[]"] exI[of _ as]) simp

lemma queues_one [intro]: "Q c \<Longrightarrow> queues Q d (d\<lparr>collections := collections d @ [c]\<rparr>)"
  unfolding queues_def by (intro exI[of _ "[c]"] exI[of _ "audit_events d"]) simp

lemma queues_trans:
  assumes "queues Q d d1" "queues Q d1 d2"
  shows "queues Q d d2"
proof -
  obtain new as where 1: "d1 = d\<lparr>collections := collections d @ new, audit_events := as\<rparr>" "\<forall>c \<in> set new. Q c"
    using assms(1) unfolding queues_def by blast
  obtain new' as' where 2: "d2 = d1\<lparr>collections := collections d1 @ new', audit_events := as'\<rparr>" "\<forall>c \<in> set new'. Q c"
    using assms(2) unfolding queues_def by blast
  show ?thesis unfolding queues_def
    by (intro exI[of _ "new @ new'"] exI[of _ as']) (use 1 2 in auto)
qed

lemma queues_mono: "queues P d d' \<Longrightarrow> (\<And>c. P c \<Longrightarrow> Q c) \<Longrightarrow> queues Q d d'"
  unfolding queues_def by blast

lemma queues_tables:
  assumes "queues Q d d'"
  shows "orders d' = orders d" "payments d' = payments d" "order_payment_overrides d' = order_payment_overrides d"
    "set (collections d) \<subseteq> set (collections d')"
  using assms by (auto simp: queues_def)

lemma andThen_state:
  assumes "\<And>r d1. m d = (r, d1) \<Longrightarrow> Q d1" "\<And>a d1. m d = (Ok a, d1) \<Longrightarrow> Q (snd (f a d1))"
  shows "Q (snd (andThen m f d))"
  using assms by (auto simp: andThen_def split: prod.split sum.split)

lemma audit_queues: "queues Q d (snd (append_collection_audit i e ctx oid cid h payload d))"
  unfolding append_collection_audit_def
proof (rule andThen_state)
  fix r d1
  assume "transact CollectionRepositoryError (append_audit_event
       \<lparr>aei_id = i, aei_event_type = e, aei_request_id = ac_request_id ctx, aei_principal_sub = ac_principal_sub ctx,
        aei_scopes = scopes_string (ac_scopes ctx), aei_order_id = oid, aei_collection_id = cid, aei_tx_hash = h,
        aei_payload = payload\<rparr>) d = (r, d1)"
  then show "queues Q d d1"
    unfolding transact_def by (auto split: sum.splits elim!: append_audit_event_Ok)
next
  fix a d1
  assume "transact CollectionRepositoryError (append_audit_event
       \<lparr>aei_id = i, aei_event_type = e, aei_request_id = ac_request_id ctx, aei_principal_sub = ac_principal_sub ctx,
        aei_scopes = scopes_string (ac_scopes ctx), aei_order_id = oid, aei_collection_id = cid, aei_tx_hash = h,
        aei_payload = payload\<rparr>) d = (Ok a, d1)"
  then show "queues Q d (snd (answer (Ok ()) d1))"
    unfolding transact_def answer_def by (auto split: sum.splits elim!: append_audit_event_Ok)
qed

lemma requirement_allows:
  assumes "lock_collectable_order (collection_command cid view inp hash cfg route) d = Ok ()"
  shows "\<exists>r \<in> set (orders d). o_id r = or_id (ov_order view) \<and> o_receive_address r = or_receive_address (ov_order view) \<and>
    o_chain_id r = uint (csc_chain_id cfg) \<and> o_token_address r = csc_token_address cfg \<and> route_allows route r"
proof -
  let ?q = "\<lambda>ch r. o_id r = or_id (ov_order view) \<and> o_owner_sub r = or_owner_sub (ov_order view)
            \<and> o_child_account_id r = or_child_account_id (ov_order view) \<and> o_chain_id r = ch
            \<and> o_token_address r = csc_token_address cfg \<and> o_receive_address r = or_receive_address (ov_order view)"
  obtain chain where chain: "ord_u64_to_i64 (csc_chain_id cfg) ''collections.chain_id'' = Ok chain"
    using assms unfolding lock_collectable_order_def collection_command_def by (auto simp only: CreateCollectionCommand.simps elim!: bindE_OkE)
  have "chain = uint (csc_chain_id cfg)" using chain by (simp add: ord_u64_to_i64_def split: if_splits)
  moreover obtain r where r: "find_row (?q chain) (orders d) = Some r" "route_allows route r"
    using assms chain
    by (cases route) (auto simp: lock_collectable_order_def collection_command_def route_allows_def route_order_requirement_def split: option.splits if_splits)
  ultimately show ?thesis using find_row_Some[OF r(1)] by blast
qed

lemma command_queues:
  assumes "create_collection_idempotent (collection_command cid view inp hash cfg route) d = Ok (rec, d')"
    "or_id (ov_order view) = cci_order_id inp"
  shows "queues (queued_by cfg route inp d) d d'"
  using assms(1)
proof (cases rule: create_collection_Ok)
  case 1
  then show ?thesis by simp
next
  case (2 res)
  obtain r where r: "r \<in> set (orders d)" "o_id r = or_id (ov_order view)" "o_receive_address r = or_receive_address (ov_order view)"
    "o_chain_id r = uint (csc_chain_id cfg)" "o_token_address r = csc_token_address cfg" "route_allows route r"
    using requirement_allows[OF 2(2)] by blast
  from 2(1) show ?thesis
  proof (cases rule: insert_collection_Ok)
    case 1
    then show ?thesis by simp
  next
    case ins: (2 chain rec' c)
    have "queued_by cfg route inp d c"
      using r assms(2) unfolding queued_by_def by (auto simp: ins(1,2) new_collection_row_def collection_command_def)
    then show ?thesis unfolding ins(3) by blast
  qed
qed

lemma fetched_id:
  assumes "(case owner of Some sub \<Rightarrow> get_order_view_for_owner oid sub | None \<Rightarrow> get_order_view oid) d = Ok (Some view)"
  shows "or_id (ov_order view) = oid"
  using assms
  by (auto simp: get_order_view_def get_order_view_for_owner_def dest!: fetched_view_record record_fields split: option.splits)

lemma andThen_answer: "(\<And>a. v = Ok a \<Longrightarrow> Q (snd (f a d))) \<Longrightarrow> Q d \<Longrightarrow> Q (snd (andThen (answer v) f d))"
  by (rule andThen_state) (auto simp: answer_def)

lemma andThen_query:
  "(\<And>a. read d = Ok a \<Longrightarrow> Q (snd (f a d))) \<Longrightarrow> Q d \<Longrightarrow> Q (snd (andThen (query wrap read) f d))"
  by (rule andThen_state) (auto simp: query_def map_errE_def split: sum.splits)

lemma andThen_transact:
  "(\<And>a d1. run d = Ok (a, d1) \<Longrightarrow> Q (snd (f a d1)) \<and> Q d1) \<Longrightarrow> Q d \<Longrightarrow> Q (snd (andThen (transact wrap run) f d))"
  by (rule andThen_state) (auto simp: transact_def split: sum.splits)

lemma audited_queues:
  assumes "queues Q d d1"
  shows "queues Q d (snd (andThen (append_collection_audit i e ctx oid cid h payload) (\<lambda>_. answer res) d1))"
proof (rule andThen_state)
  have step: "queues Q d (snd (append_collection_audit i e ctx oid cid h payload d1))" using queues_trans[OF assms audit_queues] .
  show "append_collection_audit i e ctx oid cid h payload d1 = (r, d2) \<Longrightarrow> queues Q d d2" for r d2
    using step by simp
  show "append_collection_audit i e ctx oid cid h payload d1 = (Ok a, d2) \<Longrightarrow> queues Q d (snd (answer res d2))" for a d2
    using step by (simp add: answer_def)
qed

lemma route_queues: "queues (queued_by cfg route inp d) d (snd (create_collection_for_route env cfg inp route d))"
proof -
  obtain cid aid where ids: "ce_new_ids env = (cid, aid)" by fastforce
  have norm: "queued_by cfg route (inp\<lparr>cci_idempotency_key := k\<rparr>) d = queued_by cfg route inp d" for k
    by (simp add: queued_by_def fun_eq_iff)
  let ?Q = "queues (queued_by cfg route inp d) d"
  show ?thesis unfolding create_collection_for_route_def ids Let_def prod.case
  proof (intro andThen_answer[where Q = ?Q] andThen_query[where Q = ?Q] andThen_transact[where Q = ?Q] conjI queues_refl)
    fix inp' found view u hash rec d1
    assume inp': "normalize_create_collection_input inp = Ok inp'"
      and found: "(case ac_principal_sub (cci_audit inp') of
          Some owner_sub \<Rightarrow> get_order_view_for_owner (cci_order_id inp') owner_sub
        | None \<Rightarrow> get_order_view (cci_order_id inp')) d = Ok found"
      and view: "ok_or found (CollectionOrderNotFound (cci_order_id inp')) = Ok view"
      and run: "create_collection_idempotent (collection_command cid view inp' hash cfg route) d = Ok (rec, d1)"
    obtain k where k: "inp' = inp\<lparr>cci_idempotency_key := k\<rparr>"
      using inp' by (auto simp: normalize_create_collection_input_def bindE_eq_Ok)
    have "found = Some view" using view by (simp add: ok_or_eq_Ok)
    then have "or_id (ov_order view) = cci_order_id inp'" using found fetched_id by metis
    then show q: "?Q d1" using command_queues[OF run] norm[of k] by (simp only: k)
    show "?Q (snd (andThen (append_collection_audit aid (audit_event_type route) (cci_audit inp') (Some (cr_order_id rec))
        (Some (cr_id rec)) None
        (json_object [(''outcome'', JString (if (if cr_id rec = cid then CollectionCreated else CollectionExisting) = CollectionCreated
             then ''created'' else ''existing'')),
           (''destination'', JString (canonical_destination route)),
           (''from_address'', json_address (cr_from_address rec)),
           (''to_address'', json_address (cr_to_address rec)),
           (''amount_raw'', case cr_amount_raw rec of None \<Rightarrow> JNull | Some a \<Rightarrow> JString (show_raw a))]))
        (\<lambda>_. answer (Ok \<lparr>ccr_outcome = if cr_id rec = cid then CollectionCreated else CollectionExisting, ccr_collection = rec\<rparr>)) d1))"
      by (rule audited_queues[OF q])
  qed
qed

text \<open>A loop over requests adds only rows that one of them asks for.\<close>

lemma queued_by_orders: "orders d1 = orders d \<Longrightarrow> queued_by cfg route inp d1 = queued_by cfg route inp d"
  by (simp add: queued_by_def fun_eq_iff)

lemma each_queues: "queues (\<lambda>c. \<exists>inp \<in> set inps. queued_by cfg route inp d c) d (snd (enqueue_each cfg route envs k inps n d))"
proof (induction inps arbitrary: k n d)
  case (Cons inp inps)
  let ?P = "\<lambda>ins d c. \<exists>inp \<in> set ins. queued_by cfg route inp d c"
  obtain r d1 where run: "create_collection_for_route (envs k) cfg inp route d = (r, d1)" by fastforce
  have first: "queues (queued_by cfg route inp d) d d1" using route_queues[of cfg route inp d "envs k"] by (simp add: run)
  have "queues (?P inps d1) d1 (snd (enqueue_each cfg route envs (k + 1) inps j d1))" for j by (rule Cons.IH)
  then have "queues (?P (inp # inps) d) d1 (snd (enqueue_each cfg route envs (k + 1) inps j d1))" for j
    by (rule queues_mono) (use queued_by_orders[OF queues_tables(1)[OF first]] in auto)
  moreover have "queues (?P (inp # inps) d) d d1" using first by (rule queues_mono) auto
  ultimately have "queues (?P (inp # inps) d) d (snd (enqueue_each cfg route envs (k + 1) inps j d1))" for j
    using queues_trans by blast
  then show ?case by (simp add: run split: sum.split)
qed simp


section \<open>Candidates\<close>

lemma runtime_chain_id_Ok: "runtime_chain_id chain_id = Ok chain \<Longrightarrow> chain = uint chain_id"
  by (simp add: runtime_chain_id_def split: if_splits)

lemma raw_amount_from_db_text_Ok: "raw_amount_from_db_text v = Ok a \<Longrightarrow> uint a = v"
  using raw_amount_from_numeric_Ok[of v a] by (simp add: raw_amount_from_db_text_def raw_amount_from_numeric_def)

lemma paid_candidate:
  assumes "paid_orders_without_collections chain_id token limit d = Ok cs" "x \<in> set cs"
  shows "\<exists>r \<in> set (orders d). paid_without_collection (uint chain_id) token d r \<and> pcw_order_id x = o_id r \<and>
    uint (pcw_paid_amount_raw x) = o_paid_amount_raw r"
proof -
  obtain r where "r \<in> set (take (unat limit) (sort_key o_updated_at (sort_key o_id
      (filter (paid_without_collection (uint chain_id) token d) (orders d)))))"
    "mapE (\<lambda>a. \<lparr>pcw_order_id = o_id r, pcw_paid_amount_raw = a\<rparr>) (raw_amount_from_db_text (o_paid_amount_raw r)) = Ok x"
    using assms by (auto simp: paid_orders_without_collections_def bindE_eq_Ok dest!: runtime_chain_id_Ok dest: traverseE_Ok_set)
  then show ?thesis by (auto simp: mapE_eq_Ok dest!: in_set_takeD raw_amount_from_db_text_Ok)
qed

lemma problem_candidate:
  assumes "problem_funds_orders_ready_for_collection chain_id token address limit d = Ok cs" "x \<in> set cs"
  shows "\<exists>r \<in> set (orders d). problem_funds_ready (uint chain_id) token address d r \<and> pfc_order_id x = o_id r"
proof -
  obtain r where "r \<in> set (take (unat limit) (sort_key o_id (filter (problem_funds_ready (uint chain_id) token address d) (orders d))))"
    "mapE (\<lambda>a. \<lparr>pfc_order_id = o_id r, pfc_problem_payment_total_raw = a\<rparr>)
       (raw_amount_from_db_text (problem_payment_total d r)) = Ok x"
    using assms
    by (auto simp: problem_funds_orders_ready_for_collection_def bindE_eq_Ok dest!: runtime_chain_id_Ok dest: traverseE_Ok_set)
  then show ?thesis by (auto simp: mapE_eq_Ok dest!: in_set_takeD)
qed

text \<open>What a queued row of either pass stands for.\<close>

definition treasury_sweep :: "CollectionServiceConfig \<Rightarrow> db \<Rightarrow> collection_row \<Rightarrow> order_row \<Rightarrow> bool" where
  "treasury_sweep cfg d c r \<longleftrightarrow>
     o_status r = Paid \<and> col_to_address c = csc_treasury_address cfg \<and> col_amount_raw c = Some (o_paid_amount_raw r) \<and>
     (\<forall>x \<in> set (collections d). col_order_id x \<noteq> o_id r) \<and> (\<forall>x \<in> set (order_payment_overrides d). ovr_order_id x \<noteq> o_id r)"

definition problem_sweep :: "CollectionServiceConfig \<Rightarrow> db \<Rightarrow> collection_row \<Rightarrow> order_row \<Rightarrow> bool" where
  "problem_sweep cfg d c r \<longleftrightarrow>
     col_to_address c = csc_problem_funds_address cfg \<and> col_amount_raw c = None \<and>
     (\<exists>p \<in> set (payments d). p_order_id p = o_id r \<and> p_chain_status p = Confirmed \<and>
        (o_status r = Expired \<or> o_status r = Paid \<and> p_match_status p \<in> {Late, OutsideWindow})) \<and>
     (\<forall>x \<in> set (collections d). col_order_id x = o_id r \<longrightarrow> \<not> collection_active (col_status x))"

definition due_sweep :: "CollectionServiceConfig \<Rightarrow> db \<Rightarrow> collection_row \<Rightarrow> bool" where
  "due_sweep cfg d c \<longleftrightarrow>
     col_status c = ColQueued \<and> col_chain_id c = uint (csc_chain_id cfg) \<and> col_token_address c = csc_token_address cfg \<and>
     (\<exists>r \<in> set (orders d). o_id r = col_order_id c \<and> o_receive_address r = col_from_address c \<and>
        (treasury_sweep cfg d c r \<or> problem_sweep cfg d c r))"

lemma same_order:
  assumes "system_ok d" "r \<in> set (orders d)" "r' \<in> set (orders d)" "o_id r = o_id r'"
  shows "r = r'"
proof -
  have "distinct (map o_id (orders d))" using assms(1) by (simp add: system_ok_def repo_ok_def schema_ok_def keys_ok_def)
  then show ?thesis using assms(2-4) by (simp add: distinct_map inj_on_def)
qed

lemma paid_due:
  assumes "system_ok d" "paid_orders_without_collections chain_id token limit d = Ok cs" "x \<in> set cs"
    "queued_by cfg RouteTreasury (paid_input x) d c"
  shows "due_sweep cfg d c"
proof -
  obtain r where r: "r \<in> set (orders d)" "paid_without_collection (uint chain_id) token d r" "pcw_order_id x = o_id r"
    "uint (pcw_paid_amount_raw x) = o_paid_amount_raw r"
    using paid_candidate[OF assms(2,3)] by blast
  obtain r' where r': "r' \<in> set (orders d)" "o_id r' = pcw_order_id x" "o_id r' = col_order_id c"
    "o_receive_address r' = col_from_address c"
    using assms(4) by (auto simp: queued_by_def paid_input_def)
  have "r = r'" using same_order[OF assms(1) r(1) r'(1)] r(3) r'(2) by simp
  then have "o_id r = col_order_id c" "o_receive_address r = col_from_address c" using r' by simp_all
  moreover have "treasury_sweep cfg d c r"
    using r(2,4) assms(4)
    by (auto simp: treasury_sweep_def paid_without_collection_def queued_by_def paid_input_def route_to_address_def raw_amount_to_numeric_def)
  ultimately show ?thesis using r(1) assms(4) unfolding due_sweep_def queued_by_def by blast
qed

lemma problem_due:
  assumes "system_ok d" "problem_funds_orders_ready_for_collection chain_id token address limit d = Ok cs" "x \<in> set cs"
    "queued_by cfg RouteProblemFunds (problem_input x) d c"
  shows "due_sweep cfg d c"
proof -
  obtain r where r: "r \<in> set (orders d)" "problem_funds_ready (uint chain_id) token address d r" "pfc_order_id x = o_id r"
    using problem_candidate[OF assms(2,3)] by blast
  obtain r' where r': "r' \<in> set (orders d)" "o_id r' = pfc_order_id x" "o_id r' = col_order_id c"
    "o_receive_address r' = col_from_address c"
    using assms(4) by (auto simp: queued_by_def problem_input_def)
  have "r = r'" using same_order[OF assms(1) r(1) r'(1)] r(3) r'(2) by simp
  then have "o_id r = col_order_id c" "o_receive_address r = col_from_address c" using r' by simp_all
  moreover have "problem_sweep cfg d c r"
    using r(2) assms(4)
    by (auto simp: problem_sweep_def problem_funds_ready_def problem_payment_of_def queued_by_def problem_input_def route_to_address_def)
  ultimately show ?thesis using r(1) assms(4) unfolding due_sweep_def queued_by_def by blast
qed


text \<open>What is due after more rows were queued was due before.\<close>

lemma due_earlier:
  assumes "queues Q d d1" "due_sweep cfg d1 c"
  shows "due_sweep cfg d c"
proof -
  note t = queues_tables[OF assms(1)]
  have "treasury_sweep cfg d1 c r \<Longrightarrow> treasury_sweep cfg d c r" "problem_sweep cfg d1 c r \<Longrightarrow> problem_sweep cfg d c r" for r
    using t unfolding treasury_sweep_def problem_sweep_def by auto
  then show ?thesis using assms(2) t(1) unfolding due_sweep_def by auto
qed

lemma paid_pass:
  assumes "system_ok d"
  shows "queues (due_sweep cfg d) d (snd (enqueue_paid_orders_for_collection cfg envs chain_id token limit d))"
  unfolding enqueue_paid_orders_for_collection_def
proof (rule andThen_state[where Q = "queues (due_sweep cfg d) d"])
  fix cs d1
  assume "read_candidates (paid_orders_without_collections chain_id token limit) d = (Ok cs, d1)"
  then have cs: "paid_orders_without_collections chain_id token limit d = Ok cs" "d1 = d" by (auto simp: read_candidates_def)
  show "queues (due_sweep cfg d) d (snd (enqueue_each cfg RouteTreasury envs 0 (map paid_input cs) 0 d1))"
    unfolding cs(2) by (rule queues_mono[OF each_queues]) (use paid_due[OF assms cs(1)] in auto)
qed (simp add: read_candidates_def)

lemma problem_pass:
  assumes "system_ok d"
  shows "queues (due_sweep cfg d) d (snd (enqueue_problem_funds_orders_for_collection cfg envs chain_id token address limit d))"
  unfolding enqueue_problem_funds_orders_for_collection_def
proof (rule andThen_state[where Q = "queues (due_sweep cfg d) d"])
  fix cs d1
  assume "read_candidates (problem_funds_orders_ready_for_collection chain_id token address limit) d = (Ok cs, d1)"
  then have cs: "problem_funds_orders_ready_for_collection chain_id token address limit d = Ok cs" "d1 = d"
    by (auto simp: read_candidates_def)
  show "queues (due_sweep cfg d) d (snd (enqueue_each cfg RouteProblemFunds envs 0 (map problem_input cs) 0 d1))"
    unfolding cs(2) by (rule queues_mono[OF each_queues]) (use problem_due[OF assms cs(1)] in auto)
qed (simp add: read_candidates_def)

lemma runs_paid_pass: "runs_commands (enqueue_paid_orders_for_collection cfg envs chain_id token limit)"
  unfolding enqueue_paid_orders_for_collection_def by (intro worker_intro runs_enqueue_each)

lemma tick_queues:
  assumes "system_ok d"
  shows "queues (due_sweep cfg d) d (snd (enqueue_orders_for_collection cfg envs envs' chain_id token address limit d))"
proof (cases "limit = 0")
  case True
  then show ?thesis by (simp add: enqueue_orders_for_collection_def answer_def)
next
  case False
  let ?Q = "queues (due_sweep cfg d) d"
  let ?paid = "enqueue_paid_orders_for_collection cfg envs chain_id token limit"
  show ?thesis unfolding enqueue_orders_for_collection_def if_not_P[OF False]
  proof (rule andThen_state[where Q = ?Q])
    have first: "?Q (snd (?paid d))" by (rule paid_pass[OF assms])
    show "?paid d = (r, d1) \<Longrightarrow> ?Q d1" for r d1 using first by simp
    fix n d1
    assume "?paid d = (Ok n, d1)"
    then have d1: "snd (?paid d) = d1" by simp
    have q1: "?Q d1" using first unfolding d1 .
    have "system_step\<^sup>*\<^sup>* d d1" using runs_paid_pass[of cfg envs chain_id token limit] unfolding runs_commands_def d1[symmetric] by blast
    then have ok1: "system_ok d1" using reachable_evolves assms by blast
    have q2: "?Q (snd (enqueue_problem_funds_orders_for_collection cfg envs' chain_id token address limit d1))"
      by (rule queues_trans[OF q1 queues_mono[OF problem_pass[OF ok1] due_earlier[OF q1]]])
    show "?Q (snd (andThen (enqueue_problem_funds_orders_for_collection cfg envs' chain_id token address limit)
        (\<lambda>k. answer (Ok (n + k))) d1))"
      by (rule andThen_state[where Q = ?Q]) (use q2 in \<open>auto simp: answer_def\<close>)
  qed
qed


section \<open>Properties\<close>

text \<open>
  C19: whatever a tick of the automatic queueing answers, it keeps the invariants of the whole
  database, leaves orders and payments alone and only appends collections.  Each new one is queued
  on the service's stream, from the receive address of the order it names, and is one of two
  kinds: exactly the paid amount of a paid order, which no collection and no override of problem
  payments names, to the treasury; or the whole balance, to the problem funds address, of an
  expired order with a confirmed payment or of a paid order with a confirmed late or outside-window
  one, which has no active collection.  Orders that are still open are not touched.
\<close>

theorem enqueuer_routes:
  assumes "enqueue_orders_for_collection cfg envs envs' chain_id token problem_funds_address batch_limit d = (res, d')"
    "system_ok d"
  shows "system_ok d' \<and> evolves d d' \<and> orders d' = orders d \<and> payments d' = payments d \<and>
    (\<exists>new. collections d' = collections d @ new \<and> (\<forall>c \<in> set new. due_sweep cfg d c))"
proof -
  have "queues (due_sweep cfg d) d d'"
    using tick_queues[OF assms(2), of cfg envs envs' chain_id token problem_funds_address batch_limit] by (simp add: assms(1))
  then obtain new as where d': "d' = d\<lparr>collections := collections d @ new, audit_events := as\<rparr>" "\<forall>c \<in> set new. due_sweep cfg d c"
    unfolding queues_def by blast
  have tables: "orders d' = orders d" "payments d' = payments d" "collections d' = collections d @ new" by (simp_all add: d'(1))
  show ?thesis using enqueuer_prog.prog_system[OF assms] tables d'(2) by blast
qed

lemma sweep_db_system: "system_ok sweep_db"
proof -
  have "base_tables sweep_db = base_tables attached_db" by (simp add: base_tables_def attached_db_def)
  moreover have "repo_ok attached_db" using attached_system by (simp add: system_ok_def)
  ultimately have "repo_ok sweep_db" by (metis base_tables_repo)
  moreover have "sweep_ok sweep_db"
    by (simp add: sweep_ok_def one_active_per_nonce_def one_active_per_child_def treasury_only_def sweep_db_def sample_db_def)
  ultimately show ?thesis by (simp add: system_ok_def)
qed

lemma sweep_db_candidate:
  "paid_orders_without_collections 137 0xA 10 sweep_db = Ok [\<lparr>pcw_order_id = 1, pcw_paid_amount_raw = 120\<rparr>]"
proof -
  have a: "raw_amount_from_db_text 120 = Ok 120"
    using raw_amount_from_numeric_eval[of 120] by (simp add: raw_amount_from_db_text_def raw_amount_from_numeric_def)
  show ?thesis
    by (simp add: paid_orders_without_collections_def runtime_chain_id_def paid_without_collection_def a sweep_db_def sample_defs)
qed

lemma hash_text_not_Nil: "hash_to_lower_hex h \<noteq> []"
  by (simp add: hash_to_lower_hex_def encode_lower_prefixed_def)

lemmas queue_eval = create_collection_for_route_def paid_input_def no_audit_context_def service_eval
  normalize_create_collection_input_def get_order_view_def fetch_order_view_def row_to_order_view_def row_to_order_record_def
  row_to_child_account_def validate_collectable_order_def canonical_collection_request_hash_def collection_command_def
  collection_eval decimal_to_raw_amount_eval big_decimal_numeral i64_to_u32_def segment_new_def validate_index_def trim_nonempty
  visible_def MAX_DERIVATION_INDEX_def checked_add_def audit_hash_roundtrip[of None, simplified] answer_def
  route_order_requirement_def route_to_address_def is_zero_def ok_or_def audit_event_type_def hash_text_not_Nil

lemma sweep_db_queued:
  "\<exists>r d1. create_collection_for_route (sample_collection_env 61 2) sample_service
      (paid_input \<lparr>pcw_order_id = 1, pcw_paid_amount_raw = 120\<rparr>) RouteTreasury sweep_db = (Ok r, d1) \<and> length (collections d1) = 1"
  by (simp add: queue_eval)

lemma sweep_db_no_problem:
  assumes "queues Q sweep_db d1"
  shows "problem_funds_orders_ready_for_collection 137 0xA 0xBAD 10 d1 = Ok []"
proof -
  note t = queues_tables(1,2)[OF assms]
  have "filter (problem_funds_ready 137 0xA 0xBAD d1) (orders d1) = []"
    by (simp add: t problem_funds_ready_def problem_payment_of_def sweep_db_def sample_defs late_payment_def)
  then show ?thesis by (simp add: problem_funds_orders_ready_for_collection_def runtime_chain_id_def)
qed

theorem enqueuer_routes_witness:
  "\<exists>d' c. enqueue_orders_for_collection sample_service (\<lambda>_. sample_collection_env 61 2) (\<lambda>_. sample_collection_env 62 2)
       137 0xA 0xBAD 10 sweep_db = (Ok 1, d') \<and> collections d' = [c] \<and> due_sweep sample_service sweep_db c"
proof -
  obtain r d1 where run: "create_collection_for_route (sample_collection_env 61 2) sample_service
      (paid_input \<lparr>pcw_order_id = 1, pcw_paid_amount_raw = 120\<rparr>) RouteTreasury sweep_db = (Ok r, d1)" and n: "length (collections d1) = 1"
    using sweep_db_queued by blast
  have q: "queues (queued_by sample_service RouteTreasury (paid_input \<lparr>pcw_order_id = 1, pcw_paid_amount_raw = 120\<rparr>) sweep_db) sweep_db d1"
    using route_queues[of sample_service RouteTreasury "paid_input \<lparr>pcw_order_id = 1, pcw_paid_amount_raw = 120\<rparr>" sweep_db
      "sample_collection_env 61 2"] by (simp add: run)
  have tick: "enqueue_orders_for_collection sample_service (\<lambda>_. sample_collection_env 61 2) (\<lambda>_. sample_collection_env 62 2)
       137 0xA 0xBAD 10 sweep_db = (Ok 1, d1)"
    by (simp add: enqueue_orders_for_collection_def enqueue_paid_orders_for_collection_def enqueue_problem_funds_orders_for_collection_def
        andThen_def read_candidates_def sweep_db_candidate run sweep_db_no_problem[OF q] answer_def)
  have "\<exists>new. collections d1 = collections sweep_db @ new \<and> (\<forall>c \<in> set new. due_sweep sample_service sweep_db c)"
    using enqueuer_routes[OF tick sweep_db_system] by (elim conjE)
  moreover have "collections sweep_db = []" by (simp add: sweep_db_def sample_db_def)
  ultimately obtain new where "collections d1 = new" "\<forall>c \<in> set new. due_sweep sample_service sweep_db c" by auto
  moreover obtain c where "collections d1 = [c]" using n by (cases "collections d1") auto
  ultimately show ?thesis using tick by auto
qed


section \<open>A sweep that failed\<close>

text \<open>
  A key is used once: a request whose key already has a collection of the order's owner, in
  whatever state, adds no row.  The problem funds pass names its requests by the order and the sum
  of its problem payments, so a sweep that failed is not queued again while that sum stays, though
  the order is still selected.
\<close>

lemma used_key_keeps:
  assumes "select_collection_by_idempotency_key (ccc_owner_sub c) (ccc_idempotency_key c) d = Ok (Some rec)"
    "create_collection_idempotent c d = Ok (rec', d')"
  shows "d' = d"
  using assms by (auto simp: create_collection_idempotent_def bindE_eq_Ok)

lemma failed_still_ready:
  assumes "problem_funds_ready chain token address (d\<lparr>collections := cs\<rparr>) r" "\<not> collection_active (col_status c)" "col_status c \<noteq> ColConfirmed"
  shows "problem_funds_ready chain token address (d\<lparr>collections := cs @ [c]\<rparr>) r"
  using assms by (auto simp: problem_funds_ready_def confirmed_problem_collections_def problem_payment_total_def)

end
