(* ===== verification/Spec2Isabelle.thy ===== *)
theory Spec2Isabelle
  imports Amount Hex_Types Order_Status Wallet Payment_Flow Repository_System Log_Store_Props Scanner_Liveness Order_Service_Props Manual_Verify_Props Collector_Props Api_Props Rpc_Props Enqueuer_Props
begin

text \<open>
  A verification development of pay3, a service that takes payments in ERC-20 tokens: a shop creates
  an order over HTTP, the service gives it a deposit address of its own, watches the chain for
  transfers to that address, decides from them what state the order is in, and sweeps the funds
  into a treasury.  The sources are the Rust crate under \<open>src/src\<close> and the SQL schema
  under \<open>src/src/db/migrations\<close>.

  \<^bold>\<open>The parts and how they interact.\<close>  Requests reach the API (\<open>api\<close>, \<open>error.rs\<close>), which lets the
  authentication (\<open>auth\<close>) accept or refuse them and calls the services: orders
  (\<open>services/orders.rs\<close>), manual verification (\<open>services/verify\<close>) and collections
  (\<open>services/collections.rs\<close>).  Beside them run workers: the transfer log scanner
  (\<open>transfer_log_store\<close>) fills a store of logs, the payment scanner (\<open>workers/scanner.rs\<close>)
  matches logs to orders (\<open>services/payments.rs\<close>, \<open>services/payment_windows.rs\<close>) and records them, the
  collector (\<open>workers/collector.rs\<close>) signs, sends, replaces and confirms sweep transactions.
  Services and workers share nothing but the database, reached through the repositories
  (\<open>db/repositories\<close>), and read the chain through the client of \<open>chain\<close>.  The rules they all apply
  are the domain types of \<open>domain\<close>.

  \<^bold>\<open>How the model is built.\<close>  Pure functions are HOL functions over the sources' types: machine
  integers and 256-bit amounts are words, addresses and hashes words with their hex texts,
  strings lists of bytes, results sums with the error on the left.  The database is a record of
  tables (\<open>Db_Tables\<close>); a repository operation is a function from the database to an error or to a
  result and a new database, so an error is a rolled back transaction.  Constraints of the schema are
  errors of the operation that meets them.  A worker or service is a program: it returns its
  result together with the database as it leaves it, because the transactions before an error stay
  committed (\<open>Worker_Steps\<close>).  Between two transactions of a program others may run; the system
  theorems quantify over all interleavings of commands.  Reads of the chain that the code makes at
  different moments are different arguments (records such as \<open>chain_source\<close>, \<open>verify_env\<close>,
  \<open>collector_env\<close>).  Third-party code is an argument of the definitions that call it: the
  \<open>jsonwebtoken\<close> library, HTTP answers, Keccak-256, the signer backends, serde's error texts, UUID
  generation and parsing, clocks.  Text is modelled where it decides something or reaches a client.

  \<^bold>\<open>Theories.\<close>
  \<^item> \<open>Pay3_Prelude\<close>, \<open>Pay3_Text\<close>: the result monad, checked and saturating arithmetic, lists of rows,
    decimal texts, trimming, big-endian bytes, the interface \<open>codec\<close> of a printer and its parser.
  \<^item> \<open>Amount\<close> (\<open>domain/amount.rs\<close>), \<open>Hex_Types\<close> (\<open>domain/address.rs\<close>), \<open>Order_Status\<close> (\<open>domain/order.rs\<close>,
    \<open>payment.rs\<close>, \<open>chain.rs\<close>, \<open>kv.rs\<close>), \<open>Wallet\<close> (\<open>domain/wallet.rs\<close>, \<open>wallet/mod.rs\<close>, types of
    \<open>signer/mod.rs\<close>), \<open>Chain_Types\<close> (\<open>chain/mod.rs\<close> with its in-memory client), \<open>Permit\<close>
    (\<open>domain/permit.rs\<close>): the domain layer.  Printers and parsers are inverse and accept exactly the
    intended texts; the status of an order is the specified function of its payments.
  \<^item> \<open>Db_Model\<close>, \<open>Db_Tables\<close>: records, statuses, errors and tables.  \<open>Payment_Repo\<close>, \<open>Order_Repo\<close>,
    \<open>Collection_Repo\<close>, \<open>Outbound_Repo\<close>, \<open>Audit_Repo\<close>: the repositories, one definition per query or
    transaction.
  \<^item> \<open>Payment_Ledger\<close>, \<open>Order_Ledger\<close>, \<open>Collection_Lifecycle\<close>, \<open>Repository_Tx\<close>, \<open>Repository_System\<close>: the
    invariants (\<open>schema_ok\<close>: keys and references; \<open>ledger_ok\<close>: every order's paid amount and status
    are what its payments justify; \<open>sweep_ok\<close>: a sweep and its transaction agree), the contract of a
    write transaction as a locale with one interpretation per operation, the abstract machine
    of a sweep, and the step relation of the whole system with its invariant \<open>system_ok\<close> and the
    order \<open>evolves\<close> of what may change.
  \<^item> \<open>Payment_Props\<close>, \<open>Order_Props\<close>, \<open>Collection_Props\<close>: the repositories operation by operation
    (compare-and-swap of the scan cursor, leases, idempotent creation, manual acceptance, retention).
  \<^item> \<open>Payment_Matching\<close>, \<open>Payment_Flow\<close>: the matcher equals a declarative selection, and a transfer to an
    order's address ends as its payment.  \<open>Log_Store\<close>, \<open>Log_Store_Props\<close>: polling stores exactly the
    chain's logs, rewinds reach the divergence, paging loses nothing.
  \<^item> \<open>Scanner\<close>, \<open>Scanner_Props\<close>, \<open>Scanner_Liveness\<close>: a committed batch records every transfer, only
    canonical payments are confirmed, reorganisations heal, ticks reach the head.
  \<^item> \<open>Order_Service\<close>, \<open>Manual_Verify\<close>, \<open>Collection_Service\<close>, \<open>Collector\<close> and their \<open>_Props\<close>: a request is
    served exactly once, a report agrees with the recorded payments, the calldata of a sweep, read
    back by the ABI, names the order's address, the destination and the amount and carries the
    order key's signature of them, replacements outbid and keep nonce and destination, a sweep is
    confirmed only when final, and all of them keep \<open>system_ok\<close>.  \<open>Enqueuer\<close>, \<open>Enqueuer_Props\<close> (\<open>runtime.rs\<close>): the automatic queueing
    sweeps only orders that are due, each to the address its state allows.
  \<^item> \<open>Auth\<close>, \<open>Rate_Limiter\<close>, \<open>Api\<close>, \<open>Api_Props\<close>: what an accepted token proves, that known keys survive an
    outage of the key server whatever refreshes other tasks try, no effect without a token, answers
    about the caller's own orders only.  The rate limiter is modelled operation by operation on its
    atomics: calls that do not overlap are counted exactly, and every interleaving of calls stays
    below the limit plus what the old minute had left.
  \<^item> \<open>Rpc\<close>, \<open>Rpc_Client\<close>, \<open>Rpc_Props\<close> (\<open>chain/rpc.rs\<close>): over nodes that serve a chain the client is the
    \<open>log_source\<close> that the scanner, the log store and verification rely on; one healthy node is
    enough; the head reported is exactly the oldest of the answers collected, and only when they agree.
    What a node owes is stated by reading the JSON filter of a query numerically.
  \<^item> This theory: the properties of the whole system from an installed database on.

  \<^bold>\<open>Interfaces.\<close>  \<open>codec\<close> (printers with parsers), \<open>log_source\<close> (a range query returns the canonical
  logs), the transaction contracts of \<open>Repository_Tx\<close>, \<open>Collection_Lifecycle\<close> and \<open>Repository_System\<close>,
  \<open>worker_program\<close> (a program is a run of commands) and \<open>guarded_handler\<close> (a handler runs its body for
  accepted principals only) are locales; every one is interpreted on the model's definitions.

  \<^bold>\<open>Termination and fuel.\<close>  Loops are structural or have a measure: the adaptive range query by the
  blocks left and the width, trimming by the length.  Paging takes as fuel one more than the number
  of stored logs, which is enough because every page but the last advances (shown with
  \<open>paging_reads_everything\<close>).  Nothing else has fuel.  Worker loops are modelled by their iteration.

  \<^bold>\<open>Not modelled.\<close>  Task scheduling, sleeping, shutdown, logging, metrics and the health and metrics routes
  (\<open>runtime.rs\<close>, \<open>main.rs\<close>, \<open>health.rs\<close>) are I/O around the modelled iterations; of \<open>runtime.rs\<close> the
  scanner's configuration and matcher and the queueing of sweeps are modelled.  \<open>config.rs\<close> reads environment variables into the
  configurations that are arguments here.  The signer backends \<open>signer/external.rs\<close> and
  \<open>signer/local.rs\<close> are HTTP calls and calls of a wallet library.  The SQL text is modelled by its
  effect on the tables; isolation is that of serialised transactions, row locks are implicit in
  that.  The multi-token router prefixes the modelled routes.  The API's handlers call the rate
  limiter without interruption; its interleavings are modelled in \<open>Rate_Limiter\<close>, with the atomics as
  sequentially consistent variables.
\<close>

section \<open>Installed databases\<close>

text \<open>A migrated and seeded database: wallet and scan cursors, treasuries and relayers, nothing else.\<close>

definition installed ::
  "wallet_cursor_row list \<Rightarrow> cursor_row list \<Rightarrow> (int \<times> EvmAddress \<times> EvmAddress) list \<Rightarrow> (int \<times> EvmAddress) list \<Rightarrow> timestamp \<Rightarrow> db"
  where
  "installed wallets cursors treasuries relayers t =
     \<lparr>wallet_cursors = wallets, child_accounts = [], orders = [], payment_windows = [], payments = [],
      chain_cursors = cursors, treasury_addresses = treasuries, relayer_addresses = relayers, collections = [],
      account_nonces = [], outbound_transactions = [], order_payment_overrides = [], audit_events = [], db_now = t\<rparr>"

lemma installed_ok:
  assumes "distinct (map cursor_key cursors)" "\<forall>c \<in> set cursors. cursor_ok c"
  shows "system_ok (installed wallets cursors treasuries relayers t)"
  using assms
  by (simp add: installed_def system_ok_def repo_ok_def schema_ok_def keys_ok_def payments_ok_def ledger_ok_def
      windows_ok_def sweep_ok_def one_active_per_nonce_def one_active_per_child_def treasury_only_def)

lemma one_command: "system_step\<^sup>*\<^sup>* d (execute c d)"
  by (rule r_into_rtranclp) (rule system_step.command)


section \<open>Properties of the whole system\<close>

text \<open>
  C2: in every state that any sequence of repository commands and clock ticks reaches from an
  installed database, failed commands included, each order's paid amount and status are
  exactly what its payments and manual acceptances justify, a child account has at most one
  active sweep, a nonce at most one live transaction, and every sweep that has left the
  queue is tied to one transaction on its chain that pays the sweep's recipient, a registered
  treasury, and agrees with it on the outcome.
\<close>
theorem ledger_and_sweeps_invariant:
  assumes "system_step\<^sup>*\<^sup>* (installed wallets cursors treasuries relayers t) d"
    "distinct (map cursor_key cursors)" "\<forall>c \<in> set cursors. cursor_ok c"
  shows "(\<forall>ord \<in> set (orders d). order_settled d ord) \<and>
    one_active_per_child (collections d) \<and> one_active_per_nonce (outbound_transactions d) \<and>
    (\<forall>r \<in> set (collections d). lifecycle_row d r \<and>
       (col_chain_id r, col_token_address r, col_to_address r) \<in> set (treasury_addresses d))"
proof -
  have "system_ok d" using reachable_evolves[OF assms(1) installed_ok[OF assms(2,3)]] by blast
  then show ?thesis
    by (simp add: system_ok_def repo_ok_def ledger_ok_def sweep_ok_def treasury_only_def)
qed

definition sample_wallet :: wallet_cursor_row where
  "sample_wallet = \<lparr>wc_id = ''default'', wc_signer_key_ref = ''root'', wc_derivation_version = 1, wc_account_index = 0,
     wc_change_index = 0, wc_next_address_index = 7\<rparr>"

definition fresh_db :: db where
  "fresh_db = installed [sample_wallet] [sample_cursor] [(137, 0xA, 0x7EA)] [] 20"

lemma sample_cursor_ok: "cursor_ok sample_cursor"
  by (simp add: cursor_ok_def sample_cursor_def)

lemma fresh_creation:
  "\<exists>rec d'. create_order_idempotent (sample_create ''h1'') fresh_db = Ok (Created rec, d') \<and> length (orders d') = 1"
proof -
  have path: "validate_create_order_command (sample_create h) = Ok ()" for h
    using trim_visible_ends[of "''alice''"]
    by (simp add: validate_create_order_command_def sample_create_def visible_def Let_def)
  show ?thesis
    unfolding create_order_idempotent_def insert_order_tx_def path bindE_Ok
    using big_decimal_numeral[of 50] big_decimal_numeral[of 0]
    by (simp add: order_eval sample_create_def fresh_db_def installed_def sample_cursor_def
        insert_child_account_def insert_order_def insert_window_def row_to_order_record_def sample_segment_def
        raw_amount_to_numeric_def child_derivation_key_def)
qed

theorem ledger_and_sweeps_invariant_witness:
  "\<exists>d. system_step\<^sup>*\<^sup>* fresh_db d \<and> d = execute (CreateOrder (sample_create ''h1'')) fresh_db \<and> length (orders d) = 1 \<and>
     (\<forall>ord \<in> set (orders d). order_settled d ord)"
proof -
  let ?d = "execute (CreateOrder (sample_create ''h1'')) fresh_db"
  have run: "system_step\<^sup>*\<^sup>* (installed [sample_wallet] [sample_cursor] [(137, 0xA, 0x7EA)] [] 20) ?d"
    unfolding fresh_db_def by (rule one_command)
  have "\<forall>ord \<in> set (orders ?d). order_settled ?d ord"
    by (rule conjunct1[OF ledger_and_sweeps_invariant[OF run]]) (simp_all add: sample_cursor_ok)
  moreover have "length (orders ?d) = 1" using fresh_creation by (auto simp: state_after_def)
  ultimately show ?thesis using one_command by blast
qed

text \<open>
  C31: nothing that identifies an order is ever lost or rewritten.  An order that exists in some
  state exists in every later state with the same id, owner, external id, address, chain,
  token, expected amount and deadlines, its paid amount and status still exact.
\<close>
theorem orders_persist:
  assumes "system_step\<^sup>*\<^sup>* d d'" "system_ok d" "ord \<in> set (orders d)"
  shows "\<exists>ord' \<in> set (orders d'). order_identity ord' = order_identity ord \<and> order_settled d' ord'"
proof -
  have ev: "system_ok d'" "evolves d d'" using reachable_evolves[OF assms(1,2)] by blast+
  then have "set (map order_identity (orders d)) \<subseteq> set (map order_identity (orders d'))"
    by (intro set_mono_prefix) (simp add: evolves_def grows_def)
  then obtain ord' where "ord' \<in> set (orders d')" "order_identity ord' = order_identity ord"
    using assms(3) by (fastforce simp: image_iff)
  moreover have "order_settled d' ord'" using ev(1) calculation(1) by (simp add: system_ok_def repo_ok_def ledger_ok_def)
  ultimately show ?thesis by blast
qed

theorem orders_persist_witness:
  "sample_order\<lparr>o_status := Paid, o_paid_amount_raw := 120\<rparr> \<in> set (orders attached_db) \<and>
   (\<exists>ord' \<in> set (orders (execute (HandleReorg 40 137 0xA 1 5) attached_db)). o_id ord' = 1 \<and>
      order_settled (execute (HandleReorg 40 137 0xA 1 5) attached_db) ord')"
proof -
  have mem: "sample_order\<lparr>o_status := Paid, o_paid_amount_raw := 120\<rparr> \<in> set (orders attached_db)"
    by (simp add: attached_db_def sweep_db_def)
  from orders_persist[OF one_command attached_system mem, of "HandleReorg 40 137 0xA 1 5"] mem
  show ?thesis by (auto simp: order_identity_def sample_order_def)
qed

text \<open>
  C28: along every run a sweep follows the abstract machine of its life cycle: it is never
  lost, its order, parties and amount stay what they were, its status moves only
  along the machine's transitions and stays tied to its transaction, and a confirmed sweep
  stays confirmed.
\<close>
theorem sweeps_refine_machine:
  assumes "system_step\<^sup>*\<^sup>* d d'" "system_ok d" "r \<in> set (collections d)"
  shows "\<exists>r' \<in> set (collections d'). collection_identity r' = collection_identity r \<and>
    collection_step\<^sup>*\<^sup>* (col_status r) (col_status r') \<and> (\<forall>a. col_amount_raw r = Some a \<longrightarrow> col_amount_raw r' = Some a) \<and>
    lifecycle_row d' r' \<and> (col_status r = ColConfirmed \<longrightarrow> col_status r' = ColConfirmed)"
proof -
  have ev: "system_ok d'" "evolves d d'" using reachable_evolves[OF assms(1,2)] by blast+
  then obtain r' where r': "r' \<in> set (collections d')" "follows r r'" using assms(3) unfolding evolves_def by blast
  moreover have "lifecycle_row d' r'" using ev(1) r'(1) by (simp add: system_ok_def sweep_ok_def)
  ultimately show ?thesis using confirmed_is_final unfolding follows_def by metis
qed

theorem sweeps_refine_machine_witness:
  "\<exists>r \<in> set (collections attached_db). col_status r = ColTransferring \<and>
     (\<exists>r' \<in> set (collections (execute (MarkBroadcast 71) attached_db)). col_id r' = col_id r \<and>
        collection_step\<^sup>*\<^sup>* ColTransferring (col_status r'))"
proof -
  let ?r = "(new_collection_row sample_sweep 137 20)\<lparr>col_status := ColTransferring, col_outbound_tx_id := Some 71\<rparr>"
  have mem: "?r \<in> set (collections attached_db)" by (simp add: attached_db_def)
  from sweeps_refine_machine[OF one_command attached_system mem, of "MarkBroadcast 71"] mem
  show ?thesis by (intro bexI[of _ ?r]) (auto simp: collection_identity_def)
qed

text \<open>
  C29: a nonce is never handed out twice.  Of two reservations for one account, with any other
  commands in between, the later one returns a larger nonce, and each at least the pending
  count the chain reported for it.
\<close>
theorem nonces_never_reused:
  assumes "reserve_nonce chain_id a pending d = Ok (Ok first, d1)" "system_ok d" "system_step\<^sup>*\<^sup>* d1 d2"
    "reserve_nonce chain_id a pending' d2 = Ok (Ok second, d3)"
  shows "rn_nonce first < rn_nonce second \<and> pending \<le> rn_nonce first \<and> pending' \<le> rn_nonce second"
proof -
  obtain n where n: "next_nonce (uint chain_id) a d1 = Some (n + 1)" "uint pending \<le> n" "uint (rn_nonce first) = n"
    using assms(1) by (rule reserve_nonce_effect) blast
  obtain m where m: "\<And>k. next_nonce (uint chain_id) a d2 = Some k \<Longrightarrow> k \<le> m" "uint pending' \<le> m" "uint (rn_nonce second) = m"
    using assms(4) by (rule reserve_nonce_effect) blast
  have "d1 = execute (ReserveNonce chain_id a pending) d" by (simp add: assms(1) state_after_def)
  then have "system_ok d1" using execute_step[OF assms(2)] by metis
  then have "evolves d1 d2" using reachable_evolves[OF assms(3)] by blast
  then obtain k where "n + 1 \<le> k" "next_nonce (uint chain_id) a d2 = Some k" using n(1) unfolding evolves_def by blast
  then show ?thesis using n m by (auto simp: word_less_def word_le_def)
qed

theorem nonces_never_reused_witness:
  "\<exists>x d1 y d3. reserve_nonce 137 0xB0B 4 attached_db = Ok (Ok x, d1) \<and> rn_nonce x = 4 \<and>
     reserve_nonce 137 0xB0B 2 d1 = Ok (Ok y, d3) \<and> rn_nonce x < rn_nonce y"
proof -
  have "\<exists>x d1. reserve_nonce 137 0xB0B 4 attached_db = Ok (Ok x, d1) \<and> rn_nonce x = 4 \<and>
      (\<exists>y d3. reserve_nonce 137 0xB0B 2 d1 = Ok (Ok y, d3))"
    by (simp add: reserve_nonce_def ord_u64_to_i64_def nonce_key_def fits_numeric_def raw_amount_to_numeric_def
        decimal_to_raw_amount_eval update_where_def attached_db_def sweep_db_def sample_db_def)
  then obtain x d1 y d3 where run: "reserve_nonce 137 0xB0B 4 attached_db = Ok (Ok x, d1)" "rn_nonce x = 4"
    "reserve_nonce 137 0xB0B 2 d1 = Ok (Ok y, d3)" by blast
  from nonces_never_reused[OF run(1) attached_system rtranclp.rtrancl_refl run(3)] run show ?thesis by blast
qed

text \<open>
  C30: no receive address is derived twice.  Two allocations from one wallet cursor, with any
  other commands in between, return different derivation paths, the later one further
  along the wallet, and both valid.
\<close>
theorem derivations_never_reused:
  assumes "allocate_derivation_segment cid d = Ok (a, d1)" "system_ok d" "system_step\<^sup>*\<^sup>* d1 d2"
    "allocate_derivation_segment cid d2 = Ok (b, d3)"
  shows "segment_position (ad_segment a) < segment_position (ad_segment b) \<and>
    ad_derivation_path a \<noteq> ad_derivation_path b \<and>
    validate_derivation_path (ad_derivation_path a) = Ok () \<and> validate_derivation_path (ad_derivation_path b) = Ok ()"
proof -
  note pos = allocate_advances[OF assms(1)] allocate_advances[OF assms(4)]
  have path: "ad_derivation_path x = derivation_path (ad_segment x)"
    if "allocate_derivation_segment cid e = Ok (x, e')" for x e e'
    using that by (rule allocate_derivation_segment_Ok)
  have "d1 = execute (AllocateSegment cid) d" by (simp add: assms(1) state_after_def)
  then have "system_ok d1" using execute_step[OF assms(2)] by metis
  then have "evolves d1 d2" using reachable_evolves[OF assms(3)] by blast
  then have "rel_option (\<le>) (cursor_position cid d1) (cursor_position cid d2)" by (simp add: evolves_def grows_def)
  then have less: "segment_position (ad_segment a) < segment_position (ad_segment b)" using pos by simp
  then have "ad_segment a \<noteq> ad_segment b" by auto
  with less show ?thesis
    using pos by (simp add: path[OF assms(1)] path[OF assms(4)] derivation_path_inject validate_segment_path)
qed

lemma fresh_allocation: "\<exists>a d1 b d2. allocate_derivation_segment ''default'' fresh_db = Ok (a, d1) \<and>
     allocate_derivation_segment ''default'' d1 = Ok (b, d2)"
  by (simp add: allocate_derivation_segment_def fresh_db_def installed_def sample_wallet_def order_eval
      segment_new_def segment_next_def validate_index_def MAX_DERIVATION_INDEX_def take_current_and_advance_def update_where_def)

theorem derivations_never_reused_witness:
  "\<exists>a d1 b d2. allocate_derivation_segment ''default'' fresh_db = Ok (a, d1) \<and>
     allocate_derivation_segment ''default'' d1 = Ok (b, d2) \<and> ad_derivation_path a \<noteq> ad_derivation_path b"
proof -
  obtain a d1 b d2 where run: "allocate_derivation_segment ''default'' fresh_db = Ok (a, d1)"
    "allocate_derivation_segment ''default'' d1 = Ok (b, d2)" using fresh_allocation by blast
  have "system_ok fresh_db" unfolding fresh_db_def by (rule installed_ok) (simp_all add: sample_cursor_ok)
  from derivations_never_reused[OF run(1) this rtranclp.rtrancl_refl run(2)] run show ?thesis by blast
qed

end
